(* ===== verification/Prelude.thy ===== *)
theory Prelude
  imports Main "HOL-Library.Word" "HOL-Library.Monad_Syntax"
begin

text \<open>
  Shared vocabulary of the development: the C integer types, the errno values, byte slices,
  the little-endian layout of integers in memory, NUL-terminated strings, and the contract
  of a fixed-width encoding (locale \<open>byte_codec\<close>) that every on-disk structure of a BOF
  file satisfies.

  A computation whose C source dereferences NULL, reads or writes outside an object, or calls
  a NULL function pointer has no defined result. Such a computation returns \<^const>\<open>None\<close> of
  an option type throughout; \<^const>\<open>Some\<close> carries the C return value and the new state.
\<close>

unbundle bit_operations_syntax

type_synonym u8 = "8 word"
type_synonym u16 = "16 word"
type_synonym u32 = "32 word"

named_theorems layout_simps \<open>sizes and offsets of the BOF structures\<close>
named_theorems codec_simps \<open>decoding what was encoded\<close>

section \<open>errno values\<close>

abbreviation (input) ENOENT :: int where "ENOENT \<equiv> 2"
abbreviation (input) EIO :: int where "EIO \<equiv> 5"
abbreviation (input) ENOEXEC :: int where "ENOEXEC \<equiv> 8"
abbreviation (input) ENOMEM :: int where "ENOMEM \<equiv> 12"
abbreviation (input) EFAULT :: int where "EFAULT \<equiv> 14"
abbreviation (input) EBUSY :: int where "EBUSY \<equiv> 16"
abbreviation (input) EINVAL :: int where "EINVAL \<equiv> 22"
abbreviation (input) ESPIPE :: int where "ESPIPE \<equiv> 29"

text \<open>The page size of the ARM kernel, and the size of a cached read of an executable's head.\<close>

abbreviation (input) PAGE_SIZE :: nat where "PAGE_SIZE \<equiv> 4096"
abbreviation (input) BINPRM_BUF_SIZE :: nat where "BINPRM_BUF_SIZE \<equiv> 128"

section \<open>C integer conversions\<close>

text \<open>Conversion of an integer value to \<open>uint32_t\<close> and to a 32-bit two's complement \<open>int\<close>.\<close>

definition to_u32 :: "int \<Rightarrow> int" where
  "to_u32 x = x mod 2 ^ 32"

definition to_s32 :: "int \<Rightarrow> int" where
  "to_s32 x = (x + 2 ^ 31) mod 2 ^ 32 - 2 ^ 31"

section \<open>Slices of memory\<close>

definition chunk :: "nat \<Rightarrow> nat \<Rightarrow> 'a list \<Rightarrow> 'a list" where
  "chunk off n bs = take n (drop off bs)"

text \<open>Copying \<open>new\<close> over the front of the object \<open>old\<close>: what a short read leaves behind.\<close>

definition overlay :: "'a list \<Rightarrow> 'a list \<Rightarrow> 'a list" where
  "overlay new old = new @ drop (length new) old"

text \<open>The C string at an offset of an object; \<^const>\<open>None\<close> when no NUL ends it inside the object.\<close>

definition cstr :: "u8 list \<Rightarrow> nat \<Rightarrow> u8 list option" where
  "cstr bs off =
     (if 0 \<in> set (drop off bs) then Some (takeWhile (\<lambda>b. b \<noteq> 0) (drop off bs)) else None)"

definition bytes_of :: "string \<Rightarrow> u8 list" where
  "bytes_of s = map (\<lambda>c. of_nat (of_char c)) s"

text \<open>Decimal digits and the value of a string of digits.\<close>

definition isdigit_c :: "u8 \<Rightarrow> bool" where
  "isdigit_c c \<longleftrightarrow> 48 \<le> c \<and> c \<le> 57"

definition dec_value :: "u8 list \<Rightarrow> nat" where
  "dec_value ds = foldl (\<lambda>v d. v * 10 + (unat d - 48)) 0 ds"

text \<open>Indexing a C array: \<^const>\<open>None\<close> outside the array.\<close>

definition arr_get :: "'a list \<Rightarrow> nat \<Rightarrow> 'a option" where
  "arr_get xs i = (if i < length xs then Some (xs ! i) else None)"

definition arr_set :: "'a list \<Rightarrow> nat \<Rightarrow> 'a \<Rightarrow> 'a list option" where
  "arr_set xs i v = (if i < length xs then Some (xs[i := v]) else None)"

text \<open>
  An open file is what \<open>kernel_read\<close> makes of it: the return value and the bytes stored for an
  offset and a count. A regular file without I/O errors returns the bytes there are.
\<close>

type_synonym kfile = "nat \<Rightarrow> nat \<Rightarrow> int \<times> u8 list"

definition regular_file :: "u8 list \<Rightarrow> kfile" where
  "regular_file contents off n = (int (length (chunk off n contents)), chunk off n contents)"

section \<open>Integers in little-endian memory\<close>

definition enc16 :: "u16 \<Rightarrow> u8 list" where
  "enc16 w = [ucast w, ucast (drop_bit 8 w)]"

definition enc32 :: "u32 \<Rightarrow> u8 list" where
  "enc32 w = [ucast w, ucast (drop_bit 8 w), ucast (drop_bit 16 w), ucast (drop_bit 24 w)]"

fun dec16 :: "u8 list \<Rightarrow> u16" where
  "dec16 [a, b] = ucast a OR push_bit 8 (ucast b)"
| "dec16 _ = 0"

fun dec32 :: "u8 list \<Rightarrow> u32" where
  "dec32 [a, b, c, d] =
     ucast a OR push_bit 8 (ucast b) OR push_bit 16 (ucast c) OR push_bit 24 (ucast d)"
| "dec32 _ = 0"

section \<open>Bit positions of a byte\<close>

lemma less_6: "(b::nat) < 6 \<longleftrightarrow> b = 0 \<or> b = 1 \<or> b = 2 \<or> b = 3 \<or> b = 4 \<or> b = 5"
  by arith

lemma less_7: "(k::nat) < 7 \<longleftrightarrow> k = 0 \<or> k = 1 \<or> k = 2 \<or> k = 3 \<or> k = 4 \<or> k = 5 \<or> k = 6"
  by arith

lemma less_8: "(n :: nat) < 8 \<longleftrightarrow> n = 0 \<or> n = 1 \<or> n = 2 \<or> n = 3 \<or> n = 4 \<or> n = 5 \<or> n = 6 \<or> n = 7"
  by linarith

section \<open>Lemmas on slices\<close>

lemma length_chunk [simp]: "length (chunk off n bs) = min n (length bs - off)"
  by (simp add: chunk_def)

lemma chunk_append_right:
  "length xs \<le> off \<Longrightarrow> chunk off n (xs @ ys) = chunk (off - length xs) n ys"
  by (simp add: chunk_def)

lemma chunk_append_exact: "off = length xs \<Longrightarrow> n = length ys \<Longrightarrow> chunk off n (xs @ ys @ zs) = ys"
  by (simp add: chunk_def)

lemma chunk_append_left:
  "off + n \<le> length xs \<Longrightarrow> chunk off n (xs @ ys) = chunk off n xs"
  by (simp add: chunk_def)

lemma chunk_0_all [simp]: "length xs \<le> n \<Longrightarrow> chunk 0 n xs = xs"
  by (simp add: chunk_def)

lemma chunk_0_append: "n = length xs \<Longrightarrow> chunk 0 n (xs @ ys) = xs"
  by (simp add: chunk_def)

lemma chunk_chunk: "i + m \<le> n \<Longrightarrow> chunk i m (chunk off n bs) = chunk (off + i) m bs"
  by (simp add: chunk_def drop_take add.commute min_def)

lemma overlay_full [simp]: "length old \<le> length new \<Longrightarrow> overlay new old = new"
  by (simp add: overlay_def)

lemma length_overlay [simp]: "length (overlay new old) = max (length new) (length old)"
  by (simp add: overlay_def)

lemma chunk_split: "chunk off (m + n) bs = chunk off m bs @ chunk (off + m) n bs"
  by (simp add: chunk_def take_add add.commute)

text \<open>Adjacent chunks join; the second form keeps a right-nested concatenation in shape.\<close>

lemma chunk_join:
  "off' = off + m \<Longrightarrow> chunk off m bs @ chunk off' n bs = chunk off (m + n) bs"
  "off' = off + m \<Longrightarrow> chunk off m bs @ chunk off' n bs @ zs = chunk off (m + n) bs @ zs"
  by (simp_all add: chunk_split)

section \<open>C strings in a string table\<close>

lemma cstr_append:
  assumes "0 \<notin> set s"
  shows "cstr (pre @ s @ 0 # post) (length pre) = Some s"
proof -
  have "takeWhile (\<lambda>b. b \<noteq> 0) (s @ 0 # post) = s"
    using assms by (subst takeWhile_append2) auto
  then show ?thesis by (simp add: cstr_def)
qed

text \<open>A string table is the concatenation of its strings, each closed by a NUL.\<close>

definition strtab_of :: "u8 list list \<Rightarrow> u8 list" where
  "strtab_of names = concat (map (\<lambda>n. n @ [0]) names)"

definition strtab_off :: "u8 list list \<Rightarrow> nat \<Rightarrow> nat" where
  "strtab_off names i = length (strtab_of (take i names))"

lemma strtab_of_simps [simp]:
  "strtab_of [] = []" "strtab_of (n # ns) = n @ 0 # strtab_of ns"
  "strtab_of (ms @ ns) = strtab_of ms @ strtab_of ns"
  by (simp_all add: strtab_of_def)

lemma strtab_lookup:
  assumes "i < length names" and "\<forall>n \<in> set names. 0 \<notin> set n"
  shows "cstr (strtab_of names) (strtab_off names i) = Some (names ! i)"
proof -
  have split: "names = take i names @ names ! i # drop (Suc i) names"
    using assms(1) by (rule id_take_nth_drop)
  have "strtab_of names =
      strtab_of (take i names) @ (names ! i) @ 0 # strtab_of (drop (Suc i) names)"
    by (subst split) simp
  moreover have "0 \<notin> set (names ! i)"
    using assms by simp
  ultimately show ?thesis
    by (simp add: strtab_off_def cstr_append)
qed

lemma length_strtab_of: "length (strtab_of names) = (\<Sum>n\<leftarrow>names. Suc (length n))"
  by (induction names) auto

section \<open>Fixed-width encodings\<close>

text \<open>
  \<open>ok\<close> holds of the values a C object of the type can have (an array member of the right
  length, say); on these, encoding and decoding are inverse to each other.
\<close>

locale byte_codec =
  fixes enc :: "'a \<Rightarrow> u8 list"
    and dec :: "u8 list \<Rightarrow> 'a"
    and ok :: "'a \<Rightarrow> bool"
    and width :: nat
  assumes enc_width: "ok x \<Longrightarrow> length (enc x) = width"
    and dec_enc: "ok x \<Longrightarrow> dec (enc x) = x"
    and ok_dec: "length bs = width \<Longrightarrow> ok (dec bs)"
    and enc_dec: "length bs = width \<Longrightarrow> enc (dec bs) = bs"
begin

lemma enc_inject: "ok x \<Longrightarrow> ok y \<Longrightarrow> enc x = enc y \<longleftrightarrow> x = y"
  by (metis dec_enc)

lemma dec_at:
  "ok x \<Longrightarrow> off = length pre \<Longrightarrow> dec (chunk off width (pre @ enc x @ post)) = x"
  by (simp add: chunk_append_exact enc_width dec_enc)

lemma dec_at_0: "ok x \<Longrightarrow> dec (chunk 0 width (enc x @ post)) = x"
  using dec_at [of x 0 "[]"] by simp

lemma length_concat_enc:
  "list_all ok xs \<Longrightarrow> length (concat (map enc xs)) = length xs * width"
  by (induction xs) (auto simp: enc_width)

lemma dec_nth:
  assumes "i < length xs" and "list_all ok xs"
  shows "dec (chunk (length pre + i * width) width (pre @ concat (map enc xs) @ post)) = xs ! i"
proof -
  have "concat (map enc xs) =
      concat (map enc (take i xs)) @ enc (xs ! i) @ concat (map enc (drop (Suc i) xs))"
    by (subst id_take_nth_drop [OF assms(1)]) simp
  then have "pre @ concat (map enc xs) @ post =
      (pre @ concat (map enc (take i xs))) @ enc (xs ! i) @
        (concat (map enc (drop (Suc i) xs)) @ post)"
    by simp
  moreover have "list_all ok (take i xs)" and "ok (xs ! i)"
    using assms by (auto simp: list_all_iff dest: in_set_takeD)
  then have "length pre + i * width = length (pre @ concat (map enc (take i xs)))"
    using assms(1) by (simp add: length_concat_enc)
  ultimately show ?thesis
    using dec_at [OF \<open>ok (xs ! i)\<close>] by metis
qed

lemma dec_bij: "bij_betw dec {bs. length bs = width} (Collect ok)"
  by (rule bij_betw_byWitness [where f' = enc]) (auto simp: enc_width dec_enc ok_dec enc_dec)

end

lemma u8_no_high_bit [simp]:
  "\<not> bit (a :: u8) (8 + n)" "\<not> bit (a :: u8) (16 + n)" "\<not> bit (a :: u8) (24 + n)"
  by (auto dest: bit_imp_le_length)

lemma length_enc16: "length (enc16 v) = 2" and length_enc32: "length (enc32 w) = 4"
  by (simp_all add: enc16_def enc32_def)

lemma dec16_enc16: "dec16 (enc16 w) = w"
  by (rule bit_word_eqI) (auto simp: enc16_def bit_simps)

lemma enc16_dec16: "length bs = 2 \<Longrightarrow> enc16 (dec16 bs) = bs"
  by (cases bs rule: dec16.cases) (auto simp: enc16_def bit_simps intro!: bit_word_eqI)

lemma dec32_enc32: "dec32 (enc32 w) = w"
proof (rule bit_word_eqI)
  fix n assume "n < LENGTH(32)"
  then have "n < 32" by simp
  then consider "n < 8" | "8 \<le> n" "n < 16" | "16 \<le> n" "n < 24" | "24 \<le> n" "n < 32"
    by linarith
  then show "bit (dec32 (enc32 w)) n = bit w n"
    by cases (auto simp: enc32_def bit_simps)
qed

lemma enc32_dec32: "length bs = 4 \<Longrightarrow> enc32 (dec32 bs) = bs"
  by (cases bs rule: dec32.cases) (auto simp: enc32_def bit_simps intro!: bit_word_eqI)

interpretation u16c: byte_codec enc16 dec16 "\<lambda>_. True" 2
  by unfold_locales (simp_all add: length_enc16 dec16_enc16 enc16_dec16)

interpretation u32c: byte_codec enc32 dec32 "\<lambda>_. True" 4
  by unfold_locales (simp_all add: length_enc32 dec32_enc32 enc32_dec32)

lemmas u16c_len [layout_simps] = u16c.enc_width [OF TrueI]
lemmas u32c_len [layout_simps] = u32c.enc_width [OF TrueI]
lemmas u16c_dec [codec_simps] = u16c.dec_enc [OF TrueI]
lemmas u32c_dec [codec_simps] = u32c.dec_enc [OF TrueI]

end
