(* ===== verification/Bof.thy ===== *)
theory Bof
  imports Prelude
begin

text \<open>
  The BORPH object file format (\<open>src/borph/include/linux/bof.h\<close>): the main header
  \<open>struct bofhdr\<close>, the header \<open>struct hwrhdr\<close> of a hardware region and the symbol entry
  \<open>struct bofioreg\<close>. The structures contain no padding, so reading one from a buffer by
  a cast of the buffer's address is decoding consecutive little-endian fields. Each codec is an
  instance of \<open>byte_codec\<close>.
\<close>

section \<open>The structures\<close>

record hwr_addr =
  hwa_class :: u16
  hwa_addr :: u16

record bofhdr =
  ident :: "u8 list"
  b_version :: u32
  b_machine :: u16
  b_elfmachine :: u16
  b_numchip :: u32
  b_elfoff :: u32
  b_hwoff :: u32
  load_err :: u32
  b_ekver :: u32
  pad :: "u32 \<times> u32"

record hwrhdr =
  hflag :: u32
  haddr :: hwr_addr
  pl_off :: u32
  pl_len :: u32
  nr_symbol :: u32
  hstrtab_off :: u32
  next_hwr :: u32

record bofioreg =
  ior_name :: u16
  ior_mode :: u16
  ior_loc :: u32
  ior_len :: u32

text \<open>Values of \<open>b_machine\<close>, of \<open>hwr_addr.class\<close>, of the region flags and of the register modes.\<close>

abbreviation (input) BI_ENDIAN :: nat where "BI_ENDIAN \<equiv> 5"
abbreviation (input) BOFDATA2LSB :: u8 where "BOFDATA2LSB \<equiv> 1"
abbreviation (input) BOFDATA2MSB :: u8 where "BOFDATA2MSB \<equiv> 2"

abbreviation (input) BM_BEE2 :: u16 where "BM_BEE2 \<equiv> 2"
abbreviation (input) BM_ROACH :: u16 where "BM_ROACH \<equiv> 3"
abbreviation (input) BM_NETFPGA :: u16 where "BM_NETFPGA \<equiv> 4"
abbreviation (input) BM_RHINO :: u16 where "BM_RHINO \<equiv> 5"
abbreviation (input) BM_MOLERAD :: u16 where "BM_MOLERAD \<equiv> 6"

abbreviation (input) HAC_BEE2FPGA :: u16 where "HAC_BEE2FPGA \<equiv> 1"
abbreviation (input) HAC_PRMOD :: u16 where "HAC_PRMOD \<equiv> 2"
abbreviation (input) HAC_ROACHV5 :: u16 where "HAC_ROACHV5 \<equiv> 3"
abbreviation (input) HAC_NETFPGA :: u16 where "HAC_NETFPGA \<equiv> 4"
abbreviation (input) HAC_RHINO :: u16 where "HAC_RHINO \<equiv> 5"
abbreviation (input) HAC_MOLERAD :: u16 where "HAC_MOLERAD \<equiv> 6"

abbreviation (input) HFG_PLACED :: u32 where "HFG_PLACED \<equiv> 1"
abbreviation (input) HFG_NOCONFIG :: u32 where "HFG_NOCONFIG \<equiv> 2"

abbreviation (input) IORM_READ :: u32 where "IORM_READ \<equiv> 1"
abbreviation (input) IORM_WRITE :: u32 where "IORM_WRITE \<equiv> 2"
abbreviation (input) IORM_PIPE :: u32 where "IORM_PIPE \<equiv> 4"

text \<open>\<open>sizeof\<close> of the structures; an ELF32 header has the size of \<open>bofhdr\<close>.\<close>

abbreviation (input) sizeof_bofhdr :: nat where "sizeof_bofhdr \<equiv> 52"
abbreviation (input) sizeof_hwrhdr :: nat where "sizeof_hwrhdr \<equiv> 28"
abbreviation (input) sizeof_bofioreg :: nat where "sizeof_bofioreg \<equiv> 12"
abbreviation (input) sizeof_Elf32_Ehdr :: nat where "sizeof_Elf32_Ehdr \<equiv> 52"

section \<open>Their images in memory\<close>

definition enc_hwr_addr :: "hwr_addr \<Rightarrow> u8 list" where
  "enc_hwr_addr a = enc16 (hwa_class a) @ enc16 (hwa_addr a)"

definition dec_hwr_addr :: "u8 list \<Rightarrow> hwr_addr" where
  "dec_hwr_addr bs = \<lparr>hwa_class = dec16 (chunk 0 2 bs), hwa_addr = dec16 (chunk 2 2 bs)\<rparr>"

definition enc_bofhdr :: "bofhdr \<Rightarrow> u8 list" where
  "enc_bofhdr h = ident h @ enc32 (b_version h) @ enc16 (b_machine h) @ enc16 (b_elfmachine h)
     @ enc32 (b_numchip h) @ enc32 (b_elfoff h) @ enc32 (b_hwoff h) @ enc32 (load_err h)
     @ enc32 (b_ekver h) @ enc32 (fst (pad h)) @ enc32 (snd (pad h))"

definition dec_bofhdr :: "u8 list \<Rightarrow> bofhdr" where
  "dec_bofhdr bs =
     \<lparr>ident = chunk 0 16 bs, b_version = dec32 (chunk 16 4 bs),
      b_machine = dec16 (chunk 20 2 bs), b_elfmachine = dec16 (chunk 22 2 bs),
      b_numchip = dec32 (chunk 24 4 bs), b_elfoff = dec32 (chunk 28 4 bs),
      b_hwoff = dec32 (chunk 32 4 bs), load_err = dec32 (chunk 36 4 bs),
      b_ekver = dec32 (chunk 40 4 bs),
      pad = (dec32 (chunk 44 4 bs), dec32 (chunk 48 4 bs))\<rparr>"

definition ok_bofhdr :: "bofhdr \<Rightarrow> bool" where
  "ok_bofhdr h \<longleftrightarrow> length (ident h) = 16"

definition enc_hwrhdr :: "hwrhdr \<Rightarrow> u8 list" where
  "enc_hwrhdr h = enc32 (hflag h) @ enc_hwr_addr (haddr h) @ enc32 (pl_off h) @ enc32 (pl_len h)
     @ enc32 (nr_symbol h) @ enc32 (hstrtab_off h) @ enc32 (next_hwr h)"

definition dec_hwrhdr :: "u8 list \<Rightarrow> hwrhdr" where
  "dec_hwrhdr bs =
     \<lparr>hflag = dec32 (chunk 0 4 bs), haddr = dec_hwr_addr (chunk 4 4 bs),
      pl_off = dec32 (chunk 8 4 bs), pl_len = dec32 (chunk 12 4 bs),
      nr_symbol = dec32 (chunk 16 4 bs), hstrtab_off = dec32 (chunk 20 4 bs),
      next_hwr = dec32 (chunk 24 4 bs)\<rparr>"

definition enc_bofioreg :: "bofioreg \<Rightarrow> u8 list" where
  "enc_bofioreg r = enc16 (ior_name r) @ enc16 (ior_mode r) @ enc32 (ior_loc r) @ enc32 (ior_len r)"

definition dec_bofioreg :: "u8 list \<Rightarrow> bofioreg" where
  "dec_bofioreg bs =
     \<lparr>ior_name = dec16 (chunk 0 2 bs), ior_mode = dec16 (chunk 2 2 bs),
      ior_loc = dec32 (chunk 4 4 bs), ior_len = dec32 (chunk 8 4 bs)\<rparr>"

section \<open>The codecs are instances of the fixed-width contract\<close>

lemmas field_at = chunk_append_right chunk_0_append layout_simps codec_simps

lemma length_enc_hwr_addr [layout_simps]: "length (enc_hwr_addr a) = 4"
  by (simp add: enc_hwr_addr_def layout_simps)

lemma dec_hwr_addr_inverse [codec_simps]: "dec_hwr_addr (enc_hwr_addr a) = a"
  by (simp add: dec_hwr_addr_def enc_hwr_addr_def field_at)

lemma enc_dec_hwr_addr: "length bs = 4 \<Longrightarrow> enc_hwr_addr (dec_hwr_addr bs) = bs"
  by (simp add: dec_hwr_addr_def enc_hwr_addr_def u16c.enc_dec chunk_join)

interpretation addr_codec: byte_codec enc_hwr_addr dec_hwr_addr "\<lambda>_. True" 4
  by unfold_locales (simp_all add: layout_simps codec_simps enc_dec_hwr_addr)

lemma length_enc_hwrhdr [layout_simps]: "length (enc_hwrhdr h) = sizeof_hwrhdr"
  by (simp add: enc_hwrhdr_def layout_simps)

lemma dec_hwrhdr_inverse [codec_simps]: "dec_hwrhdr (enc_hwrhdr h) = h"
  by (simp add: dec_hwrhdr_def enc_hwrhdr_def field_at length_enc_hwr_addr dec_hwr_addr_inverse)

lemma enc_dec_hwrhdr: "length bs = sizeof_hwrhdr \<Longrightarrow> enc_hwrhdr (dec_hwrhdr bs) = bs"
  by (simp add: dec_hwrhdr_def enc_hwrhdr_def u32c.enc_dec addr_codec.enc_dec chunk_join)

interpretation hwrhdr_codec: byte_codec enc_hwrhdr dec_hwrhdr "\<lambda>_. True" sizeof_hwrhdr
  by unfold_locales (simp_all add: layout_simps codec_simps enc_dec_hwrhdr)

lemma length_enc_bofioreg [layout_simps]: "length (enc_bofioreg r) = sizeof_bofioreg"
  by (simp add: enc_bofioreg_def layout_simps)

lemma dec_bofioreg_inverse [codec_simps]: "dec_bofioreg (enc_bofioreg r) = r"
  by (simp add: dec_bofioreg_def enc_bofioreg_def field_at)

lemma enc_dec_bofioreg: "length bs = sizeof_bofioreg \<Longrightarrow> enc_bofioreg (dec_bofioreg bs) = bs"
  by (simp add: dec_bofioreg_def enc_bofioreg_def u16c.enc_dec u32c.enc_dec chunk_join)

interpretation ioreg_codec: byte_codec enc_bofioreg dec_bofioreg "\<lambda>_. True" sizeof_bofioreg
  by unfold_locales (simp_all add: layout_simps codec_simps enc_dec_bofioreg)

lemma length_enc_bofhdr [layout_simps]: "ok_bofhdr h \<Longrightarrow> length (enc_bofhdr h) = sizeof_bofhdr"
  by (simp add: enc_bofhdr_def ok_bofhdr_def layout_simps)

lemma dec_bofhdr_inverse [codec_simps]: "ok_bofhdr h \<Longrightarrow> dec_bofhdr (enc_bofhdr h) = h"
  by (simp add: dec_bofhdr_def enc_bofhdr_def ok_bofhdr_def field_at)

lemma enc_dec_bofhdr: "length bs = sizeof_bofhdr \<Longrightarrow> enc_bofhdr (dec_bofhdr bs) = bs"
  by (simp add: dec_bofhdr_def enc_bofhdr_def u16c.enc_dec u32c.enc_dec chunk_join)

lemma ok_dec_bofhdr: "length bs = sizeof_bofhdr \<Longrightarrow> ok_bofhdr (dec_bofhdr bs)"
  by (simp add: dec_bofhdr_def ok_bofhdr_def)

interpretation bofhdr_codec: byte_codec enc_bofhdr dec_bofhdr ok_bofhdr sizeof_bofhdr
  by unfold_locales (simp_all add: layout_simps codec_simps enc_dec_bofhdr ok_dec_bofhdr)

end
