(* ===== verification/Kmem.thy ===== *)
theory Kmem
  imports Prelude
begin

text \<open>
  The kernel allocator as the BORPH code uses it. \<open>kalloc_ok n\<close> decides whether the \<open>n\<close>-th
  allocation succeeds, so every theorem quantifies over all patterns of allocation failure;
  \<open>klive\<close> lists the live objects. Freeing an object that is not live is undefined. \<open>kmalloc\<close> of
  size 0 returns the distinguished pointer that \<open>kfree\<close> ignores.
\<close>

datatype kptr = KNull | KZero | KPtr nat

record kmem_state =
  kalloc_ok :: "nat \<Rightarrow> bool"
  nalloc :: nat
  klive :: "nat list"

definition kmalloc :: "nat \<Rightarrow> 'a kmem_state_scheme \<Rightarrow> kptr \<times> 'a kmem_state_scheme" where
  "kmalloc sz s =
     (if sz = 0 then (KZero, s)
      else if kalloc_ok s (nalloc s)
      then (KPtr (nalloc s), s\<lparr>nalloc := Suc (nalloc s), klive := nalloc s # klive s\<rparr>)
      else (KNull, s\<lparr>nalloc := Suc (nalloc s)\<rparr>))"

fun kfree :: "kptr \<Rightarrow> 'a kmem_state_scheme \<Rightarrow> 'a kmem_state_scheme option" where
  "kfree (KPtr n) s =
     (if n \<in> set (klive s) then Some (s\<lparr>klive := remove1 n (klive s)\<rparr>) else None)"
| "kfree _ s = Some s"

text \<open>Live objects are distinct and were handed out before.\<close>

definition kmem_inv :: "'a kmem_state_scheme \<Rightarrow> bool" where
  "kmem_inv s \<longleftrightarrow> distinct (klive s) \<and> (\<forall>n \<in> set (klive s). n < nalloc s)"

lemma kmalloc_inv: "kmem_inv s \<Longrightarrow> kmem_inv (snd (kmalloc sz s))"
  by (auto simp: kmalloc_def kmem_inv_def)

lemma kfree_inv: "kfree p s = Some s' \<Longrightarrow> kmem_inv s \<Longrightarrow> kmem_inv s'"
  by (cases p) (auto simp: kmem_inv_def split: if_splits dest: in_set_remove1 [THEN iffD1] notin_set_remove1)

lemma kmalloc_fresh: "kmem_inv s \<Longrightarrow> kmalloc sz s = (KPtr n, s') \<Longrightarrow> n \<notin> set (klive s)"
  by (auto simp: kmalloc_def kmem_inv_def split: if_splits)

lemma kmalloc_kfree:
  "kmalloc sz s = (KPtr n, s') \<Longrightarrow> kfree (KPtr n) s' = Some (s'\<lparr>klive := klive s\<rparr>)"
  by (auto simp: kmalloc_def split: if_splits)

end
