(* ===== verification/Hwr.thy ===== *)
theory Hwr
  imports Bof Kmem
begin

text \<open>
  The device-independent layer for hardware regions, \<open>src/borph/kernel/hwr/common.c\<close>: the table
  \<open>hwrtypes\<close> of registered drivers with their use counts, the table \<open>phyhwrs\<close> of physical
  regions with their use counts, and the functions that forward to the driver's operations.

  Driver structures are shared by reference (the table holds a pointer to the driver's own
  \<open>struct hwrtype\<close>), so they live in a store \<open>htstore\<close> indexed by address; a pointer to a physical
  region is its pair of indices. The operations of a driver are functions on the kernel state;
  \<open>ops_at\<close> gives the \<open>struct hwr_operations\<close> at an address. The locale \<open>hwr_driver\<close> states what
  \<open>reserve_hwr\<close> and \<open>release_hwr\<close> of a driver promise, and the properties of the forwarding
  functions follow from it.
\<close>

section \<open>State\<close>

abbreviation (input) MAX_HWRTYPES :: nat where "MAX_HWRTYPES \<equiv> 16"

record hwr_iobuf =
  io_location :: u32
  io_offset :: u32
  io_size :: nat
  io_data :: "u8 list"

record hwrtype =
  ht_name :: string
  ht_type :: u16
  ht_count :: int
  ht_num_devs :: u16
  ht_ops :: "nat option"

record phyhwr =
  ph_hwraddr :: hwr_addr
  ph_count :: int
  ph_active :: int
  ph_task :: "nat option"

type_synonym phyref = "nat \<times> nat"

text \<open>
  \<open>phyhwrs\<close> maps a class to its array: the address of the array and its entries, each with the
  address of its own allocation. \<open>junk_phyhwr n\<close> is what the memory of allocation \<open>n\<close> holds before
  it is written.
\<close>

record hwr_state = kmem_state +
  htstore :: "nat \<rightharpoonup> hwrtype"
  hwrtypes :: "nat option list"
  phyhwrs :: "(nat \<times> (nat \<times> phyhwr) list) option list"
  iobufs :: "nat \<rightharpoonup> hwr_iobuf"
  junk_phyhwr :: "nat \<Rightarrow> phyhwr"

record 's hwr_operations =
  op_configure :: "(hwr_addr \<Rightarrow> kfile \<Rightarrow> u32 \<Rightarrow> u32 \<Rightarrow> 's \<Rightarrow> (int \<times> 's) option) option"
  op_unconfigure :: "(hwr_addr \<Rightarrow> 's \<Rightarrow> (int \<times> 's) option) option"
  op_reserve_hwr :: "(hwr_addr \<Rightarrow> 's \<Rightarrow> (phyref option \<times> 's) option) option"
  op_release_hwr :: "(hwr_addr \<Rightarrow> 's \<Rightarrow> 's option) option"
  op_get_iobuf :: "('s \<Rightarrow> (nat option \<times> 's) option) option"
  op_put_iobuf :: "(nat \<Rightarrow> 's \<Rightarrow> (int \<times> 's) option) option"
  op_send_iobuf :: "(nat \<Rightarrow> 's \<Rightarrow> (int \<times> 's) option) option"
  op_recv_iobuf :: "(nat \<Rightarrow> 's \<Rightarrow> (int \<times> 's) option) option"

section \<open>Access to the tables\<close>

definition phy_get :: "'a hwr_state_scheme \<Rightarrow> phyref \<Rightarrow> phyhwr option" where
  "phy_get s r = do {
     slot \<leftarrow> arr_get (phyhwrs s) (fst r);
     arr \<leftarrow> slot;
     entry \<leftarrow> arr_get (snd arr) (snd r);
     Some (snd entry) }"

definition phy_upd :: "phyref \<Rightarrow> (phyhwr \<Rightarrow> phyhwr) \<Rightarrow> 'a hwr_state_scheme \<Rightarrow> 'a hwr_state_scheme option" where
  "phy_upd r f s = do {
     slot \<leftarrow> arr_get (phyhwrs s) (fst r);
     arr \<leftarrow> slot;
     entry \<leftarrow> arr_get (snd arr) (snd r);
     Some (s\<lparr>phyhwrs := (phyhwrs s)[fst r :=
       Some (fst arr, (snd arr)[snd r := (fst entry, f (snd entry))])]\<rparr>) }"

definition ht_upd :: "nat \<Rightarrow> (hwrtype \<Rightarrow> hwrtype) \<Rightarrow> 'a hwr_state_scheme \<Rightarrow> 'a hwr_state_scheme option" where
  "ht_upd p f s = do {
     ht \<leftarrow> htstore s p;
     Some (s\<lparr>htstore := (htstore s)(p \<mapsto> f ht)\<rparr>) }"

abbreviation class_ix :: "hwr_addr \<Rightarrow> nat" where
  "class_ix a \<equiv> unat (hwa_class a)"

abbreviation phy_ix :: "hwr_addr \<Rightarrow> phyref" where
  "phy_ix a \<equiv> (unat (hwa_class a), unat (hwa_addr a))"

section \<open>References to drivers\<close>

definition get_hwrops :: "hwr_addr \<Rightarrow> 'a hwr_state_scheme \<Rightarrow> (nat option \<times> 'a hwr_state_scheme) option" where
  "get_hwrops a s =
     (if MAX_HWRTYPES \<le> class_ix a then Some (None, s)
      else do {
        ht \<leftarrow> arr_get (hwrtypes s) (class_ix a);
        case ht of
          None \<Rightarrow> Some (None, s)
        | Some p \<Rightarrow> do {
            s' \<leftarrow> ht_upd p (\<lambda>t. t\<lparr>ht_count := ht_count t + 1\<rparr>) s;
            t \<leftarrow> htstore s' p;
            Some (ht_ops t, s') } })"

definition put_hwrops :: "hwr_addr \<Rightarrow> 'a hwr_state_scheme \<Rightarrow> 'a hwr_state_scheme option" where
  "put_hwrops a s =
     (if MAX_HWRTYPES \<le> class_ix a then Some s
      else do {
        ht \<leftarrow> arr_get (hwrtypes s) (class_ix a);
        case ht of
          None \<Rightarrow> Some s
        | Some p \<Rightarrow> ht_upd p (\<lambda>t. t\<lparr>ht_count := ht_count t - 1\<rparr>) s })"

section \<open>Forwarding to the driver\<close>

definition reserve_hwr ::
  "(nat \<Rightarrow> 'a hwr_state_scheme hwr_operations) \<Rightarrow> hwr_addr \<Rightarrow> 'a hwr_state_scheme
    \<Rightarrow> (phyref option \<times> 'a hwr_state_scheme) option" where
  "reserve_hwr ops_at a s = do {
     (ops, s) \<leftarrow> get_hwrops a s;
     case ops of
       None \<Rightarrow> Some (None, s)
     | Some q \<Rightarrow> do {
         f \<leftarrow> op_reserve_hwr (ops_at q);
         (ret, s) \<leftarrow> f a s;
         s \<leftarrow> put_hwrops a s;
         Some (ret, s) } }"

definition release_hwr ::
  "(nat \<Rightarrow> 'a hwr_state_scheme hwr_operations) \<Rightarrow> hwr_addr \<Rightarrow> 'a hwr_state_scheme
    \<Rightarrow> 'a hwr_state_scheme option" where
  "release_hwr ops_at a s = do {
     (ops, s) \<leftarrow> get_hwrops a s;
     case ops of
       None \<Rightarrow> Some s
     | Some q \<Rightarrow> do {
         f \<leftarrow> op_release_hwr (ops_at q);
         s \<leftarrow> f a s;
         put_hwrops a s } }"

definition get_iobuf ::
  "(nat \<Rightarrow> 'a hwr_state_scheme hwr_operations) \<Rightarrow> hwr_addr \<Rightarrow> 'a hwr_state_scheme
    \<Rightarrow> (nat option \<times> 'a hwr_state_scheme) option" where
  "get_iobuf ops_at a s = do {
     (ops, s) \<leftarrow> get_hwrops a s;
     case ops of
       None \<Rightarrow> Some (None, s)
     | Some q \<Rightarrow> do {
         f \<leftarrow> op_get_iobuf (ops_at q);
         (ret, s) \<leftarrow> f s;
         s \<leftarrow> put_hwrops a s;
         Some (ret, s) } }"

definition put_iobuf ::
  "(nat \<Rightarrow> 'a hwr_state_scheme hwr_operations) \<Rightarrow> hwr_addr \<Rightarrow> nat \<Rightarrow> 'a hwr_state_scheme
    \<Rightarrow> (int \<times> 'a hwr_state_scheme) option" where
  "put_iobuf ops_at a b s = do {
     (ops, s) \<leftarrow> get_hwrops a s;
     case ops of
       None \<Rightarrow> Some (0, s)
     | Some q \<Rightarrow> do {
         f \<leftarrow> op_put_iobuf (ops_at q);
         (ret, s) \<leftarrow> f b s;
         s \<leftarrow> put_hwrops a s;
         Some (ret, s) } }"

definition send_iobuf ::
  "(nat \<Rightarrow> 'a hwr_state_scheme hwr_operations) \<Rightarrow> hwr_addr \<Rightarrow> nat \<Rightarrow> 'a hwr_state_scheme
    \<Rightarrow> (int \<times> 'a hwr_state_scheme) option" where
  "send_iobuf ops_at a b s = do {
     (ops, s) \<leftarrow> get_hwrops a s;
     case ops of
       None \<Rightarrow> Some (0, s)
     | Some q \<Rightarrow> do {
         f \<leftarrow> op_send_iobuf (ops_at q);
         (ret, s) \<leftarrow> f b s;
         s \<leftarrow> put_hwrops a s;
         Some (ret, s) } }"

definition recv_iobuf ::
  "(nat \<Rightarrow> 'a hwr_state_scheme hwr_operations) \<Rightarrow> hwr_addr \<Rightarrow> nat \<Rightarrow> 'a hwr_state_scheme
    \<Rightarrow> (int \<times> 'a hwr_state_scheme) option" where
  "recv_iobuf ops_at a b s = do {
     (ops, s) \<leftarrow> get_hwrops a s;
     case ops of
       None \<Rightarrow> Some (0, s)
     | Some q \<Rightarrow> do {
         f \<leftarrow> op_recv_iobuf (ops_at q);
         (ret, s) \<leftarrow> f b s;
         s \<leftarrow> put_hwrops a s;
         Some (ret, s) } }"

section \<open>References to physical regions\<close>

text \<open>
  Where the source tests its pointer argument for NULL the argument is an option; where it
  dereferences it at once the argument is the structure.
\<close>

definition hwr_known :: "hwr_addr \<Rightarrow> 'a hwr_state_scheme \<Rightarrow> bool option" where
  "hwr_known a s = do {
     ht \<leftarrow> arr_get (hwrtypes s) (class_ix a);
     case ht of
       None \<Rightarrow> Some False
     | Some p \<Rightarrow> do {
         t \<leftarrow> htstore s p;
         Some (hwa_addr a < ht_num_devs t) } }"

fun get_hwr :: "hwr_addr option \<Rightarrow> 'a hwr_state_scheme \<Rightarrow> (phyref option \<times> 'a hwr_state_scheme) option" where
  "get_hwr None s = Some (None, s)"
| "get_hwr (Some a) s =
     (if MAX_HWRTYPES \<le> class_ix a then Some (None, s)
      else do {
        known \<leftarrow> hwr_known a s;
        if \<not> known then Some (None, s)
        else do {
          s \<leftarrow> phy_upd (phy_ix a) (\<lambda>h. h\<lparr>ph_count := ph_count h + 1\<rparr>) s;
          Some (Some (phy_ix a), s) } })"

definition drop_ref :: "phyhwr \<Rightarrow> phyhwr" where
  "drop_ref h =
     (if ph_count h - 1 = 0 then h\<lparr>ph_count := -1, ph_task := None\<rparr>
      else h\<lparr>ph_count := ph_count h - 1\<rparr>)"

fun put_hwr :: "hwr_addr option \<Rightarrow> 'a hwr_state_scheme \<Rightarrow> 'a hwr_state_scheme option" where
  "put_hwr None s = None"
| "put_hwr (Some a) s =
     (if MAX_HWRTYPES \<le> class_ix a then Some s
      else do {
        known \<leftarrow> hwr_known a s;
        if \<not> known then Some s else phy_upd (phy_ix a) drop_ref s })"

definition hwr_inuse :: "hwr_addr option \<Rightarrow> 'a hwr_state_scheme \<Rightarrow> (bool \<times> 'a hwr_state_scheme) option" where
  "hwr_inuse a s = do {
     (r, s) \<leftarrow> get_hwr a s;
     r \<leftarrow> r;
     h \<leftarrow> phy_get s r;
     s \<leftarrow> put_hwr a s;
     Some (0 < ph_active h, s) }"

definition hwr_activate :: "hwr_addr option \<Rightarrow> 'a hwr_state_scheme \<Rightarrow> 'a hwr_state_scheme option" where
  "hwr_activate a s = do {
     (r, s) \<leftarrow> get_hwr a s;
     case r of
       None \<Rightarrow> Some s
     | Some r \<Rightarrow> do {
         s \<leftarrow> phy_upd r (\<lambda>h. h\<lparr>ph_active := 1\<rparr>) s;
         put_hwr a s } }"

definition hwr_deactivate :: "hwr_addr option \<Rightarrow> 'a hwr_state_scheme \<Rightarrow> 'a hwr_state_scheme option" where
  "hwr_deactivate a s = do {
     (r, s) \<leftarrow> get_hwr a s;
     case r of
       None \<Rightarrow> Some s
     | Some r \<Rightarrow> do {
         s \<leftarrow> phy_upd r (\<lambda>h. h\<lparr>ph_active := 0\<rparr>) s;
         put_hwr a s } }"

section \<open>Registration of drivers\<close>

text \<open>
  The array of a class is allocated with room for one pointer whatever \<open>num_devs\<close> is, so storing
  the pointer of a second device writes outside it.
\<close>

abbreviation (input) PHYARR_ROOM :: nat where "PHYARR_ROOM \<equiv> 1"

fun alloc_devs ::
  "nat \<Rightarrow> (nat \<times> phyhwr) list \<Rightarrow> 'a hwr_state_scheme
    \<Rightarrow> (bool \<times> (nat \<times> phyhwr) list \<times> 'a hwr_state_scheme) option" where
  "alloc_devs 0 devs s = Some (True, devs, s)"
| "alloc_devs (Suc n) devs s =
     (if PHYARR_ROOM \<le> length devs then None
      else case kmalloc 16 s of
          (KPtr q, s') \<Rightarrow> alloc_devs n (devs @ [(q, junk_phyhwr s q)]) s'
        | (_, s') \<Rightarrow> Some (False, devs, s'))"

fun free_devs :: "(nat \<times> phyhwr) list \<Rightarrow> 'a hwr_state_scheme \<Rightarrow> 'a hwr_state_scheme option" where
  "free_devs [] s = Some s"
| "free_devs (d # ds) s = do { s \<leftarrow> kfree (KPtr (fst d)) s; free_devs ds s }"

definition register_hwrtype :: "nat \<Rightarrow> 'a hwr_state_scheme \<Rightarrow> (int \<times> 'a hwr_state_scheme) option" where
  "register_hwrtype p s = do {
     ht \<leftarrow> htstore s p;
     let c = unat (ht_type ht);
     if MAX_HWRTYPES < c then Some (-1, s)
     else do {
       ct \<leftarrow> arr_get (hwrtypes s) c;
       case ct of
         Some _ \<Rightarrow> Some (-1, s)
       | None \<Rightarrow> do {
           slot \<leftarrow> arr_get (phyhwrs s) c;
           (ok, s) \<leftarrow> (case slot of
               Some _ \<Rightarrow> Some (True, s)
             | None \<Rightarrow> (case kmalloc 4 s of
                   (KPtr q, s) \<Rightarrow> do {
                     (ok, devs, s) \<leftarrow> alloc_devs (unat (ht_num_devs ht)) [] s;
                     if ok then Some (True, s\<lparr>phyhwrs := (phyhwrs s)[c := Some (q, devs)]\<rparr>)
                     else do {
                       s \<leftarrow> free_devs (rev devs) s;
                       s \<leftarrow> kfree (KPtr q) s;
                       Some (False, s\<lparr>phyhwrs := (phyhwrs s)[c := None]\<rparr>) } }
                 | (_, s) \<Rightarrow> Some (False, s)));
           if ok then do {
             s \<leftarrow> ht_upd p (\<lambda>t. t\<lparr>ht_count := ht_count t + 1\<rparr>)
                    (s\<lparr>hwrtypes := (hwrtypes s)[c := Some p]\<rparr>);
             Some (0, s) }
           else Some (-1, s) } } }"

definition unregister_hwrtype :: "nat \<Rightarrow> 'a hwr_state_scheme \<Rightarrow> (int \<times> 'a hwr_state_scheme) option" where
  "unregister_hwrtype p s = do {
     ht \<leftarrow> htstore s p;
     let c = unat (ht_type ht);
     ct \<leftarrow> arr_get (hwrtypes s) c;
     case ct of
       None \<Rightarrow> Some (-1, s)
     | Some q \<Rightarrow> do {
         ct \<leftarrow> htstore s q;
         if ht_type ct = ht_type ht then do {
           s \<leftarrow> ht_upd p (\<lambda>t. t\<lparr>ht_count := ht_count t - 1\<rparr>) s;
           if ht_count ht - 1 = 0 then do {
             let s = s\<lparr>hwrtypes := (hwrtypes s)[c := None]\<rparr>;
             slot \<leftarrow> arr_get (phyhwrs s) c;
             case slot of
               None \<Rightarrow> Some (0, s)
             | Some arr \<Rightarrow> if length (snd arr) < unat (ht_num_devs ht) then None else do {
                 s \<leftarrow> free_devs (take (unat (ht_num_devs ht)) (snd arr)) s;
                 s \<leftarrow> kfree (KPtr (fst arr)) s;
                 Some (0, s\<lparr>phyhwrs := (phyhwrs s)[c := None]\<rparr>) } }
           else Some (-1, s) }
         else Some (-1, s) } }"

definition hwr_init :: "'a hwr_state_scheme \<Rightarrow> 'a hwr_state_scheme" where
  "hwr_init s = s\<lparr>hwrtypes := replicate MAX_HWRTYPES None, phyhwrs := replicate MAX_HWRTYPES None\<rparr>"

section \<open>Well-formed tables\<close>

text \<open>
  Both tables have their declared length, a registered driver is registered under its own type, and
  its array of physical regions has one entry for each device.
\<close>

definition hwr_wf :: "'a hwr_state_scheme \<Rightarrow> bool" where
  "hwr_wf s \<longleftrightarrow> length (hwrtypes s) = MAX_HWRTYPES \<and> length (phyhwrs s) = MAX_HWRTYPES \<and>
     (\<forall>c p. c < MAX_HWRTYPES \<longrightarrow> hwrtypes s ! c = Some p \<longrightarrow>
        (\<exists>t q devs. htstore s p = Some t \<and> unat (ht_type t) = c \<and>
           phyhwrs s ! c = Some (q, devs) \<and> length devs = unat (ht_num_devs t)))"

text \<open>A driver with its operations at \<open>q\<close> is registered for the class of \<open>a\<close> by the structure at \<open>p\<close>.\<close>

definition driver_at :: "hwr_addr \<Rightarrow> nat \<Rightarrow> nat \<Rightarrow> 'a hwr_state_scheme \<Rightarrow> bool" where
  "driver_at a p q s \<longleftrightarrow> class_ix a < MAX_HWRTYPES \<and> class_ix a < length (hwrtypes s) \<and>
     hwrtypes s ! class_ix a = Some p \<and> (\<exists>t. htstore s p = Some t \<and> ht_ops t = Some q)"

section \<open>Lemmas on the tables\<close>

lemmas hwr_monad = bind_eq_Some_conv bind_eq_None_conv Let_def

lemma arr_get_eq_Some [simp]: "arr_get xs i = Some v \<longleftrightarrow> i < length xs \<and> v = xs ! i"
  by (auto simp: arr_get_def)

lemma arr_get_in [simp]: "i < length xs \<Longrightarrow> arr_get xs i = Some (xs ! i)"
  by (simp add: arr_get_def)

lemma phy_get_eq_Some:
  "phy_get s (c, i) = Some h \<longleftrightarrow>
     c < length (phyhwrs s) \<and> (\<exists>q devs. phyhwrs s ! c = Some (q, devs) \<and>
       i < length devs \<and> snd (devs ! i) = h)"
  by (auto simp: phy_get_def hwr_monad)

lemma phy_upd_cong_get:
  "phy_get s r = Some h \<Longrightarrow> \<exists>s'. phy_upd r f s = Some s' \<and> phy_get s' r = Some (f h)"
  by (cases r) (auto simp: phy_upd_def phy_get_def hwr_monad)

lemma phy_upd_other:
  assumes "phy_upd r f s = Some s'" and "r' \<noteq> r"
  shows "phy_get s' r' = phy_get s r'"
proof -
  obtain c i c' i' where r: "r = (c, i)" "r' = (c', i')" by (cases r; cases r')
  from assms(1) r obtain q devs where "c < length (phyhwrs s)" "phyhwrs s ! c = Some (q, devs)"
    "i < length devs"
    and s': "s' = s\<lparr>phyhwrs := (phyhwrs s)[c := Some (q, devs[i := (fst (devs ! i), f (snd (devs ! i)))])]\<rparr>"
    by (auto simp: phy_upd_def hwr_monad)
  with assms(2) r show ?thesis
    by (cases "c' = c") (auto simp: phy_get_def arr_get_def)
qed

lemma phy_upd_only_phyhwrs:
  "phy_upd r f s = Some s' \<Longrightarrow> \<exists>x. s' = s\<lparr>phyhwrs := x\<rparr>"
  by (auto simp: phy_upd_def hwr_monad)

lemma phy_upd_defined: "phy_upd r f s = None \<longleftrightarrow> phy_get s r = None"
  by (auto simp: phy_upd_def phy_get_def hwr_monad)

lemma phy_upd_upd:
  "phy_upd r f s = Some s' \<Longrightarrow> phy_upd r g s' = phy_upd r (g \<circ> f) s"
  by (cases r) (auto simp: phy_upd_def hwr_monad)

lemma phy_upd_id:
  "phy_get s r = Some h \<Longrightarrow> f h = h \<Longrightarrow> phy_upd r f s = Some s"
  by (cases r) (auto simp: phy_upd_def phy_get_def hwr_monad list_update_same_conv)

lemma phy_upd_cong: "phy_get s r = Some h \<Longrightarrow> f h = g h \<Longrightarrow> phy_upd r f s = phy_upd r g s"
  by (cases r) (auto simp: phy_upd_def phy_get_def hwr_monad)

lemma phy_get_cong: "phyhwrs s' = phyhwrs s \<Longrightarrow> phy_get s' r = phy_get s r"
  by (simp add: phy_get_def)

lemma phy_upd_cong_state:
  "phyhwrs s' = phyhwrs s \<Longrightarrow> phy_upd r f s = Some t \<Longrightarrow> phy_upd r f s' = Some (s'\<lparr>phyhwrs := phyhwrs t\<rparr>)"
  by (auto simp: phy_upd_def hwr_monad)

lemma phy_get_htstore [simp]: "phy_get (s\<lparr>htstore := x\<rparr>) r = phy_get s r"
  by (simp add: phy_get_def)

lemma phy_upd_htstore:
  "phy_upd r f (s\<lparr>htstore := x\<rparr>) = map_option (\<lambda>s. s\<lparr>htstore := x\<rparr>) (phy_upd r f s)"
  by (auto simp: phy_upd_def arr_get_def split: bind_splits if_splits)

section \<open>Driver references are balanced\<close>

lemma get_hwrops_driver:
  assumes "driver_at a p q s" and "htstore s p = Some t"
  shows "get_hwrops a s = Some (Some q, s\<lparr>htstore := (htstore s)(p \<mapsto> t\<lparr>ht_count := ht_count t + 1\<rparr>)\<rparr>)"
  using assms by (auto simp: get_hwrops_def driver_at_def ht_upd_def)

lemma put_hwrops_driver:
  assumes "driver_at a p q s" and "htstore s p = Some t"
  shows "put_hwrops a (s\<lparr>htstore := (htstore s)(p \<mapsto> t\<lparr>ht_count := ht_count t + 1\<rparr>), phyhwrs := x\<rparr>)
      = Some (s\<lparr>phyhwrs := x\<rparr>)"
  using assms by (auto simp: put_hwrops_def driver_at_def ht_upd_def fun_upd_idem)

lemma put_hwrops_driver_same:
  assumes "driver_at a p q s" and "htstore s p = Some t"
  shows "put_hwrops a (s\<lparr>htstore := (htstore s)(p \<mapsto> t\<lparr>ht_count := ht_count t + 1\<rparr>)\<rparr>) = Some s"
  using put_hwrops_driver [OF assms, of "phyhwrs s"] by simp

lemma driver_at_htstore: "driver_at a p q s \<Longrightarrow> \<exists>t. htstore s p = Some t"
  by (auto simp: driver_at_def)

lemma driver_at_phyhwrs [simp]: "driver_at a p q (s\<lparr>phyhwrs := x\<rparr>) = driver_at a p q s"
  by (simp add: driver_at_def)

section \<open>What a driver promises\<close>

text \<open>
  On a region it manages, \<open>reserve_hwr\<close> of a driver takes a free region (use count \<open>-1\<close>) and leaves
  it with one user, and refuses any other; \<open>release_hwr\<close> gives up one use and frees the region with
  the last one. Neither touches anything else.
\<close>

locale hwr_driver =
  fixes ops_at :: "nat \<Rightarrow> 'a hwr_state_scheme hwr_operations"
    and q :: nat
    and managed :: "hwr_addr \<Rightarrow> bool"
    and rsv :: "hwr_addr \<Rightarrow> 'a hwr_state_scheme \<Rightarrow> (phyref option \<times> 'a hwr_state_scheme) option"
    and rel :: "hwr_addr \<Rightarrow> 'a hwr_state_scheme \<Rightarrow> 'a hwr_state_scheme option"
  assumes ops_reserve: "op_reserve_hwr (ops_at q) = Some rsv"
    and ops_release: "op_release_hwr (ops_at q) = Some rel"
    and rsv_free: "managed a \<Longrightarrow> phy_get s (phy_ix a) = Some h \<Longrightarrow> ph_count h = -1 \<Longrightarrow>
      rsv a s = map_option (Pair (Some (phy_ix a))) (phy_upd (phy_ix a) (\<lambda>h. h\<lparr>ph_count := 1\<rparr>) s)"
    and rsv_busy: "managed a \<Longrightarrow> phy_get s (phy_ix a) = Some h \<Longrightarrow> ph_count h \<noteq> -1 \<Longrightarrow>
      rsv a s = Some (None, s)"
    and rel_eq: "managed a \<Longrightarrow> phy_get s (phy_ix a) = Some h \<Longrightarrow>
      rel a s = phy_upd (phy_ix a) drop_ref s"
begin

lemma reserve_free:
  assumes drv: "driver_at a p q s" and "managed a"
    and h: "phy_get s (phy_ix a) = Some h" and free: "ph_count h = -1"
  shows "reserve_hwr ops_at a s =
    map_option (Pair (Some (phy_ix a))) (phy_upd (phy_ix a) (\<lambda>h. h\<lparr>ph_count := 1\<rparr>) s)"
proof -
  obtain t where t: "htstore s p = Some t" using drv by (blast dest: driver_at_htstore)
  from h obtain s' where s': "phy_upd (phy_ix a) (\<lambda>h. h\<lparr>ph_count := 1\<rparr>) s = Some s'"
    by (blast dest: phy_upd_cong_get)
  then obtain x where x: "s' = s\<lparr>phyhwrs := x\<rparr>" by (blast dest: phy_upd_only_phyhwrs)
  let ?s1 = "s\<lparr>htstore := (htstore s)(p \<mapsto> t\<lparr>ht_count := ht_count t + 1\<rparr>)\<rparr>"
  have "rsv a ?s1 = Some (Some (phy_ix a), ?s1\<lparr>phyhwrs := x\<rparr>)"
    using assms(2) h free s' x by (subst rsv_free [where h = h]) (simp_all add: phy_upd_htstore)
  moreover have "put_hwrops a (?s1\<lparr>phyhwrs := x\<rparr>) = Some s'"
    using put_hwrops_driver [OF drv t, of x] x by simp
  ultimately show ?thesis
    using s' by (simp add: reserve_hwr_def get_hwrops_driver [OF drv t] ops_reserve)
qed

lemma reserve_busy:
  assumes drv: "driver_at a p q s" and "managed a"
    and "phy_get s (phy_ix a) = Some h" and "ph_count h \<noteq> -1"
  shows "reserve_hwr ops_at a s = Some (None, s)"
proof -
  obtain t where t: "htstore s p = Some t" using drv by (blast dest: driver_at_htstore)
  show ?thesis
    using assms(2-) by (simp add: reserve_hwr_def get_hwrops_driver [OF drv t] ops_reserve
        rsv_busy [where h = h] put_hwrops_driver_same [OF drv t])
qed

lemma release_eq:
  assumes drv: "driver_at a p q s" and "managed a" and h: "phy_get s (phy_ix a) = Some h"
  shows "release_hwr ops_at a s = phy_upd (phy_ix a) drop_ref s"
proof -
  obtain t where t: "htstore s p = Some t" using drv by (blast dest: driver_at_htstore)
  from h obtain s' where s': "phy_upd (phy_ix a) drop_ref s = Some s'"
    by (blast dest: phy_upd_cong_get)
  then obtain x where x: "s' = s\<lparr>phyhwrs := x\<rparr>" by (blast dest: phy_upd_only_phyhwrs)
  let ?s1 = "s\<lparr>htstore := (htstore s)(p \<mapsto> t\<lparr>ht_count := ht_count t + 1\<rparr>)\<rparr>"
  have "rel a ?s1 = Some (?s1\<lparr>phyhwrs := x\<rparr>)"
    using assms(2) h s' x by (subst rel_eq [where h = h]) (simp_all add: phy_upd_htstore)
  then show ?thesis
    using s' x put_hwrops_driver [OF drv t, of x]
    by (simp add: release_hwr_def get_hwrops_driver [OF drv t] ops_release)
qed

lemma reserve_outcome:
  assumes drv: "driver_at a p q s" and man: "managed a"
    and h: "phy_get s (phy_ix a) = Some h" and res: "reserve_hwr ops_at a s = Some (Some r, s')"
  shows "ph_count h = -1" and "r = phy_ix a"
    and "phy_upd (phy_ix a) (\<lambda>h. h\<lparr>ph_count := 1\<rparr>) s = Some s'"
    and "driver_at a p q s'" and "phy_get s' (phy_ix a) = Some (h\<lparr>ph_count := 1\<rparr>)"
proof -
  show free: "ph_count h = -1"
    using reserve_busy [OF drv man h] res by fastforce
  have "map_option (Pair (Some (phy_ix a))) (phy_upd (phy_ix a) (\<lambda>h. h\<lparr>ph_count := 1\<rparr>) s) =
      Some (Some r, s')"
    using reserve_free [OF drv man h free] res by simp
  then show upd: "phy_upd (phy_ix a) (\<lambda>h. h\<lparr>ph_count := 1\<rparr>) s = Some s'" and "r = phy_ix a"
    by auto
  show "driver_at a p q s'"
    using drv phy_upd_only_phyhwrs [OF upd] by auto
  show "phy_get s' (phy_ix a) = Some (h\<lparr>ph_count := 1\<rparr>)"
    using phy_upd_cong_get [OF h, of "\<lambda>h. h\<lparr>ph_count := 1\<rparr>"] upd by auto
qed

lemma reserve_exclusive:
  assumes "driver_at a p q s" and "managed a"
    and "phy_get s (phy_ix a) = Some h" and "reserve_hwr ops_at a s = Some (Some r, s')"
  shows "reserve_hwr ops_at a s' = Some (None, s')"
  using reserve_outcome [OF assms] assms(2) by (auto intro: reserve_busy)

lemma reserve_release:
  assumes "driver_at a p q s" and "managed a"
    and h: "phy_get s (phy_ix a) = Some h" and "reserve_hwr ops_at a s = Some (Some r, s')"
  shows "release_hwr ops_at a s' = phy_upd (phy_ix a) (\<lambda>h. h\<lparr>ph_task := None\<rparr>) s"
proof -
  note out = reserve_outcome [OF assms]
  have "release_hwr ops_at a s' = phy_upd (phy_ix a) (drop_ref \<circ> (\<lambda>h. h\<lparr>ph_count := 1\<rparr>)) s"
    using release_eq [OF out(4) assms(2) out(5)] phy_upd_upd [OF out(3)] by simp
  also have "\<dots> = phy_upd (phy_ix a) (\<lambda>h. h\<lparr>ph_task := None\<rparr>) s"
    using out(1) by (intro phy_upd_cong [OF h]) (cases h, simp add: drop_ref_def)
  finally show ?thesis .
qed

end

section \<open>Memory safety of the reference counting functions\<close>

lemma hwr_wf_ht_upd:
  assumes wf: "hwr_wf s" and upd: "ht_upd p f s = Some s'"
    and keep: "\<And>t. ht_type (f t) = ht_type t" "\<And>t. ht_num_devs (f t) = ht_num_devs t"
  shows "hwr_wf s'"
proof -
  obtain t where t: "htstore s p = Some t" and s': "s' = s\<lparr>htstore := (htstore s)(p \<mapsto> f t)\<rparr>"
    using upd by (auto simp: ht_upd_def hwr_monad)
  have "\<exists>t q devs. htstore s' p' = Some t \<and> unat (ht_type t) = c \<and> phyhwrs s' ! c = Some (q, devs) \<and>
      length devs = unat (ht_num_devs t)"
    if c: "c < MAX_HWRTYPES" "hwrtypes s ! c = Some p'" for c p'
  proof -
    obtain t' q devs where "htstore s p' = Some t'" "unat (ht_type t') = c"
      "phyhwrs s ! c = Some (q, devs)" "length devs = unat (ht_num_devs t')"
      using wf c unfolding hwr_wf_def by blast
    with t s' keep show ?thesis by (cases "p' = p") auto
  qed
  with wf s' show ?thesis by (simp add: hwr_wf_def)
qed

lemma hwr_wf_phy_upd:
  assumes wf: "hwr_wf s" and upd: "phy_upd r f s = Some s'"
  shows "hwr_wf s'"
proof -
  obtain q devs where devs: "fst r < length (phyhwrs s)" "phyhwrs s ! fst r = Some (q, devs)"
    and s': "s' = s\<lparr>phyhwrs := (phyhwrs s)[fst r :=
      Some (q, devs[snd r := (fst (devs ! snd r), f (snd (devs ! snd r)))])]\<rparr>"
    using upd by (auto simp: phy_upd_def hwr_monad)
  have "\<exists>t q' devs'. htstore s p = Some t \<and> unat (ht_type t) = c \<and> phyhwrs s' ! c = Some (q', devs') \<and>
      length devs' = unat (ht_num_devs t)"
    if c: "c < MAX_HWRTYPES" "hwrtypes s ! c = Some p" for c p
  proof -
    obtain t q' devs' where t: "htstore s p = Some t" "unat (ht_type t) = c"
      "phyhwrs s ! c = Some (q', devs')" "length devs' = unat (ht_num_devs t)"
      using wf c unfolding hwr_wf_def by blast
    then show ?thesis
      using devs s' by (cases "c = fst r") auto
  qed
  then show ?thesis
    using wf s' by (simp add: hwr_wf_def)
qed

lemma hwr_wf_driver:
  assumes "hwr_wf s" and "c < MAX_HWRTYPES" and "hwrtypes s ! c = Some p"
  obtains t q devs where "htstore s p = Some t" "unat (ht_type t) = c"
    "phyhwrs s ! c = Some (q, devs)" "length devs = unat (ht_num_devs t)"
  using assms unfolding hwr_wf_def by blast

lemma hwr_wf_lengths:
  "hwr_wf s \<Longrightarrow> length (hwrtypes s) = MAX_HWRTYPES" "hwr_wf s \<Longrightarrow> length (phyhwrs s) = MAX_HWRTYPES"
  by (simp_all add: hwr_wf_def)

lemma hwr_known_defined:
  assumes "hwr_wf s" and "class_ix a < MAX_HWRTYPES"
  shows "\<exists>k. hwr_known a s = Some k"
proof (cases "hwrtypes s ! class_ix a")
  case (Some p)
  with assms show ?thesis
    by (auto simp: hwr_known_def hwr_wf_lengths elim: hwr_wf_driver)
qed (use assms in \<open>auto simp: hwr_known_def hwr_wf_lengths\<close>)

lemma hwr_known_phy:
  assumes "hwr_wf s" and "hwr_known a s = Some True"
  shows "\<exists>h. phy_get s (phy_ix a) = Some h"
proof -
  obtain p t where p: "class_ix a < MAX_HWRTYPES" "hwrtypes s ! class_ix a = Some p"
    "htstore s p = Some t" "hwa_addr a < ht_num_devs t"
    using assms by (auto simp: hwr_known_def hwr_wf_lengths hwr_monad split: option.splits)
  then obtain q devs where "phyhwrs s ! class_ix a = Some (q, devs)" "length devs = unat (ht_num_devs t)"
    by (metis assms(1) hwr_wf_driver option.inject)
  with p assms(1) show ?thesis
    by (auto simp: phy_get_eq_Some hwr_wf_lengths word_less_nat_alt)
qed

lemma get_hwrops_safe:
  assumes "hwr_wf s"
  shows "\<exists>r s'. get_hwrops a s = Some (r, s') \<and> hwr_wf s'"
proof (cases "class_ix a < MAX_HWRTYPES \<and> hwrtypes s ! class_ix a \<noteq> None")
  case True
  then obtain p where p: "class_ix a < MAX_HWRTYPES" "hwrtypes s ! class_ix a = Some p" by auto
  then obtain t where "htstore s p = Some t" using assms by (blast elim: hwr_wf_driver)
  then obtain s' where s': "ht_upd p (\<lambda>t. t\<lparr>ht_count := ht_count t + 1\<rparr>) s = Some s'"
    and "\<exists>t'. htstore s' p = Some t'"
    by (simp add: ht_upd_def)
  moreover have "hwr_wf s'" using assms s' by (rule hwr_wf_ht_upd) auto
  ultimately show ?thesis using p assms by (auto simp: get_hwrops_def hwr_wf_lengths)
qed (use assms in \<open>auto simp: get_hwrops_def hwr_wf_lengths\<close>)

lemma put_hwrops_safe:
  assumes "hwr_wf s"
  shows "\<exists>s'. put_hwrops a s = Some s' \<and> hwr_wf s'"
proof (cases "class_ix a < MAX_HWRTYPES \<and> hwrtypes s ! class_ix a \<noteq> None")
  case True
  then obtain p where p: "class_ix a < MAX_HWRTYPES" "hwrtypes s ! class_ix a = Some p" by auto
  then obtain t where "htstore s p = Some t" using assms by (blast elim: hwr_wf_driver)
  then obtain s' where s': "ht_upd p (\<lambda>t. t\<lparr>ht_count := ht_count t - 1\<rparr>) s = Some s'"
    by (simp add: ht_upd_def)
  moreover have "hwr_wf s'" using assms s' by (rule hwr_wf_ht_upd) auto
  ultimately show ?thesis using p assms by (auto simp: put_hwrops_def hwr_wf_lengths)
qed (use assms in \<open>auto simp: put_hwrops_def hwr_wf_lengths\<close>)

lemma hwr_known_phyhwrs [simp]: "hwr_known a (s\<lparr>phyhwrs := x\<rparr>) = hwr_known a s"
  by (simp add: hwr_known_def cong: option.case_cong)

text \<open>
  The three outcomes of a reference to a region: no such class or device, or a region whose count
  goes up.
\<close>

lemma get_hwr_cases:
  assumes "hwr_wf s"
  obtains (absent) "get_hwr (Some a) s = Some (None, s)" "put_hwr (Some a) s = Some s"
  | (present) h s' where "class_ix a < MAX_HWRTYPES" "hwr_known a s = Some True"
      "phy_get s (phy_ix a) = Some h"
      "phy_upd (phy_ix a) (\<lambda>h. h\<lparr>ph_count := ph_count h + 1\<rparr>) s = Some s'"
      "get_hwr (Some a) s = Some (Some (phy_ix a), s')"
proof (cases "class_ix a < MAX_HWRTYPES \<and> hwr_known a s = Some True")
  case True
  then obtain h where h: "phy_get s (phy_ix a) = Some h"
    using hwr_known_phy [OF assms] by blast
  with True show thesis
    using phy_upd_cong_get [OF h, of "\<lambda>h. h\<lparr>ph_count := ph_count h + 1\<rparr>"] by (auto intro: present)
next
  case False
  then show thesis
    using hwr_known_defined [OF assms, of a] by (intro absent) auto
qed

lemma hwr_ref_update:
  assumes "hwr_known a s = Some True" and "class_ix a < MAX_HWRTYPES"
    and h: "phy_get s (phy_ix a) = Some h"
    and s': "phy_upd (phy_ix a) (\<lambda>h. h\<lparr>ph_count := ph_count h + 1\<rparr>) s = Some s'"
  shows "(do { s \<leftarrow> phy_upd (phy_ix a) f s'; put_hwr (Some a) s }) =
    phy_upd (phy_ix a) (\<lambda>h. drop_ref (f (h\<lparr>ph_count := ph_count h + 1\<rparr>))) s"
proof -
  obtain x where x: "s' = s\<lparr>phyhwrs := x\<rparr>" using phy_upd_only_phyhwrs [OF s'] ..
  have "phy_get s' (phy_ix a) \<noteq> None"
    using phy_upd_cong_get [OF h, of "\<lambda>h. h\<lparr>ph_count := ph_count h + 1\<rparr>"] s' by auto
  then obtain s'' where s'': "phy_upd (phy_ix a) f s' = Some s''"
    using phy_upd_defined [of "phy_ix a" f s'] by auto
  then obtain y where "s'' = s'\<lparr>phyhwrs := y\<rparr>" by (blast dest: phy_upd_only_phyhwrs)
  then have "put_hwr (Some a) s'' = phy_upd (phy_ix a) drop_ref s''"
    using assms(1,2) x by simp
  also have "\<dots> = phy_upd (phy_ix a) (drop_ref \<circ> (f \<circ> (\<lambda>h. h\<lparr>ph_count := ph_count h + 1\<rparr>))) s"
    using phy_upd_upd [OF s'', of drop_ref] phy_upd_upd [OF s', of "drop_ref \<circ> f"]
    by (simp only: o_assoc)
  finally show ?thesis using s'' by (simp add: comp_def)
qed

lemma hwr_activate_eq:
  assumes "hwr_known a s = Some True" and "class_ix a < MAX_HWRTYPES"
    and h: "phy_get s (phy_ix a) = Some h" and "ph_count h \<noteq> 0"
  shows "hwr_activate (Some a) s = phy_upd (phy_ix a) (\<lambda>h. h\<lparr>ph_active := 1\<rparr>) s"
    and "hwr_deactivate (Some a) s = phy_upd (phy_ix a) (\<lambda>h. h\<lparr>ph_active := 0\<rparr>) s"
proof -
  obtain s' where s': "phy_upd (phy_ix a) (\<lambda>h. h\<lparr>ph_count := ph_count h + 1\<rparr>) s = Some s'"
    using phy_upd_cong_get [OF h] by blast
  then have get: "get_hwr (Some a) s = Some (Some (phy_ix a), s')"
    using assms(1,2) by simp
  show "hwr_activate (Some a) s = phy_upd (phy_ix a) (\<lambda>h. h\<lparr>ph_active := 1\<rparr>) s"
    using hwr_ref_update [OF assms(1-3) s', of "\<lambda>h. h\<lparr>ph_active := 1\<rparr>"] assms(4)
    by (simp add: hwr_activate_def get del: get_hwr.simps put_hwr.simps)
      (auto simp: drop_ref_def intro!: phy_upd_cong [OF h])
  show "hwr_deactivate (Some a) s = phy_upd (phy_ix a) (\<lambda>h. h\<lparr>ph_active := 0\<rparr>) s"
    using hwr_ref_update [OF assms(1-3) s', of "\<lambda>h. h\<lparr>ph_active := 0\<rparr>"] assms(4)
    by (simp add: hwr_deactivate_def get del: get_hwr.simps put_hwr.simps)
      (auto simp: drop_ref_def intro!: phy_upd_cong [OF h])
qed

section \<open>Registration\<close>

lemma free_devs_klive:
  assumes "\<forall>d \<in> set ds. fst d \<in> set (klive s)" and "distinct (map fst ds)" and "distinct (klive s)"
  shows "free_devs ds s = Some (s\<lparr>klive := filter (\<lambda>n. n \<notin> fst ` set ds) (klive s)\<rparr>)"
  using assms
proof (induction ds arbitrary: s)
  case Nil
  then show ?case by simp
next
  case (Cons d ds)
  let ?s = "s\<lparr>klive := remove1 (fst d) (klive s)\<rparr>"
  have "free_devs ds ?s = Some (?s\<lparr>klive := filter (\<lambda>n. n \<notin> fst ` set ds) (klive ?s)\<rparr>)"
    using Cons.prems by (intro Cons.IH) (auto simp: distinct_remove1_removeAll distinct_removeAll intro: rev_image_eqI)
  moreover have "filter (\<lambda>n. n \<notin> fst ` set ds) (remove1 (fst d) (klive s)) =
      filter (\<lambda>n. n \<notin> fst ` set (d # ds)) (klive s)"
    using Cons.prems(3)
    by (simp add: distinct_remove1_removeAll removeAll_filter_not_eq) (metis (mono_tags, lifting))
  ultimately show ?case using Cons.prems(1) by simp
qed

text \<open>
  What the allocation loop can do with an empty array: nothing, one device, a failed allocation, or
  a store outside the array.
\<close>

lemma alloc_devs_cases:
  "alloc_devs 0 [] s = Some (True, [], s)"
  "kalloc_ok s (nalloc s) \<Longrightarrow> alloc_devs (Suc 0) [] s =
     Some (True, [(nalloc s, junk_phyhwr s (nalloc s))],
       s\<lparr>nalloc := Suc (nalloc s), klive := nalloc s # klive s\<rparr>)"
  "\<not> kalloc_ok s (nalloc s) \<Longrightarrow> alloc_devs (Suc n) [] s = Some (False, [], s\<lparr>nalloc := Suc (nalloc s)\<rparr>)"
  "kalloc_ok s (nalloc s) \<Longrightarrow> alloc_devs (Suc (Suc n)) [] s = None"
  by (simp_all add: kmalloc_def)

text \<open>Registration of a driver that fits the tables, by the outcome of its allocations.\<close>

lemma register_hwrtype_outcomes:
  assumes p: "htstore s p = Some ht" and c: "c = unat (ht_type ht)" "c < MAX_HWRTYPES"
    and len: "length (hwrtypes s) = MAX_HWRTYPES" "length (phyhwrs s) = MAX_HWRTYPES"
    and free: "hwrtypes s ! c = None" "phyhwrs s ! c = None"
  shows "\<not> kalloc_ok s (nalloc s) \<Longrightarrow>
      register_hwrtype p s = Some (-1, s\<lparr>nalloc := Suc (nalloc s)\<rparr>)"
    and "kalloc_ok s (nalloc s) \<Longrightarrow> \<not> kalloc_ok s (Suc (nalloc s)) \<Longrightarrow> unat (ht_num_devs ht) = Suc n \<Longrightarrow>
      register_hwrtype p s = Some (-1, s\<lparr>nalloc := Suc (Suc (nalloc s))\<rparr>)"
    and "kalloc_ok s (nalloc s) \<Longrightarrow> kalloc_ok s (Suc (nalloc s)) \<Longrightarrow> unat (ht_num_devs ht) = Suc (Suc n) \<Longrightarrow>
      register_hwrtype p s = None"
    and "kalloc_ok s (nalloc s) \<Longrightarrow> unat (ht_num_devs ht) = 0 \<Longrightarrow> \<exists>s'. register_hwrtype p s = Some (0, s')"
    and "kalloc_ok s (nalloc s) \<Longrightarrow> kalloc_ok s (Suc (nalloc s)) \<Longrightarrow> unat (ht_num_devs ht) = Suc 0 \<Longrightarrow>
      register_hwrtype p s = Some (0, s\<lparr>
        nalloc := Suc (Suc (nalloc s)), klive := Suc (nalloc s) # nalloc s # klive s,
        phyhwrs := (phyhwrs s)[c := Some (nalloc s, [(Suc (nalloc s), junk_phyhwr s (Suc (nalloc s)))])],
        hwrtypes := (hwrtypes s)[c := Some p],
        htstore := (htstore s)(p \<mapsto> ht\<lparr>ht_count := ht_count ht + 1\<rparr>)\<rparr>)"
proof -
  have "\<not> MAX_HWRTYPES < c" and id: "(phyhwrs s)[c := None] = phyhwrs s"
    using c(2) free list_update_id [of "phyhwrs s" c] by simp_all
  note u = register_hwrtype_def p Let_def c(1) [symmetric] c(2) len free ht_upd_def kmalloc_def this
  show "\<not> kalloc_ok s (nalloc s) \<Longrightarrow>
      register_hwrtype p s = Some (-1, s\<lparr>nalloc := Suc (nalloc s)\<rparr>)"
    by (simp add: u)
  show "kalloc_ok s (nalloc s) \<Longrightarrow> \<not> kalloc_ok s (Suc (nalloc s)) \<Longrightarrow> unat (ht_num_devs ht) = Suc n \<Longrightarrow>
      register_hwrtype p s = Some (-1, s\<lparr>nalloc := Suc (Suc (nalloc s))\<rparr>)"
    by (simp add: u)
  show "kalloc_ok s (nalloc s) \<Longrightarrow> kalloc_ok s (Suc (nalloc s)) \<Longrightarrow> unat (ht_num_devs ht) = Suc (Suc n) \<Longrightarrow>
      register_hwrtype p s = None"
    by (simp add: u)
  show "kalloc_ok s (nalloc s) \<Longrightarrow> unat (ht_num_devs ht) = 0 \<Longrightarrow> \<exists>s'. register_hwrtype p s = Some (0, s')"
    by (simp add: u)
  show "kalloc_ok s (nalloc s) \<Longrightarrow> kalloc_ok s (Suc (nalloc s)) \<Longrightarrow> unat (ht_num_devs ht) = Suc 0 \<Longrightarrow>
      register_hwrtype p s = Some (0, s\<lparr>
        nalloc := Suc (Suc (nalloc s)), klive := Suc (nalloc s) # nalloc s # klive s,
        phyhwrs := (phyhwrs s)[c := Some (nalloc s, [(Suc (nalloc s), junk_phyhwr s (Suc (nalloc s)))])],
        hwrtypes := (hwrtypes s)[c := Some p],
        htstore := (htstore s)(p \<mapsto> ht\<lparr>ht_count := ht_count ht + 1\<rparr>)\<rparr>)"
    by (simp add: u)
qed


text \<open>C11: unregistering a driver right after registering it succeeds and restores everything: the
  slot of both tables, the driver's use count and the live allocations.\<close>

theorem register_unregister_hwrtype:
  assumes p: "htstore s p = Some ht" and c: "unat (ht_type ht) < MAX_HWRTYPES"
    and wf: "hwr_wf s" and free: "hwrtypes s ! unat (ht_type ht) = None" "phyhwrs s ! unat (ht_type ht) = None"
    and one: "ht_num_devs ht = 1" "ht_count ht = 0"
    and mem: "kalloc_ok s (nalloc s)" "kalloc_ok s (Suc (nalloc s))"
  shows "\<exists>s1 s2. register_hwrtype p s = Some (0, s1) \<and> unregister_hwrtype p s1 = Some (0, s2) \<and>
    hwrtypes s2 = hwrtypes s \<and> phyhwrs s2 = phyhwrs s \<and> htstore s2 = htstore s \<and> klive s2 = klive s"
proof -
  let ?c = "unat (ht_type ht)"
  note len = hwr_wf_lengths [OF wf]
  have one': "unat (ht_num_devs ht) = Suc 0" using one(1) by simp
  note reg = register_hwrtype_outcomes(5) [OF p refl c len free mem one']
  have ht: "ht\<lparr>ht_count := 0\<rparr> = ht" using one(2) by (cases ht) simp
  show ?thesis
    using c len one(2) list_update_id [of "phyhwrs s" ?c] list_update_id [of "hwrtypes s" ?c] free
    by (simp add: reg unregister_hwrtype_def ht_upd_def one' ht fun_upd_idem p)
qed

text \<open>Two limits of registration. A driver of type 16 passes the range check and is then looked up
  one past the end of the table; a driver with two or more devices is given an array with room for
  one pointer, so that storing the second is outside it.\<close>

theorem register_hwrtype_overruns:
  assumes "hwr_wf s" and "htstore s p = Some ht"
    and "ht_type ht = 16 \<or> (unat (ht_type ht) < MAX_HWRTYPES \<and> 2 \<le> unat (ht_num_devs ht) \<and>
      hwrtypes s ! unat (ht_type ht) = None \<and> phyhwrs s ! unat (ht_type ht) = None \<and>
      kalloc_ok s (nalloc s) \<and> kalloc_ok s (Suc (nalloc s)))"
  shows "register_hwrtype p s = None"
  using assms(3)
proof
  assume "ht_type ht = 16"
  then show ?thesis
    using assms(1,2) by (simp add: register_hwrtype_def Let_def arr_get_def hwr_wf_lengths)
next
  assume big: "unat (ht_type ht) < MAX_HWRTYPES \<and> 2 \<le> unat (ht_num_devs ht) \<and>
      hwrtypes s ! unat (ht_type ht) = None \<and> phyhwrs s ! unat (ht_type ht) = None \<and>
      kalloc_ok s (nalloc s) \<and> kalloc_ok s (Suc (nalloc s))"
  then obtain n where "unat (ht_num_devs ht) = Suc (Suc n)"
    by (metis Suc_le_D numeral_2_eq_2 Suc_le_mono)
  with big show ?thesis
    using register_hwrtype_outcomes(3) [OF assms(2) refl _ hwr_wf_lengths [OF assms(1)]] by blast
qed

text \<open>C4: with well-formed tables none of the reference counting functions faults, whatever address
  it is given, and each leaves the tables well-formed.\<close>

theorem hwr_refs_safe:
  assumes wf: "hwr_wf s"
  shows "(\<exists>r s'. get_hwrops a s = Some (r, s') \<and> hwr_wf s') \<and>
    (\<exists>s'. put_hwrops a s = Some s' \<and> hwr_wf s') \<and>
    (\<exists>r s'. get_hwr (Some a) s = Some (r, s') \<and> hwr_wf s') \<and>
    (\<exists>s'. put_hwr (Some a) s = Some s' \<and> hwr_wf s') \<and>
    (\<exists>s'. hwr_activate (Some a) s = Some s' \<and> hwr_wf s') \<and>
    (\<exists>s'. hwr_deactivate (Some a) s = Some s' \<and> hwr_wf s')"
  using wf
proof (cases rule: get_hwr_cases [where a = a])
  case absent
  then show ?thesis
    using get_hwrops_safe [OF wf] put_hwrops_safe [OF wf] wf
    by (auto simp: hwr_activate_def hwr_deactivate_def simp del: get_hwr.simps put_hwr.simps)
next
  case (present h s')
  have upd: "\<exists>s''. phy_upd (phy_ix a) f s = Some s'' \<and> hwr_wf s''" for f
    using phy_upd_cong_get [OF present(3)] hwr_wf_phy_upd [OF wf] by blast
  have "put_hwr (Some a) s = phy_upd (phy_ix a) drop_ref s"
    using present(1,2) by simp
  moreover have "hwr_wf s'" using hwr_wf_phy_upd [OF wf present(4)] .
  ultimately show ?thesis
    using upd get_hwrops_safe [OF wf] put_hwrops_safe [OF wf] present(5)
      hwr_ref_update [OF present(2,1,3,4)]
    by (simp add: hwr_activate_def hwr_deactivate_def del: get_hwr.simps put_hwr.simps)
qed

section \<open>Example states\<close>

text \<open>
  The kernel after \<^const>\<open>hwr_init\<close>, with room for every allocation and three driver structures: one with a single
  device, one with two, and one whose type is just outside the tables.
\<close>

definition boot_hwr :: hwr_state where
  "boot_hwr = hwr_init \<lparr>kalloc_ok = (\<lambda>_. True), nalloc = 0, klive = [],
     htstore = [1 \<mapsto> \<lparr>ht_name = ''rhino'', ht_type = HAC_RHINO, ht_count = 0, ht_num_devs = 1, ht_ops = Some 5\<rparr>,
                2 \<mapsto> \<lparr>ht_name = ''two'', ht_type = 3, ht_count = 0, ht_num_devs = 2, ht_ops = Some 6\<rparr>,
                3 \<mapsto> \<lparr>ht_name = ''far'', ht_type = 16, ht_count = 0, ht_num_devs = 1, ht_ops = Some 6\<rparr>],
     hwrtypes = [], phyhwrs = [], iobufs = Map.empty,
     junk_phyhwr = (\<lambda>_. \<lparr>ph_hwraddr = \<lparr>hwa_class = 0, hwa_addr = 0\<rparr>, ph_count = 0, ph_active = 0, ph_task = None\<rparr>)\<rparr>"

lemma boot_hwr_wf: "hwr_wf boot_hwr" "hwr_wf (boot_hwr\<lparr>kalloc_ok := f\<rparr>)"
  by (simp_all add: hwr_wf_def boot_hwr_def hwr_init_def)


theorem register_unregister_hwrtype_witness:
  "\<exists>s1 s2. register_hwrtype 1 boot_hwr = Some (0, s1) \<and> unregister_hwrtype 1 s1 = Some (0, s2) \<and>
     klive s2 = []"
  using register_unregister_hwrtype [of boot_hwr 1
      "\<lparr>ht_name = ''rhino'', ht_type = HAC_RHINO, ht_count = 0, ht_num_devs = 1, ht_ops = Some 5\<rparr>"] boot_hwr_wf(1)
  by (simp add: boot_hwr_def hwr_init_def) blast

theorem register_hwrtype_overruns_witness:
  "register_hwrtype 2 boot_hwr = None \<and> register_hwrtype 3 boot_hwr = None"
  using register_hwrtype_overruns [OF boot_hwr_wf(1), of 2] register_hwrtype_overruns [OF boot_hwr_wf(1), of 3]
  by (simp add: boot_hwr_def hwr_init_def)

theorem hwr_refs_safe_witness:
  "\<exists>r s'. get_hwrops \<lparr>hwa_class = HAC_RHINO, hwa_addr = 0\<rparr> boot_hwr = Some (r, s') \<and> hwr_wf s'"
  using hwr_refs_safe [OF boot_hwr_wf(1)] by blast

end
