(* ===== verification/RhinoBus.thy ===== *)
theory RhinoBus
  imports Hwr
begin

text \<open>
  First part of the RHINO driver (\<open>src/borph/kernel/hwr/hwrtype_rhino.c\<close>): its state, the GPMC
  windows through which the processor reaches FPGA registers, the transfer of register contents
  in 16-bit words, and the semaphore that guards the one transfer buffer.

  The hardware and the kernel services around the driver are parameters of the state. \<open>fpga_read\<close>
  is the value the FPGA returns at an address after a history of bus writes; \<open>gpio_in\<close> the level of
  an input pin at its \<open>n\<close>-th sample; \<open>spi_status\<close> the status with which transfer number \<open>n\<close> completes
  and \<open>spi_ready\<close> how many queued transfers complete before part \<open>n\<close> is counted; \<open>sig_arrives\<close>
  tells whether a signal interrupts a wait for the semaphore that would otherwise not end.
\<close>

section \<open>State of the driver\<close>

record fpga_map =
  cs_base :: "u32 list"
  cs_virtual :: "u32 list"

record config_part =
  ctp_ptr :: nat
  ctp_page :: nat
  ctp_number :: nat
  ctp_last :: bool
  ctp_data :: "u8 list"

record rhino_state = hwr_state +
  rhino_page :: kptr
  rhino_iobuf :: kptr
  fpga_bus :: "(nat \<times> fpga_map) option"
  rhino_fpga :: bool
  part_cache :: bool
  rhino_sem :: nat
  sig_arrives :: bool
  config_transfer_parts :: int
  data_sent :: nat
  spi_pending :: "config_part list"
  spi_status :: "nat \<Rightarrow> int"
  spi_ready :: "nat \<Rightarrow> nat"
  spi_setup_ret :: int
  spi_registered :: bool
  fpga_rx :: "u8 list"
  gpio_out :: "(nat \<times> bool) list"
  gpio_in :: "nat \<Rightarrow> nat \<Rightarrow> bool"
  gpio_reads :: nat
  fpga_read :: "(u32 \<times> u16) list \<Rightarrow> u32 \<Rightarrow> u16"
  bus_writes :: "(u32 \<times> u16) list"
  memreg_ok :: "u32 \<Rightarrow> bool"
  ioremap_to :: "u32 \<Rightarrow> u32"
  mem_regions :: "u32 list"
  io_mapped :: "u32 list"
  page_junk :: "nat \<Rightarrow> u8"
  iobuf_junk :: hwr_iobuf

text \<open>Addresses of the two static structures of the module.\<close>

abbreviation (input) RHINO_HT :: nat where "RHINO_HT \<equiv> 4"
abbreviation (input) RHINO_OPS :: nat where "RHINO_OPS \<equiv> 5"

definition hwrtype_rhino :: hwrtype where
  "hwrtype_rhino = \<lparr>ht_name = ''rhino'', ht_type = HAC_RHINO, ht_count = 0, ht_num_devs = 1,
     ht_ops = Some RHINO_OPS\<rparr>"

text \<open>Pins, windows and limits of the driver.\<close>

abbreviation (input) PROG_B :: nat where "PROG_B \<equiv> 126"
abbreviation (input) INIT_B :: nat where "INIT_B \<equiv> 127"
abbreviation (input) INIT_B_DIR :: nat where "INIT_B_DIR \<equiv> 129"
abbreviation (input) DONE :: nat where "DONE \<equiv> 128"
abbreviation (input) CFG_INITB_WAIT :: nat where "CFG_INITB_WAIT \<equiv> 4000000"
abbreviation (input) CFG_DONE_WAIT :: nat where "CFG_DONE_WAIT \<equiv> 100000"
abbreviation (input) FPGA_VCCINT :: nat where "FPGA_VCCINT \<equiv> 99"
abbreviation (input) FPGA_VCCO_AUX :: nat where "FPGA_VCCO_AUX \<equiv> 100"
abbreviation (input) FPGA_VCCMGT :: nat where "FPGA_VCCMGT \<equiv> 101"
abbreviation (input) SZ_128M :: u32 where "SZ_128M \<equiv> 0x08000000"

definition FPGA_CS_BASE :: "u32 list" where
  "FPGA_CS_BASE = [0x08000000, 0x10000000, 0x18000000, 0x20000000, 0x28000000, 0x38000000]"

section \<open>Pins\<close>

definition gpio_put :: "nat \<Rightarrow> bool \<Rightarrow> 'a rhino_state_scheme \<Rightarrow> 'a rhino_state_scheme" where
  "gpio_put pin v s = s\<lparr>gpio_out := gpio_out s @ [(pin, v)]\<rparr>"

definition gpio_get_value :: "nat \<Rightarrow> 'a rhino_state_scheme \<Rightarrow> bool \<times> 'a rhino_state_scheme" where
  "gpio_get_value pin s = (gpio_in s pin (gpio_reads s), s\<lparr>gpio_reads := Suc (gpio_reads s)\<rparr>)"

definition rhino_set_fpga_psu :: "bool \<Rightarrow> 'a rhino_state_scheme \<Rightarrow> 'a rhino_state_scheme" where
  "rhino_set_fpga_psu enable s =
     gpio_put FPGA_VCCMGT enable (gpio_put FPGA_VCCO_AUX enable (gpio_put FPGA_VCCINT enable s))"

section \<open>Register windows\<close>

text \<open>
  The first window that holds the location, in the order of the tests; \<^const>\<open>None\<close> when there is
  none.
\<close>

definition in_window :: "u32 \<Rightarrow> u32 \<Rightarrow> bool" where
  "in_window base loc \<longleftrightarrow> base \<le> loc \<and> loc < base + SZ_128M"

definition cs_of :: "u32 \<Rightarrow> nat option" where
  "cs_of loc = find (\<lambda>k. in_window (FPGA_CS_BASE ! k) loc) [0, 1, 2, 3, 4, 5]"

definition get_mapped_location :: "u32 \<Rightarrow> 'a rhino_state_scheme \<Rightarrow> u32 option" where
  "get_mapped_location reg_loc s =
     (case cs_of reg_loc of
        None \<Rightarrow> Some reg_loc
      | Some k \<Rightarrow> do {
          (_, bus) \<leftarrow> fpga_bus s;
          v \<leftarrow> arr_get (cs_virtual bus) k;
          Some (v + (reg_loc - FPGA_CS_BASE ! k)) })"

section \<open>Transfers in 16-bit words\<close>

fun send_words :: "nat \<Rightarrow> u8 list \<Rightarrow> u32 \<Rightarrow> (u32 \<times> u16) list option" where
  "send_words 0 bs dst = Some []"
| "send_words (Suc n) (a # b # bs) dst =
     do { ws \<leftarrow> send_words n bs (dst + 2); Some ((dst, dec16 [a, b]) # ws) }"
| "send_words (Suc n) _ dst = None"

fun recv_words :: "(u32 \<Rightarrow> u16) \<Rightarrow> nat \<Rightarrow> u32 \<Rightarrow> u8 list" where
  "recv_words rd 0 src = []"
| "recv_words rd (Suc n) src = enc16 (rd src) @ recv_words rd n (src + 2)"

definition rhino_send_iobuf :: "nat \<Rightarrow> 'a rhino_state_scheme \<Rightarrow> (int \<times> 'a rhino_state_scheme) option" where
  "rhino_send_iobuf b s = do {
     io \<leftarrow> iobufs s b;
     let count = io_size io div 2;
     loc \<leftarrow> get_mapped_location (io_location io) s;
     ws \<leftarrow> send_words count (io_data io) (loc + io_offset io);
     Some (int (count * 2), s\<lparr>bus_writes := bus_writes s @ ws\<rparr>) }"

definition rhino_recv_iobuf :: "nat \<Rightarrow> 'a rhino_state_scheme \<Rightarrow> (int \<times> 'a rhino_state_scheme) option" where
  "rhino_recv_iobuf b s = do {
     io \<leftarrow> iobufs s b;
     let count = io_size io div 2;
     loc \<leftarrow> get_mapped_location (io_location io) s;
     if length (io_data io) < count * 2 then None
     else Some (int (count * 2), s\<lparr>iobufs := (iobufs s)(b \<mapsto> io\<lparr>io_data :=
       overlay (recv_words (fpga_read s (bus_writes s)) count (loc + io_offset io)) (io_data io)\<rparr>)\<rparr>) }"

section \<open>The transfer buffer and its semaphore\<close>

text \<open>
  \<open>down_interruptible\<close> takes the semaphore when it is free. Otherwise the caller sleeps; with no
  other thread running it returns only when a signal arrives, and \<^const>\<open>None\<close> is the wait that
  does not end.
\<close>

definition down_interruptible :: "'a rhino_state_scheme \<Rightarrow> (bool \<times> 'a rhino_state_scheme) option" where
  "down_interruptible s =
     (if 0 < rhino_sem s then Some (True, s\<lparr>rhino_sem := rhino_sem s - 1\<rparr>)
      else if sig_arrives s then Some (False, s) else None)"

definition up :: "'a rhino_state_scheme \<Rightarrow> 'a rhino_state_scheme" where
  "up s = s\<lparr>rhino_sem := Suc (rhino_sem s)\<rparr>"

definition rhino_get_iobuf :: "'a rhino_state_scheme \<Rightarrow> (nat option \<times> 'a rhino_state_scheme) option" where
  "rhino_get_iobuf s = do {
     (got, s) \<leftarrow> down_interruptible s;
     if \<not> got then Some (None, s)
     else (case rhino_iobuf s of
         KPtr b \<Rightarrow> do {
           io \<leftarrow> iobufs s b;
           Some (Some b, s\<lparr>iobufs := (iobufs s)(b \<mapsto> io\<lparr>io_size := PAGE_SIZE - 12\<rparr>)\<rparr>) }
       | _ \<Rightarrow> None) }"

definition rhino_put_iobuf :: "nat \<Rightarrow> 'a rhino_state_scheme \<Rightarrow> (int \<times> 'a rhino_state_scheme) option" where
  "rhino_put_iobuf b s = Some (0, up s)"

section \<open>Physical regions of the RHINO board\<close>

text \<open>
  There is one region. \<open>atomic_inc_and_test\<close> finds a free region at count \<open>-1\<close>; a region in use has
  its count raised and lowered again.
\<close>

fun rhino_reserve_hwr :: "hwr_addr option \<Rightarrow> 'a rhino_state_scheme \<Rightarrow> (phyref option \<times> 'a rhino_state_scheme) option" where
  "rhino_reserve_hwr None s = None"
| "rhino_reserve_hwr (Some a) s =
     (if hwa_class a \<noteq> HAC_RHINO then Some (None, s)
      else if 1 \<le> hwa_addr a then Some (None, s)
      else do {
        s \<leftarrow> phy_upd (phy_ix a) (\<lambda>h. h\<lparr>ph_count := ph_count h + 1\<rparr>) s;
        h \<leftarrow> phy_get s (phy_ix a);
        if ph_count h \<noteq> 0 then do {
          s \<leftarrow> phy_upd (phy_ix a) (\<lambda>h. h\<lparr>ph_count := ph_count h - 1\<rparr>) s;
          Some (None, s) }
        else do {
          s \<leftarrow> phy_upd (phy_ix a) (\<lambda>h. h\<lparr>ph_count := ph_count h + 1\<rparr>) s;
          Some (Some (phy_ix a), s) } })"

fun rhino_release_hwr :: "hwr_addr option \<Rightarrow> 'a rhino_state_scheme \<Rightarrow> 'a rhino_state_scheme option" where
  "rhino_release_hwr None s = None"
| "rhino_release_hwr (Some a) s =
     (if hwa_class a \<noteq> HAC_RHINO then Some s
      else if 1 \<le> hwa_addr a then Some s
      else phy_upd (phy_ix a) drop_ref s)"

section \<open>Transfers as lists of words\<close>

lemma send_words_eq:
  "2 * n \<le> length bs \<Longrightarrow>
     send_words n bs dst = Some (map (\<lambda>i. (dst + of_nat (2 * i), dec16 (chunk (2 * i) 2 bs))) [0..<n])"
proof (induction n bs dst rule: send_words.induct)
  case (2 n a b bs dst)
  then show ?case
    by (simp add: upt_conv_Cons map_Suc_upt [symmetric] chunk_def comp_def add.assoc del: upt_Suc)
qed simp_all

lemma send_words_overrun: "length bs < 2 * n \<Longrightarrow> send_words n bs dst = None"
  by (induction n bs dst rule: send_words.induct) auto

lemma recv_words_eq:
  "recv_words rd n src = concat (map (\<lambda>i. enc16 (rd (src + of_nat (2 * i)))) [0..<n])"
  by (induction rd n src rule: recv_words.induct)
    (simp_all add: upt_conv_Cons map_Suc_upt [symmetric] comp_def add.assoc del: upt_Suc)

lemma length_recv_words [simp]: "length (recv_words rd n src) = 2 * n"
  by (induction rd n src rule: recv_words.induct) (simp_all add: layout_simps)

lemma concat_chunks: "2 * n \<le> length bs \<Longrightarrow> concat (map (\<lambda>i. chunk (2 * i) 2 bs) [0..<n]) = take (2 * n) bs"
proof (induction n)
  case (Suc n)
  then show ?case by (simp add: chunk_def take_add [symmetric])
qed simp

text \<open>An FPGA whose registers are memory: a read returns the last value written there.\<close>

definition memory_device :: "(u32 \<times> u16) list \<Rightarrow> u32 \<Rightarrow> u16" where
  "memory_device hist addr = (case map_of (rev hist) addr of None \<Rightarrow> 0 | Some v \<Rightarrow> v)"

lemma word_addresses_distinct:
  "n \<le> 2 ^ 31 \<Longrightarrow> inj_on (\<lambda>i. dst + of_nat (2 * i) :: u32) {..<n}"
proof (rule inj_onI)
  fix i j assume n: "n \<le> 2 ^ 31" and ij: "i \<in> {..<n}" "j \<in> {..<n}"
    and eq: "dst + of_nat (2 * i) = (dst + of_nat (2 * j) :: u32)"
  have "unat (of_nat (2 * i) :: u32) = 2 * i" "unat (of_nat (2 * j) :: u32) = 2 * j"
    using n ij by (simp_all add: unat_of_nat del: of_nat_mult)
  then show "i = j" using eq by (metis add_left_cancel mult_left_cancel zero_neq_numeral)
qed

lemma memory_device_last:
  assumes "distinct (map fst ws)" and "(a, v) \<in> set ws"
  shows "memory_device (hist @ ws) a = v"
proof -
  have "map_of (rev ws) a = Some v"
    using assms by (intro map_of_is_SomeI) (simp_all add: rev_map [symmetric])
  then show ?thesis by (simp add: memory_device_def map_add_find_right)
qed

lemma recv_after_send:
  assumes n: "2 * n \<le> length bs" "n \<le> 2 ^ 31" and ws: "send_words n bs dst = Some ws"
  shows "recv_words (memory_device (hist @ ws)) n dst = take (2 * n) bs"
proof -
  have ws_eq: "ws = map (\<lambda>i. (dst + of_nat (2 * i), dec16 (chunk (2 * i) 2 bs))) [0..<n]"
    using ws send_words_eq [OF n(1)] by simp
  have "distinct (map fst ws)"
    using word_addresses_distinct [OF n(2), of dst]
    by (simp add: ws_eq comp_def distinct_map atLeast0LessThan)
  then have "memory_device (hist @ ws) (dst + of_nat (2 * i)) = dec16 (chunk (2 * i) 2 bs)"
    if "i < n" for i
    by (rule memory_device_last) (use that in \<open>auto simp: ws_eq\<close>)
  then have "recv_words (memory_device (hist @ ws)) n dst =
      concat (map (\<lambda>i. enc16 (dec16 (chunk (2 * i) 2 bs))) [0..<n])"
    unfolding recv_words_eq by (intro arg_cong [of _ _ concat] map_cong) auto
  also have "\<dots> = concat (map (\<lambda>i. chunk (2 * i) 2 bs) [0..<n])"
    using n(1) by (intro arg_cong [of _ _ concat] map_cong) (auto simp: u16c.enc_dec)
  also have "\<dots> = take (2 * n) bs"
    by (rule concat_chunks [OF n(1)])
  finally show ?thesis .
qed

section \<open>Location of a register on the bus\<close>

lemma in_window_nat:
  "unat base + 0x08000000 < 2 ^ 32 \<Longrightarrow>
     in_window base loc \<longleftrightarrow> unat base \<le> unat loc \<and> unat loc < unat base + 0x08000000"
  by (simp add: in_window_def word_le_nat_alt word_less_nat_alt unat_word_ariths)

lemma cs_base_values:
  "unat (FPGA_CS_BASE ! 0) = 0x08000000" "unat (FPGA_CS_BASE ! Suc 0) = 0x10000000"
  "unat (FPGA_CS_BASE ! 2) = 0x18000000" "unat (FPGA_CS_BASE ! 3) = 0x20000000"
  "unat (FPGA_CS_BASE ! 4) = 0x28000000" "unat (FPGA_CS_BASE ! 5) = 0x38000000"
  by (simp_all add: FPGA_CS_BASE_def)

lemma unat_in_cs_window:
  assumes "k < 6" and "u < SZ_128M"
  shows "unat (FPGA_CS_BASE ! k + u) = unat (FPGA_CS_BASE ! k) + unat u"
    and "unat (FPGA_CS_BASE ! k) + 0x08000000 < 2 ^ 32" and "unat u < 0x08000000"
proof -
  have "k \<in> {0, 1, 2, 3, 4, 5}" using assms(1) by auto
  moreover have u: "unat u < 0x08000000" using assms(2) by (simp add: word_less_nat_alt)
  ultimately show "unat (FPGA_CS_BASE ! k + u) = unat (FPGA_CS_BASE ! k) + unat u"
    and "unat (FPGA_CS_BASE ! k) + 0x08000000 < 2 ^ 32" and "unat u < 0x08000000"
    by (auto simp: FPGA_CS_BASE_def unat_word_ariths)
qed

lemma in_window_cs:
  assumes "j < 6" and "k < 6" and "u < SZ_128M"
  shows "in_window (FPGA_CS_BASE ! j) (FPGA_CS_BASE ! k + u) \<longleftrightarrow>
      unat (FPGA_CS_BASE ! j) \<le> unat (FPGA_CS_BASE ! k) + unat u \<and>
      unat (FPGA_CS_BASE ! k) + unat u < unat (FPGA_CS_BASE ! j) + 0x08000000"
  using unat_in_cs_window [OF assms(2,3)] unat_in_cs_window(2) [OF assms(1,3)]
  by (simp add: in_window_nat)

lemma cs_of_window:
  assumes "k < 6" and "u < SZ_128M"
  shows "cs_of (FPGA_CS_BASE ! k + u) = Some k"
proof -
  have "k = 0 \<or> k = Suc 0 \<or> k = 2 \<or> k = 3 \<or> k = 4 \<or> k = 5" using assms(1) by auto
  then show ?thesis
    using unat_in_cs_window(3) [OF assms] assms(2)
    by (elim disjE) (simp_all add: cs_of_def in_window_cs cs_base_values)
qed

section \<open>Reservation of the region\<close>

lemma rhino_reserve_free:
  assumes "hwa_class a = HAC_RHINO" "hwa_addr a = 0" and h: "phy_get s (phy_ix a) = Some h"
    and "ph_count h = -1"
  shows "rhino_reserve_hwr (Some a) s =
    map_option (Pair (Some (phy_ix a))) (phy_upd (phy_ix a) (\<lambda>h. h\<lparr>ph_count := 1\<rparr>) s)"
proof -
  let ?inc = "\<lambda>h. h\<lparr>ph_count := ph_count h + 1\<rparr>"
  obtain s' where s': "phy_upd (phy_ix a) ?inc s = Some s'" and h': "phy_get s' (phy_ix a) = Some (?inc h)"
    using phy_upd_cong_get [OF h] by blast
  have "phy_upd (phy_ix a) ?inc s' = phy_upd (phy_ix a) (\<lambda>h. h\<lparr>ph_count := 1\<rparr>) s"
    unfolding phy_upd_upd [OF s'] using assms(4) by (intro phy_upd_cong [OF h]) simp
  then show ?thesis
    using assms s' h' by (auto split: bind_splits)
qed

lemma rhino_reserve_busy:
  assumes "hwa_class a = HAC_RHINO" "hwa_addr a = 0" and h: "phy_get s (phy_ix a) = Some h"
    and "ph_count h \<noteq> -1"
  shows "rhino_reserve_hwr (Some a) s = Some (None, s)"
proof -
  let ?inc = "\<lambda>h. h\<lparr>ph_count := ph_count h + 1\<rparr>" and ?dec = "\<lambda>h. h\<lparr>ph_count := ph_count h - 1\<rparr>"
  obtain s' where s': "phy_upd (phy_ix a) ?inc s = Some s'" and h': "phy_get s' (phy_ix a) = Some (?inc h)"
    using phy_upd_cong_get [OF h] by blast
  have "phy_upd (phy_ix a) ?dec s' = Some s"
    unfolding phy_upd_upd [OF s'] using h by (rule phy_upd_id) simp
  then show ?thesis
    using assms s' h' by auto
qed

section \<open>Properties of register access\<close>

text \<open>
  C12: what is sent to registers is read back. On an FPGA whose registers are memory, sending a buffer
  and then receiving into one with the same location, offset and size moves the even part of the
  size both ways and restores exactly those bytes.
\<close>

theorem rhino_iobuf_roundtrip:
  assumes io: "iobufs s b = Some io" and dev: "fpga_read s = memory_device"
    and loc: "get_mapped_location (io_location io) s = Some l"
    and size: "io_size io \<le> length (io_data io)" "io_size io < 2 ^ 32"
    and io': "io_location io' = io_location io" "io_offset io' = io_offset io" "io_size io' = io_size io"
      "length (io_data io') = length (io_data io)"
  shows "\<exists>s1 s2 io2. rhino_send_iobuf b s = Some (int (io_size io div 2 * 2), s1) \<and>
    rhino_recv_iobuf b (s1\<lparr>iobufs := (iobufs s1)(b \<mapsto> io')\<rparr>) = Some (int (io_size io div 2 * 2), s2) \<and>
    iobufs s2 b = Some io2 \<and>
    io_data io2 = overlay (take (io_size io div 2 * 2) (io_data io)) (io_data io')"
proof -
  let ?n = "io_size io div 2"
  have n: "2 * ?n \<le> length (io_data io)" "?n \<le> 2 ^ 31" using size by auto
  obtain ws where ws: "send_words ?n (io_data io) (l + io_offset io) = Some ws"
    using send_words_eq [OF n(1)] by blast
  have "recv_words (memory_device (bus_writes s @ ws)) ?n (l + io_offset io) = take (2 * ?n) (io_data io)"
    using n ws by (rule recv_after_send)
  moreover have "get_mapped_location (io_location io)
      (s\<lparr>bus_writes := x, iobufs := y\<rparr>) = Some l" for x y
    using loc by (simp add: get_mapped_location_def cong: option.case_cong)
  ultimately show ?thesis
    using io dev loc ws io' n(1)
    by (simp add: rhino_send_iobuf_def rhino_recv_iobuf_def mult.commute [of _ 2] not_less Let_def)
qed

section \<open>Example state\<close>

text \<open>
  A board whose services all succeed: the FPGA answers the first pulse with INIT\_B low at once and high
  at the next sample, its registers are memory, and each window is mapped at its physical address.
\<close>

definition rhino_boot :: rhino_state where
  "rhino_boot = hwr_init \<lparr>kalloc_ok = (\<lambda>_. True), nalloc = 0, klive = [],
     htstore = [RHINO_HT \<mapsto> hwrtype_rhino], hwrtypes = [], phyhwrs = [], iobufs = Map.empty,
     junk_phyhwr = (\<lambda>_. \<lparr>ph_hwraddr = \<lparr>hwa_class = 0, hwa_addr = 0\<rparr>, ph_count = 0, ph_active = 0, ph_task = None\<rparr>),
     rhino_page = KNull, rhino_iobuf = KNull, fpga_bus = None, rhino_fpga = True, part_cache = False,
     rhino_sem = 1, sig_arrives = False, config_transfer_parts = 0, data_sent = 0, spi_pending = [],
     spi_status = (\<lambda>_. 0), spi_ready = (\<lambda>_. 0), spi_setup_ret = 0, spi_registered = False, fpga_rx = [],
     gpio_out = [], gpio_in = (\<lambda>_ n. n \<noteq> 0), gpio_reads = 0, fpga_read = memory_device, bus_writes = [],
     memreg_ok = (\<lambda>_. True), ioremap_to = (\<lambda>b. b), mem_regions = [], io_mapped = [],
     page_junk = (\<lambda>_. 0), iobuf_junk = \<lparr>io_location = 0, io_offset = 0, io_size = 0, io_data = []\<rparr>\<rparr>"

lemma rhino_boot_wf: "hwr_wf rhino_boot"
  by (simp add: hwr_wf_def rhino_boot_def hwr_init_def)

definition boot_iobuf :: "u8 list \<Rightarrow> hwr_iobuf" where
  "boot_iobuf bs = \<lparr>io_location = 0x40000000, io_offset = 2, io_size = length bs, io_data = bs\<rparr>"

theorem rhino_iobuf_roundtrip_witness:
  "\<exists>s1 s2 io2. rhino_send_iobuf 7 (rhino_boot\<lparr>iobufs := [7 \<mapsto> boot_iobuf [1, 2, 3, 4, 5]]\<rparr>) = Some (4, s1) \<and>
     rhino_recv_iobuf 7 (s1\<lparr>iobufs := (iobufs s1)(7 \<mapsto> boot_iobuf [0, 0, 0, 0, 9])\<rparr>) = Some (4, s2) \<and>
     iobufs s2 7 = Some io2 \<and> io_data io2 = [1, 2, 3, 4, 9]"
  using rhino_iobuf_roundtrip [of "rhino_boot\<lparr>iobufs := [7 \<mapsto> boot_iobuf [1, 2, 3, 4, 5]]\<rparr>" 7
      "boot_iobuf [1, 2, 3, 4, 5]" "0x40000000" "boot_iobuf [0, 0, 0, 0, 9]"]
  by (simp add: boot_iobuf_def rhino_boot_def hwr_init_def get_mapped_location_def cs_of_def in_window_def
      FPGA_CS_BASE_def overlay_def)

end
