(* ===== verification/RhinoConfig.thy ===== *)
theory RhinoConfig
  imports RhinoBus "HOL-Library.Multiset"
begin

text \<open>
  Second part of the RHINO driver: \<open>rhino_configure\<close>, which powers the FPGA, clears its
  configuration memory with a pulse on PROG\_B, streams the bitstream through asynchronous SPI
  transfers of one page each, waits for the last of them and checks INIT\_B and DONE.

  The loop that reads the file ends only when all bytes are read, so it is a partial function:
  \<^const>\<open>None\<close> is the loop that does not end. The whole function has four outcomes: it returns a
  value, waits forever, loops forever or faults.
\<close>

datatype xfer = XSent int | XErr int | XFault

datatype cfg_outcome = CReturn int | CBlocked | CLoops | CFault

section \<open>Completion of a transfer\<close>

text \<open>
  The completion callback frees the part and then still reads its \<open>last\<close> field; the value read is
  taken to be the one stored before.
\<close>

definition spi_transfer_completed :: "config_part \<Rightarrow> 'a rhino_state_scheme \<Rightarrow> 'a rhino_state_scheme option" where
  "spi_transfer_completed ctp s = do {
     let status = spi_status s (ctp_number ctp);
     s \<leftarrow> kfree (KPtr (ctp_page ctp)) s;
     s \<leftarrow> kfree (KPtr (ctp_ptr ctp)) s;
     let s = (if status = 0 then s\<lparr>config_transfer_parts := config_transfer_parts s - 1\<rparr>
              else s\<lparr>config_transfer_parts := -1\<rparr>);
     Some (if ctp_last ctp \<or> status \<noteq> 0 then s\<lparr>data_sent := Suc (data_sent s)\<rparr> else s) }"

text \<open>The controller works through the queue in order; a transfer that succeeds reaches the FPGA.\<close>

definition spi_finish_one :: "'a rhino_state_scheme \<Rightarrow> 'a rhino_state_scheme option" where
  "spi_finish_one s =
     (case spi_pending s of
        [] \<Rightarrow> Some s
      | ctp # rest \<Rightarrow> spi_transfer_completed ctp
          (s\<lparr>spi_pending := rest,
             fpga_rx := fpga_rx s @ (if spi_status s (ctp_number ctp) = 0 then ctp_data ctp else [])\<rparr>))"

fun spi_finish :: "nat \<Rightarrow> 'a rhino_state_scheme \<Rightarrow> 'a rhino_state_scheme option" where
  "spi_finish 0 s = Some s"
| "spi_finish (Suc n) s = do { s \<leftarrow> spi_finish_one s; spi_finish n s }"

definition setup_config_transport_part :: "config_part \<Rightarrow> nat \<Rightarrow> config_part" where
  "setup_config_transport_part ctp n = ctp\<lparr>ctp_data := take n (ctp_data ctp)\<rparr>"

section \<open>Waiting for the FPGA\<close>

function wait_initb_low :: "nat \<Rightarrow> 'a rhino_state_scheme \<Rightarrow> 'a rhino_state_scheme" where
  "wait_initb_low i s =
     (if i < CFG_INITB_WAIT + 1
      then (let (v, s) = gpio_get_value INIT_B s in if \<not> v then s else wait_initb_low (i + 1) s)
      else s)"
  by pat_completeness auto
termination
  by (relation "measure (\<lambda>(i, s). CFG_INITB_WAIT + 1 - i)") auto

function wait_initb_high :: "nat \<Rightarrow> 'a rhino_state_scheme \<Rightarrow> bool \<times> 'a rhino_state_scheme" where
  "wait_initb_high i s =
     (if i < CFG_INITB_WAIT + 1
      then (let (v, s) = gpio_get_value INIT_B s
            in if v then (True, s)
               else if i = CFG_INITB_WAIT then (False, s)
               else wait_initb_high (i + 1) s)
      else (True, s))"
  by pat_completeness auto
termination
  by (relation "measure (\<lambda>(i, s). CFG_INITB_WAIT + 1 - i)") auto

declare wait_initb_low.simps [simp del] wait_initb_high.simps [simp del]

text \<open>
  \<open>wait_for_completion\<close> sleeps until a completion is signalled; only the transfers still queued can
  signal one. The second result is false when none of them does.
\<close>

fun wait_queue :: "nat \<Rightarrow> 'a rhino_state_scheme \<Rightarrow> (bool \<times> 'a rhino_state_scheme) option" where
  "wait_queue n s =
     (if 0 < data_sent s then Some (True, s\<lparr>data_sent := data_sent s - 1\<rparr>)
      else case n of
          0 \<Rightarrow> Some (False, s)
        | Suc m \<Rightarrow> do { s \<leftarrow> spi_finish_one s; wait_queue m s })"

declare wait_queue.simps [simp del]

definition wait_for_completion :: "'a rhino_state_scheme \<Rightarrow> (bool \<times> 'a rhino_state_scheme) option" where
  "wait_for_completion s = wait_queue (length (spi_pending s)) s"

section \<open>Streaming the bitstream\<close>

definition queue_part ::
  "nat \<Rightarrow> nat \<Rightarrow> nat \<Rightarrow> nat \<Rightarrow> u8 list \<Rightarrow> 'a rhino_state_scheme \<Rightarrow> 'a rhino_state_scheme" where
  "queue_part c pg number n bs s =
     s\<lparr>spi_pending := spi_pending s @ [setup_config_transport_part
         \<lparr>ctp_ptr = c, ctp_page = pg, ctp_number = number, ctp_last = (n < PAGE_SIZE),
          ctp_data = bs\<rparr> n]\<rparr>"

text \<open>
  The body of the loop: the function is left with a result, or the next round starts with the
  count of bytes read. The part comes from a cache whose objects are whole cache lines; only that
  the size is not zero matters.
\<close>

definition send_part ::
  "kfile \<Rightarrow> u32 \<Rightarrow> u32 \<Rightarrow> nat \<Rightarrow> 'a rhino_state_scheme \<Rightarrow>
     xfer \<times> 'a rhino_state_scheme + int \<times> 'a rhino_state_scheme" where
  "send_part file offset len number s =
     (case kmalloc 128 s of
        (KPtr c, s1) \<Rightarrow> (case kmalloc PAGE_SIZE s1 of
            (KPtr pg, s2) \<Rightarrow>
              (case file (unat offset) (min PAGE_SIZE (unat len)) of
                 (r, bs) \<Rightarrow>
                   if r < 0 then
                     (case do { s \<leftarrow> kfree (KPtr pg) s2; kfree (KPtr c) s } of
                        None \<Rightarrow> Inl (XFault, s2)
                      | Some s3 \<Rightarrow> Inl (XErr r, s3))
                   else
                     (case spi_finish (spi_ready s2 number) s2 of
                        None \<Rightarrow> Inl (XFault, s2)
                      | Some s3 \<Rightarrow>
                          (let s4 = s3\<lparr>config_transfer_parts := config_transfer_parts s3 + 1\<rparr>
                           in if config_transfer_parts s4 = 0 then Inl (XErr r, s4)
                              else Inr (r, queue_part c pg number (nat r) bs s4))))
          | (_, s2) \<Rightarrow> Inl (XFault, s2))
      | (_, s1) \<Rightarrow> Inl (XFault, s1))"

partial_function (option) send_bitstream ::
  "kfile \<Rightarrow> u32 \<Rightarrow> u32 \<Rightarrow> nat \<Rightarrow> int \<Rightarrow> 'a rhino_state_scheme \<Rightarrow> (xfer \<times> 'a rhino_state_scheme) option" where
  "send_bitstream file offset len number retval s =
     (if len = 0 then Some (XSent retval, s)
      else case send_part file offset len (Suc number) s of
          Inl result \<Rightarrow> Some result
        | Inr (r, s') \<Rightarrow>
            send_bitstream file (offset + of_int r) (len - of_int r) (Suc number) r s')"

definition pulse_prog_b :: "'a rhino_state_scheme \<Rightarrow> bool \<times> 'a rhino_state_scheme" where
  "pulse_prog_b s =
     (let s = rhino_set_fpga_psu True s;
          s = gpio_put PROG_B True s;
          s = gpio_put PROG_B False s;
          s = wait_initb_low 0 s;
          s = gpio_put PROG_B True s
      in wait_initb_high 0 s)"

text \<open>
  The loop that waits for DONE leaves in its first round: the pin is high and the loop is left, or
  it is low and the function fails. One sample is therefore the whole loop.
\<close>

definition rhino_configure ::
  "hwr_addr \<Rightarrow> kfile \<Rightarrow> u32 \<Rightarrow> u32 \<Rightarrow> 'a rhino_state_scheme \<Rightarrow> cfg_outcome \<times> 'a rhino_state_scheme" where
  "rhino_configure addr file offset len s =
     (if hwa_addr addr \<noteq> 0 then (CReturn (-EIO), s)
      else if \<not> rhino_fpga s then (CReturn (-EIO), s)
      else case down_interruptible s of
          None \<Rightarrow> (CBlocked, s)
        | Some (got, s) \<Rightarrow>
            if \<not> got then (CReturn (-EIO), s)
            else case pulse_prog_b s of (ready, s) \<Rightarrow>
              if \<not> ready then (CReturn (-EIO), up s)
              else case send_bitstream file offset len 0 (-EIO) (s\<lparr>config_transfer_parts := 0\<rparr>) of
                  None \<Rightarrow> (CLoops, s)
                | Some (XFault, s) \<Rightarrow> (CFault, s)
                | Some (XErr r, s) \<Rightarrow> (CReturn r, up s)
                | Some (XSent r, s) \<Rightarrow>
                    (case wait_for_completion s of
                       None \<Rightarrow> (CFault, s)
                     | Some (signalled, s) \<Rightarrow>
                         if \<not> signalled then (CBlocked, s)
                         else case gpio_get_value INIT_B s of (init, s) \<Rightarrow>
                           if \<not> init then (CReturn r, up s)
                           else case gpio_get_value DONE s of (don, s) \<Rightarrow>
                             if \<not> don then (CReturn r, up s) else (CReturn 0, up s)))"

definition rhino_unconfigure :: "hwr_addr \<Rightarrow> 'a rhino_state_scheme \<Rightarrow> (int \<times> 'a rhino_state_scheme) option" where
  "rhino_unconfigure addr s = Some (0, rhino_set_fpga_psu False s)"

section \<open>The queue of transfers\<close>

text \<open>
  While every transfer succeeds: what reached the FPGA and what is queued together are the bytes
  read so far, the counter of parts is the length of the queue, and the live objects are those
  from before and two for each queued part.
\<close>

definition xfer_inv :: "u8 list \<Rightarrow> nat multiset \<Rightarrow> 'a rhino_state_scheme \<Rightarrow> bool" where
  "xfer_inv sent live s \<longleftrightarrow>
     fpga_rx s @ concat (map ctp_data (spi_pending s)) = sent \<and>
     config_transfer_parts s = int (length (spi_pending s)) \<and>
     mset (klive s) = live + mset (map ctp_ptr (spi_pending s)) + mset (map ctp_page (spi_pending s)) \<and>
     (\<forall>n. spi_status s n = 0) \<and> (\<forall>n. kalloc_ok s n)"

text \<open>What a configuration does not touch, and what the transfers of it do not touch.\<close>

definition cfg_rest :: "'a rhino_state_scheme \<Rightarrow> 'a rhino_state_scheme" where
  "cfg_rest s = s\<lparr>nalloc := 0, klive := [], config_transfer_parts := 0, data_sent := 0,
     spi_pending := [], fpga_rx := [], gpio_out := [], gpio_reads := 0, rhino_sem := 0\<rparr>"

definition cfg_frame ::
  "'a rhino_state_scheme \<Rightarrow> nat \<times> (nat \<times> bool) list \<times> nat \<times> 'a rhino_state_scheme" where
  "cfg_frame s = (gpio_reads s, gpio_out s, rhino_sem s, cfg_rest s)"

definition none_last :: "config_part list \<Rightarrow> bool" where
  "none_last ps \<longleftrightarrow> (\<forall>p \<in> set ps. \<not> ctp_last p)"

lemma finish_one_inv:
  assumes inv: "xfer_inv sent live s" and ps: "spi_pending s = p # ps"
  shows "\<exists>s'. spi_finish_one s = Some s' \<and> xfer_inv sent live s' \<and> spi_pending s' = ps \<and>
    data_sent s' = data_sent s + (if ctp_last p then 1 else 0) \<and> cfg_frame s' = cfg_frame s"
proof -
  have live: "mset (klive s) = live + mset (map ctp_ptr (p # ps)) + mset (map ctp_page (p # ps))"
    using inv ps by (simp add: xfer_inv_def)
  then have "ctp_page p \<in># mset (klive s)" by simp
  then have page: "ctp_page p \<in> set (klive s)" by simp
  have rest: "mset (remove1 (ctp_page p) (klive s)) =
      add_mset (ctp_ptr p) (live + mset (map ctp_ptr ps) + mset (map ctp_page ps))"
    using live by (simp add: add.assoc)
  then have "ctp_ptr p \<in># mset (remove1 (ctp_page p) (klive s))" by simp
  then have ptr: "ctp_ptr p \<in> set (remove1 (ctp_page p) (klive s))" by (simp only: set_mset_mset)
  have rest': "mset (remove1 (ctp_ptr p) (remove1 (ctp_page p) (klive s))) =
      live + mset (map ctp_ptr ps) + mset (map ctp_page ps)"
    using rest by (simp only: mset_remove1 add_mset_remove_trivial)
  show ?thesis
    using inv ps page ptr rest'
    by (auto simp: spi_finish_one_def spi_transfer_completed_def xfer_inv_def cfg_frame_def cfg_rest_def Let_def)
qed

lemma finish_inv:
  assumes "xfer_inv sent live s"
  shows "\<exists>s'. spi_finish n s = Some s' \<and> xfer_inv sent live s' \<and> cfg_frame s' = cfg_frame s \<and>
    (none_last (spi_pending s) \<longrightarrow> none_last (spi_pending s') \<and> data_sent s' = data_sent s)"
  using assms
proof (induction n arbitrary: s)
  case (Suc n)
  show ?case
  proof (cases "spi_pending s")
    case Nil
    then show ?thesis using Suc.IH [OF Suc.prems] by (simp add: spi_finish_one_def)
  next
    case (Cons p ps)
    then obtain s1 where s1: "spi_finish_one s = Some s1" "xfer_inv sent live s1" "spi_pending s1 = ps"
      "data_sent s1 = data_sent s + (if ctp_last p then 1 else 0)" "cfg_frame s1 = cfg_frame s"
      using finish_one_inv [OF Suc.prems Cons] by auto
    then show ?thesis using Suc.IH [of s1] Cons by (auto simp: none_last_def)
  qed
qed simp

lemma wait_queue_inv:
  assumes "xfer_inv sent live s" and "spi_pending s = ps @ ls" and "none_last ps"
    and "ls = [] \<or> (\<exists>l. ls = [l] \<and> ctp_last l)" and "data_sent s = 0"
  shows "\<exists>s'. wait_queue (length (spi_pending s)) s = Some (ls \<noteq> [], s') \<and> xfer_inv sent live s' \<and>
    spi_pending s' = [] \<and> data_sent s' = 0 \<and> cfg_frame s' = cfg_frame s"
  using assms
proof (induction ps arbitrary: s)
  case Nil
  show ?case
  proof (cases "ls = []")
    case True
    then show ?thesis using Nil by (simp add: wait_queue.simps)
  next
    case False
    then obtain l where l: "ls = [l]" "ctp_last l" using Nil by auto
    with Nil obtain s1 where "spi_finish_one s = Some s1" "xfer_inv sent live s1" "spi_pending s1 = []"
      "data_sent s1 = 1" "cfg_frame s1 = cfg_frame s"
      using finish_one_inv [of sent live s l "[]"] by auto
    then show ?thesis
      using Nil l by (auto simp: wait_queue.simps xfer_inv_def cfg_frame_def cfg_rest_def)
  qed
next
  case (Cons p ps)
  then obtain s1 where s1: "spi_finish_one s = Some s1" "xfer_inv sent live s1" "spi_pending s1 = ps @ ls"
    "data_sent s1 = 0" "cfg_frame s1 = cfg_frame s"
    using finish_one_inv [of sent live s p "ps @ ls"] by (auto simp: none_last_def)
  then have "\<exists>s'. wait_queue (length (spi_pending s1)) s1 = Some (ls \<noteq> [], s') \<and> xfer_inv sent live s' \<and>
      spi_pending s' = [] \<and> data_sent s' = 0 \<and> cfg_frame s' = cfg_frame s1"
    using Cons.prems by (intro Cons.IH) (auto simp: none_last_def)
  then show ?case
    using Cons.prems s1 by (simp add: wait_queue.simps [of "Suc _"])
qed

section \<open>One round of the loop\<close>

lemma kmalloc_ok: "sz \<noteq> 0 \<Longrightarrow> kalloc_ok s (nalloc s) \<Longrightarrow>
    kmalloc sz s = (KPtr (nalloc s), s\<lparr>nalloc := Suc (nalloc s), klive := nalloc s # klive s\<rparr>)"
  by (simp add: kmalloc_def)

lemma send_part_round:
  assumes inv: "xfer_inv sent live s"
    and bs: "bs = chunk (unat off) (min PAGE_SIZE (unat len)) contents"
  shows "\<exists>s' ps l. send_part (regular_file contents) off len num s = Inr (int (length bs), s') \<and>
    xfer_inv (sent @ bs) live s' \<and> spi_pending s' = ps @ [l] \<and> cfg_frame s' = cfg_frame s \<and>
    ctp_last l = (length bs < PAGE_SIZE) \<and>
    (none_last (spi_pending s) \<longrightarrow> none_last ps \<and> data_sent s' = data_sent s)"
proof -
  let ?c = "nalloc s" and ?pg = "Suc (nalloc s)"
  let ?s2 = "s\<lparr>nalloc := Suc (Suc (nalloc s)), klive := Suc (nalloc s) # nalloc s # klive s\<rparr>"
  have ok: "\<forall>n. kalloc_ok s n" using inv by (simp add: xfer_inv_def)
  have "xfer_inv sent (add_mset ?pg (add_mset ?c live)) ?s2"
    using inv by (simp add: xfer_inv_def)
  then obtain s3 where s3: "spi_finish (spi_ready ?s2 num) ?s2 = Some s3"
    "xfer_inv sent (add_mset ?pg (add_mset ?c live)) s3" "cfg_frame s3 = cfg_frame s"
    "none_last (spi_pending s) \<longrightarrow> none_last (spi_pending s3) \<and> data_sent s3 = data_sent s"
    using finish_inv [of sent _ ?s2] by (auto simp: cfg_frame_def cfg_rest_def)
  have parts: "config_transfer_parts s3 + 1 \<noteq> 0" using s3(2) by (simp add: xfer_inv_def)
  let ?l = "setup_config_transport_part \<lparr>ctp_ptr = ?c, ctp_page = ?pg, ctp_number = num,
    ctp_last = (length bs < PAGE_SIZE), ctp_data = bs\<rparr> (length bs)"
  let ?s' = "queue_part ?c ?pg num (length bs) bs
    (s3\<lparr>config_transfer_parts := config_transfer_parts s3 + 1\<rparr>)"
  have "send_part (regular_file contents) off len num s = Inr (int (length bs), ?s')"
    using s3(1) parts ok by (simp add: send_part_def kmalloc_ok regular_file_def bs [symmetric])
  moreover have "xfer_inv (sent @ bs) live ?s'"
    using s3(2) by (simp add: xfer_inv_def queue_part_def setup_config_transport_part_def)
  moreover have "spi_pending ?s' = spi_pending s3 @ [?l]" and "ctp_last ?l = (length bs < PAGE_SIZE)"
    and "data_sent ?s' = data_sent s3" and "cfg_frame ?s' = cfg_frame s"
    using s3(3) by (simp_all add: queue_part_def setup_config_transport_part_def cfg_frame_def cfg_rest_def)
  ultimately show ?thesis using s3(4) by metis
qed

text \<open>A queue whose final part, and no other, carries the mark of the last part; or none does.\<close>

definition ends_last :: "bool \<Rightarrow> config_part list \<Rightarrow> bool" where
  "ends_last b q \<longleftrightarrow> (\<exists>ps ls. q = ps @ ls \<and> none_last ps \<and>
     (if b then \<exists>l. ls = [l] \<and> ctp_last l else ls = []))"

lemma ends_last_append: "none_last ps \<Longrightarrow> ends_last (ctp_last l) (ps @ [l])"
proof (cases "ctp_last l")
  case False
  assume "none_last ps"
  with False have "none_last (ps @ [l])" by (auto simp: none_last_def)
  with False show ?thesis unfolding ends_last_def by (intro exI [of _ "ps @ [l]"] exI [of _ "[]"]) simp
qed (auto simp: ends_last_def)

text \<open>The loop over a file that holds the whole bitstream.\<close>

lemma send_bitstream_complete:
  assumes "xfer_inv sent live s" and "none_last (spi_pending s)" and "len \<noteq> 0"
    and "unat off + unat len \<le> length contents" and "unat off + unat len < 2 ^ 32"
  shows "\<exists>s' r'. send_bitstream (regular_file contents) off len num r s = Some (XSent r', s') \<and> 0 < r' \<and>
    xfer_inv (sent @ chunk (unat off) (unat len) contents) live s' \<and>
    ends_last (unat len mod PAGE_SIZE \<noteq> 0) (spi_pending s') \<and>
    data_sent s' = data_sent s \<and> cfg_frame s' = cfg_frame s"
  using assms
proof (induction "unat len" arbitrary: off len num r s sent rule: less_induct)
  case less
  let ?n = "min PAGE_SIZE (unat len)"
  define bs where "bs = chunk (unat off) ?n contents"
  have n: "length bs = ?n" using less.prems(4) by (simp add: bs_def)
  have pos: "0 < ?n" using less.prems(3) by (simp add: unat_gt_0)
  obtain s1 ps l where part: "send_part (regular_file contents) off len (Suc num) s = Inr (int ?n, s1)"
    and s1: "xfer_inv (sent @ bs) live s1" "spi_pending s1 = ps @ [l]" "none_last ps"
      "ctp_last l = (?n < PAGE_SIZE)" "data_sent s1 = data_sent s" "cfg_frame s1 = cfg_frame s"
    using send_part_round [OF less.prems(1) bs_def, of "Suc num"] less.prems(2) unfolding n by blast
  have round: "send_bitstream (regular_file contents) off len num r s =
      send_bitstream (regular_file contents) (off + of_nat ?n) (len - of_nat ?n) (Suc num) (int ?n) s1"
    using part less.prems(3) by (subst send_bitstream.simps) simp
  show ?case
  proof (cases "unat len \<le> PAGE_SIZE")
    case True
    then have "?n = unat len" by simp
    then have "len - of_nat ?n = 0" by simp
    then have "send_bitstream (regular_file contents) off len num r s = Some (XSent (int ?n), s1)"
      unfolding round by (subst send_bitstream.simps) simp
    moreover have "ctp_last l = (unat len mod PAGE_SIZE \<noteq> 0)" using s1(4) True pos by auto
    then have "ends_last (unat len mod PAGE_SIZE \<noteq> 0) (spi_pending s1)"
      using ends_last_append [OF s1(3), of l] s1(2) by simp
    moreover have "0 < int (unat len)" using pos True by (simp only: of_nat_0_less_iff)
    ultimately show ?thesis
      using s1(1,5,6) unfolding bs_def \<open>?n = unat len\<close> by blast
  next
    case False
    then have n': "?n = PAGE_SIZE" by simp
    have len': "unat (len - of_nat ?n) = unat len - PAGE_SIZE"
      using False unfolding n' by (simp add: unat_sub word_le_nat_alt)
    have off': "unat (off + of_nat ?n) = unat off + PAGE_SIZE"
      using False less.prems(5) unfolding n' by (simp add: unat_word_ariths)
    have "none_last (spi_pending s1)" using s1 n' by (auto simp: none_last_def)
    then obtain s' r' where ih: "send_bitstream (regular_file contents) (off + of_nat ?n)
        (len - of_nat ?n) (Suc num) (int ?n) s1 = Some (XSent r', s')" "0 < r'"
      "xfer_inv ((sent @ bs) @ chunk (unat off + PAGE_SIZE) (unat len - PAGE_SIZE) contents) live s'"
      "ends_last ((unat len - PAGE_SIZE) mod PAGE_SIZE \<noteq> 0) (spi_pending s')"
      "data_sent s' = data_sent s1" "cfg_frame s' = cfg_frame s1"
      using less.hyps [of "len - of_nat ?n" "sent @ bs" s1 "off + of_nat ?n" "Suc num" "int ?n"]
        s1(1) False less.prems(4,5) len' off' by (auto simp: unat_eq_zero [symmetric])
    have "bs @ chunk (unat off + PAGE_SIZE) (unat len - PAGE_SIZE) contents =
        chunk (unat off) (unat len) contents"
      using False chunk_split [of "unat off" PAGE_SIZE "unat len - PAGE_SIZE" contents]
      by (simp add: bs_def)
    moreover have "(unat len - PAGE_SIZE) mod PAGE_SIZE = unat len mod PAGE_SIZE"
      using False by (simp add: le_mod_geq)
    ultimately show ?thesis using ih s1(5,6) by (simp add: round)
  qed
qed

section \<open>Waiting for INIT\_B\<close>

text \<open>
  The answer of a working FPGA, in samples of INIT\_B from the first one of the call: high before
  sample \<open>a\<close>, low from \<open>a\<close> on, high again at \<open>b\<close>, each within the limit of the waiting loops.
\<close>

definition initb_answers :: "nat \<Rightarrow> nat \<Rightarrow> 'a rhino_state_scheme \<Rightarrow> bool" where
  "initb_answers a b s \<longleftrightarrow> a \<le> CFG_INITB_WAIT \<and> a < b \<and> b \<le> a + CFG_INITB_WAIT + 1 \<and>
     (\<forall>n < a. gpio_in s INIT_B (gpio_reads s + n)) \<and>
     (\<forall>n \<in> {a..<b}. \<not> gpio_in s INIT_B (gpio_reads s + n)) \<and> gpio_in s INIT_B (gpio_reads s + b)"

lemma wait_initb_low_answer:
  assumes "\<forall>n < k. gpio_in s INIT_B (gpio_reads s + n)" and "\<not> gpio_in s INIT_B (gpio_reads s + k)"
    and "i + k \<le> CFG_INITB_WAIT"
  shows "wait_initb_low i s = s\<lparr>gpio_reads := gpio_reads s + k + 1\<rparr>"
  using assms
proof (induction k arbitrary: i s)
  case 0
  then show ?case by (subst wait_initb_low.simps) (simp add: gpio_get_value_def)
next
  case (Suc k)
  have "gpio_in s INIT_B (gpio_reads s)" using Suc.prems(1) by (elim allE [of _ 0]) simp
  moreover have "wait_initb_low (i + 1) (s\<lparr>gpio_reads := Suc (gpio_reads s)\<rparr>) =
      s\<lparr>gpio_reads := gpio_reads s + Suc k + 1\<rparr>"
    using Suc.IH [of "s\<lparr>gpio_reads := Suc (gpio_reads s)\<rparr>" "i + 1"] Suc.prems by fastforce
  ultimately show ?case
    using Suc.prems(3) by (subst wait_initb_low.simps) (simp add: gpio_get_value_def)
qed

lemma wait_initb_high_answer:
  assumes "\<forall>n < k. \<not> gpio_in s INIT_B (gpio_reads s + n)" and "gpio_in s INIT_B (gpio_reads s + k)"
    and "i + k \<le> CFG_INITB_WAIT"
  shows "wait_initb_high i s = (True, s\<lparr>gpio_reads := gpio_reads s + k + 1\<rparr>)"
  using assms
proof (induction k arbitrary: i s)
  case 0
  then show ?case by (subst wait_initb_high.simps) (simp add: gpio_get_value_def)
next
  case (Suc k)
  have "\<not> gpio_in s INIT_B (gpio_reads s)" using Suc.prems(1) by (elim allE [of _ 0]) simp
  moreover have "wait_initb_high (i + 1) (s\<lparr>gpio_reads := Suc (gpio_reads s)\<rparr>) =
      (True, s\<lparr>gpio_reads := gpio_reads s + Suc k + 1\<rparr>)"
    using Suc.IH [of "s\<lparr>gpio_reads := Suc (gpio_reads s)\<rparr>" "i + 1"] Suc.prems by fastforce
  ultimately show ?case
    using Suc.prems(3) by (subst wait_initb_high.simps) (simp add: gpio_get_value_def)
qed

text \<open>The output pins of the pulse: supplies on, PROG\_B high, low and high again.\<close>

definition prog_pulse :: "(nat \<times> bool) list" where
  "prog_pulse = [(FPGA_VCCINT, True), (FPGA_VCCO_AUX, True), (FPGA_VCCMGT, True),
     (PROG_B, True), (PROG_B, False), (PROG_B, True)]"

lemma pulse_prog_b_answer:
  assumes "initb_answers a b s"
  shows "pulse_prog_b s =
    (True, s\<lparr>gpio_out := gpio_out s @ prog_pulse, gpio_reads := gpio_reads s + b + 1\<rparr>)"
proof -
  let ?s1 = "s\<lparr>gpio_out := gpio_out s @ take 5 prog_pulse\<rparr>"
  let ?s2 = "s\<lparr>gpio_reads := gpio_reads s + a + 1, gpio_out := gpio_out s @ prog_pulse\<rparr>"
  have low: "\<forall>n \<in> {a..<b}. \<not> gpio_in s INIT_B (gpio_reads s + n)"
    using assms unfolding initb_answers_def by blast
  have "wait_initb_low 0 ?s1 = ?s1\<lparr>gpio_reads := gpio_reads s + a + 1\<rparr>"
    using wait_initb_low_answer [of a ?s1 0] assms by (auto simp: initb_answers_def)
  moreover have "\<not> gpio_in s INIT_B (gpio_reads s + (a + 1 + n))" if "n < b - a - 1" for n
    using bspec [OF low, of "a + 1 + n"] that by simp
  then have "wait_initb_high 0 ?s2 = (True, ?s2\<lparr>gpio_reads := gpio_reads ?s2 + (b - a - 1) + 1\<rparr>)"
    using assms by (intro wait_initb_high_answer) (auto simp: initb_answers_def add.assoc)
  moreover have "gpio_reads ?s2 + (b - a - 1) + 1 = Suc (gpio_reads s + b)"
    using assms by (simp add: initb_answers_def)
  ultimately show ?thesis
    by (simp add: pulse_prog_b_def rhino_set_fpga_psu_def gpio_put_def prog_pulse_def)
qed

section \<open>The whole configuration\<close>

text \<open>
  What the call starts from: the driver is probed, the semaphore is free, no transfer is queued and
  no completion is pending, every allocation and every transfer succeeds, and the file holds the
  bitstream.
\<close>

definition configure_ready :: "hwr_addr \<Rightarrow> u8 list \<Rightarrow> u32 \<Rightarrow> u32 \<Rightarrow> 'a rhino_state_scheme \<Rightarrow> bool" where
  "configure_ready a contents off len s \<longleftrightarrow> hwa_addr a = 0 \<and> rhino_fpga s \<and> 0 < rhino_sem s \<and>
     spi_pending s = [] \<and> data_sent s = 0 \<and> (\<forall>n. spi_status s n = 0) \<and> (\<forall>n. kalloc_ok s n) \<and>
     unat off + unat len \<le> length contents \<and> unat off + unat len < 2 ^ 32"

lemma send_bitstream_sent:
  assumes "xfer_inv sent live s" and "none_last (spi_pending s)"
    and "unat off + unat len \<le> length contents" and "unat off + unat len < 2 ^ 32"
  shows "\<exists>s' r'. send_bitstream (regular_file contents) off len num r s = Some (XSent r', s') \<and>
    (unat len mod PAGE_SIZE \<noteq> 0 \<longrightarrow> 0 < r') \<and>
    xfer_inv (sent @ chunk (unat off) (unat len) contents) live s' \<and>
    ends_last (unat len mod PAGE_SIZE \<noteq> 0) (spi_pending s') \<and>
    data_sent s' = data_sent s \<and> cfg_frame s' = cfg_frame s"
proof (cases "len = 0")
  case True
  moreover have "ends_last False (spi_pending s)" using assms(2) by (simp add: ends_last_def)
  ultimately show ?thesis using assms(1) by (subst send_bitstream.simps) (simp add: chunk_def)
next
  case False
  then show ?thesis using send_bitstream_complete [OF assms(1,2) False assms(3,4), of num r] by blast
qed

lemma wait_for_completion_sent:
  assumes "xfer_inv sent live s" and "ends_last b (spi_pending s)" and "data_sent s = 0"
  shows "\<exists>s'. wait_for_completion s = Some (b, s') \<and> xfer_inv sent live s' \<and> spi_pending s' = [] \<and>
    data_sent s' = 0 \<and> cfg_frame s' = cfg_frame s"
proof -
  obtain ps ls where q: "spi_pending s = ps @ ls" "none_last ps"
    and ls: "if b then \<exists>l. ls = [l] \<and> ctp_last l else ls = []"
    using assms(2) unfolding ends_last_def by blast
  from ls have "ls = [] \<or> (\<exists>l. ls = [l] \<and> ctp_last l)" and "(ls \<noteq> []) = b" by (auto split: if_splits)
  then show ?thesis
    using wait_queue_inv [OF assms(1) q _ assms(3)] unfolding wait_for_completion_def by blast
qed

text \<open>
  The three outcomes of a configuration whose transfers succeed, by the length of the bitstream
  and the last two samples.
\<close>

lemma rhino_configure_outcome:
  assumes ready: "configure_ready addr contents off len s" and "initb_answers a b s"
    and fin: "fin \<longleftrightarrow> gpio_in s INIT_B (gpio_reads s + b + 1) \<and> gpio_in s DONE (gpio_reads s + b + 2)"
  shows "\<exists>s' r'. fpga_rx s' = fpga_rx s @ chunk (unat off) (unat len) contents \<and>
    mset (klive s') = mset (klive s) \<and> spi_pending s' = [] \<and> config_transfer_parts s' = 0 \<and>
    cfg_rest s' = cfg_rest s \<and> gpio_out s' = gpio_out s @ prog_pulse \<and> (unat len mod PAGE_SIZE \<noteq> 0 \<longrightarrow> 0 < r') \<and>
    (if unat len mod PAGE_SIZE = 0
     then fst (rhino_configure addr (regular_file contents) off len s) = CBlocked
     else rhino_configure addr (regular_file contents) off len s = (CReturn (if fin then 0 else r'), s') \<and>
       rhino_sem s' = rhino_sem s)"
proof -
  let ?sent = "fpga_rx s @ chunk (unat off) (unat len) contents" and ?f = "regular_file contents"
  let ?s0 = "s\<lparr>rhino_sem := rhino_sem s - 1\<rparr>"
  let ?s1 = "?s0\<lparr>gpio_out := gpio_out s @ prog_pulse, gpio_reads := gpio_reads s + b + 1\<rparr>"
  let ?s2 = "?s1\<lparr>config_transfer_parts := 0\<rparr>"
  have pulse: "pulse_prog_b ?s0 = (True, ?s1)"
    using pulse_prog_b_answer [of a b ?s0] assms(2) by (simp add: initb_answers_def)
  have "xfer_inv (fpga_rx s) (mset (klive s)) ?s2" "none_last (spi_pending ?s2)"
    using ready by (simp_all add: configure_ready_def xfer_inv_def none_last_def)
  then obtain s3 r where s3: "send_bitstream ?f off len 0 (-EIO) ?s2 = Some (XSent r, s3)"
    "unat len mod PAGE_SIZE \<noteq> 0 \<longrightarrow> 0 < r" "xfer_inv ?sent (mset (klive s)) s3"
    "ends_last (unat len mod PAGE_SIZE \<noteq> 0) (spi_pending s3)" "data_sent s3 = 0"
    "cfg_frame s3 = cfg_frame ?s2"
    using send_bitstream_sent [of "fpga_rx s" "mset (klive s)" ?s2 off len contents 0 "-EIO"] ready
    by (auto simp: configure_ready_def)
  obtain s4 where s4: "wait_for_completion s3 = Some (unat len mod PAGE_SIZE \<noteq> 0, s4)"
    "xfer_inv ?sent (mset (klive s)) s4" "spi_pending s4 = []" "cfg_frame s4 = cfg_frame ?s2"
    using wait_for_completion_sent [OF s3(3-5)] s3(6) by auto
  have rest: "cfg_rest s4 = cfg_rest s" using s4(4) by (simp add: cfg_frame_def cfg_rest_def)
  have "gpio_in (cfg_rest s4) = gpio_in (cfg_rest s)" by (simp only: rest)
  then have gpio_in: "gpio_in s4 = gpio_in s" by (simp add: cfg_rest_def)
  have frame: "gpio_reads s4 = gpio_reads s + b + 1"
    "gpio_out s4 = gpio_out s @ prog_pulse" "rhino_sem s4 = rhino_sem s - 1"
    using s4(4) by (simp_all add: cfg_frame_def cfg_rest_def)
  have start: "hwa_addr addr = 0" "rhino_fpga s" "down_interruptible s = Some (True, ?s0)" "0 < rhino_sem s"
    using ready by (simp_all add: configure_ready_def down_interruptible_def)
  have "fpga_rx s4 = ?sent" "mset (klive s4) = mset (klive s)" "config_transfer_parts s4 = 0"
    using s4(2,3) by (simp_all add: xfer_inv_def)
  let ?k = "if gpio_in s INIT_B (gpio_reads s + b + 1) then 2 else 1"
  let ?s5 = "up (s4\<lparr>gpio_reads := gpio_reads s4 + ?k\<rparr>)"
  have "if unat len mod PAGE_SIZE = 0 then fst (rhino_configure addr ?f off len s) = CBlocked
     else rhino_configure addr ?f off len s = (CReturn (if fin then 0 else r), ?s5)"
    unfolding fin
    using start pulse s3(1) s4(1) frame gpio_in by (simp add: rhino_configure_def gpio_get_value_def)
  then show ?thesis
    using s3(2) s4(3) frame start(4) \<open>fpga_rx s4 = ?sent\<close> \<open>mset (klive s4) = mset (klive s)\<close>
      \<open>config_transfer_parts s4 = 0\<close> rest
    by (intro exI [of _ ?s5] exI [of _ r]) (simp add: up_def cfg_rest_def)
qed

section \<open>Properties of the configuration\<close>

text \<open>A call for more bytes than the file holds stays one after every round.\<close>

definition starved :: "u8 list \<Rightarrow> kfile \<Rightarrow> u32 \<Rightarrow> u32 \<Rightarrow> 'a rhino_state_scheme \<Rightarrow> bool" where
  "starved contents file off len s \<longleftrightarrow> file = regular_file contents \<and> len \<noteq> 0 \<and>
     length contents < unat off + unat len \<and> unat off + unat len < 2 ^ 32 \<and> (\<exists>sent live. xfer_inv sent live s)"

lemma starved_round:
  assumes "starved contents file off len s"
  shows "\<exists>r s'. send_part file off len num s = Inr (r, s') \<and>
    starved contents file (off + of_int r) (len - of_int r) s'"
proof -
  obtain sent live where inv: "xfer_inv sent live s" and f: "file = regular_file contents"
    and "len \<noteq> 0" and short: "length contents < unat off + unat len" and fit: "unat off + unat len < 2 ^ 32"
    using assms unfolding starved_def by blast
  define bs where "bs = chunk (unat off) (min PAGE_SIZE (unat len)) contents"
  obtain s1 where s1: "send_part file off len num s = Inr (int (length bs), s1)" "xfer_inv (sent @ bs) live s1"
    using send_part_round [OF inv bs_def, of num] unfolding f by blast
  have "length bs \<le> length contents - unat off" and "0 < unat len"
    using \<open>len \<noteq> 0\<close> by (simp_all add: bs_def unat_gt_0)
  then have n: "length bs < unat len" using short by linarith
  have small: "unat (of_nat (length bs) :: u32) = length bs"
    using n fit by (simp add: unat_of_nat)
  have len': "unat (len - of_nat (length bs)) = unat len - length bs"
    using n small by (simp add: unat_sub word_le_nat_alt)
  then have "len - of_nat (length bs) \<noteq> 0" using n by auto
  moreover have "unat (off + of_nat (length bs)) = unat off + length bs"
    using n fit small by (simp add: unat_word_ariths)
  ultimately have "starved contents file (off + of_nat (length bs)) (len - of_nat (length bs)) s1"
    using f s1(2) short fit n len' by (auto simp: starved_def)
  then show ?thesis using s1(1) by (metis of_int_of_nat_eq)
qed

lemma send_bitstream_starved:
  assumes "starved contents file off len s"
  shows "send_bitstream file off len num r s = None"
proof -
  have step: "\<not> starved contents fl off len s"
    if "\<And>fl off len num r s y. rec fl off len num r s = Some y \<Longrightarrow> \<not> starved contents fl off len s"
      and "(if len = 0 then Some (XSent r, s)
            else case send_part fl off len (Suc num) s of
                Inl result \<Rightarrow> Some result
              | Inr (r, s') \<Rightarrow> rec fl (off + of_int r) (len - of_int r) (Suc num) r s') = Some y"
    for rec fl off len num r and s :: "'a rhino_state_scheme" and y
  proof
    assume st: "starved contents fl off len s"
    from starved_round [OF this] obtain r' s' where
      part: "send_part fl off len (Suc num) s = Inr (r', s')"
      and st': "starved contents fl (off + of_int r') (len - of_int r') s'" by blast
    have "len \<noteq> 0" using st by (simp add: starved_def)
    then have "rec fl (off + of_int r') (len - of_int r') (Suc num) r' s' = Some y"
      using that(2) part by simp
    with that(1) st' show False by blast
  qed
  have "\<not> starved contents file off len s" if "send_bitstream file off len num r s = Some y" for y
    using step that by (rule send_bitstream.raw_induct
      [where P = "\<lambda>file off len num r s y. \<not> starved contents file off len s"])
  then show ?thesis using assms by (cases "send_bitstream file off len num r s") auto
qed

text \<open>
  C1: configuration succeeds. When the FPGA answers the PROG\_B pulse, every transfer succeeds and
  INIT\_B and DONE are high at the end, \<open>rhino_configure\<close> returns 0 for a bitstream whose length is no
  multiple of the page size. The FPGA has received exactly the bytes of the file at the given
  offset, after the supplies were switched on and PROG\_B was pulsed; the semaphore is free again
  and every page and transfer object of the call is freed.
\<close>

theorem rhino_configure_ok:
  assumes "configure_ready addr contents off len s" and "initb_answers a b s"
    and "unat len mod PAGE_SIZE \<noteq> 0"
    and "gpio_in s INIT_B (gpio_reads s + b + 1)" and "gpio_in s DONE (gpio_reads s + b + 2)"
  shows "\<exists>s'. rhino_configure addr (regular_file contents) off len s = (CReturn 0, s') \<and>
    fpga_rx s' = fpga_rx s @ chunk (unat off) (unat len) contents \<and>
    gpio_out s' = gpio_out s @ prog_pulse \<and> rhino_sem s' = rhino_sem s \<and>
    mset (klive s') = mset (klive s) \<and> spi_pending s' = []"
proof -
  have "True \<longleftrightarrow> gpio_in s INIT_B (gpio_reads s + b + 1) \<and> gpio_in s DONE (gpio_reads s + b + 2)"
    using assms(4,5) by blast
  from rhino_configure_outcome [OF assms(1,2) this] assms(3) show ?thesis unfolding if_True by auto
qed

text \<open>
  C29: a bitstream whose length is a multiple of the page size, the empty one included. No part of
  it carries the mark of the last part, so the completion is never signalled: although every
  transfer succeeds, \<open>rhino_configure\<close> waits forever with the semaphore held.
\<close>

theorem rhino_configure_page_multiple_blocks:
  assumes "configure_ready addr contents off len s" and "initb_answers a b s"
    and "unat len mod PAGE_SIZE = 0"
  shows "fst (rhino_configure addr (regular_file contents) off len s) = CBlocked"
  using rhino_configure_outcome [OF assms(1,2) refl] assms(3) by auto

text \<open>
  Failure is reported as success. When INIT\_B is low after the transfer (the CRC check failed)
  or DONE is not asserted, \<open>rhino_configure\<close> returns the byte count of its last read, a positive
  number, which \<open>borph_load_hw\<close> does not take for an error.
\<close>

theorem rhino_configure_crc_failure_positive:
  assumes "configure_ready addr contents off len s" and "initb_answers a b s"
    and "unat len mod PAGE_SIZE \<noteq> 0"
    and "\<not> (gpio_in s INIT_B (gpio_reads s + b + 1) \<and> gpio_in s DONE (gpio_reads s + b + 2))"
  shows "\<exists>r s'. rhino_configure addr (regular_file contents) off len s = (CReturn r, s') \<and> 0 < r"
proof -
  have "False \<longleftrightarrow> gpio_in s INIT_B (gpio_reads s + b + 1) \<and> gpio_in s DONE (gpio_reads s + b + 2)"
    using assms(4) by blast
  from rhino_configure_outcome [OF assms(1,2) this] assms(3) show ?thesis unfolding if_False by auto
qed

text \<open>
  A file shorter than the bitstream its header announces. Once \<open>kernel_read\<close> returns no more
  bytes the loop makes no progress: while memory lasts, it queues empty transfers forever.
\<close>

theorem rhino_configure_truncated_loops:
  assumes "hwa_addr addr = 0" and "rhino_fpga s" and "0 < rhino_sem s" and "spi_pending s = []"
    and "\<forall>n. spi_status s n = 0" and "\<forall>n. kalloc_ok s n" and "initb_answers a b s"
    and "length contents < unat off + unat len" and "unat off + unat len < 2 ^ 32" and "len \<noteq> 0"
  shows "fst (rhino_configure addr (regular_file contents) off len s) = CLoops"
proof -
  let ?s0 = "s\<lparr>rhino_sem := rhino_sem s - 1\<rparr>"
  let ?s1 = "?s0\<lparr>gpio_out := gpio_out s @ prog_pulse, gpio_reads := gpio_reads s + b + 1\<rparr>"
  have pulse: "pulse_prog_b ?s0 = (True, ?s1)"
    using pulse_prog_b_answer [of a b ?s0] assms(7) by (simp add: initb_answers_def)
  have "xfer_inv (fpga_rx s) (mset (klive s)) (?s1\<lparr>config_transfer_parts := 0\<rparr>)"
    using assms(4-6) by (simp add: xfer_inv_def)
  then have "starved contents (regular_file contents) off len (?s1\<lparr>config_transfer_parts := 0\<rparr>)"
    using assms(8-10) unfolding starved_def by blast
  then show ?thesis
    using assms(1-3) pulse by (simp add: rhino_configure_def down_interruptible_def send_bitstream_starved)
qed

section \<open>Witnesses\<close>

lemma rhino_boot_configure:
  "unat len \<le> length contents \<Longrightarrow>
     configure_ready \<lparr>hwa_class = HAC_RHINO, hwa_addr = 0\<rparr> contents 0 len (rhino_boot\<lparr>gpio_in := f\<rparr>)"
  "initb_answers 0 1 (rhino_boot\<lparr>gpio_in := (\<lambda>p n. n \<noteq> 0 \<and> P p n)\<rparr>) \<longleftrightarrow> P INIT_B 1"
  using unsigned_less [of len]
  by (auto simp: configure_ready_def initb_answers_def rhino_boot_def hwr_init_def)

theorem rhino_configure_ok_witness:
  "\<exists>s'. rhino_configure \<lparr>hwa_class = HAC_RHINO, hwa_addr = 0\<rparr> (regular_file [1, 2, 3]) 0 3
     (rhino_boot\<lparr>gpio_in := (\<lambda>p n. n \<noteq> 0 \<and> True)\<rparr>) = (CReturn 0, s') \<and> fpga_rx s' = [1, 2, 3]"
  using rhino_configure_ok [OF rhino_boot_configure(1) [of 3 "[1, 2, 3]"] iffD2 [OF rhino_boot_configure(2) [of "\<lambda>p n. True"]]]
  by (auto simp: rhino_boot_def hwr_init_def chunk_def)

theorem rhino_configure_page_multiple_blocks_witness:
  "fst (rhino_configure \<lparr>hwa_class = HAC_RHINO, hwa_addr = 0\<rparr> (regular_file []) 0 0
     (rhino_boot\<lparr>gpio_in := (\<lambda>p n. n \<noteq> 0 \<and> True)\<rparr>)) = CBlocked"
  using rhino_configure_page_multiple_blocks
    [OF rhino_boot_configure(1) [of 0 "[]"] iffD2 [OF rhino_boot_configure(2) [of "\<lambda>p n. True"]]]
  by simp

theorem rhino_configure_crc_failure_positive_witness:
  "\<exists>r s'. rhino_configure \<lparr>hwa_class = HAC_RHINO, hwa_addr = 0\<rparr> (regular_file [1, 2, 3]) 0 3
     (rhino_boot\<lparr>gpio_in := (\<lambda>p n. n \<noteq> 0 \<and> n \<noteq> 2)\<rparr>) = (CReturn r, s') \<and> 0 < r"
  using rhino_configure_crc_failure_positive
    [OF rhino_boot_configure(1) [of 3 "[1, 2, 3]"] iffD2 [OF rhino_boot_configure(2) [of "\<lambda>p n. n \<noteq> 2"]]]
  by (simp add: rhino_boot_def hwr_init_def)

theorem rhino_configure_truncated_loops_witness:
  "fst (rhino_configure \<lparr>hwa_class = HAC_RHINO, hwa_addr = 0\<rparr> (regular_file [1, 2, 3]) 0 5
     (rhino_boot\<lparr>gpio_in := (\<lambda>p n. n \<noteq> 0 \<and> True)\<rparr>)) = CLoops"
  using rhino_configure_truncated_loops [OF _ _ _ _ _ _ iffD2 [OF rhino_boot_configure(2) [of "\<lambda>p n. True"]], of _ "[1, 2, 3]" 0 5]
  by (simp add: rhino_boot_def hwr_init_def)

end
