(* ===== verification/Rhino.thy ===== *)
theory Rhino
  imports RhinoConfig
begin

text \<open>
  Third part of the RHINO driver (\<open>src/borph/kernel/hwr/hwrtype_rhino.c\<close>): the table of operations
  and the driver structure it registers, the SPI probe, and the initialisation and the cleanup of
  the module. The operations are an instance of the contract \<open>hwr_driver\<close>.
\<close>

section \<open>Operations and driver structure\<close>

definition rhino_hwr_operations :: "'a rhino_state_scheme hwr_operations" where
  "rhino_hwr_operations = \<lparr>
     op_configure = Some (\<lambda>a f off len s. case rhino_configure a f off len s of
       (CReturn r, s') \<Rightarrow> Some (r, s') | _ \<Rightarrow> None),
     op_unconfigure = Some rhino_unconfigure,
     op_reserve_hwr = Some (\<lambda>a. rhino_reserve_hwr (Some a)),
     op_release_hwr = Some (\<lambda>a. rhino_release_hwr (Some a)),
     op_get_iobuf = Some rhino_get_iobuf,
     op_put_iobuf = Some rhino_put_iobuf,
     op_send_iobuf = Some rhino_send_iobuf,
     op_recv_iobuf = Some rhino_recv_iobuf\<rparr>"

text \<open>What the kernel finds at the address of an operations table: nothing but the RHINO driver's.\<close>

definition no_operations :: "'a rhino_state_scheme hwr_operations" where
  "no_operations = \<lparr>op_configure = None, op_unconfigure = None, op_reserve_hwr = None,
     op_release_hwr = None, op_get_iobuf = None, op_put_iobuf = None, op_send_iobuf = None,
     op_recv_iobuf = None\<rparr>"

definition rhino_ops_at :: "nat \<Rightarrow> 'a rhino_state_scheme hwr_operations" where
  "rhino_ops_at q = (if q = RHINO_OPS then rhino_hwr_operations else no_operations)"

section \<open>Probe\<close>

definition fpga_probe :: "'a rhino_state_scheme \<Rightarrow> int \<times> 'a rhino_state_scheme" where
  "fpga_probe s =
     (let retval = spi_setup_ret s
      in if retval < 0 then (retval, s)
         else case kmalloc 4 s of
             (KPtr _, s) \<Rightarrow> (retval, s\<lparr>rhino_fpga := True\<rparr>)
           | (_, s) \<Rightarrow> (-ENOMEM, s\<lparr>rhino_fpga := False\<rparr>))"

definition fpga_remove :: "'a rhino_state_scheme \<Rightarrow> int \<times> 'a rhino_state_scheme" where
  "fpga_remove s = (0, s)"

section \<open>Cleanup\<close>

text \<open>
  One window: unmap it and give the memory region back, if they were obtained. Unmapping what is not
  mapped and releasing what is not held are faults.
\<close>

definition release_rhino_gmpc :: "nat \<Rightarrow> 'a rhino_state_scheme \<Rightarrow> 'a rhino_state_scheme option" where
  "release_rhino_gmpc k s = do {
     (p, bus) \<leftarrow> fpga_bus s;
     let v = cs_virtual bus ! k;
     let base = cs_base bus ! k;
     s \<leftarrow> (if v \<noteq> 0 then
              if v \<in> set (io_mapped s) then Some (s\<lparr>io_mapped := remove1 v (io_mapped s)\<rparr>) else None
            else Some s);
     s \<leftarrow> (if base \<noteq> 0 then
              if base \<in> set (mem_regions s) then Some (s\<lparr>mem_regions := remove1 base (mem_regions s)\<rparr>)
              else None
            else Some s);
     Some (s\<lparr>fpga_bus := Some (p, \<lparr>cs_base = (cs_base bus)[k := 0], cs_virtual = (cs_virtual bus)[k := 0]\<rparr>)\<rparr>) }"

definition release_bus :: "'a rhino_state_scheme \<Rightarrow> 'a rhino_state_scheme option" where
  "release_bus s =
     (case fpga_bus s of
        None \<Rightarrow> Some s
      | Some (p, _) \<Rightarrow> do {
          s \<leftarrow> release_rhino_gmpc 0 s;
          s \<leftarrow> release_rhino_gmpc 1 s;
          s \<leftarrow> release_rhino_gmpc 2 s;
          s \<leftarrow> kfree (KPtr p) s;
          Some (s\<lparr>fpga_bus := None\<rparr>) })"

definition free_rhino_iobuf :: "'a rhino_state_scheme \<Rightarrow> 'a rhino_state_scheme option" where
  "free_rhino_iobuf s =
     (case rhino_iobuf s of
        KPtr b \<Rightarrow> do {
          s \<leftarrow> kfree (KPtr b) s;
          Some (s\<lparr>rhino_iobuf := KNull, iobufs := (iobufs s)(b := None)\<rparr>) }
      | _ \<Rightarrow> Some s)"

definition free_rhino_page :: "'a rhino_state_scheme \<Rightarrow> 'a rhino_state_scheme option" where
  "free_rhino_page s =
     (case rhino_page s of
        KPtr b \<Rightarrow> do {
          s \<leftarrow> kfree (KPtr b) s;
          Some (s\<lparr>rhino_page := KNull\<rparr>) }
      | _ \<Rightarrow> Some s)"

definition hwrtype_rhino_cleanup :: "'a rhino_state_scheme \<Rightarrow> 'a rhino_state_scheme option" where
  "hwrtype_rhino_cleanup s = do {
     s \<leftarrow> release_bus s;
     s \<leftarrow> free_rhino_iobuf s;
     s \<leftarrow> free_rhino_page s;
     let s = s\<lparr>part_cache := False, spi_registered := False\<rparr>;
     (_, s) \<leftarrow> unregister_hwrtype RHINO_HT s;
     Some s }"

section \<open>Initialisation\<close>

text \<open>The first result tells whether the window is mapped; otherwise everything has been cleaned up.\<close>

definition map_rhino_gmpc :: "nat \<Rightarrow> 'a rhino_state_scheme \<Rightarrow> (bool \<times> 'a rhino_state_scheme) option" where
  "map_rhino_gmpc k s =
     (let base = FPGA_CS_BASE ! k
      in if \<not> memreg_ok s base then do { s \<leftarrow> hwrtype_rhino_cleanup s; Some (False, s) }
         else do {
           (p, bus) \<leftarrow> fpga_bus s;
           let v = ioremap_to s base;
           let s = s\<lparr>mem_regions := base # mem_regions s,
                     fpga_bus := Some (p, \<lparr>cs_base = (cs_base bus)[k := base],
                                           cs_virtual = (cs_virtual bus)[k := v]\<rparr>)\<rparr>;
           if v = 0 then do { s \<leftarrow> hwrtype_rhino_cleanup s; Some (False, s) }
           else Some (True, s\<lparr>io_mapped := v # io_mapped s\<rparr>) })"

definition map_windows :: "'a rhino_state_scheme \<Rightarrow> (bool \<times> 'a rhino_state_scheme) option" where
  "map_windows s = do {
     (ok, s) \<leftarrow> map_rhino_gmpc 0 s;
     if \<not> ok then Some (False, s)
     else do {
       (ok, s) \<leftarrow> map_rhino_gmpc 1 s;
       if \<not> ok then Some (False, s) else map_rhino_gmpc 2 s } }"

text \<open>The page behind its first 12 bytes, as allocated.\<close>

definition iobuf_area :: "(nat \<Rightarrow> u8) \<Rightarrow> u8 list" where
  "iobuf_area junk = map junk [12..<PAGE_SIZE]"

lemma length_iobuf_area [simp]: "length (iobuf_area junk) = PAGE_SIZE - 12"
  by (simp add: iobuf_area_def del: upt_rec_numeral)

definition init_iobuf :: "'a rhino_state_scheme \<Rightarrow> bool \<times> 'a rhino_state_scheme" where
  "init_iobuf s =
     (let (pg, s) = kmalloc PAGE_SIZE s;
          s = s\<lparr>rhino_page := pg\<rparr>;
          (io, s) = kmalloc 16 s;
          s = s\<lparr>rhino_iobuf := io\<rparr>
      in case io of
          KPtr b \<Rightarrow> (True, s\<lparr>iobufs := (iobufs s)(b \<mapsto> (iobuf_junk s)\<lparr>
              io_data := (case pg of KPtr _ \<Rightarrow> iobuf_area (page_junk s) | _ \<Rightarrow> []),
              io_size := PAGE_SIZE - 12\<rparr>)\<rparr>)
        | _ \<Rightarrow> (False, s))"

definition hwrtype_rhino_init :: "'a rhino_state_scheme \<Rightarrow> (int \<times> 'a rhino_state_scheme) option" where
  "hwrtype_rhino_init s = do {
     (retval, s) \<leftarrow> register_hwrtype RHINO_HT (s\<lparr>rhino_fpga := False\<rparr>);
     if retval < 0 then Some (retval, s)
     else do {
       s \<leftarrow> phy_upd (unat HAC_RHINO, 0) (\<lambda>h. h\<lparr>ph_count := -1\<rparr>) s;
       let (ok, s) = init_iobuf s;
       if \<not> ok then Some (-ENOMEM, s)
       else (case kmalloc 48 s of
           (KPtr p, s) \<Rightarrow> do {
             (ok, s) \<leftarrow> map_windows (s\<lparr>fpga_bus := Some (p,
               \<lparr>cs_base = replicate 6 0, cs_virtual = replicate 6 0\<rparr>)\<rparr>);
             if \<not> ok then Some (-ENOMEM, s)
             else Some (retval, gpio_put INIT_B_DIR False (s\<lparr>part_cache := True, spi_registered := True\<rparr>)) }
         | (_, s) \<Rightarrow> do {
             s \<leftarrow> free_rhino_page s;
             s \<leftarrow> free_rhino_iobuf s;
             Some (-ENOMEM, s) }) } }"

definition hwrtype_rhino_exit :: "'a rhino_state_scheme \<Rightarrow> 'a rhino_state_scheme option" where
  "hwrtype_rhino_exit s = hwrtype_rhino_cleanup s"

section \<open>The driver keeps the contract\<close>

definition rhino_managed :: "hwr_addr \<Rightarrow> bool" where
  "rhino_managed a \<longleftrightarrow> hwa_class a = HAC_RHINO \<and> hwa_addr a = 0"

interpretation rhino_drv: hwr_driver rhino_ops_at RHINO_OPS rhino_managed
  "\<lambda>a. rhino_reserve_hwr (Some a)" "\<lambda>a. rhino_release_hwr (Some a)"
  by unfold_locales
    (simp_all add: rhino_ops_at_def rhino_hwr_operations_def rhino_managed_def rhino_reserve_free
      rhino_reserve_busy del: rhino_reserve_hwr.simps)

section \<open>Initialisation and cleanup\<close>

text \<open>
  What the module finds when it is loaded: well-formed tables with the slot of the class free, its
  own structure, and room for every allocation.
\<close>

definition init_ready :: "'a rhino_state_scheme \<Rightarrow> bool" where
  "init_ready s \<longleftrightarrow> hwr_wf s \<and> htstore s RHINO_HT = Some hwrtype_rhino \<and>
     hwrtypes s ! unat HAC_RHINO = None \<and> phyhwrs s ! unat HAC_RHINO = None \<and>
     (\<forall>n. kalloc_ok s n)"

text \<open>The state after the four allocations and the registration, before the windows are mapped.\<close>

definition init_registered :: "'a rhino_state_scheme \<Rightarrow> 'a rhino_state_scheme" where
  "init_registered s =
     (let n = nalloc s
      in s\<lparr>rhino_fpga := False, nalloc := Suc (Suc (Suc (n + 2))), klive := [Suc (Suc (n + 2)), Suc (n + 2), n + 2, n + 1, n] @ klive s,
           hwrtypes := (hwrtypes s)[unat HAC_RHINO := Some RHINO_HT],
           htstore := (htstore s)(RHINO_HT \<mapsto> hwrtype_rhino\<lparr>ht_count := 1\<rparr>),
           phyhwrs := (phyhwrs s)[unat HAC_RHINO := Some (n, [(n + 1, (junk_phyhwr s (n + 1))\<lparr>ph_count := -1\<rparr>)])],
           rhino_page := KPtr (n + 2), rhino_iobuf := KPtr (Suc (n + 2)),
           iobufs := (iobufs s)(Suc (n + 2) \<mapsto> (iobuf_junk s)\<lparr>
              io_data := iobuf_area (page_junk s), io_size := PAGE_SIZE - 12\<rparr>),
           fpga_bus := Some (Suc (Suc (n + 2)), \<lparr>cs_base = replicate 6 0, cs_virtual = replicate 6 0\<rparr>)\<rparr>)"

lemma init_iobuf_ok:
  assumes "\<forall>n. kalloc_ok s n"
  shows "init_iobuf s = (True, s\<lparr>nalloc := nalloc s + 2, klive := Suc (nalloc s) # nalloc s # klive s,
    rhino_page := KPtr (nalloc s), rhino_iobuf := KPtr (Suc (nalloc s)),
    iobufs := (iobufs s)(Suc (nalloc s) \<mapsto> (iobuf_junk s)\<lparr>
      io_data := iobuf_area (page_junk s), io_size := PAGE_SIZE - 12\<rparr>)\<rparr>)"
  using assms by (simp add: init_iobuf_def kmalloc_ok)

lemma hwrtype_rhino_init_registered:
  assumes "init_ready s"
  shows "hwrtype_rhino_init s =
    (do { (ok, s) \<leftarrow> map_windows (init_registered s);
          if \<not> ok then Some (-ENOMEM, s)
          else Some (0, gpio_put INIT_B_DIR False (s\<lparr>part_cache := True, spi_registered := True\<rparr>)) })"
proof -
  let ?s = "s\<lparr>rhino_fpga := False\<rparr>" and ?n = "nalloc s"
  have ok: "\<forall>n. kalloc_ok s n" and len: "length (hwrtypes s) = 16" "length (phyhwrs s) = 16"
    and free: "hwrtypes s ! 5 = None" "phyhwrs s ! 5 = None" "htstore s RHINO_HT = Some hwrtype_rhino"
    using assms by (simp_all add: init_ready_def hwr_wf_lengths)
  let ?s1 = "?s\<lparr>nalloc := Suc (Suc ?n), klive := Suc ?n # ?n # klive s,
    phyhwrs := (phyhwrs s)[5 := Some (?n, [(Suc ?n, junk_phyhwr s (Suc ?n))])],
    hwrtypes := (hwrtypes s)[5 := Some RHINO_HT],
    htstore := (htstore s)(RHINO_HT \<mapsto> hwrtype_rhino\<lparr>ht_count := 1\<rparr>)\<rparr>"
  let ?s2 = "?s1\<lparr>phyhwrs := (phyhwrs s)[5 := Some (?n, [(Suc ?n, (junk_phyhwr s (Suc ?n))\<lparr>ph_count := -1\<rparr>)])]\<rparr>"
  have reg: "register_hwrtype RHINO_HT ?s = Some (0, ?s1)"
    using ok len free
    by (subst register_hwrtype_outcomes(5) [where ht = hwrtype_rhino and c = 5])
      (simp_all add: hwrtype_rhino_def)
  have upd: "phy_upd (unat HAC_RHINO, 0) (\<lambda>h. h\<lparr>ph_count := -1\<rparr>) ?s1 = Some ?s2"
    using len by (simp add: phy_upd_def)
  let ?s3 = "init_registered s\<lparr>fpga_bus := fpga_bus s, nalloc := Suc (Suc (?n + 2)), klive := [Suc (?n + 2), ?n + 2, ?n + 1, ?n] @ klive s\<rparr>"
  have io: "init_iobuf ?s2 = (True, ?s3)"
    using ok by (simp add: init_iobuf_ok init_registered_def Let_def)
  have bus: "kmalloc 48 ?s3 = (KPtr (Suc (Suc (?n + 2))), ?s3\<lparr>nalloc := Suc (Suc (Suc (?n + 2))), klive := (Suc (Suc (?n + 2))) # klive ?s3\<rparr>)"
    using ok by (subst kmalloc_ok) (simp_all add: init_registered_def Let_def)
  have fin: "?s3\<lparr>nalloc := Suc (Suc (Suc (?n + 2))), klive := (Suc (Suc (?n + 2))) # klive ?s3, fpga_bus := Some (Suc (Suc (?n + 2)), \<lparr>cs_base = replicate 6 0, cs_virtual = replicate 6 0\<rparr>)\<rparr> = init_registered s"
    by (rule rhino_state.equality) (simp_all add: init_registered_def Let_def)
  show ?thesis
    unfolding hwrtype_rhino_init_def reg by (simp only: bind.bind_lunit prod.case kptr.case if_False
        less_irrefl not_True_eq_False Let_def upd io bus fin)
qed

definition windows_ok :: "'a rhino_state_scheme \<Rightarrow> bool" where
  "windows_ok s \<longleftrightarrow> (\<forall>k < 3. memreg_ok s (FPGA_CS_BASE ! k) \<and> ioremap_to s (FPGA_CS_BASE ! k) \<noteq> 0)"

text \<open>
  Cleaning up whatever windows were obtained, each mapped window with its region: the tables, the
  live objects, the regions and the mappings are those from before the module was loaded.
\<close>

definition unloaded :: "'a rhino_state_scheme \<Rightarrow> 'a rhino_state_scheme \<Rightarrow> bool" where
  "unloaded s s' \<longleftrightarrow> hwrtypes s' = hwrtypes s \<and> phyhwrs s' = phyhwrs s \<and> htstore s' = htstore s \<and>
     klive s' = klive s \<and> mem_regions s' = mem_regions s \<and> io_mapped s' = io_mapped s \<and>
     fpga_bus s' = None \<and> rhino_iobuf s' = KNull \<and> rhino_page s' = KNull"

definition rem_nz :: "u32 \<Rightarrow> u32 list \<Rightarrow> u32 list" where
  "rem_nz v xs = (if v = 0 then xs else remove1 v xs)"

lemma rem_nz_three:
  assumes "xs = filter (\<lambda>v. v \<noteq> 0) [v2, v1, v0] @ M"
  shows "rem_nz v2 (rem_nz v1 (rem_nz v0 xs)) = M" and "v0 \<noteq> 0 \<Longrightarrow> v0 \<in> set xs"
    and "v1 \<noteq> 0 \<Longrightarrow> v1 \<in> set (rem_nz v0 xs)" and "v2 \<noteq> 0 \<Longrightarrow> v2 \<in> set (rem_nz v1 (rem_nz v0 xs))"
  using assms by (auto simp: rem_nz_def)

lemma release_gmpc_eq:
  assumes "fpga_bus s = Some (p, bus)" and "cs_virtual bus ! k \<noteq> 0 \<Longrightarrow> cs_virtual bus ! k \<in> set (io_mapped s)"
    and "cs_base bus ! k \<noteq> 0 \<Longrightarrow> cs_base bus ! k \<in> set (mem_regions s)"
  shows "release_rhino_gmpc k s = Some (s\<lparr>io_mapped := rem_nz (cs_virtual bus ! k) (io_mapped s),
    mem_regions := rem_nz (cs_base bus ! k) (mem_regions s),
    fpga_bus := Some (p, \<lparr>cs_base = (cs_base bus)[k := 0], cs_virtual = (cs_virtual bus)[k := 0]\<rparr>)\<rparr>)"
  using assms by (simp add: release_rhino_gmpc_def rem_nz_def Let_def)

lemma release_bus_eq:
  assumes bus: "fpga_bus s = Some (p, \<lparr>cs_base = b0 # b1 # b2 # B, cs_virtual = v0 # v1 # v2 # V\<rparr>)"
    and regions: "mem_regions s = filter (\<lambda>b. b \<noteq> 0) [b2, b1, b0] @ R"
    and mapped: "io_mapped s = filter (\<lambda>v. v \<noteq> 0) [v2, v1, v0] @ M"
    and live: "klive s = p # L"
  shows "release_bus s = Some (s\<lparr>io_mapped := M, mem_regions := R, klive := L, fpga_bus := None\<rparr>)"
proof -
  note r = rem_nz_three [OF regions] and m = rem_nz_three [OF mapped]
  let ?s1 = "s\<lparr>io_mapped := rem_nz v0 (io_mapped s), mem_regions := rem_nz b0 (mem_regions s),
    fpga_bus := Some (p, \<lparr>cs_base = 0 # b1 # b2 # B, cs_virtual = 0 # v1 # v2 # V\<rparr>)\<rparr>"
  let ?s2 = "?s1\<lparr>io_mapped := rem_nz v1 (io_mapped ?s1), mem_regions := rem_nz b1 (mem_regions ?s1),
    fpga_bus := Some (p, \<lparr>cs_base = 0 # 0 # b2 # B, cs_virtual = 0 # 0 # v2 # V\<rparr>)\<rparr>"
  have "release_rhino_gmpc 0 s = Some ?s1"
    using r(2) m(2) by (subst release_gmpc_eq [OF bus]) simp_all
  moreover have "release_rhino_gmpc 1 ?s1 = Some ?s2"
    using r(3) m(3) by (subst release_gmpc_eq
        [where p = p and bus = "\<lparr>cs_base = 0 # b1 # b2 # B, cs_virtual = 0 # v1 # v2 # V\<rparr>"]) simp_all
  moreover have "release_rhino_gmpc 2 ?s2 = Some (?s2\<lparr>io_mapped := M, mem_regions := R,
    fpga_bus := Some (p, \<lparr>cs_base = 0 # 0 # 0 # B, cs_virtual = 0 # 0 # 0 # V\<rparr>)\<rparr>)"
    using r(1,4) m(1,4) by (subst release_gmpc_eq
        [where p = p and bus = "\<lparr>cs_base = 0 # 0 # b2 # B, cs_virtual = 0 # 0 # v2 # V\<rparr>"])
      (simp_all add: numeral_2_eq_2)
  ultimately show ?thesis using bus live by (simp add: release_bus_def)
qed

lemma unregister_rhino:
  assumes "hwrtypes s ! 5 = None" "phyhwrs s ! 5 = None" "htstore s RHINO_HT = Some hwrtype_rhino"
    and "length (hwrtypes s) = 16" "length (phyhwrs s) = 16"
    and "hwrtypes t = (hwrtypes s)[5 := Some RHINO_HT]"
    and "htstore t = (htstore s)(RHINO_HT \<mapsto> hwrtype_rhino\<lparr>ht_count := 1\<rparr>)"
    and "phyhwrs t = (phyhwrs s)[5 := Some (q, [(d, h)])]" and "klive t = d # q # klive s"
  shows "unregister_hwrtype RHINO_HT t = Some (0, t\<lparr>hwrtypes := hwrtypes s, phyhwrs := phyhwrs s,
    htstore := htstore s, klive := klive s\<rparr>)"
  using assms list_update_id [of "phyhwrs s" 5] list_update_id [of "hwrtypes s" 5]
  by (simp add: unregister_hwrtype_def ht_upd_def hwrtype_rhino_def fun_upd_idem Let_def)

text \<open>The registered state with the windows it holds so far.\<close>

definition holding :: "u32 list \<Rightarrow> u32 list \<Rightarrow> 'a rhino_state_scheme \<Rightarrow> 'a rhino_state_scheme" where
  "holding bs vs s = (init_registered s)\<lparr>
     io_mapped := filter (\<lambda>v. v \<noteq> 0) (rev vs) @ io_mapped s,
     mem_regions := filter (\<lambda>b. b \<noteq> 0) (rev bs) @ mem_regions s,
     fpga_bus := Some (Suc (Suc (nalloc s + 2)), \<lparr>cs_base = bs @ [0, 0, 0], cs_virtual = vs @ [0, 0, 0]\<rparr>)\<rparr>"

lemma cleanup_unloaded:
  assumes ready: "init_ready s"
    and t: "t = (holding [b0, b1, b2] [v0, v1, v2] s)\<lparr>part_cache := c, spi_registered := g, gpio_out := out\<rparr>"
  shows "\<exists>s'. hwrtype_rhino_cleanup t = Some s' \<and> unloaded s s'"
proof -
  let ?n = "nalloc s" let ?L = "[Suc (?n + 2), ?n + 2, Suc ?n, ?n] @ klive s"
  have bus: "release_bus t = Some (t\<lparr>io_mapped := io_mapped s, mem_regions := mem_regions s, klive := ?L, fpga_bus := None\<rparr>)"
    by (rule release_bus_eq) (simp_all add: t holding_def init_registered_def Let_def)
  have f: "rhino_iobuf t = KPtr (Suc (?n + 2))" "rhino_page t = KPtr (?n + 2)"
    "hwrtypes t = (hwrtypes s)[5 := Some RHINO_HT]"
    "htstore t = (htstore s)(RHINO_HT \<mapsto> hwrtype_rhino\<lparr>ht_count := 1\<rparr>)"
    "phyhwrs t = (phyhwrs s)[5 := Some (?n, [(Suc ?n, (junk_phyhwr s (Suc ?n))\<lparr>ph_count := -1\<rparr>)])]"
    by (simp_all add: t holding_def init_registered_def Let_def)
  have unreg: "unregister_hwrtype RHINO_HT u = Some (0, u\<lparr>hwrtypes := hwrtypes s, phyhwrs := phyhwrs s,
      htstore := htstore s, klive := klive s\<rparr>)"
    if "hwrtypes u = hwrtypes t" "htstore u = htstore t" "phyhwrs u = phyhwrs t" "klive u = Suc ?n # ?n # klive s" for u
    using ready by (intro unregister_rhino [of s]) (simp_all add: init_ready_def hwr_wf_lengths that f)
  show ?thesis
    by (simp add: hwrtype_rhino_cleanup_def bus free_rhino_iobuf_def free_rhino_page_def unloaded_def f(1,2) unreg)
qed

lemma cleanup_holding:
  assumes "init_ready s"
  shows "\<exists>s'. hwrtype_rhino_cleanup (holding [b0, b1, b2] [v0, v1, v2] s) = Some s' \<and> unloaded s s'"
  using assms
  by (rule cleanup_unloaded [where c = "part_cache s" and g = "spi_registered s" and out = "gpio_out s"])
    (simp add: holding_def init_registered_def Let_def)

lemma init_registered_frame [simp]:
  "memreg_ok (init_registered s) = memreg_ok s" "ioremap_to (init_registered s) = ioremap_to s"
  by (simp_all add: init_registered_def Let_def)

lemma holding_frame [simp]:
  "memreg_ok (holding bs vs s) = memreg_ok s" "ioremap_to (holding bs vs s) = ioremap_to s"
  by (simp_all add: holding_def)

lemma cs_base_nonzero: "FPGA_CS_BASE ! 0 \<noteq> 0" "FPGA_CS_BASE ! Suc 0 \<noteq> 0" "FPGA_CS_BASE ! 2 \<noteq> 0"
  by (simp_all add: FPGA_CS_BASE_def)

lemma replicate_6: "replicate 6 x = [x, x, x, x, x, x]"
  by (simp add: eval_nat_numeral)

lemma all_less_3: "(\<forall>k < (3::nat). P k) \<longleftrightarrow> P 0 \<and> P 1 \<and> P 2"
proof -
  have "k < 3 \<longleftrightarrow> k = 0 \<or> k = 1 \<or> k = 2" for k :: nat by auto
  then show ?thesis by auto
qed

lemma list_update_2: "(x # y # z # zs)[2 := v] = x # y # v # zs"
  by (simp add: numeral_2_eq_2)

lemma map_gmpc_holding:
  "map_rhino_gmpc 0 (holding [0, 0, 0] [0, 0, 0] s) =
     (if \<not> memreg_ok s (FPGA_CS_BASE ! 0) then do { s \<leftarrow> hwrtype_rhino_cleanup (holding [0, 0, 0] [0, 0, 0] s); Some (False, s) }
      else if ioremap_to s (FPGA_CS_BASE ! 0) = 0
      then do { s \<leftarrow> hwrtype_rhino_cleanup (holding [FPGA_CS_BASE ! 0, 0, 0] [0, 0, 0] s); Some (False, s) }
      else Some (True, holding [FPGA_CS_BASE ! 0, 0, 0] [ioremap_to s (FPGA_CS_BASE ! 0), 0, 0] s))"
  "v0 \<noteq> 0 \<Longrightarrow> map_rhino_gmpc 1 (holding [FPGA_CS_BASE ! 0, 0, 0] [v0, 0, 0] s) =
     (if \<not> memreg_ok s (FPGA_CS_BASE ! 1)
      then do { s \<leftarrow> hwrtype_rhino_cleanup (holding [FPGA_CS_BASE ! 0, 0, 0] [v0, 0, 0] s); Some (False, s) }
      else if ioremap_to s (FPGA_CS_BASE ! 1) = 0
      then do { s \<leftarrow> hwrtype_rhino_cleanup (holding [FPGA_CS_BASE ! 0, FPGA_CS_BASE ! 1, 0] [v0, 0, 0] s); Some (False, s) }
      else Some (True, holding [FPGA_CS_BASE ! 0, FPGA_CS_BASE ! 1, 0] [v0, ioremap_to s (FPGA_CS_BASE ! 1), 0] s))"
  "v0 \<noteq> 0 \<Longrightarrow> v1 \<noteq> 0 \<Longrightarrow>
     map_rhino_gmpc 2 (holding [FPGA_CS_BASE ! 0, FPGA_CS_BASE ! 1, 0] [v0, v1, 0] s) =
     (if \<not> memreg_ok s (FPGA_CS_BASE ! 2)
      then do { s \<leftarrow> hwrtype_rhino_cleanup (holding [FPGA_CS_BASE ! 0, FPGA_CS_BASE ! 1, 0] [v0, v1, 0] s); Some (False, s) }
      else if ioremap_to s (FPGA_CS_BASE ! 2) = 0
      then do { s \<leftarrow> hwrtype_rhino_cleanup (holding [FPGA_CS_BASE ! 0, FPGA_CS_BASE ! 1, FPGA_CS_BASE ! 2] [v0, v1, 0] s); Some (False, s) }
      else Some (True, holding [FPGA_CS_BASE ! 0, FPGA_CS_BASE ! 1, FPGA_CS_BASE ! 2] [v0, v1, ioremap_to s (FPGA_CS_BASE ! 2)] s))"
  by (simp_all add: map_rhino_gmpc_def holding_def Let_def cs_base_nonzero list_update_2)

lemma map_windows_holding:
  assumes ready: "init_ready s"
  shows "if windows_ok s
    then map_windows (init_registered s) = Some (True, holding [FPGA_CS_BASE ! 0, FPGA_CS_BASE ! 1, FPGA_CS_BASE ! 2]
      [ioremap_to s (FPGA_CS_BASE ! 0), ioremap_to s (FPGA_CS_BASE ! 1), ioremap_to s (FPGA_CS_BASE ! 2)] s)
    else \<exists>s1. map_windows (init_registered s) = Some (False, s1) \<and> unloaded s s1"
proof -
  have start: "init_registered s = holding [0, 0, 0] [0, 0, 0] s"
    by (simp add: holding_def init_registered_def Let_def replicate_6)
  have clean: "\<exists>s'. do { s \<leftarrow> hwrtype_rhino_cleanup (holding [b0, b1, b2] [v0, v1, v2] s); Some (False, s) }
      = Some (False, s') \<and> unloaded s s'" for b0 b1 b2 v0 v1 v2
    using cleanup_holding [OF ready, of b0 b1 b2 v0 v1 v2] by auto
  have fails: "\<exists>s1. (if \<not> m then X else if i = 0 then Y else Z) = Some (False, s1) \<and> unloaded s s1"
    if "\<not> (m \<and> i \<noteq> 0)" "\<exists>s1. X = Some (False, s1) \<and> unloaded s s1" "\<exists>s1. Y = Some (False, s1) \<and> unloaded s s1"
    for m X Y Z and i :: u32 using that by auto
  let ?w = "\<lambda>k. memreg_ok s (FPGA_CS_BASE ! k) \<and> ioremap_to s (FPGA_CS_BASE ! k) \<noteq> 0"
  have ok: "windows_ok s \<longleftrightarrow> ?w 0 \<and> ?w 1 \<and> ?w 2"
    unfolding windows_ok_def by (rule all_less_3)
  consider "\<not> ?w 0" | "?w 0" "\<not> ?w 1" | "?w 0" "?w 1" "\<not> ?w 2" | "?w 0" "?w 1" "?w 2" by blast
  then show ?thesis
  proof cases
    case 1
    then have "\<exists>s1. map_rhino_gmpc 0 (holding [0, 0, 0] [0, 0, 0] s) = Some (False, s1) \<and> unloaded s s1"
      unfolding map_gmpc_holding by (rule fails) (rule clean)+
    then show ?thesis using 1 ok unfolding start map_windows_def by auto
  next
    case 2
    let ?v = "ioremap_to s (FPGA_CS_BASE ! 0)"
    have nz: "?v \<noteq> 0" using 2(1) by blast
    have "\<exists>s1. map_rhino_gmpc 1 (holding [FPGA_CS_BASE ! 0, 0, 0] [?v, 0, 0] s) = Some (False, s1) \<and> unloaded s s1"
      unfolding map_gmpc_holding(2) [OF nz] by (rule fails [OF 2(2) clean clean])
    then show ?thesis using 2 ok unfolding start map_windows_def by (auto simp: map_gmpc_holding(1) simp flip: One_nat_def)
  next
    case 3
    let ?v = "ioremap_to s (FPGA_CS_BASE ! 0)" and ?v' = "ioremap_to s (FPGA_CS_BASE ! 1)"
    have nz: "?v \<noteq> 0" "?v' \<noteq> 0" using 3(1,2) by blast+
    have "\<exists>s1. map_rhino_gmpc 2 (holding [FPGA_CS_BASE ! 0, FPGA_CS_BASE ! 1, 0] [?v, ?v', 0] s) = Some (False, s1) \<and> unloaded s s1"
      unfolding map_gmpc_holding(3) [OF nz] by (rule fails [OF 3(3) clean clean])
    then show ?thesis using 3 ok unfolding start map_windows_def by (auto simp: map_gmpc_holding(1,2) simp flip: One_nat_def)
  next
    case 4
    then show ?thesis using ok unfolding start map_windows_def by (simp add: map_gmpc_holding flip: One_nat_def)
  qed
qed

text \<open>The state after a successful initialisation.\<close>

definition init_done :: "'a rhino_state_scheme \<Rightarrow> 'a rhino_state_scheme" where
  "init_done s = (holding [FPGA_CS_BASE ! 0, FPGA_CS_BASE ! 1, FPGA_CS_BASE ! 2]
     [ioremap_to s (FPGA_CS_BASE ! 0), ioremap_to s (FPGA_CS_BASE ! 1), ioremap_to s (FPGA_CS_BASE ! 2)] s)
     \<lparr>part_cache := True, spi_registered := True, gpio_out := gpio_out s @ [(INIT_B_DIR, False)]\<rparr>"

lemma hwrtype_rhino_init_done:
  assumes "init_ready s" and "windows_ok s"
  shows "hwrtype_rhino_init s = Some (0, init_done s)"
  using map_windows_holding [OF assms(1)] assms(2)
  by (simp add: hwrtype_rhino_init_registered [OF assms(1)] init_done_def gpio_put_def holding_def
      init_registered_def Let_def)

lemma get_mapped_location_init:
  assumes "k < 6" and "u < SZ_128M"
  shows "get_mapped_location (FPGA_CS_BASE ! k + u) (init_done s) =
    Some (if k < 3 then ioremap_to s (FPGA_CS_BASE ! k) + u else u)"
proof -
  have "k = 0 \<or> k = Suc 0 \<or> k = 2 \<or> k = 3 \<or> k = 4 \<or> k = 5" using assms(1) by auto
  then show ?thesis
    using cs_of_window [OF assms]
    by (elim disjE) (simp_all add: get_mapped_location_def init_done_def holding_def)
qed

section \<open>Properties of the module\<close>

text \<open>
  C18: initialisation succeeds when its services do. Afterwards the driver is registered with its
  operations, its region is free, the transfer buffer covers the page behind its first 12 bytes, a
  register address in one of the first three windows is translated into the mapped window, and an
  address in the other three, which are never mapped, is translated into an offset from address 0.
\<close>

theorem hwrtype_rhino_init_ok:
  assumes "init_ready s" and "windows_ok s"
  shows "\<exists>s'. hwrtype_rhino_init s = Some (0, s') \<and>
    driver_at \<lparr>hwa_class = HAC_RHINO, hwa_addr = 0\<rparr> RHINO_HT RHINO_OPS s' \<and>
    (\<exists>h. phy_get s' (unat HAC_RHINO, 0) = Some h \<and> ph_count h = -1) \<and>
    (\<exists>b io. rhino_iobuf s' = KPtr b \<and> iobufs s' b = Some io \<and>
       io_size io = PAGE_SIZE - 12 \<and> length (io_data io) = PAGE_SIZE - 12) \<and>
    (\<forall>k < 6. \<forall>u < SZ_128M. get_mapped_location (FPGA_CS_BASE ! k + u) s' =
       Some (if k < 3 then ioremap_to s (FPGA_CS_BASE ! k) + u else u))"
proof -
  have "length (hwrtypes s) = 16" "length (phyhwrs s) = 16"
    using assms(1) by (simp_all add: init_ready_def hwr_wf_lengths)
  then show ?thesis
    using hwrtype_rhino_init_done [OF assms] get_mapped_location_init [of _ _ s]
    by (simp add: init_done_def holding_def init_registered_def Let_def driver_at_def phy_get_def hwrtype_rhino_def)
qed

text \<open>
  Loading and unloading the module restores the tables, the live objects, the memory regions and
  the mappings; and when a window cannot be requested or mapped, the initialisation itself returns
  \<open>-ENOMEM\<close> with the same result.
\<close>

theorem hwrtype_rhino_init_exit:
  assumes ready: "init_ready s"
  shows "if windows_ok s
    then \<exists>s1 s2. hwrtype_rhino_init s = Some (0, s1) \<and> hwrtype_rhino_exit s1 = Some s2 \<and> unloaded s s2
    else \<exists>s1. hwrtype_rhino_init s = Some (-ENOMEM, s1) \<and> unloaded s s1"
proof (cases "windows_ok s")
  case True
  have "\<exists>s2. hwrtype_rhino_cleanup (init_done s) = Some s2 \<and> unloaded s s2"
    using ready init_done_def by (rule cleanup_unloaded)
  then show ?thesis
    using True hwrtype_rhino_init_done [OF ready True] by (simp add: hwrtype_rhino_exit_def)
next
  case False
  have "\<exists>s1. map_windows (init_registered s) = Some (False, s1) \<and> unloaded s s1"
    using map_windows_holding [OF ready] False by simp
  then show ?thesis using False by (auto simp: hwrtype_rhino_init_registered [OF ready])
qed

text \<open>
  A failed allocation of the transfer buffer is not undone. The initialisation returns \<open>-ENOMEM\<close>
  but leaves the driver registered and the page allocated; a second attempt to load the module is
  then refused because the class is taken.
\<close>

theorem hwrtype_rhino_init_iobuf_leak:
  assumes wf: "hwr_wf s" and ht: "htstore s RHINO_HT = Some hwrtype_rhino"
    and free: "hwrtypes s ! unat HAC_RHINO = None" "phyhwrs s ! unat HAC_RHINO = None"
    and mem: "\<forall>n. kalloc_ok s n \<longleftrightarrow> n \<noteq> nalloc s + 3"
  shows "\<exists>s'. hwrtype_rhino_init s = Some (-ENOMEM, s') \<and>
    hwrtypes s' ! unat HAC_RHINO = Some RHINO_HT \<and>
    klive s' = [nalloc s + 2, nalloc s + 1, nalloc s] @ klive s \<and>
    (\<exists>s''. hwrtype_rhino_init s' = Some (-1, s''))"
proof -
  let ?s = "s\<lparr>rhino_fpga := False\<rparr>" and ?n = "nalloc s"
  let ?s1 = "?s\<lparr>nalloc := Suc (Suc ?n), klive := Suc ?n # ?n # klive s,
    phyhwrs := (phyhwrs s)[5 := Some (?n, [(Suc ?n, junk_phyhwr s (Suc ?n))])],
    hwrtypes := (hwrtypes s)[5 := Some RHINO_HT],
    htstore := (htstore s)(RHINO_HT \<mapsto> hwrtype_rhino\<lparr>ht_count := 1\<rparr>)\<rparr>"
  note len = hwr_wf_lengths [OF wf]
  have "register_hwrtype RHINO_HT ?s = Some (0, ?s1)"
    using mem len free ht
    by (subst register_hwrtype_outcomes(5) [where ht = hwrtype_rhino and c = 5])
      (simp_all add: hwrtype_rhino_def)
  then show ?thesis
    using len mem
    by (simp add: hwrtype_rhino_init_def phy_upd_def init_iobuf_def kmalloc_def register_hwrtype_def
        hwrtype_rhino_def numeral_3_eq_3 Let_def)
qed

text \<open>
  C3: through the device-independent layer, the region of the board is held by at most one user at a
  time: after a successful reservation every further one is refused without effect, and releasing
  the region makes it free again, leaving the state from before with the region's task cleared.
\<close>

theorem rhino_reserve_exclusive:
  assumes "driver_at a p RHINO_OPS s" and "rhino_managed a" and "phy_get s (phy_ix a) = Some h"
    and "reserve_hwr rhino_ops_at a s = Some (Some r, s')"
  shows "r = phy_ix a \<and> reserve_hwr rhino_ops_at a s' = Some (None, s') \<and>
    release_hwr rhino_ops_at a s' = phy_upd (phy_ix a) (\<lambda>h. h\<lparr>ph_task := None\<rparr>) s"
  using rhino_drv.reserve_outcome(2) [OF assms] rhino_drv.reserve_exclusive [OF assms]
    rhino_drv.reserve_release [OF assms] by blast

lemma rhino_boot_ready: "init_ready rhino_boot" "windows_ok rhino_boot"
  using rhino_boot_wf
  by (simp_all add: init_ready_def windows_ok_def all_less_3 rhino_boot_def hwr_init_def FPGA_CS_BASE_def)

theorem hwrtype_rhino_init_ok_witness:
  "\<exists>s'. hwrtype_rhino_init rhino_boot = Some (0, s') \<and>
     get_mapped_location (FPGA_CS_BASE ! 1 + 4) s' = Some 0x10000004 \<and>
     get_mapped_location (FPGA_CS_BASE ! 3 + 4) s' = Some 4"
proof -
  obtain s' where s': "hwrtype_rhino_init rhino_boot = Some (0, s')"
    and loc: "\<forall>k < 6. \<forall>u < SZ_128M. get_mapped_location (FPGA_CS_BASE ! k + u) s' =
       Some (if k < 3 then ioremap_to rhino_boot (FPGA_CS_BASE ! k) + u else u)"
    using hwrtype_rhino_init_ok [OF rhino_boot_ready] by blast
  have "get_mapped_location (FPGA_CS_BASE ! 1 + 4) s' = Some (ioremap_to rhino_boot (FPGA_CS_BASE ! 1) + 4)"
    using loc by simp
  moreover have "ioremap_to rhino_boot (FPGA_CS_BASE ! 1) + 4 = 0x10000004"
    by (simp add: rhino_boot_def hwr_init_def FPGA_CS_BASE_def)
  moreover have "get_mapped_location (FPGA_CS_BASE ! 3 + 4) s' = Some 4" using loc by simp
  ultimately show ?thesis using s' by simp
qed

theorem hwrtype_rhino_init_exit_witness:
  "\<exists>s1 s2. hwrtype_rhino_init rhino_boot = Some (0, s1) \<and> hwrtype_rhino_exit s1 = Some s2 \<and> klive s2 = []"
  using hwrtype_rhino_init_exit [OF rhino_boot_ready(1)] rhino_boot_ready(2)
  by (auto simp: unloaded_def rhino_boot_def hwr_init_def)

theorem hwrtype_rhino_init_iobuf_leak_witness:
  "\<exists>s'. hwrtype_rhino_init (rhino_boot\<lparr>kalloc_ok := (\<lambda>n. n \<noteq> 3)\<rparr>) = Some (-ENOMEM, s') \<and> klive s' = [2, 1, 0]"
proof -
  let ?s = "rhino_boot\<lparr>kalloc_ok := (\<lambda>n. n \<noteq> 3)\<rparr>"
  have "hwr_wf ?s" by (simp add: hwr_wf_def rhino_boot_def hwr_init_def)
  then show ?thesis
    using hwrtype_rhino_init_iobuf_leak [of ?s] by (auto simp: rhino_boot_def hwr_init_def)
qed

theorem rhino_reserve_exclusive_witness:
  "\<exists>s s'. reserve_hwr rhino_ops_at \<lparr>hwa_class = HAC_RHINO, hwa_addr = 0\<rparr> s = Some (Some (5, 0), s') \<and>
     reserve_hwr rhino_ops_at \<lparr>hwa_class = HAC_RHINO, hwa_addr = 0\<rparr> (s' :: rhino_state) = Some (None, s')"
proof -
  let ?a = "\<lparr>hwa_class = HAC_RHINO, hwa_addr = 0\<rparr>"
  let ?s = "rhino_boot\<lparr>phyhwrs := (replicate 16 None)[5 := Some (0, [(1, \<lparr>ph_hwraddr = ?a, ph_count = -1, ph_active = 0, ph_task = None\<rparr>)])],
    hwrtypes := (replicate 16 None)[5 := Some RHINO_HT]\<rparr>"
  have "driver_at ?a RHINO_HT RHINO_OPS ?s" "rhino_managed ?a"
    by (simp_all add: driver_at_def rhino_managed_def rhino_boot_def hwr_init_def hwrtype_rhino_def)
  moreover have "\<exists>s'. reserve_hwr rhino_ops_at ?a ?s = Some (Some (5, 0), s')"
    by (simp add: reserve_hwr_def rhino_boot_def hwr_init_def rhino_ops_at_def rhino_hwr_operations_def get_hwrops_def
      put_hwrops_def ht_upd_def phy_upd_def phy_get_def hwrtype_rhino_def)
  moreover have "\<exists>h. phy_get ?s (phy_ix ?a) = Some h" by (simp add: phy_get_def)
  ultimately show ?thesis using rhino_reserve_exclusive [of ?a RHINO_HT ?s] by blast
qed

end
