(* ===== verification/Borph.thy ===== *)
theory Borph
  imports Rhino
begin

text \<open>
  Loading a BOF file into hardware and tearing it down again: \<open>src/borph/kernel/borph.c\<close> and the
  functions of \<open>src/borph/kernel/bkexecd.c\<close> that do the work, \<open>get_args\<close>, \<open>bpr_nextfree\<close> and
  \<open>borph_load_hw\<close>.

  The kernel state gains the \<open>borph_info\<close> of each task and the contents of the string tables. The
  hardware operations are those of the driver at the parameter \<open>ops_at\<close>. \<^const>\<open>None\<close> is a fault or a
  configuration that does not return.
\<close>

section \<open>State of a hardware process\<close>

record borph_hw_region =
  rg_ptr :: nat
  rg_addr :: hwr_addr
  rg_strtab :: kptr

text \<open>The name of a register is a pointer into a string table, the address a pointer to a region.\<close>

record borph_ioreg =
  ir_ptr :: nat
  ir_strtab :: kptr
  ir_name :: nat
  ir_mode :: u32
  ir_loc :: u32
  ir_len :: u32
  ir_region :: nat

record borph_info =
  bi_ptr :: nat
  bi_hw_region :: "borph_hw_region list"
  bi_ioreg :: "borph_ioreg list"
  bi_ioreg_mode :: int
  bi_status :: u32

record borph_state = rhino_state +
  binfo :: "nat \<rightharpoonup> borph_info"
  strtabs :: "nat \<rightharpoonup> u8 list"
  heap_junk :: "nat \<Rightarrow> nat \<Rightarrow> u8"
  stack_junk :: "nat \<Rightarrow> u8"
  task_list_cachep :: kptr

text \<open>The first \<open>n\<close> bytes of an uninitialised object.\<close>

definition junk_bytes :: "(nat \<Rightarrow> u8) \<Rightarrow> nat \<Rightarrow> u8 list" where
  "junk_bytes f n = map f [0..<n]"

lemma length_junk_bytes [simp]: "length (junk_bytes f n) = n"
  by (simp add: junk_bytes_def del: upt_rec_numeral)

section \<open>Arguments of the process\<close>

text \<open>
  \<open>get_args\<close> copies the argument strings out of the user pages of the new process. \<open>um\<close> is the user
  memory; the copy goes page by page, and stops after \<open>argc\<close> NUL bytes or when the buffer is full.
\<close>

fun copy_page :: "(nat \<Rightarrow> u8) \<Rightarrow> nat \<Rightarrow> nat \<Rightarrow> nat \<Rightarrow> u8 list \<times> nat" where
  "copy_page um p 0 argc = ([], argc)"
| "copy_page um p (Suc len) argc =
     (if argc = 0 then ([], argc)
      else let c = um p; (bs, argc') = copy_page um (Suc p) len (if c = 0 then argc - 1 else argc)
           in (c # bs, argc'))"

lemma copy_page_length: "length (fst (copy_page um p len argc)) \<le> len"
  by (induction um p len argc rule: copy_page.induct) (auto simp: Let_def split: prod.splits)

lemma copy_page_progress: "0 < len \<Longrightarrow> 0 < argc \<Longrightarrow> 0 < length (fst (copy_page um p len argc))"
  by (cases len) (auto simp: Let_def split: prod.splits)

function copy_args :: "(nat \<Rightarrow> u8) \<Rightarrow> nat \<Rightarrow> nat \<Rightarrow> nat \<Rightarrow> u8 list" where
  "copy_args um argc p room =
     (if 0 < argc \<and> 0 < room then
        let len = PAGE_SIZE - p mod PAGE_SIZE;
            (bs, argc') = copy_page um p (if room < len then room else len) argc
        in bs @ copy_args um argc' (p + length bs) (room - length bs)
      else [])"
  by pat_completeness auto
termination
proof (relation "measure (\<lambda>(um, argc, p, room). room)", goal_cases)
  case (2 um argc p room len x bs argc')
  have "bs = fst (copy_page um p (if room < len then room else len) argc)" using 2 by (metis fst_conv)
  moreover have "0 < (if room < len then room else len)" using 2 by simp
  ultimately have "0 < length bs" using 2(1) copy_page_progress by metis
  then show ?case using 2 by simp
qed simp

declare copy_args.simps [simp del]

text \<open>The return type is unsigned, so the error is a large count.\<close>

definition get_args :: "(nat \<Rightarrow> u8) \<Rightarrow> nat \<Rightarrow> nat \<Rightarrow> nat \<Rightarrow> u32 \<times> u8 list" where
  "get_args um argc p sz =
     (if sz = 0 then (-22, []) else let bs = copy_args um argc p sz in (of_nat (length bs), bs))"

section \<open>Releasing the hardware of a task\<close>

fun free_ioregs :: "borph_ioreg list \<Rightarrow> 'a borph_state_scheme \<Rightarrow> 'a borph_state_scheme option" where
  "free_ioregs [] s = Some s"
| "free_ioregs (r # rs) s = do { s \<leftarrow> kfree (KPtr (ir_ptr r)) s; free_ioregs rs s }"

fun free_strtab :: "kptr \<Rightarrow> 'a borph_state_scheme \<Rightarrow> 'a borph_state_scheme option" where
  "free_strtab (KPtr p) s = do { s \<leftarrow> kfree (KPtr p) s; Some (s\<lparr>strtabs := (strtabs s)(p := None)\<rparr>) }"
| "free_strtab _ s = Some s"

definition exit_region ::
  "(nat \<Rightarrow> 'a borph_state_scheme hwr_operations) \<Rightarrow> borph_hw_region \<Rightarrow> 'a borph_state_scheme
    \<Rightarrow> 'a borph_state_scheme option" where
  "exit_region ops_at rg s = do {
     s \<leftarrow> free_strtab (rg_strtab rg) s;
     s \<leftarrow> hwr_deactivate (Some (rg_addr rg)) s;
     (ops, s) \<leftarrow> get_hwrops (rg_addr rg) s;
     s \<leftarrow> (case ops of
         None \<Rightarrow> Some s
       | Some q \<Rightarrow> (case op_unconfigure (ops_at q) of
             None \<Rightarrow> Some s
           | Some f \<Rightarrow> do { (_, s) \<leftarrow> f (rg_addr rg) s; Some s }));
     s \<leftarrow> put_hwrops (rg_addr rg) s;
     s \<leftarrow> release_hwr ops_at (rg_addr rg) s;
     kfree (KPtr (rg_ptr rg)) s }"

fun exit_regions ::
  "(nat \<Rightarrow> 'a borph_state_scheme hwr_operations) \<Rightarrow> borph_hw_region list \<Rightarrow> 'a borph_state_scheme
    \<Rightarrow> 'a borph_state_scheme option" where
  "exit_regions ops_at [] s = Some s"
| "exit_regions ops_at (rg # rgs) s = do { s \<leftarrow> exit_region ops_at rg s; exit_regions ops_at rgs s }"

definition borph_exit_fpga ::
  "(nat \<Rightarrow> 'a borph_state_scheme hwr_operations) \<Rightarrow> nat \<Rightarrow> 'a borph_state_scheme
    \<Rightarrow> 'a borph_state_scheme option" where
  "borph_exit_fpga ops_at tsk s =
     (case binfo s tsk of
        None \<Rightarrow> Some s
      | Some bi \<Rightarrow> do {
          s \<leftarrow> free_ioregs (bi_ioreg bi) s;
          s \<leftarrow> exit_regions ops_at (bi_hw_region bi) s;
          s \<leftarrow> kfree (KPtr (bi_ptr bi)) s;
          Some (s\<lparr>binfo := (binfo s)(tsk := None)\<rparr>) })"

text \<open>The result \<open>cachep\<close> of \<open>kmem_cache_create\<close> is a parameter; it is stored even when it is NULL.\<close>

definition borph_init :: "kptr \<Rightarrow> 'a borph_state_scheme \<Rightarrow> 'a borph_state_scheme" where
  "borph_init cachep s = (hwr_init s)\<lparr>task_list_cachep := cachep\<rparr>"

section \<open>Loading\<close>

text \<open>
  \<open>bpr_nextfree\<close> tries the first four addresses of the class in turn and leaves the last one tried in
  the address.
\<close>

fun try_free ::
  "(nat \<Rightarrow> 'a borph_state_scheme hwr_operations) \<Rightarrow> hwr_addr \<Rightarrow> nat list \<Rightarrow> 'a borph_state_scheme
    \<Rightarrow> (phyref option \<times> hwr_addr \<times> 'a borph_state_scheme) option" where
  "try_free ops_at a [] s = Some (None, a, s)"
| "try_free ops_at a (i # is) s = do {
     let a = a\<lparr>hwa_addr := of_nat i\<rparr>;
     (r, s) \<leftarrow> reserve_hwr ops_at a s;
     case r of Some h \<Rightarrow> Some (Some h, a, s) | None \<Rightarrow> try_free ops_at a is s }"

definition bpr_nextfree ::
  "(nat \<Rightarrow> 'a borph_state_scheme hwr_operations) \<Rightarrow> hwr_addr \<Rightarrow> 'a borph_state_scheme
    \<Rightarrow> (phyref option \<times> hwr_addr \<times> 'a borph_state_scheme) option" where
  "bpr_nextfree ops_at a s =
     (if hwa_class a \<noteq> HAC_RHINO then Some (None, a, s) else try_free ops_at a [0, 1, 2, 3] s)"

text \<open>Reading \<open>n\<close> bytes of the file over the object \<open>old\<close>: a short read leaves its tail.\<close>

definition kread :: "kfile \<Rightarrow> u32 \<Rightarrow> nat \<Rightarrow> u8 list \<Rightarrow> int \<times> u8 list" where
  "kread file off n old = (case file (unat off) n of (r, bs) \<Rightarrow> (r, overlay (take n bs) old))"

definition add_ioreg :: "nat \<Rightarrow> borph_ioreg \<Rightarrow> 'a borph_state_scheme \<Rightarrow> 'a borph_state_scheme option" where
  "add_ioreg tsk r s = do {
     bi \<leftarrow> binfo s tsk;
     Some (s\<lparr>binfo := (binfo s)(tsk \<mapsto> bi\<lparr>bi_ioreg := r # bi_ioreg bi\<rparr>)\<rparr>) }"

definition add_region :: "nat \<Rightarrow> borph_hw_region \<Rightarrow> 'a borph_state_scheme \<Rightarrow> 'a borph_state_scheme option" where
  "add_region tsk rg s = do {
     bi \<leftarrow> binfo s tsk;
     Some (s\<lparr>binfo := (binfo s)(tsk \<mapsto> bi\<lparr>bi_hw_region := rg # bi_hw_region bi\<rparr>)\<rparr>) }"

text \<open>
  The registers of a region. The left result is an error that ends the load, the right one the
  offset behind the last register.
\<close>

fun load_ioregs ::
  "kfile \<Rightarrow> nat \<Rightarrow> kptr \<Rightarrow> nat \<Rightarrow> nat \<Rightarrow> u32 \<Rightarrow> 'a borph_state_scheme
    \<Rightarrow> ((int + u32) \<times> 'a borph_state_scheme) option" where
  "load_ioregs file tsk strtab rg 0 foff s = Some (Inr foff, s)"
| "load_ioregs file tsk strtab rg (Suc n) foff s =
     (case kmalloc 32 s of (q, s) \<Rightarrow>
      case kread file foff sizeof_bofioreg (junk_bytes (stack_junk s) sizeof_bofioreg) of (r, bs) \<Rightarrow>
        if r < 0 then Some (Inl r, s)
        else (case q of
            KPtr p \<Rightarrow> do {
              let b = dec_bofioreg bs;
              s \<leftarrow> add_ioreg tsk \<lparr>ir_ptr = p, ir_strtab = strtab, ir_name = unat (ior_name b),
                     ir_mode = ucast (ior_mode b), ir_loc = ior_loc b, ir_len = ior_len b,
                     ir_region = rg\<rparr> s;
              load_ioregs file tsk strtab rg n (foff + 12) s }
          | _ \<Rightarrow> None))"

text \<open>String table, region and registers, once a physical region is reserved.\<close>

definition load_symbols ::
  "kfile \<Rightarrow> nat \<Rightarrow> hwrhdr \<Rightarrow> u32 \<Rightarrow> 'a borph_state_scheme \<Rightarrow> ((int + u32) \<times> 'a borph_state_scheme) option" where
  "load_symbols file tsk hdr foff s =
     (let strtab_foff = foff + nr_symbol hdr * 12;
          strtab_len = pl_off hdr - hstrtab_off hdr
      in if strtab_len = 0 \<and> nr_symbol hdr \<noteq> 0 then Some (Inl (-ENOEXEC), s)
         else case kmalloc (unat strtab_len) s of (strtab, s) \<Rightarrow>
           if strtab = KNull then Some (Inl (-ENOEXEC), s)
           else case kread file strtab_foff (unat strtab_len)
                  (junk_bytes (heap_junk s (nalloc s)) (unat strtab_len)) of (r, bs) \<Rightarrow>
             if r < 0 then Some (Inl r, s)
             else
               (let s = (case strtab of KPtr p \<Rightarrow> s\<lparr>strtabs := (strtabs s)(p \<mapsto> bs)\<rparr> | _ \<Rightarrow> s)
                in case kmalloc 16 s of
                    (KPtr p, s) \<Rightarrow> do {
                      s \<leftarrow> add_region tsk \<lparr>rg_ptr = p, rg_addr = haddr hdr, rg_strtab = strtab\<rparr> s;
                      load_ioregs file tsk strtab p (unat (nr_symbol hdr)) foff s }
                  | _ \<Rightarrow> None))"

definition configure_region ::
  "(nat \<Rightarrow> 'a borph_state_scheme hwr_operations) \<Rightarrow> kfile \<Rightarrow> hwrhdr \<Rightarrow> 'a borph_state_scheme
    \<Rightarrow> ((int + int) \<times> 'a borph_state_scheme) option" where
  "configure_region ops_at file hdr s = do {
     (ops, s) \<leftarrow> get_hwrops (haddr hdr) s;
     case ops of
       None \<Rightarrow> Some (Inl (-ENOEXEC), s)
     | Some q \<Rightarrow> (case op_configure (ops_at q) of
           None \<Rightarrow> Some (Inl (-ENOEXEC), s)
         | Some f \<Rightarrow> do {
             (r, s) \<leftarrow> f (haddr hdr) file (pl_off hdr) (pl_len hdr) s;
             s \<leftarrow> put_hwrops (haddr hdr) s;
             if r < 0 then Some (Inl r, s)
             else do { s \<leftarrow> hwr_activate (Some (haddr hdr)) s; Some (Inr r, s) } }) }"

text \<open>A region that is placed goes to its own address, any other to the first free one.\<close>

definition reserve_for ::
  "(nat \<Rightarrow> 'a borph_state_scheme hwr_operations) \<Rightarrow> hwrhdr \<Rightarrow> 'a borph_state_scheme
    \<Rightarrow> (phyref option \<times> hwr_addr \<times> 'a borph_state_scheme) option" where
  "reserve_for ops_at hdr s =
     (if hflag hdr AND HFG_PLACED \<noteq> 0
      then do { (hwr, s) \<leftarrow> reserve_hwr ops_at (haddr hdr) s; Some (hwr, haddr hdr, s) }
      else bpr_nextfree ops_at (haddr hdr) s)"

text \<open>
  One round of the loop over the chips. \<open>old\<close> is the header structure of the round before, \<open>retval\<close>
  the value a jump out of the loop would return.
\<close>

definition load_region ::
  "(nat \<Rightarrow> 'a borph_state_scheme hwr_operations) \<Rightarrow> kfile \<Rightarrow> nat \<Rightarrow> u32 \<Rightarrow> u8 list \<Rightarrow> int
    \<Rightarrow> 'a borph_state_scheme \<Rightarrow> ((int + hwrhdr \<times> int) \<times> 'a borph_state_scheme) option" where
  "load_region ops_at file tsk cur_foff old retval s =
     (if cur_foff = 0 then Some (Inl retval, s)
      else case kread file cur_foff sizeof_hwrhdr old of (r, bs) \<Rightarrow>
        if r < 0 then Some (Inl r, s)
        else do {
          let hdr = dec_hwrhdr bs;
          (hwr, a, s) \<leftarrow> reserve_for ops_at hdr s;
          case hwr of
            None \<Rightarrow> Some (Inl (-EBUSY), s)
          | Some h \<Rightarrow> do {
              let hdr = hdr\<lparr>haddr := a\<rparr>;
              s \<leftarrow> phy_upd h (\<lambda>p. p\<lparr>ph_task := Some tsk\<rparr>) s;
              (res, s) \<leftarrow> load_symbols file tsk hdr (cur_foff + 28) s;
              case res of
                Inl e \<Rightarrow> Some (Inl e, s)
              | Inr _ \<Rightarrow> do {
                  (res, s) \<leftarrow> configure_region ops_at file hdr s;
                  case res of
                    Inl e \<Rightarrow> Some (Inl e, s)
                  | Inr r \<Rightarrow> Some (Inr (hdr, r), s) } } })"

fun load_regions ::
  "(nat \<Rightarrow> 'a borph_state_scheme hwr_operations) \<Rightarrow> kfile \<Rightarrow> nat \<Rightarrow> nat \<Rightarrow> u32 \<Rightarrow> u8 list \<Rightarrow> int
    \<Rightarrow> 'a borph_state_scheme \<Rightarrow> ((int option) \<times> 'a borph_state_scheme) option" where
  "load_regions ops_at file tsk 0 cur_foff old retval s = Some (None, s)"
| "load_regions ops_at file tsk (Suc n) cur_foff old retval s = do {
     (res, s) \<leftarrow> load_region ops_at file tsk cur_foff old retval s;
     case res of
       Inl e \<Rightarrow> Some (Some e, s)
     | Inr (hdr, r) \<Rightarrow>
         load_regions ops_at file tsk n (next_hwr hdr) (enc_hwrhdr (hdr\<lparr>nr_symbol := -1\<rparr>)) r s }"

definition new_info :: "nat \<Rightarrow> borph_info" where
  "new_info p = \<lparr>bi_ptr = p, bi_hw_region = [], bi_ioreg = [], bi_ioreg_mode = 1, bi_status = 0\<rparr>"

definition borph_load_hw ::
  "(nat \<Rightarrow> 'a borph_state_scheme hwr_operations) \<Rightarrow> kfile \<Rightarrow> bofhdr \<Rightarrow> nat \<Rightarrow> 'a borph_state_scheme
    \<Rightarrow> (int \<times> 'a borph_state_scheme) option" where
  "borph_load_hw ops_at file bofhdr tsk s =
     (case kmalloc 24 s of
        (KPtr p, s) \<Rightarrow> do {
          let s = s\<lparr>binfo := (binfo s)(tsk \<mapsto> new_info p)\<rparr>;
          (res, s) \<leftarrow> load_regions ops_at file tsk (unat (b_numchip bofhdr)) (b_hwoff bofhdr)
                       (junk_bytes (stack_junk s) sizeof_hwrhdr) (-EIO) s;
          case res of
            None \<Rightarrow> do {
              bi \<leftarrow> binfo s tsk;
              Some (0, s\<lparr>binfo := (binfo s)(tsk \<mapsto> bi\<lparr>bi_status := bi_status bi OR 1\<rparr>)\<rparr>) }
          | Some e \<Rightarrow> do { s \<leftarrow> borph_exit_fpga ops_at tsk s; Some (e, s) } }
      | _ \<Rightarrow> None)"

section \<open>The arguments are copied in one pass\<close>

lemma copy_page_none [simp]: "copy_page um p n 0 = ([], 0)"
  by (cases n) auto

lemma copy_page_append:
  "copy_page um p (m + n) argc =
     (case copy_page um p m argc of (b1, a1) \<Rightarrow>
        case copy_page um (p + length b1) n a1 of (b2, a2) \<Rightarrow> (b1 @ b2, a2))"
proof (induction um p m argc rule: copy_page.induct)
  case (2 um p len argc)
  then show ?case by (cases "argc = 0") (simp_all add: Let_def split: prod.split)
qed simp

lemma copy_page_stops: "length (fst (copy_page um p len argc)) < len \<Longrightarrow> snd (copy_page um p len argc) = 0"
  by (induction um p len argc rule: copy_page.induct) (auto simp: Let_def split: prod.splits if_splits)

lemma copy_args_one_pass: "copy_args um argc p room = fst (copy_page um p room argc)"
proof (induction um argc p room rule: copy_args.induct)
  case (1 um argc p room)
  show ?case
  proof (cases "0 < argc \<and> 0 < room")
    case False
    then have "fst (copy_page um p room argc) = []" by (cases room) auto
    with False show ?thesis by (subst copy_args.simps) auto
  next
    case True
    define k where "k = (if room < PAGE_SIZE - p mod PAGE_SIZE then room else PAGE_SIZE - p mod PAGE_SIZE)"
    obtain bs argc' where page: "copy_page um p k argc = (bs, argc')" by (cases "copy_page um p k argc")
    have k: "k \<le> room" by (auto simp: k_def)
    have "copy_args um argc p room = bs @ copy_args um argc' (p + length bs) (room - length bs)"
      using True page unfolding k_def by (subst copy_args.simps) simp
    also have "copy_args um argc' (p + length bs) (room - length bs) =
        fst (copy_page um (p + length bs) (room - length bs) argc')"
      using 1 [OF True refl refl] page unfolding k_def by simp
    also have "bs @ \<dots> = fst (copy_page um p room argc)"
    proof (cases "length bs = k")
      case True
      then show ?thesis using copy_page_append [of um p k "room - k" argc] page k by (simp split: prod.split)
    next
      case False
      then have "argc' = 0"
        using copy_page_stops [of um p k argc] copy_page_length [of um p k argc] page by simp
      then show ?thesis using copy_page_append [of um p k "room - k" argc] page k by (simp split: prod.split)
    qed
    finally show ?thesis .
  qed
qed

lemma copy_page_bytes: "fst (copy_page um p len argc) = map um [p..<p + length (fst (copy_page um p len argc))]"
proof (induction um p len argc rule: copy_page.induct)
  case (2 um p len argc)
  obtain bs a where r: "copy_page um (Suc p) len (if um p = 0 then argc - 1 else argc) = (bs, a)" by fastforce
  show ?case
    using 2 r by (cases "argc = 0") (simp_all add: Let_def upt_conv_Cons del: upt_Suc)
qed simp

lemma copy_page_nuls:
  "length (filter (\<lambda>c. c = 0) (fst (copy_page um p len argc))) + snd (copy_page um p len argc) = argc"
  by (induction um p len argc rule: copy_page.induct) (auto simp: Let_def split: prod.split)

lemma copy_page_last:
  "snd (copy_page um p len argc) = 0 \<Longrightarrow> 0 < argc \<Longrightarrow> last (fst (copy_page um p len argc)) = 0"
proof (induction um p len argc rule: copy_page.induct)
  case (2 um p len argc)
  obtain bs a where r: "copy_page um (Suc p) len (if um p = 0 then argc - 1 else argc) = (bs, a)" by fastforce
  show ?case
  proof (cases "bs = []")
    case True
    have "a = (if um p = 0 then argc - 1 else argc)"
      using copy_page_nuls [of um "Suc p" len "if um p = 0 then argc - 1 else argc"] r True by simp
    then show ?thesis using 2 r True by (auto simp: Let_def split: if_splits)
  next
    case False
    then have "0 < (if um p = 0 then argc - 1 else argc)"
      using r by (cases "(if um p = 0 then argc - 1 else argc) = 0") auto
    then show ?thesis using 2 r False by (simp add: Let_def)
  qed
qed simp

text \<open>
  \<open>get_args\<close> copies the bytes of user memory from \<open>p\<close> on, without a gap at page boundaries, up to
  and including the last of \<open>argc\<close> NUL bytes; only a full buffer makes it stop earlier.
\<close>

theorem get_args_spec:
  assumes "0 < sz"
  shows "\<exists>bs. get_args um argc p sz = (of_nat (length bs), bs) \<and> length bs \<le> sz \<and>
    bs = map um [p..<p + length bs] \<and> length (filter (\<lambda>c. c = 0) bs) \<le> argc \<and>
    (length bs < sz \<longrightarrow> length (filter (\<lambda>c. c = 0) bs) = argc \<and> (0 < argc \<longrightarrow> last bs = 0))"
proof -
  let ?r = "copy_page um p sz argc"
  have "length (fst ?r) < sz \<longrightarrow> snd ?r = 0" using copy_page_stops by blast
  then show ?thesis
    using assms copy_page_length [of um p sz argc] copy_page_bytes [of um p sz argc]
      copy_page_nuls [of um p sz argc] copy_page_last [of um p sz argc]
    by (intro exI [of _ "fst ?r"]) (auto simp: get_args_def copy_args_one_pass Let_def)
qed

lemma copy_page_numeral:
  "copy_page um p (numeral v) argc =
     (if argc = 0 then ([], 0)
      else case copy_page um (Suc p) (pred_numeral v) (if um p = 0 then argc - 1 else argc) of
          (bs, a) \<Rightarrow> (um p # bs, a))"
  by (simp add: numeral_eq_Suc Let_def)

theorem get_args_spec_witness:
  "get_args (\<lambda>i. if i = 4097 \<or> i = 4099 then 0 else 7) 2 4094 16 = (6, [7, 7, 7, 0, 7, 0])"
proof -
  let ?um = "\<lambda>i::nat. if i = 4097 \<or> i = 4099 then 0 else (7::u8)"
  from get_args_spec [of 16 ?um 2 4094] obtain bs where
    "get_args ?um 2 4094 16 = (of_nat (length bs), bs)" by auto
  moreover have "snd (get_args ?um 2 4094 16) = [7, 7, 7, 0, 7, 0]"
    by (simp add: get_args_def Let_def copy_args_one_pass copy_page_numeral)
  ultimately show ?thesis by auto
qed
end
