(* ===== verification/BorphLoad.thy ===== *)
theory BorphLoad
  imports Borph
begin

text \<open>
  What \<open>borph_load_hw\<close> and \<open>borph_exit_fpga\<close> do on the RHINO board: a well-formed file is loaded, the
  process then sees the registers of the file, and the exit of the task undoes everything. Two ways
  in which a load goes wrong are proved as well: a reservation that is lost, and a failure that is
  reported as success.
\<close>

section \<open>A region in a file\<close>

text \<open>
  The header at \<open>foff\<close>, the registers behind it and the string table behind those, all inside a file
  smaller than 4 GB.
\<close>

definition bof_region :: "u8 list \<Rightarrow> u32 \<Rightarrow> hwrhdr \<Rightarrow> bofioreg list \<Rightarrow> u8 list \<Rightarrow> bool" where
  "bof_region contents foff hdr regs strtab \<longleftrightarrow> foff \<noteq> 0 \<and>
     chunk (unat foff) sizeof_hwrhdr contents = enc_hwrhdr hdr \<and>
     nr_symbol hdr = of_nat (length regs) \<and>
     chunk (unat foff + sizeof_hwrhdr) (sizeof_bofioreg * length regs) contents = concat (map enc_bofioreg regs) \<and>
     chunk (unat foff + sizeof_hwrhdr + sizeof_bofioreg * length regs) (length strtab) contents = strtab \<and>
     pl_off hdr - hstrtab_off hdr = of_nat (length strtab) \<and> strtab \<noteq> [] \<and>
     unat foff + sizeof_hwrhdr + sizeof_bofioreg * length regs + length strtab \<le> length contents \<and>
     length contents < 2 ^ 32"

lemma kread_full:
  assumes "unat off + n \<le> length contents" and "length old = n"
  shows "kread (regular_file contents) off n old = (int n, chunk (unat off) n contents)"
  using assms by (simp add: kread_def regular_file_def overlay_def)

text \<open>What a register of the file becomes in memory.\<close>

definition ioreg_of :: "kptr \<Rightarrow> nat \<Rightarrow> nat \<Rightarrow> bofioreg \<Rightarrow> borph_ioreg" where
  "ioreg_of strtab rg p b = \<lparr>ir_ptr = p, ir_strtab = strtab, ir_name = unat (ior_name b),
     ir_mode = ucast (ior_mode b), ir_loc = ior_loc b, ir_len = ior_len b, ir_region = rg\<rparr>"

fun ioregs_of :: "kptr \<Rightarrow> nat \<Rightarrow> nat \<Rightarrow> bofioreg list \<Rightarrow> borph_ioreg list" where
  "ioregs_of strtab rg n [] = []"
| "ioregs_of strtab rg n (b # bs) = ioreg_of strtab rg n b # ioregs_of strtab rg (Suc n) bs"

lemma load_ioregs_ok:
  assumes "\<forall>n. kalloc_ok s n" and "binfo s tsk = Some bi"
    and "chunk (unat foff) (sizeof_bofioreg * length regs) contents = concat (map enc_bofioreg regs)"
    and "unat foff + sizeof_bofioreg * length regs \<le> length contents" and "length contents < 2 ^ 32"
  shows "\<exists>foff'. load_ioregs (regular_file contents) tsk strtab rg (length regs) foff s = Some (Inr foff',
    s\<lparr>nalloc := nalloc s + length regs, klive := rev [nalloc s..<nalloc s + length regs] @ klive s,
      binfo := (binfo s)(tsk \<mapsto> bi\<lparr>bi_ioreg := rev (ioregs_of strtab rg (nalloc s) regs) @ bi_ioreg bi\<rparr>)\<rparr>)"
  using assms
proof (induction regs arbitrary: foff s bi)
  case Nil
  then show ?case by (simp add: fun_upd_idem)
next
  case (Cons b regs)
  let ?s1 = "s\<lparr>nalloc := Suc (nalloc s), klive := nalloc s # klive s\<rparr>"
  let ?bi = "bi\<lparr>bi_ioreg := ioreg_of strtab rg (nalloc s) b # bi_ioreg bi\<rparr>"
  let ?s2 = "?s1\<lparr>binfo := (binfo s)(tsk \<mapsto> ?bi)\<rparr>"
  have "chunk (unat foff) sizeof_bofioreg contents = enc_bofioreg b"
    and rest: "chunk (unat foff + sizeof_bofioreg) (sizeof_bofioreg * length regs) contents = concat (map enc_bofioreg regs)"
  proof -
    have "chunk (unat foff) sizeof_bofioreg contents @ chunk (unat foff + sizeof_bofioreg) (sizeof_bofioreg * length regs) contents =
        enc_bofioreg b @ concat (map enc_bofioreg regs)"
      using Cons.prems(3) chunk_split [of "unat foff" sizeof_bofioreg "sizeof_bofioreg * length regs" contents] by simp
    moreover have "length (chunk (unat foff) sizeof_bofioreg contents) = length (enc_bofioreg b)"
      using Cons.prems(4) by (simp add: layout_simps)
    ultimately show "chunk (unat foff) sizeof_bofioreg contents = enc_bofioreg b"
      and "chunk (unat foff + sizeof_bofioreg) (sizeof_bofioreg * length regs) contents = concat (map enc_bofioreg regs)"
      by simp_all
  qed
  then have "kread (regular_file contents) foff sizeof_bofioreg (junk_bytes (stack_junk ?s1) sizeof_bofioreg) = (12, enc_bofioreg b)"
    using Cons.prems(4) by (subst kread_full) simp_all
  moreover have "unat (foff + 12) = unat foff + 12" using Cons.prems(4,5) by (simp add: unat_word_ariths)
  ultimately show ?case
    using Cons.IH [of ?s2 ?bi "foff + 12"] Cons.prems rest
    by (simp add: kmalloc_ok add_ioreg_def ioreg_of_def codec_simps upt_conv_Cons fun_upd_same fun_upd_upd del: upt_Suc fun_upd_apply)
qed
text \<open>The state after the string table, the region and its registers are in memory.\<close>

definition loaded ::
  "nat \<Rightarrow> hwr_addr \<Rightarrow> bofioreg list \<Rightarrow> u8 list \<Rightarrow> borph_info \<Rightarrow> 'a borph_state_scheme \<Rightarrow> 'a borph_state_scheme" where
  "loaded tsk a regs strtab bi s =
     (let n = nalloc s
      in s\<lparr>nalloc := Suc (Suc n) + length regs,
           klive := rev [Suc (Suc n)..<Suc (Suc n) + length regs] @ Suc n # n # klive s,
           strtabs := (strtabs s)(n \<mapsto> strtab),
           binfo := (binfo s)(tsk \<mapsto> bi\<lparr>
             bi_hw_region := \<lparr>rg_ptr = Suc n, rg_addr = a, rg_strtab = KPtr n\<rparr> # bi_hw_region bi,
             bi_ioreg := rev (ioregs_of (KPtr n) (Suc n) (Suc (Suc n)) regs) @ bi_ioreg bi\<rparr>)\<rparr>)"

lemma bof_region_offsets:
  assumes "bof_region contents foff hdr regs strtab"
  shows "unat (foff + 28) = unat foff + 28" and "unat (nr_symbol hdr) = length regs"
    and "unat (foff + 28 + nr_symbol hdr * 12) = unat foff + 28 + 12 * length regs"
    and "unat (pl_off hdr - hstrtab_off hdr) = length strtab" and "pl_off hdr - hstrtab_off hdr \<noteq> 0"
proof -
  have b: "unat foff + 28 + 12 * length regs + length strtab < 2 ^ 32" "0 < length strtab"
    using assms by (auto simp: bof_region_def)
  show f: "unat (foff + 28) = unat foff + 28" using b by (simp add: unat_word_ariths)
  show r: "unat (nr_symbol hdr) = length regs" using assms b by (simp add: bof_region_def unat_of_nat)
  show "unat (foff + 28 + nr_symbol hdr * 12) = unat foff + 28 + 12 * length regs"
    using b f r by (simp add: unat_word_ariths)
  show l: "unat (pl_off hdr - hstrtab_off hdr) = length strtab"
    using assms b by (simp add: bof_region_def unat_of_nat)
  then show "pl_off hdr - hstrtab_off hdr \<noteq> 0" using b by auto
qed

lemma load_symbols_ok:
  assumes "\<forall>n. kalloc_ok s n" and bi: "binfo s tsk = Some bi" and reg: "bof_region contents foff hdr regs strtab"
  shows "\<exists>foff'. load_symbols (regular_file contents) tsk (hdr\<lparr>haddr := a\<rparr>) (foff + 28) s =
    Some (Inr foff', loaded tsk a regs strtab bi s)"
proof -
  note off = bof_region_offsets [OF reg]
  let ?n = "nalloc s" and ?f = "regular_file contents"
  let ?s1 = "s\<lparr>nalloc := Suc ?n, klive := ?n # klive s\<rparr>"
  let ?bi = "bi\<lparr>bi_hw_region := \<lparr>rg_ptr = Suc ?n, rg_addr = a, rg_strtab = KPtr ?n\<rparr> # bi_hw_region bi\<rparr>"
  let ?t = "s\<lparr>strtabs := (strtabs s)(?n \<mapsto> strtab), nalloc := Suc (Suc ?n), klive := Suc ?n # ?n # klive s,
    binfo := (binfo s)(tsk \<mapsto> ?bi)\<rparr>"
  have "kread ?f (foff + 28 + nr_symbol hdr * 12) (length strtab) (junk_bytes (heap_junk s (Suc ?n)) (length strtab)) =
      (int (length strtab), strtab)"
    using reg off by (subst kread_full) (simp_all add: bof_region_def)
  moreover have "length strtab \<noteq> 0" using reg by (simp add: bof_region_def)
  moreover obtain foff' where "load_ioregs ?f tsk (KPtr ?n) (Suc ?n) (length regs) (foff + 28) ?t =
      Some (Inr foff', ?t\<lparr>nalloc := nalloc ?t + length regs, klive := rev [nalloc ?t..<nalloc ?t + length regs] @ klive ?t,
        binfo := (binfo ?t)(tsk \<mapsto> ?bi\<lparr>bi_ioreg := rev (ioregs_of (KPtr ?n) (Suc ?n) (nalloc ?t) regs) @ bi_ioreg ?bi\<rparr>)\<rparr>)"
    using load_ioregs_ok [of ?t tsk ?bi "foff + 28" regs contents "KPtr ?n" "Suc ?n"] assms(1) reg off
    by (auto simp: bof_region_def)
  ultimately show ?thesis
    using assms(1) bi off
    by (simp add: load_symbols_def kmalloc_ok add_region_def loaded_def Let_def fun_upd_same fun_upd_upd
        del: fun_upd_apply upt_Suc)
qed

section \<open>Reservation of the board\<close>

abbreviation (input) RHINO_ADDR :: hwr_addr where
  "RHINO_ADDR \<equiv> \<lparr>hwa_class = HAC_RHINO, hwa_addr = 0\<rparr>"

text \<open>The driver is registered and its region is free.\<close>

definition board_idle :: "phyhwr \<Rightarrow> 'a borph_state_scheme \<Rightarrow> bool" where
  "board_idle h s \<longleftrightarrow> length (hwrtypes s) = MAX_HWRTYPES \<and> hwrtypes s ! unat HAC_RHINO = Some RHINO_HT \<and>
     (\<exists>t. htstore s RHINO_HT = Some t \<and> ht_ops t = Some RHINO_OPS \<and> ht_num_devs t = 1) \<and>
     phy_get s (unat HAC_RHINO, 0) = Some h \<and> ph_count h = -1"

lemma board_idle_driver: "board_idle h s \<Longrightarrow> driver_at RHINO_ADDR RHINO_HT RHINO_OPS s"
  by (auto simp: board_idle_def driver_at_def)

lemma rhino_managed_addr [simp]: "rhino_managed RHINO_ADDR"
  by (simp add: rhino_managed_def)

text \<open>A region that is placed on the board, or that may go anywhere.\<close>

definition for_rhino :: "hwrhdr \<Rightarrow> bool" where
  "for_rhino hdr \<longleftrightarrow> hwa_class (haddr hdr) = HAC_RHINO \<and>
     (hflag hdr AND HFG_PLACED \<noteq> 0 \<longrightarrow> hwa_addr (haddr hdr) = 0)"

lemma reserve_board:
  assumes idle: "board_idle h s" and "for_rhino hdr"
  shows "\<exists>t. phy_upd (unat HAC_RHINO, 0) (\<lambda>h. h\<lparr>ph_count := 1\<rparr>) s = Some t \<and>
    reserve_for rhino_ops_at hdr s = Some (Some (unat HAC_RHINO, 0), RHINO_ADDR, t)"
proof -
  have h: "phy_get s (phy_ix RHINO_ADDR) = Some h" "ph_count h = -1" using idle by (simp_all add: board_idle_def)
  then obtain t where t: "phy_upd (5, 0) (\<lambda>h. h\<lparr>ph_count := 1\<rparr>) s = Some t"
    using phy_upd_cong_get [of s "(5, 0)" h] by auto
  have res: "reserve_hwr rhino_ops_at RHINO_ADDR s = Some (Some (5, 0), t)"
    using rhino_drv.reserve_free [OF board_idle_driver [OF idle] rhino_managed_addr h] t by simp
  obtain k where "haddr hdr = \<lparr>hwa_class = HAC_RHINO, hwa_addr = k\<rparr>"
    using assms(2) by (cases "haddr hdr") (simp add: for_rhino_def)
  then show ?thesis
    using assms(2) t res by (auto simp: reserve_for_def bpr_nextfree_def for_rhino_def Let_def)
qed

lemma put_hwrops_restore:
  assumes "driver_at a p q s" and "htstore s p = Some t" and "hwrtypes s' = hwrtypes s"
    and "htstore s' = (htstore s)(p \<mapsto> t\<lparr>ht_count := ht_count t + 1\<rparr>)"
  shows "put_hwrops a s' = Some (s'\<lparr>htstore := htstore s\<rparr>)"
  using assms by (auto simp: put_hwrops_def driver_at_def ht_upd_def fun_upd_idem)

section \<open>Configuration of the board\<close>

text \<open>
  The transfer of the payload succeeds: \<open>a\<close> and \<open>b\<close> are the samples at which INIT\_B goes low and
  high again.
\<close>

definition will_configure :: "u8 list \<Rightarrow> u32 \<Rightarrow> u32 \<Rightarrow> nat \<Rightarrow> nat \<Rightarrow> 'a rhino_state_scheme \<Rightarrow> bool" where
  "will_configure contents off len a b s \<longleftrightarrow> configure_ready RHINO_ADDR contents off len s \<and>
     initb_answers a b s \<and> unat len mod PAGE_SIZE \<noteq> 0 \<and>
     gpio_in s INIT_B (gpio_reads s + b + 1) \<and> gpio_in s DONE (gpio_reads s + b + 2)"

lemma will_configure_outcome:
  assumes "will_configure contents off len a b s"
  shows "\<exists>s'. rhino_configure RHINO_ADDR (regular_file contents) off len s = (CReturn 0, s') \<and>
    cfg_rest s' = cfg_rest s \<and> mset (klive s') = mset (klive s) \<and>
    fpga_rx s' = fpga_rx s @ chunk (unat off) (unat len) contents \<and> gpio_out s' = gpio_out s @ prog_pulse"
proof -
  have r: "configure_ready RHINO_ADDR contents off len s" "initb_answers a b s"
    and "unat len mod PAGE_SIZE \<noteq> 0"
    and "True \<longleftrightarrow> gpio_in s INIT_B (gpio_reads s + b + 1) \<and> gpio_in s DONE (gpio_reads s + b + 2)"
    using assms unfolding will_configure_def by blast+
  from rhino_configure_outcome [OF r this(4)] this(3) show ?thesis unfolding if_True by auto
qed

lemma cfg_rest_fields:
  assumes "cfg_rest s' = cfg_rest (s :: 'a borph_state_scheme)"
  shows "hwrtypes s' = hwrtypes s" "htstore s' = htstore s" "phyhwrs s' = phyhwrs s" "binfo s' = binfo s"
    "strtabs s' = strtabs s" "kalloc_ok s' = kalloc_ok s" "iobufs s' = iobufs s"
  using arg_cong [OF assms, of hwrtypes] arg_cong [OF assms, of htstore] arg_cong [OF assms, of phyhwrs]
    arg_cong [OF assms, of binfo] arg_cong [OF assms, of strtabs] arg_cong [OF assms, of kalloc_ok]
    arg_cong [OF assms, of iobufs]
  by (simp_all add: cfg_rest_def)

text \<open>A step of the driver leaves everything it does not own; what happens to the region is \<open>f\<close>.\<close>

definition driver_step :: "(phyhwr \<Rightarrow> phyhwr) \<Rightarrow> 'a borph_state_scheme \<Rightarrow> 'a borph_state_scheme \<Rightarrow> bool" where
  "driver_step f s s' \<longleftrightarrow> hwrtypes s' = hwrtypes s \<and> htstore s' = htstore s \<and> binfo s' = binfo s \<and>
     strtabs s' = strtabs s \<and> kalloc_ok s' = kalloc_ok s \<and> mset (klive s') = mset (klive s) \<and>
     (\<exists>t. phy_upd (unat HAC_RHINO, 0) f s = Some t \<and> phyhwrs s' = phyhwrs t)"

lemma configure_region_ok:
  assumes drv: "driver_at RHINO_ADDR RHINO_HT RHINO_OPS s" and dev: "htstore s RHINO_HT = Some t" "ht_num_devs t = 1"
    and h: "phy_get s (5, 0) = Some h" "ph_count h = 1"
    and addr: "haddr hdr = RHINO_ADDR" and cfg: "will_configure contents (pl_off hdr) (pl_len hdr) a b s"
  shows "\<exists>s'. configure_region rhino_ops_at (regular_file contents) hdr s = Some (Inr 0, s') \<and>
    driver_step (\<lambda>h. h\<lparr>ph_active := 1\<rparr>) s s' \<and>
    fpga_rx s' = fpga_rx s @ chunk (unat (pl_off hdr)) (unat (pl_len hdr)) contents \<and>
    gpio_out s' = gpio_out s @ prog_pulse"
proof -
  let ?s1 = "s\<lparr>htstore := (htstore s)(RHINO_HT \<mapsto> t\<lparr>ht_count := ht_count t + 1\<rparr>)\<rparr>"
  have "will_configure contents (pl_off hdr) (pl_len hdr) a b ?s1"
    using cfg by (simp add: will_configure_def configure_ready_def initb_answers_def)
  then obtain s2 where s2: "rhino_configure RHINO_ADDR (regular_file contents) (pl_off hdr) (pl_len hdr) ?s1 = (CReturn 0, s2)"
    "cfg_rest s2 = cfg_rest ?s1" "mset (klive s2) = mset (klive s)"
    "fpga_rx s2 = fpga_rx s @ chunk (unat (pl_off hdr)) (unat (pl_len hdr)) contents"
    "gpio_out s2 = gpio_out s @ prog_pulse"
    using will_configure_outcome [of contents _ _ a b ?s1] by auto
  note rest = cfg_rest_fields [OF s2(2)]
  let ?s3 = "s2\<lparr>htstore := htstore s\<rparr>"
  have put: "put_hwrops RHINO_ADDR s2 = Some ?s3"
    using rest by (intro put_hwrops_restore [OF drv dev(1)]) simp_all
  obtain s' where s': "phy_upd (5, 0) (\<lambda>h. h\<lparr>ph_active := 1\<rparr>) ?s3 = Some s'"
    using phy_upd_cong_get [of ?s3 "(5, 0)" h] h(1) rest(3) by (auto simp: phy_get_def)
  have "hwr_activate (Some RHINO_ADDR) ?s3 = phy_upd (5, 0) (\<lambda>h. h\<lparr>ph_active := 1\<rparr>) ?s3"
    using hwr_activate_eq(1) [of RHINO_ADDR ?s3 h] drv dev rest h
    by (simp add: hwr_known_def driver_at_def phy_get_cong [of s2 s])
  moreover obtain u where "phy_upd (5, 0) (\<lambda>h. h\<lparr>ph_active := 1\<rparr>) s = Some u" "phyhwrs s' = phyhwrs u"
    using s' phy_upd_cong_state [of s ?s3] rest(3) by fastforce
  moreover have "\<exists>x. s' = ?s3\<lparr>phyhwrs := x\<rparr>" using s' by (rule phy_upd_only_phyhwrs)
  ultimately show ?thesis
    using s2 put s' rest addr
    by (auto simp: configure_region_def get_hwrops_driver [OF drv dev(1)] rhino_ops_at_def rhino_hwr_operations_def
        driver_step_def)
qed

lemma driver_step_after:
  assumes u: "phy_upd (unat HAC_RHINO, 0) g s = Some u" and "driver_step f u s'"
  shows "driver_step (f \<circ> g) s s'"
proof -
  obtain x where "u = s\<lparr>phyhwrs := x\<rparr>" using phy_upd_only_phyhwrs [OF u] by blast
  then show ?thesis using assms(2) phy_upd_upd [OF u, of f] by (auto simp: driver_step_def)
qed

lemma loaded_fields [simp]:
  "hwrtypes (loaded tsk a regs strtab bi s) = hwrtypes s" "htstore (loaded tsk a regs strtab bi s) = htstore s"
  "phyhwrs (loaded tsk a regs strtab bi s) = phyhwrs s" "fpga_rx (loaded tsk a regs strtab bi s) = fpga_rx s"
  "gpio_out (loaded tsk a regs strtab bi s) = gpio_out s" "kalloc_ok (loaded tsk a regs strtab bi s) = kalloc_ok s"
  "loaded tsk a regs strtab bi (s\<lparr>phyhwrs := x\<rparr>) = (loaded tsk a regs strtab bi s)\<lparr>phyhwrs := x\<rparr>"
  by (simp_all add: loaded_def Let_def)

lemma will_configure_loaded [simp]:
  "will_configure contents off len a b ((loaded tsk ad regs strtab bi s)\<lparr>phyhwrs := x\<rparr>) = will_configure contents off len a b s"
  by (simp add: will_configure_def configure_ready_def initb_answers_def loaded_def Let_def)

lemma load_region_ok:
  assumes mem: "\<forall>n. kalloc_ok s n" and bi: "binfo s tsk = Some bi" and reg: "bof_region contents foff hdr regs strtab"
    and idle: "board_idle h s" and rhino: "for_rhino hdr"
    and cfg: "will_configure contents (pl_off hdr) (pl_len hdr) a b s" and old: "length old = sizeof_hwrhdr"
  shows "\<exists>s'. load_region rhino_ops_at (regular_file contents) tsk foff old rv s =
      Some (Inr (hdr\<lparr>haddr := RHINO_ADDR\<rparr>, 0), s') \<and>
    driver_step (\<lambda>h. h\<lparr>ph_count := 1, ph_task := Some tsk, ph_active := 1\<rparr>) (loaded tsk RHINO_ADDR regs strtab bi s) s' \<and>
    fpga_rx s' = fpga_rx s @ chunk (unat (pl_off hdr)) (unat (pl_len hdr)) contents \<and>
    gpio_out s' = gpio_out s @ prog_pulse"
proof -
  let ?f = "regular_file contents" and ?L = "loaded tsk RHINO_ADDR regs strtab bi s" and ?hdr = "hdr\<lparr>haddr := RHINO_ADDR\<rparr>"
  have foff: "foff \<noteq> 0" "kread ?f foff sizeof_hwrhdr old = (28, enc_hwrhdr hdr)"
    using reg old by (auto simp: bof_region_def kread_full)
  obtain t1 where t1: "phy_upd (5, 0) (\<lambda>h. h\<lparr>ph_count := 1\<rparr>) s = Some t1"
    and res: "reserve_for rhino_ops_at hdr s = Some (Some (5, 0), RHINO_ADDR, t1)"
    using reserve_board [OF idle rhino] by auto
  have h: "phy_get s (5, 0) = Some h" using idle by (simp add: board_idle_def)
  let ?g = "\<lambda>h. h\<lparr>ph_count := 1, ph_task := Some tsk\<rparr>"
  obtain t2 where t2: "phy_upd (5, 0) ?g s = Some t2" and h2: "phy_get t2 (5, 0) = Some (?g h)"
    using phy_upd_cong_get [OF h] by blast
  then have task: "phy_upd (5, 0) (\<lambda>p. p\<lparr>ph_task := Some tsk\<rparr>) t1 = Some t2"
    using phy_upd_upd [OF t1, of "\<lambda>p. p\<lparr>ph_task := Some tsk\<rparr>"] by (simp add: comp_def)
  obtain x where x: "t2 = s\<lparr>phyhwrs := x\<rparr>" using phy_upd_only_phyhwrs [OF t2] by blast
  obtain foff' where sym: "load_symbols ?f tsk ?hdr (foff + 28) t2 = Some (Inr foff', ?L\<lparr>phyhwrs := x\<rparr>)"
    using load_symbols_ok [OF _ _ reg, of t2 tsk bi RHINO_ADDR] mem bi x by auto
  have L: "phy_upd (5, 0) ?g ?L = Some (?L\<lparr>phyhwrs := x\<rparr>)"
    using phy_upd_cong_state [of ?L s "(5, 0)" ?g t2] t2 x by simp
  obtain t where t: "htstore s RHINO_HT = Some t" "ht_num_devs t = 1" using idle by (auto simp: board_idle_def)
  obtain s' where cr: "configure_region rhino_ops_at ?f ?hdr (?L\<lparr>phyhwrs := x\<rparr>) = Some (Inr 0, s')"
    and step: "driver_step (\<lambda>h. h\<lparr>ph_active := 1\<rparr>) (?L\<lparr>phyhwrs := x\<rparr>) s'"
    and rx: "fpga_rx s' = fpga_rx s @ chunk (unat (pl_off hdr)) (unat (pl_len hdr)) contents"
      "gpio_out s' = gpio_out s @ prog_pulse"
    using configure_region_ok [of "?L\<lparr>phyhwrs := x\<rparr>" t "?g h" ?hdr contents a b]
      board_idle_driver [OF idle] t h2 x cfg by (auto simp: driver_at_def phy_get_def)
  have "driver_step (\<lambda>h. h\<lparr>ph_count := 1, ph_task := Some tsk, ph_active := 1\<rparr>) ?L s'"
    using driver_step_after [of ?g ?L _ "\<lambda>h. h\<lparr>ph_active := 1\<rparr>" s'] L step by (simp add: comp_def)
  then show ?thesis
    using foff res task sym cr rx by (auto simp: load_region_def codec_simps Let_def)
qed

section \<open>The whole load\<close>

text \<open>
  The register list as the process sees it: name, mode, location and length of each entry, the name
  looked up in its string table; and the same for a register of the file.
\<close>

definition ioreg_entry :: "'a borph_state_scheme \<Rightarrow> borph_ioreg \<Rightarrow> u8 list option \<times> u32 \<times> u32 \<times> u32" where
  "ioreg_entry s r =
     (do { p \<leftarrow> (case ir_strtab r of KPtr p \<Rightarrow> Some p | _ \<Rightarrow> None); tab \<leftarrow> strtabs s p; cstr tab (ir_name r) },
      ir_mode r, ir_loc r, ir_len r)"

definition bof_entry :: "u8 list \<Rightarrow> bofioreg \<Rightarrow> u8 list option \<times> u32 \<times> u32 \<times> u32" where
  "bof_entry strtab b = (cstr strtab (unat (ior_name b)), ucast (ior_mode b), ior_loc b, ior_len b)"

lemma ioregs_of_entries:
  "strtabs s n = Some strtab \<Longrightarrow> map (ioreg_entry s) (ioregs_of (KPtr n) rg k regs) = map (bof_entry strtab) regs"
  by (induction regs arbitrary: k) (simp_all add: ioreg_entry_def bof_entry_def ioreg_of_def)

lemma borph_load_hw_state:
  assumes mem: "\<forall>n. kalloc_ok s n" and one: "b_numchip bh = 1" and reg: "bof_region contents (b_hwoff bh) hdr regs strtab"
    and idle: "board_idle h s" and rhino: "for_rhino hdr"
    and cfg: "will_configure contents (pl_off hdr) (pl_len hdr) a b s"
  shows "\<exists>s' bi. borph_load_hw rhino_ops_at (regular_file contents) bh tsk s = Some (0, s') \<and>
    hwrtypes s' = hwrtypes s \<and> htstore s' = htstore s \<and> strtabs s' = (strtabs s)(Suc (nalloc s) \<mapsto> strtab) \<and>
    binfo s' = (binfo s)(tsk \<mapsto> bi) \<and>
    bi = \<lparr>bi_ptr = nalloc s,
      bi_hw_region = [\<lparr>rg_ptr = Suc (Suc (nalloc s)), rg_addr = RHINO_ADDR, rg_strtab = KPtr (Suc (nalloc s))\<rparr>],
      bi_ioreg = rev (ioregs_of (KPtr (Suc (nalloc s))) (Suc (Suc (nalloc s))) (Suc (Suc (Suc (nalloc s)))) regs),
      bi_ioreg_mode = 1, bi_status = 1\<rparr> \<and>
    mset (klive s') = mset [nalloc s..<Suc (Suc (Suc (nalloc s))) + length regs] + mset (klive s) \<and>
    (\<exists>t. phy_upd (unat HAC_RHINO, 0) (\<lambda>h. h\<lparr>ph_count := 1, ph_task := Some tsk, ph_active := 1\<rparr>) s = Some t \<and>
      phyhwrs s' = phyhwrs t) \<and>
    fpga_rx s' = fpga_rx s @ chunk (unat (pl_off hdr)) (unat (pl_len hdr)) contents \<and>
    gpio_out s' = gpio_out s @ prog_pulse"
proof -
  let ?n = "nalloc s"
  let ?s1 = "s\<lparr>nalloc := Suc ?n, klive := ?n # klive s, binfo := (binfo s)(tsk \<mapsto> new_info ?n)\<rparr>"
  let ?L = "loaded tsk RHINO_ADDR regs strtab (new_info ?n) ?s1"
  have "board_idle h ?s1" "will_configure contents (pl_off hdr) (pl_len hdr) a b ?s1"
    using idle cfg by (simp_all add: board_idle_def phy_get_def will_configure_def configure_ready_def initb_answers_def)
  then obtain s' where r: "load_region rhino_ops_at (regular_file contents) tsk (b_hwoff bh)
        (junk_bytes (stack_junk s) sizeof_hwrhdr) (-EIO) ?s1 = Some (Inr (hdr\<lparr>haddr := RHINO_ADDR\<rparr>, 0), s')"
    and step: "driver_step (\<lambda>h. h\<lparr>ph_count := 1, ph_task := Some tsk, ph_active := 1\<rparr>) ?L s'"
    and rx: "fpga_rx s' = fpga_rx s @ chunk (unat (pl_off hdr)) (unat (pl_len hdr)) contents"
      "gpio_out s' = gpio_out s @ prog_pulse"
    using load_region_ok [of ?s1 tsk "new_info ?n" contents "b_hwoff bh" hdr regs strtab h a b
        "junk_bytes (stack_junk s) sizeof_hwrhdr" "-EIO"] mem reg rhino by auto
  obtain t where "phy_upd (5, 0) (\<lambda>h. h\<lparr>ph_count := 1, ph_task := Some tsk, ph_active := 1\<rparr>) s = Some t" "phyhwrs s' = phyhwrs t"
    using step phy_upd_cong_state [of s ?L "(5, 0)"] by (fastforce simp: driver_step_def)
  moreover have "mset (klive ?L) = mset [?n..<Suc (Suc (Suc ?n)) + length regs] + mset (klive s)"
    by (simp add: loaded_def Let_def upt_conv_Cons del: upt_Suc)
  ultimately show ?thesis
    using step r one mem rx
    by (simp add: borph_load_hw_def kmalloc_ok driver_step_def loaded_def Let_def new_info_def fun_upd_same fun_upd_upd del: fun_upd_apply upt_Suc)
qed

section \<open>Tearing down\<close>

lemma phy_upd_get: "phy_upd r f s = Some t \<Longrightarrow> phy_get s r = Some h \<Longrightarrow> phy_get t r = Some (f h)"
  using phy_upd_cong_get [of s r h f] by auto

lemma kfree_mset:
  "mset (klive s) = add_mset n L \<Longrightarrow> \<exists>k. kfree (KPtr n) s = Some (s\<lparr>klive := k\<rparr>) \<and> mset k = L"
proof -
  assume m: "mset (klive s) = add_mset n L"
  then have "n \<in># mset (klive s)" by simp
  then have "n \<in> set (klive s)" by (simp only: set_mset_mset)
  then show ?thesis using m by (intro exI [of _ "remove1 n (klive s)"]) simp
qed

lemma free_ioregs_ok:
  "mset (klive s) = mset (map ir_ptr rs) + L \<Longrightarrow> \<exists>k. free_ioregs rs s = Some (s\<lparr>klive := k\<rparr>) \<and> mset k = L"
proof (induction rs arbitrary: s)
  case Nil
  then show ?case by (intro exI [of _ "klive s"]) simp
next
  case (Cons r rs)
  then obtain k where "kfree (KPtr (ir_ptr r)) s = Some (s\<lparr>klive := k\<rparr>)" "mset k = mset (map ir_ptr rs) + L"
    using kfree_mset [of s "ir_ptr r" "mset (map ir_ptr rs) + L"] by auto
  then show ?case using Cons.IH [of "s\<lparr>klive := k\<rparr>"] by auto
qed

lemma exit_region_ok:
  assumes drv: "driver_at RHINO_ADDR RHINO_HT RHINO_OPS s" and dev: "htstore s RHINO_HT = Some t" "ht_num_devs t = 1"
    and h: "phy_get s (5, 0) = Some h" "ph_count h = 1"
    and live: "mset (klive s) = add_mset m (add_mset n L)"
  shows "\<exists>u k s'. exit_region rhino_ops_at \<lparr>rg_ptr = n, rg_addr = RHINO_ADDR, rg_strtab = KPtr m\<rparr> s = Some s' \<and>
    s' = s\<lparr>strtabs := (strtabs s)(m := None), phyhwrs := phyhwrs u, klive := k,
      gpio_out := gpio_out s @ [(FPGA_VCCINT, False), (FPGA_VCCO_AUX, False), (FPGA_VCCMGT, False)]\<rparr> \<and>
    mset k = L \<and> phy_upd (5, 0) (\<lambda>h. h\<lparr>ph_count := -1, ph_task := None, ph_active := 0\<rparr>) s = Some u"
proof -
  obtain k1 where k1: "kfree (KPtr m) s = Some (s\<lparr>klive := k1\<rparr>)" "mset k1 = add_mset n L"
    using kfree_mset [OF live] by blast
  let ?s1 = "s\<lparr>klive := k1, strtabs := (strtabs s)(m := None)\<rparr>"
  have h1: "phy_get ?s1 (5, 0) = Some h" using h(1) by (simp add: phy_get_def)
  let ?off = "\<lambda>h::phyhwr. h\<lparr>ph_active := 0\<rparr>"
  obtain s2 where s2: "phy_upd (5, 0) ?off ?s1 = Some s2" and h2: "phy_get s2 (5, 0) = Some (?off h)"
    using phy_upd_cong_get [OF h1] by blast
  then obtain x where x: "s2 = ?s1\<lparr>phyhwrs := x\<rparr>" using phy_upd_only_phyhwrs [OF s2] by blast
  have deact: "hwr_deactivate (Some RHINO_ADDR) ?s1 = Some s2"
    using hwr_activate_eq(2) [of RHINO_ADDR ?s1 h] drv dev h h1 s2 by (simp add: hwr_known_def driver_at_def)
  have drv2: "driver_at RHINO_ADDR RHINO_HT RHINO_OPS s2" "htstore s2 RHINO_HT = Some t"
    using drv dev x by (simp_all add: driver_at_def)
  let ?s4 = "rhino_set_fpga_psu False (s2\<lparr>htstore := (htstore s2)(RHINO_HT \<mapsto> t\<lparr>ht_count := ht_count t + 1\<rparr>)\<rparr>)"
  let ?s5 = "?s4\<lparr>htstore := htstore s2\<rparr>"
  have put: "put_hwrops RHINO_ADDR ?s4 = Some ?s5"
    by (rule put_hwrops_restore [OF drv2]) (simp_all add: rhino_set_fpga_psu_def gpio_put_def)
  have s5: "?s5 = s2\<lparr>gpio_out := gpio_out s @ [(FPGA_VCCINT, False), (FPGA_VCCO_AUX, False), (FPGA_VCCMGT, False)]\<rparr>"
    using x by (simp add: rhino_set_fpga_psu_def gpio_put_def)
  have h5: "phy_get ?s5 (phy_ix RHINO_ADDR) = Some (?off h)"
    using h2 unfolding s5 by (simp add: phy_get_def)
  obtain s6 where s6: "phy_upd (5, 0) drop_ref ?s5 = Some s6" using phy_upd_cong_get [OF h5] by auto
  then obtain y where y: "s6 = ?s5\<lparr>phyhwrs := y\<rparr>" using phy_upd_only_phyhwrs [OF s6] by blast
  have rel: "release_hwr rhino_ops_at RHINO_ADDR ?s5 = Some s6"
    using rhino_drv.release_eq [of RHINO_ADDR RHINO_HT ?s5, OF _ _ h5] drv2 s6 by (simp add: driver_at_def s5)
  obtain k where k: "kfree (KPtr n) s6 = Some (s6\<lparr>klive := k\<rparr>)" "mset k = L"
  proof -
    have "klive s6 = k1" by (simp add: y x rhino_set_fpga_psu_def gpio_put_def)
    then show thesis using that kfree_mset [of s6 n L] k1(2) by blast
  qed
  have "phy_upd (5, 0) drop_ref s2 = Some (s2\<lparr>phyhwrs := y\<rparr>)"
    using phy_upd_cong_state [OF _ s6, of s2] y by (simp add: s5)
  then have "phy_upd (5, 0) (drop_ref \<circ> ?off) ?s1 = Some (s2\<lparr>phyhwrs := y\<rparr>)"
    using phy_upd_upd [OF s2, of drop_ref] by simp
  then have "phy_upd (5, 0) (drop_ref \<circ> ?off) s = Some (s\<lparr>phyhwrs := y\<rparr>)"
    by (auto dest: phy_upd_cong_state [of s ?s1, rotated])
  then have "phy_upd (5, 0) (\<lambda>h. h\<lparr>ph_count := -1, ph_task := None, ph_active := 0\<rparr>) s = Some (s\<lparr>phyhwrs := y\<rparr>)"
    using phy_upd_cong [OF h(1), of "drop_ref \<circ> ?off" "\<lambda>h. h\<lparr>ph_count := -1, ph_task := None, ph_active := 0\<rparr>"] h(2)
    by (simp only:) (simp add: drop_ref_def)
  moreover have "exit_region rhino_ops_at \<lparr>rg_ptr = n, rg_addr = RHINO_ADDR, rg_strtab = KPtr m\<rparr> s = Some (s6\<lparr>klive := k\<rparr>)"
    using k1 deact put rel k
    by (simp add: exit_region_def get_hwrops_driver [OF drv2] rhino_ops_at_def rhino_hwr_operations_def rhino_unconfigure_def del: kfree.simps)
  moreover have "s6\<lparr>klive := k\<rparr> = s\<lparr>strtabs := (strtabs s)(m := None), phyhwrs := y, klive := k,
      gpio_out := gpio_out s @ [(FPGA_VCCINT, False), (FPGA_VCCO_AUX, False), (FPGA_VCCMGT, False)]\<rparr>"
    by (simp add: y x rhino_set_fpga_psu_def gpio_put_def)
  ultimately show ?thesis using k(2) by - (rule exI [of _ "s\<lparr>phyhwrs := y\<rparr>"], rule exI [of _ k], simp)
qed

section \<open>Properties of loading\<close>

lemma borph_load_hw_process:
  assumes "\<forall>n. kalloc_ok s n" and "b_numchip bh = 1" and "bof_region contents (b_hwoff bh) hdr regs strtab"
    and "board_idle h s" and "for_rhino hdr" and "will_configure contents (pl_off hdr) (pl_len hdr) a b s"
  shows "\<exists>s' bi h'. borph_load_hw rhino_ops_at (regular_file contents) bh tsk s = Some (0, s') \<and>
    fpga_rx s' = fpga_rx s @ chunk (unat (pl_off hdr)) (unat (pl_len hdr)) contents \<and>
    binfo s' tsk = Some bi \<and> bi_status bi = 1 \<and>
    map (ioreg_entry s') (bi_ioreg bi) = rev (map (bof_entry strtab) regs) \<and>
    phy_get s' (unat HAC_RHINO, 0) = Some h' \<and> ph_count h' = 1 \<and> ph_active h' = 1 \<and> ph_task h' = Some tsk"
proof -
  obtain s' bi t where load: "borph_load_hw rhino_ops_at (regular_file contents) bh tsk s = Some (0, s')"
    and bi: "binfo s' = (binfo s)(tsk \<mapsto> bi)" "bi_status bi = 1"
      "bi_ioreg bi = rev (ioregs_of (KPtr (Suc (nalloc s))) (Suc (Suc (nalloc s))) (Suc (Suc (Suc (nalloc s)))) regs)"
    and strtab: "strtabs s' = (strtabs s)(Suc (nalloc s) \<mapsto> strtab)"
    and phy: "phy_upd (5, 0) (\<lambda>h. h\<lparr>ph_count := 1, ph_task := Some tsk, ph_active := 1\<rparr>) s = Some t" "phyhwrs s' = phyhwrs t"
    and rx: "fpga_rx s' = fpga_rx s @ chunk (unat (pl_off hdr)) (unat (pl_len hdr)) contents"
    using borph_load_hw_state [OF assms, of tsk] by auto
  have "phy_get s (5, 0) = Some h" using assms(4) by (simp add: board_idle_def)
  then have "phy_get t (5, 0) = Some (h\<lparr>ph_count := 1, ph_task := Some tsk, ph_active := 1\<rparr>)"
    using phy_upd_get [OF phy(1)] by simp
  then show ?thesis
    using load bi rx phy_get_cong [OF phy(2)] ioregs_of_entries [of s' "Suc (nalloc s)" strtab] strtab
    by (simp flip: rev_map)
qed

text \<open>
  C7: loading a BOF file with one region for the board succeeds when the board is idle and answers.
  The payload named by the region header, and nothing else, is sent to the FPGA; the registers of the
  process are those of the file in reverse order, with their names resolved in the string table;
  and the region is reserved for the task, active and used once.
\<close>

theorem borph_load_hw_ok:
  assumes "\<forall>n. kalloc_ok s n" and "b_numchip bh = 1" and "bof_region contents (b_hwoff bh) hdr regs strtab"
    and "board_idle h s" and "for_rhino hdr" and "will_configure contents (pl_off hdr) (pl_len hdr) a b s"
  shows "\<exists>s' bi h'. borph_load_hw rhino_ops_at (regular_file contents) bh tsk s = Some (0, s') \<and>
    fpga_rx s' = fpga_rx s @ chunk (unat (pl_off hdr)) (unat (pl_len hdr)) contents \<and>
    binfo s' tsk = Some bi \<and> bi_status bi = 1 \<and>
    map (ioreg_entry s') (bi_ioreg bi) = rev (map (bof_entry strtab) regs) \<and>
    phy_get s' (unat HAC_RHINO, 0) = Some h' \<and> ph_count h' = 1 \<and> ph_active h' = 1 \<and> ph_task h' = Some tsk"
  using borph_load_hw_process [OF assms] .

text \<open>The exit of a task whose single region is on the board.\<close>

lemma exit_loaded:
  assumes idle: "board_idle h s"
    and bi: "binfo s1 tsk = Some bi" "bi_ptr bi = n"
      "bi_hw_region bi = [\<lparr>rg_ptr = Suc (Suc n), rg_addr = RHINO_ADDR, rg_strtab = KPtr (Suc n)\<rparr>]"
      "bi_ioreg bi = rev (ioregs_of (KPtr (Suc n)) (Suc (Suc n)) (Suc (Suc (Suc n))) regs)"
    and live: "mset (klive s1) = mset [n..<Suc (Suc (Suc n)) + length regs] + mset L"
    and phy: "phy_upd (5, 0) (\<lambda>h. h\<lparr>ph_count := 1, ph_task := Some tsk, ph_active := 1\<rparr>) s = Some t" "phyhwrs s1 = phyhwrs t"
    and tab: "hwrtypes s1 = hwrtypes s" "htstore s1 = htstore s"
  shows "\<exists>s2. borph_exit_fpga rhino_ops_at tsk s1 = Some s2 \<and> binfo s2 = (binfo s1)(tsk := None) \<and>
    mset (klive s2) = mset L \<and> htstore s2 = htstore s \<and> hwrtypes s2 = hwrtypes s \<and> fpga_rx s2 = fpga_rx s1 \<and>
    phy_get s2 (5, 0) = Some (h\<lparr>ph_task := None, ph_active := 0\<rparr>) \<and>
    gpio_out s2 = gpio_out s1 @ [(FPGA_VCCINT, False), (FPGA_VCCO_AUX, False), (FPGA_VCCMGT, False)]"
proof -
  let ?L = "add_mset n (mset L)"
  have ptrs: "map ir_ptr (ioregs_of st rg k rs) = [k..<k + length rs]" for st rg k rs
    by (induction rs arbitrary: k) (simp_all add: ioreg_of_def upt_conv_Cons del: upt_Suc)
  obtain k1 where k1: "free_ioregs (bi_ioreg bi) s1 = Some (s1\<lparr>klive := k1\<rparr>)"
    "mset k1 = add_mset (Suc n) (add_mset (Suc (Suc n)) ?L)"
    using free_ioregs_ok [of s1 "bi_ioreg bi" "add_mset (Suc n) (add_mset (Suc (Suc n)) ?L)"] live bi(4)
    by (auto simp: upt_conv_Cons rev_map [symmetric] ptrs simp del: upt_Suc)
  have h: "phy_get s (5, 0) = Some h" "ph_count h = -1" using idle by (simp_all add: board_idle_def)
  have h1: "phy_get (s1\<lparr>klive := k1\<rparr>) (5, 0) = Some (h\<lparr>ph_count := 1, ph_task := Some tsk, ph_active := 1\<rparr>)"
    using phy_upd_get [OF phy(1) h(1)] phy(2) phy_get_cong [of "s1\<lparr>klive := k1\<rparr>" t] by simp
  obtain d where "htstore s RHINO_HT = Some d" "ht_num_devs d = 1" and drv: "driver_at RHINO_ADDR RHINO_HT RHINO_OPS s1"
    using idle board_idle_driver [OF idle] tab by (auto simp: board_idle_def driver_at_def)
  then obtain u k s2 where ex: "exit_region rhino_ops_at \<lparr>rg_ptr = Suc (Suc n), rg_addr = RHINO_ADDR, rg_strtab = KPtr (Suc n)\<rparr>
      (s1\<lparr>klive := k1\<rparr>) = Some s2"
    and s2: "s2 = s1\<lparr>strtabs := (strtabs s1)(Suc n := None), phyhwrs := phyhwrs u, klive := k,
      gpio_out := gpio_out s1 @ [(FPGA_VCCINT, False), (FPGA_VCCO_AUX, False), (FPGA_VCCMGT, False)]\<rparr>" "mset k = ?L"
    and u: "phy_upd (5, 0) (\<lambda>h. h\<lparr>ph_count := -1, ph_task := None, ph_active := 0\<rparr>) (s1\<lparr>klive := k1\<rparr>) = Some u"
    using exit_region_ok [OF _ _ _ h1, of d "Suc n" "Suc (Suc n)" ?L] k1(2) tab by (auto simp: driver_at_def)
  obtain k' where k': "kfree (KPtr n) s2 = Some (s2\<lparr>klive := k'\<rparr>)" "mset k' = mset L"
    using kfree_mset [of s2 n "mset L"] s2 by auto
  have "phy_get u (5, 0) = Some (h\<lparr>ph_task := None, ph_active := 0\<rparr>)"
    using phy_upd_get [OF u h1] h(2) by (cases h) simp
  then show ?thesis
    using bi k1(1) ex k' s2 tab
    by (simp add: borph_exit_fpga_def phy_get_def del: kfree.simps)
qed

text \<open>
  C15: exit undoes a load. When the task ends, its registers, its region with the string table and its
  \<open>borph_info\<close> are freed: the live objects are those from before the load. The board is switched off
  and its region is free again, inactive and without a task.
\<close>

theorem borph_load_exit:
  assumes "\<forall>n. kalloc_ok s n" and "b_numchip bh = 1" and "bof_region contents (b_hwoff bh) hdr regs strtab"
    and "board_idle h s" and "for_rhino hdr" and "will_configure contents (pl_off hdr) (pl_len hdr) a b s"
  shows "\<exists>s1 s2. borph_load_hw rhino_ops_at (regular_file contents) bh tsk s = Some (0, s1) \<and>
    borph_exit_fpga rhino_ops_at tsk s1 = Some s2 \<and> binfo s2 = (binfo s)(tsk := None) \<and>
    mset (klive s2) = mset (klive s) \<and> htstore s2 = htstore s \<and> hwrtypes s2 = hwrtypes s \<and>
    phy_get s2 (unat HAC_RHINO, 0) = Some (h\<lparr>ph_task := None, ph_active := 0\<rparr>) \<and>
    gpio_out s2 = gpio_out s @ prog_pulse @ [(FPGA_VCCINT, False), (FPGA_VCCO_AUX, False), (FPGA_VCCMGT, False)]"
proof -
  let ?n = "nalloc s"
  obtain s1 bi t where load: "borph_load_hw rhino_ops_at (regular_file contents) bh tsk s = Some (0, s1)"
    and bi: "binfo s1 = (binfo s)(tsk \<mapsto> bi)" "bi_ptr bi = ?n"
      "bi_hw_region bi = [\<lparr>rg_ptr = Suc (Suc ?n), rg_addr = RHINO_ADDR, rg_strtab = KPtr (Suc ?n)\<rparr>]"
      "bi_ioreg bi = rev (ioregs_of (KPtr (Suc ?n)) (Suc (Suc ?n)) (Suc (Suc (Suc ?n))) regs)"
    and live: "mset (klive s1) = mset [?n..<Suc (Suc (Suc ?n)) + length regs] + mset (klive s)"
    and phy: "phy_upd (5, 0) (\<lambda>h. h\<lparr>ph_count := 1, ph_task := Some tsk, ph_active := 1\<rparr>) s = Some t" "phyhwrs s1 = phyhwrs t"
    and tab: "hwrtypes s1 = hwrtypes s" "htstore s1 = htstore s" and out: "gpio_out s1 = gpio_out s @ prog_pulse"
    using borph_load_hw_state [OF assms, of tsk] by auto
  have "binfo s1 tsk = Some bi" using bi(1) by simp
  from exit_loaded [OF assms(4) this bi(2-4) live phy tab] load bi(1) out show ?thesis by auto
qed

text \<open>
  The reservation is lost when a load fails early. A file whose region names registers but has an
  empty string table is refused with \<open>-ENOEXEC\<close>; its region was reserved but is not yet listed, so the
  cleanup does not release it, and the board is busy for every later load.
\<close>

theorem borph_load_hw_leaks_region:
  assumes mem: "kalloc_ok s (nalloc s)" and "b_numchip bh \<noteq> 0" and "b_hwoff bh \<noteq> 0"
    and "chunk (unat (b_hwoff bh)) sizeof_hwrhdr contents = enc_hwrhdr hdr"
    and "unat (b_hwoff bh) + sizeof_hwrhdr \<le> length contents"
    and "nr_symbol hdr \<noteq> 0" and "pl_off hdr = hstrtab_off hdr" and idle: "board_idle h s" and "for_rhino hdr"
  shows "\<exists>s'. borph_load_hw rhino_ops_at (regular_file contents) bh tsk s = Some (-ENOEXEC, s') \<and>
    binfo s' tsk = None \<and> klive s' = klive s \<and> reserve_hwr rhino_ops_at RHINO_ADDR s' = Some (None, s')"
proof -
  let ?s1 = "s\<lparr>nalloc := Suc (nalloc s), klive := nalloc s # klive s, binfo := (binfo s)(tsk \<mapsto> new_info (nalloc s))\<rparr>"
  have idle1: "board_idle h ?s1" using idle by (simp add: board_idle_def phy_get_def)
  obtain t1 where t1: "phy_upd (5, 0) (\<lambda>h. h\<lparr>ph_count := 1\<rparr>) ?s1 = Some t1"
    and res: "reserve_for rhino_ops_at hdr ?s1 = Some (Some (5, 0), RHINO_ADDR, t1)"
    using reserve_board [OF idle1 assms(9)] by auto
  have h: "phy_get ?s1 (5, 0) = Some h" using idle1 by (simp add: board_idle_def)
  obtain t2 where t2: "phy_upd (5, 0) (\<lambda>p. p\<lparr>ph_task := Some tsk\<rparr>) t1 = Some t2"
    using phy_upd_cong_get [OF phy_upd_get [OF t1 h]] by blast
  obtain x where x: "t2 = ?s1\<lparr>phyhwrs := x\<rparr>"
    using phy_upd_only_phyhwrs [OF t1] phy_upd_only_phyhwrs [OF t2] by auto
  have h2: "phy_get t2 (5, 0) = Some (h\<lparr>ph_count := 1, ph_task := Some tsk\<rparr>)"
    using phy_upd_get [OF t2 phy_upd_get [OF t1 h]] by simp
  have r: "load_region rhino_ops_at (regular_file contents) tsk (b_hwoff bh) (junk_bytes (stack_junk s) sizeof_hwrhdr) (-EIO) ?s1 =
      Some (Inl (-ENOEXEC), t2)"
    using assms(3-7) res t2
    by (simp add: load_region_def kread_full codec_simps Let_def load_symbols_def)
  obtain m where m: "unat (b_numchip bh) = Suc m" using assms(2) by (cases "unat (b_numchip bh)") (auto simp: unat_eq_zero)
  let ?s' = "s\<lparr>nalloc := Suc (nalloc s), binfo := (binfo s)(tsk := None), phyhwrs := x\<rparr>"
  have "borph_exit_fpga rhino_ops_at tsk t2 = Some ?s'"
    using x by (simp add: borph_exit_fpga_def new_info_def)
  then have load: "borph_load_hw rhino_ops_at (regular_file contents) bh tsk s = Some (-ENOEXEC, ?s')"
    using mem r m by (simp add: borph_load_hw_def kmalloc_ok)
  have "phy_get ?s' (phy_ix RHINO_ADDR) = Some (h\<lparr>ph_count := 1, ph_task := Some tsk\<rparr>)"
    using h2 x phy_get_cong [of ?s' t2] by simp
  then have "reserve_hwr rhino_ops_at RHINO_ADDR ?s' = Some (None, ?s')"
    using board_idle_driver [OF idle]
    by (intro rhino_drv.reserve_busy [where p = RHINO_HT and h = "h\<lparr>ph_count := 1, ph_task := Some tsk\<rparr>"])
      (simp_all add: driver_at_def)
  with load show ?thesis by simp
qed

lemma load_region_end: "load_region ops_at file tsk 0 old rv s = Some (Inl rv, s)"
  by (simp add: load_region_def)

text \<open>
  A file that announces two chips but ends its list of regions after the first is torn down, and
  the load nevertheless reports success: the return value is that of the first configuration.
\<close>

theorem borph_load_hw_missing_region:
  assumes mem: "\<forall>n. kalloc_ok s n" and two: "b_numchip bh = 2" and reg: "bof_region contents (b_hwoff bh) hdr regs strtab"
    and idle: "board_idle h s" and rhino: "for_rhino hdr"
    and cfg: "will_configure contents (pl_off hdr) (pl_len hdr) a b s" and last: "next_hwr hdr = 0"
  shows "\<exists>s'. borph_load_hw rhino_ops_at (regular_file contents) bh tsk s = Some (0, s') \<and> binfo s' tsk = None \<and>
    phy_get s' (unat HAC_RHINO, 0) = Some (h\<lparr>ph_task := None, ph_active := 0\<rparr>)"
proof -
  let ?n = "nalloc s"
  let ?s1 = "s\<lparr>nalloc := Suc ?n, klive := ?n # klive s, binfo := (binfo s)(tsk \<mapsto> new_info ?n)\<rparr>"
  let ?L = "loaded tsk RHINO_ADDR regs strtab (new_info ?n) ?s1"
  have idle1: "board_idle h ?s1" and "will_configure contents (pl_off hdr) (pl_len hdr) a b ?s1"
    using idle cfg by (simp_all add: board_idle_def phy_get_def will_configure_def configure_ready_def initb_answers_def)
  then obtain s' where r: "load_region rhino_ops_at (regular_file contents) tsk (b_hwoff bh)
        (junk_bytes (stack_junk s) sizeof_hwrhdr) (-EIO) ?s1 = Some (Inr (hdr\<lparr>haddr := RHINO_ADDR\<rparr>, 0), s')"
    and step: "driver_step (\<lambda>h. h\<lparr>ph_count := 1, ph_task := Some tsk, ph_active := 1\<rparr>) ?L s'"
    using load_region_ok [of ?s1 tsk "new_info ?n" contents "b_hwoff bh" hdr regs strtab h a b
        "junk_bytes (stack_junk s) sizeof_hwrhdr" "-EIO"] mem reg rhino by auto
  obtain t where t: "phy_upd (5, 0) (\<lambda>h. h\<lparr>ph_count := 1, ph_task := Some tsk, ph_active := 1\<rparr>) s = Some t" "phyhwrs s' = phyhwrs t"
    using step phy_upd_cong_state [of s ?L "(5, 0)"] by (fastforce simp: driver_step_def)
  have live: "mset (klive s') = mset [?n..<Suc (Suc (Suc ?n)) + length regs] + mset (klive s)"
    using step by (simp add: driver_step_def loaded_def Let_def upt_conv_Cons del: upt_Suc)
  obtain bi where bi: "binfo s' tsk = Some bi" "bi_ptr bi = ?n"
      "bi_hw_region bi = [\<lparr>rg_ptr = Suc (Suc ?n), rg_addr = RHINO_ADDR, rg_strtab = KPtr (Suc ?n)\<rparr>]"
      "bi_ioreg bi = rev (ioregs_of (KPtr (Suc ?n)) (Suc (Suc ?n)) (Suc (Suc (Suc ?n))) regs)"
    and tab: "hwrtypes s' = hwrtypes s" "htstore s' = htstore s"
    using step by (simp add: driver_step_def loaded_def Let_def new_info_def)
  obtain s2 where "borph_exit_fpga rhino_ops_at tsk s' = Some s2" "binfo s2 = (binfo s')(tsk := None)"
    "phy_get s2 (5, 0) = Some (h\<lparr>ph_task := None, ph_active := 0\<rparr>)"
    using exit_loaded [OF idle bi live t tab] by blast
  moreover have "unat (b_numchip bh) = Suc (Suc 0)" using two by simp
  ultimately show ?thesis
    using r mem last load_region_end [of rhino_ops_at "regular_file contents" tsk _ 0 s']
    by (simp add: borph_load_hw_def kmalloc_ok)
qed

section \<open>Example file and witnesses\<close>

text \<open>A task state over the booted board with the driver registered, and a file with one register.\<close>

definition borph_boot :: borph_state where
  "borph_boot = (rhino_state.extend rhino_boot (borph_state.fields Map.empty Map.empty (\<lambda>_ _. 0) (\<lambda>_. 0) KNull))
     \<lparr>phyhwrs := (replicate 16 None)[5 := Some (0, [(1,
        \<lparr>ph_hwraddr = RHINO_ADDR, ph_count = -1, ph_active = 0, ph_task = None\<rparr>)])],
      hwrtypes := (replicate 16 None)[5 := Some RHINO_HT]\<rparr>"

definition demo_hdr :: hwrhdr where
  "demo_hdr = \<lparr>hflag = HFG_PLACED, haddr = RHINO_ADDR, pl_off = 48, pl_len = 3, nr_symbol = 1,
     hstrtab_off = 44, next_hwr = 0\<rparr>"

definition demo_reg :: bofioreg where
  "demo_reg = \<lparr>ior_name = 0, ior_mode = 3, ior_loc = 0x08000000, ior_len = 4\<rparr>"

definition demo_file :: "hwrhdr \<Rightarrow> u8 list" where
  "demo_file hdr = [0, 0, 0, 0] @ enc_hwrhdr hdr @ enc_bofioreg demo_reg @ [97, 98, 99, 0] @ [1, 2, 3]"

definition demo_bofhdr :: "u32 \<Rightarrow> bofhdr" where
  "demo_bofhdr chips = \<lparr>ident = [], b_version = 6, b_machine = BM_RHINO, b_elfmachine = 40, b_numchip = chips,
     b_elfoff = 0, b_hwoff = 4, load_err = 0, b_ekver = 0, pad = (0, 0)\<rparr>"

lemmas boot_simps = borph_boot_def rhino_state.extend_def borph_state.fields_def rhino_boot_def hwr_init_def

lemma demo_region: "bof_region (demo_file demo_hdr) 4 demo_hdr [demo_reg] [97, 98, 99, 0]"
  by (simp add: bof_region_def demo_file_def chunk_def layout_simps demo_hdr_def)

lemma demo_board:
  "board_idle \<lparr>ph_hwraddr = RHINO_ADDR, ph_count = -1, ph_active = 0, ph_task = None\<rparr> borph_boot" "for_rhino demo_hdr"
  by (simp_all add: board_idle_def phy_get_def for_rhino_def demo_hdr_def boot_simps hwrtype_rhino_def)

lemma demo_configure: "will_configure (demo_file demo_hdr) 48 3 0 1 borph_boot"
  by (simp add: will_configure_def configure_ready_def initb_answers_def boot_simps demo_file_def layout_simps)

theorem borph_load_hw_ok_witness:
  "\<exists>s' bi. borph_load_hw rhino_ops_at (regular_file (demo_file demo_hdr)) (demo_bofhdr 1) 7 borph_boot = Some (0, s') \<and>
     fpga_rx s' = [1, 2, 3] \<and> binfo s' 7 = Some bi \<and>
     map (ioreg_entry s') (bi_ioreg bi) = [(Some [97, 98, 99], 3, 0x08000000, 4)]"
proof -
  have k: "\<forall>n. kalloc_ok borph_boot n" "fpga_rx borph_boot = []" by (simp_all add: boot_simps)
  have pay: "chunk 48 3 (demo_file demo_hdr) = [1, 2, 3]"
    by (simp add: demo_file_def chunk_def layout_simps)
  show ?thesis
    using borph_load_hw_ok [of borph_boot "demo_bofhdr 1" "demo_file demo_hdr" demo_hdr "[demo_reg]" "[97, 98, 99, 0]", OF k(1) _ _ demo_board, of 0 1 7]
      demo_region demo_configure k(2) pay
    by (auto simp: demo_bofhdr_def demo_hdr_def demo_reg_def bof_entry_def cstr_def)
qed

theorem borph_load_exit_witness:
  "\<exists>s1 s2. borph_load_hw rhino_ops_at (regular_file (demo_file demo_hdr)) (demo_bofhdr 1) 7 borph_boot = Some (0, s1) \<and>
     borph_exit_fpga rhino_ops_at 7 s1 = Some s2 \<and> klive s2 = []"
proof -
  have k: "\<forall>n. kalloc_ok borph_boot n" "klive borph_boot = []" by (simp_all add: boot_simps)
  show ?thesis
    using borph_load_exit [of borph_boot "demo_bofhdr 1" "demo_file demo_hdr" demo_hdr "[demo_reg]" "[97, 98, 99, 0]", OF k(1) _ _ demo_board, of 0 1 7]
      demo_region demo_configure k(2)
    by (auto simp: demo_bofhdr_def demo_hdr_def)
qed

theorem borph_load_hw_missing_region_witness:
  "\<exists>s'. borph_load_hw rhino_ops_at (regular_file (demo_file demo_hdr)) (demo_bofhdr 2) 7 borph_boot = Some (0, s') \<and>
     binfo s' 7 = None"
proof -
  have k: "\<forall>n. kalloc_ok borph_boot n" by (simp add: boot_simps)
  show ?thesis
    using borph_load_hw_missing_region [of borph_boot "demo_bofhdr 2" "demo_file demo_hdr" demo_hdr "[demo_reg]" "[97, 98, 99, 0]", OF k _ _ demo_board, of 0 1 7]
      demo_region demo_configure
    by (auto simp: demo_bofhdr_def demo_hdr_def)
qed

theorem borph_load_hw_leaks_region_witness:
  "\<exists>s'. borph_load_hw rhino_ops_at (regular_file (demo_file (demo_hdr\<lparr>hstrtab_off := 48\<rparr>))) (demo_bofhdr 1) 7 borph_boot
      = Some (-ENOEXEC, s') \<and> reserve_hwr rhino_ops_at RHINO_ADDR s' = Some (None, s')"
proof -
  let ?h = "demo_hdr\<lparr>hstrtab_off := 48\<rparr>"
  have k: "kalloc_ok borph_boot (nalloc borph_boot)" by (simp add: boot_simps)
  have "chunk 4 sizeof_hwrhdr (demo_file ?h) = enc_hwrhdr ?h" "4 + sizeof_hwrhdr \<le> length (demo_file ?h)"
    by (simp_all add: demo_file_def chunk_def layout_simps)
  then show ?thesis
    using borph_load_hw_leaks_region [of borph_boot "demo_bofhdr 1" "demo_file ?h" ?h _ 7, OF k _ _ _ _ _ _ demo_board(1)]
    by (auto simp: demo_bofhdr_def demo_hdr_def for_rhino_def)
qed

end
