(* ===== verification/Execq.thy ===== *)
theory Execq
  imports BorphLoad
begin

text \<open>
  Executing a BOF file: \<open>src/borph/fs/binfmt_bof.c\<close> and the daemon of \<open>src/borph/kernel/bkexecd.c\<close>.

  Tasks that call \<open>execve\<close> run \<open>load_bof_binary\<close> and hand an item to the daemon, which runs
  \<open>borph_load_hw\<close> for it and wakes the task. Each side is a function that makes one atomic step, from
  one access to shared state to the next; an action list gives an interleaving, signals included.
  The handler that is finally searched for the ELF part is the parameter \<open>sbh\<close>.
\<close>

section \<open>State of the two sides\<close>

record linux_binprm =
  bp_buf :: "u8 list"
  bp_file :: kfile

record execq_item =
  ei_ptr :: nat
  ei_bprm :: nat
  ei_task :: nat

datatype run_state = TASK_RUNNING | TASK_INTERRUPTIBLE

text \<open>Where a task is in \<open>load_bof_binary\<close>, and where the daemon is in \<open>bkexecd\<close> and \<open>run_execq\<close>.\<close>

datatype load_pc = LEnter | LQueue | LWake | LSetState | LSchedule | LLoaded | LElf | LDone int | LOops

datatype daemon_pc =
  DInit | DSetState | DAddWait | DTest | DSchedule | DRunning | DSignal | DCheck
| RTake | RLoad execq_item | RWake execq_item | RFree execq_item | DExit

record exec_task =
  t_state :: run_state
  t_pc :: load_pc
  t_sig :: bool
  t_bprm :: nat
  t_hdr :: bofhdr

text \<open>\<open>queued\<close> and \<open>loads\<close> are histories: the tasks in the order they were queued, and the completed loads.\<close>

record exec_state =
  kst :: borph_state
  execq_list :: "execq_item list"
  bprms :: "nat \<Rightarrow> linux_binprm"
  tasks :: "nat \<Rightarrow> exec_task"
  d_state :: run_state
  d_pc :: daemon_pc
  d_sig :: bool
  d_waiting :: bool
  queued :: "nat list"
  loads :: "(nat \<times> int) list"

abbreviation (input) EM_ARM :: u16 where "EM_ARM \<equiv> 40"

section \<open>The task: load_bof_binary\<close>

definition bof_has_fpga :: "bofhdr \<Rightarrow> bool" where
  "bof_has_fpga h \<longleftrightarrow> 0 < b_numchip h"

text \<open>The four tests on the header: magic number, machine, processor and version.\<close>

definition bof_accepted :: "bofhdr \<Rightarrow> bool" where
  "bof_accepted h \<longleftrightarrow> take 4 (ident h) = [0x19, 0x42, 0x4F, 0x46] \<and>
     b_machine h = BM_RHINO \<and> b_elfmachine h = EM_ARM \<and> b_version h = 6"

definition set_task :: "nat \<Rightarrow> (exec_task \<Rightarrow> exec_task) \<Rightarrow> exec_state \<Rightarrow> exec_state" where
  "set_task t f st = st\<lparr>tasks := (tasks st)(t := f (tasks st t))\<rparr>"

text \<open>\<open>wake_up\<close> on the queue \<open>more_exec\<close>, where only the daemon waits.\<close>

definition wake_up_more_exec :: "exec_state \<Rightarrow> exec_state" where
  "wake_up_more_exec st = (if d_waiting st then st\<lparr>d_state := TASK_RUNNING\<rparr> else st)"

definition queue_exec :: "nat \<Rightarrow> exec_state \<Rightarrow> exec_state" where
  "queue_exec t st =
     (case kmalloc 16 (kst st) of
        (KPtr p, k) \<Rightarrow> set_task t (\<lambda>x. x\<lparr>t_pc := LWake\<rparr>)
          (st\<lparr>kst := k,
             execq_list := execq_list st @ [\<lparr>ei_ptr = p, ei_bprm = t_bprm (tasks st t), ei_task = t\<rparr>],
             queued := queued st @ [t]\<rparr>)
      | (_, k) \<Rightarrow> set_task t (\<lambda>x. x\<lparr>t_pc := LOops\<rparr>) (st\<lparr>kst := k\<rparr>))"

text \<open>The image is made to look like an ELF file and the search for a handler \<open>sbh\<close> starts over.\<close>

definition start_elf :: "(linux_binprm \<Rightarrow> int) \<Rightarrow> nat \<Rightarrow> exec_state \<Rightarrow> exec_state" where
  "start_elf sbh t st =
     (let b = t_bprm (tasks st t); bp = bprms st b in
      case kread (bp_file bp) (b_elfoff (t_hdr (tasks st t))) BINPRM_BUF_SIZE (bp_buf bp) of (r, buf) \<Rightarrow>
        let bp = bp\<lparr>bp_buf := buf\<rparr> in
        set_task t (\<lambda>x. x\<lparr>t_pc := LDone (if r < 0 then -ENOEXEC else sbh bp)\<rparr>)
          (st\<lparr>bprms := (bprms st)(b := bp)\<rparr>))"

text \<open>One step of task \<open>t\<close>; \<^const>\<open>None\<close> when it sleeps, has returned or has crashed.\<close>

definition load_bof_binary :: "(linux_binprm \<Rightarrow> int) \<Rightarrow> nat \<Rightarrow> exec_state \<Rightarrow> exec_state option" where
  "load_bof_binary sbh t st =
     (let x = tasks st t; bp = bprms st (t_bprm x) in
      case t_pc x of
        LEnter \<Rightarrow>
          let h = dec_bofhdr (bp_buf bp) in
          Some (set_task t (\<lambda>x. x\<lparr>t_hdr := h,
            t_pc := (if \<not> bof_accepted h then LDone (-ENOEXEC) else if bof_has_fpga h then LQueue else LLoaded)\<rparr>) st)
      | LQueue \<Rightarrow> Some (queue_exec t st)
      | LWake \<Rightarrow> Some (set_task t (\<lambda>x. x\<lparr>t_pc := LSetState\<rparr>) (wake_up_more_exec st))
      | LSetState \<Rightarrow> Some (set_task t (\<lambda>x. x\<lparr>t_state := TASK_INTERRUPTIBLE, t_pc := LSchedule\<rparr>) st)
      | LSchedule \<Rightarrow>
          if t_state x = TASK_RUNNING \<or> t_sig x
          then Some (set_task t (\<lambda>x. x\<lparr>t_state := TASK_RUNNING, t_pc := LLoaded\<rparr>) st) else None
      | LLoaded \<Rightarrow>
          let e = load_err (dec_bofhdr (bp_buf bp)) in
          Some (set_task t (\<lambda>x. x\<lparr>t_pc := (if e \<noteq> 0 then LDone (sint e) else LElf)\<rparr>) st)
      | LElf \<Rightarrow> Some (start_elf sbh t st)
      | LDone r \<Rightarrow> None
      | LOops \<Rightarrow> None)"

text \<open>The format is appended to the list of binary formats, and removed again.\<close>

definition init_bof_binfmt :: "nat \<Rightarrow> nat list \<Rightarrow> int \<times> nat list" where
  "init_bof_binfmt bof_format formats = (0, formats @ [bof_format])"

definition exit_bof_binfmt :: "nat \<Rightarrow> nat list \<Rightarrow> nat list" where
  "exit_bof_binfmt bof_format formats = remove1 bof_format formats"

section \<open>The daemon: run_execq and bkexecd\<close>

definition set_load_err :: "int \<Rightarrow> u8 list \<Rightarrow> u8 list" where
  "set_load_err r buf = take 36 buf @ enc32 (word_of_int r) @ drop 40 buf"

definition run_load :: "(nat \<Rightarrow> borph_state hwr_operations) \<Rightarrow> execq_item \<Rightarrow> exec_state \<Rightarrow> exec_state option" where
  "run_load ops_at it st =
     (let bp = bprms st (ei_bprm it) in do {
        (r, k) \<leftarrow> borph_load_hw ops_at (bp_file bp) (dec_bofhdr (bp_buf bp)) (ei_task it) (kst st);
        Some (st\<lparr>kst := k, bprms := (bprms st)(ei_bprm it := bp\<lparr>bp_buf := set_load_err r (bp_buf bp)\<rparr>),
             d_pc := RWake it, loads := loads st @ [(ei_task it, r)]\<rparr>) })"

definition run_execq :: "(nat \<Rightarrow> borph_state hwr_operations) \<Rightarrow> exec_state \<Rightarrow> exec_state option" where
  "run_execq ops_at st =
     (case d_pc st of
        RTake \<Rightarrow> (case execq_list st of
            [] \<Rightarrow> Some (st\<lparr>d_pc := DSetState\<rparr>)
          | it # its \<Rightarrow> Some (st\<lparr>execq_list := its, d_pc := RLoad it\<rparr>))
      | RLoad it \<Rightarrow> run_load ops_at it st
      | RWake it \<Rightarrow> Some (set_task (ei_task it) (\<lambda>x. x\<lparr>t_state := TASK_RUNNING\<rparr>) (st\<lparr>d_pc := RFree it\<rparr>))
      | RFree it \<Rightarrow> do { k \<leftarrow> kfree (KPtr (ei_ptr it)) (kst st); Some (st\<lparr>kst := k, d_pc := RTake\<rparr>) }
      | _ \<Rightarrow> None)"

text \<open>One step of the daemon; only SIGKILL and SIGSTOP reach it. \<^const>\<open>None\<close> when it sleeps, has ended or has crashed.\<close>

definition bkexecd :: "(nat \<Rightarrow> borph_state hwr_operations) \<Rightarrow> exec_state \<Rightarrow> exec_state option" where
  "bkexecd ops_at st =
     (case d_pc st of
        DInit \<Rightarrow> Some (st\<lparr>execq_list := [], d_waiting := False, d_pc := DSetState\<rparr>)
      | DSetState \<Rightarrow> Some (st\<lparr>d_state := TASK_INTERRUPTIBLE, d_pc := DAddWait\<rparr>)
      | DAddWait \<Rightarrow> Some (st\<lparr>d_waiting := True, d_pc := DTest\<rparr>)
      | DTest \<Rightarrow> Some (st\<lparr>d_pc := (if execq_list st = [] then DSchedule else DRunning)\<rparr>)
      | DSchedule \<Rightarrow>
          if d_state st = TASK_RUNNING \<or> d_sig st
          then Some (st\<lparr>d_state := TASK_RUNNING, d_pc := DRunning\<rparr>) else None
      | DRunning \<Rightarrow> Some (st\<lparr>d_state := TASK_RUNNING, d_waiting := False, d_pc := DSignal\<rparr>)
      | DSignal \<Rightarrow> Some (st\<lparr>d_pc := (if d_sig st then DExit else DCheck)\<rparr>)
      | DCheck \<Rightarrow> Some (st\<lparr>d_pc := (if execq_list st \<noteq> [] then RTake else DSetState)\<rparr>)
      | DExit \<Rightarrow> None
      | _ \<Rightarrow> run_execq ops_at st)"

text \<open>\<open>bkexecd_init\<close> starts the thread; the daemon is then about to initialise its queue.\<close>

definition bkexecd_init :: "exec_state \<Rightarrow> exec_state" where
  "bkexecd_init st = st\<lparr>d_pc := DInit, d_state := TASK_RUNNING, d_sig := False\<rparr>"

section \<open>Interleavings\<close>

datatype act = ATask nat | ADaemon | ASignal nat | AKill

definition signal_task :: "nat \<Rightarrow> exec_state \<Rightarrow> exec_state" where
  "signal_task t st = set_task t (\<lambda>x. x\<lparr>t_sig := True, t_state := TASK_RUNNING\<rparr>) st"

fun exec_act :: "(nat \<Rightarrow> borph_state hwr_operations) \<Rightarrow> (linux_binprm \<Rightarrow> int) \<Rightarrow> act \<Rightarrow> exec_state \<Rightarrow> exec_state option" where
  "exec_act ops_at sbh (ATask t) st = load_bof_binary sbh t st"
| "exec_act ops_at sbh ADaemon st = bkexecd ops_at st"
| "exec_act ops_at sbh (ASignal t) st = Some (signal_task t st)"
| "exec_act ops_at sbh AKill st = Some (st\<lparr>d_sig := True, d_state := TASK_RUNNING\<rparr>)"

fun exec_run :: "(nat \<Rightarrow> borph_state hwr_operations) \<Rightarrow> (linux_binprm \<Rightarrow> int) \<Rightarrow> act list \<Rightarrow> exec_state \<Rightarrow> exec_state option" where
  "exec_run ops_at sbh [] st = Some st"
| "exec_run ops_at sbh (a # as) st = do { st \<leftarrow> exec_act ops_at sbh a st; exec_run ops_at sbh as st }"

text \<open>States reachable by the allowed actions, in any interleaving.\<close>

inductive exec_reach ::
  "(nat \<Rightarrow> borph_state hwr_operations) \<Rightarrow> (linux_binprm \<Rightarrow> int) \<Rightarrow> (act \<Rightarrow> bool) \<Rightarrow> exec_state \<Rightarrow> exec_state \<Rightarrow> bool"
  for ops_at sbh ok st0 where
  start: "exec_reach ops_at sbh ok st0 st0"
| step: "exec_reach ops_at sbh ok st0 st \<Longrightarrow> ok a \<Longrightarrow> exec_act ops_at sbh a st = Some st' \<Longrightarrow>
    exec_reach ops_at sbh ok st0 st'"

text \<open>The daemon is running and nothing is queued; tasks may be entering, each with its own image.\<close>

definition exec_start :: "exec_state \<Rightarrow> bool" where
  "exec_start st \<longleftrightarrow> d_pc st = DSetState \<and> execq_list st = [] \<and> queued st = [] \<and> loads st = [] \<and> inj (\<lambda>t. t_bprm (tasks st t)) \<and>
     (\<forall>t. t_state (tasks st t) = TASK_RUNNING \<and> \<not> t_sig (tasks st t) \<and>
          (t_pc (tasks st t) = LEnter \<or> (\<exists>r. t_pc (tasks st t) = LDone r))) \<and> (\<forall>b. 128 \<le> length (bp_buf (bprms st b)))"

section \<open>Invariants\<close>

text \<open>The possible steps of a task and of the daemon.\<close>

lemma load_bof_binary_cases:
  assumes "load_bof_binary sbh t st = Some st'"
  obtains
    (enter) "t_pc (tasks st t) = LEnter" "st' = set_task t (\<lambda>x. x\<lparr>t_hdr := dec_bofhdr (bp_buf (bprms st (t_bprm (tasks st t)))),
        t_pc := (if \<not> bof_accepted (dec_bofhdr (bp_buf (bprms st (t_bprm (tasks st t))))) then LDone (-ENOEXEC)
                 else if bof_has_fpga (dec_bofhdr (bp_buf (bprms st (t_bprm (tasks st t))))) then LQueue else LLoaded)\<rparr>) st"
  | (queue) "t_pc (tasks st t) = LQueue" "st' = queue_exec t st"
  | (wake) "t_pc (tasks st t) = LWake" "st' = set_task t (\<lambda>x. x\<lparr>t_pc := LSetState\<rparr>) (wake_up_more_exec st)"
  | (setstate) "t_pc (tasks st t) = LSetState" "st' = set_task t (\<lambda>x. x\<lparr>t_state := TASK_INTERRUPTIBLE, t_pc := LSchedule\<rparr>) st"
  | (schedule) "t_pc (tasks st t) = LSchedule" "t_state (tasks st t) = TASK_RUNNING \<or> t_sig (tasks st t)"
      "st' = set_task t (\<lambda>x. x\<lparr>t_state := TASK_RUNNING, t_pc := LLoaded\<rparr>) st"
  | (loaded) e where "t_pc (tasks st t) = LLoaded" "e = load_err (dec_bofhdr (bp_buf (bprms st (t_bprm (tasks st t)))))"
      "st' = set_task t (\<lambda>x. x\<lparr>t_pc := (if e \<noteq> 0 then LDone (sint e) else LElf)\<rparr>) st"
  | (elf) "t_pc (tasks st t) = LElf" "st' = start_elf sbh t st"
  using assms by (cases "t_pc (tasks st t)") (auto simp: load_bof_binary_def Let_def split: if_split_asm)

lemma bkexecd_cases:
  assumes "bkexecd ops_at st = Some st'"
  obtains
    (init) "d_pc st = DInit" "st' = st\<lparr>execq_list := [], d_waiting := False, d_pc := DSetState\<rparr>"
  | (setstate) "d_pc st = DSetState" "st' = st\<lparr>d_state := TASK_INTERRUPTIBLE, d_pc := DAddWait\<rparr>"
  | (addwait) "d_pc st = DAddWait" "st' = st\<lparr>d_waiting := True, d_pc := DTest\<rparr>"
  | (test) "d_pc st = DTest" "st' = st\<lparr>d_pc := (if execq_list st = [] then DSchedule else DRunning)\<rparr>"
  | (schedule) "d_pc st = DSchedule" "st' = st\<lparr>d_state := TASK_RUNNING, d_pc := DRunning\<rparr>"
  | (running) "d_pc st = DRunning" "st' = st\<lparr>d_state := TASK_RUNNING, d_waiting := False, d_pc := DSignal\<rparr>"
  | (signal) "d_pc st = DSignal" "st' = st\<lparr>d_pc := (if d_sig st then DExit else DCheck)\<rparr>"
  | (check) "d_pc st = DCheck" "st' = st\<lparr>d_pc := (if execq_list st \<noteq> [] then RTake else DSetState)\<rparr>"
  | (idle) "d_pc st = RTake" "execq_list st = []" "st' = st\<lparr>d_pc := DSetState\<rparr>"
  | (take_item) it its where "d_pc st = RTake" "execq_list st = it # its" "st' = st\<lparr>execq_list := its, d_pc := RLoad it\<rparr>"
  | (load_item) it bp r k where "d_pc st = RLoad it" "bp = bprms st (ei_bprm it)"
      "borph_load_hw ops_at (bp_file bp) (dec_bofhdr (bp_buf bp)) (ei_task it) (kst st) = Some (r, k)"
      "st' = st\<lparr>kst := k, bprms := (bprms st)(ei_bprm it := bp\<lparr>bp_buf := set_load_err r (bp_buf bp)\<rparr>),
             d_pc := RWake it, loads := loads st @ [(ei_task it, r)]\<rparr>"
  | (wake) it where "d_pc st = RWake it"
      "st' = set_task (ei_task it) (\<lambda>x. x\<lparr>t_state := TASK_RUNNING\<rparr>) (st\<lparr>d_pc := RFree it\<rparr>)"
  | (free_item) it k where "d_pc st = RFree it" "st' = st\<lparr>kst := k, d_pc := RTake\<rparr>"
proof (cases "d_pc st")
  case RTake
  then show ?thesis using assms idle take_item by (cases "execq_list st") (simp_all add: bkexecd_def run_execq_def)
next
  case (RLoad it)
  then have "run_load ops_at it st = Some st'" using assms by (simp add: bkexecd_def run_execq_def)
  then obtain r k where "borph_load_hw ops_at (bp_file (bprms st (ei_bprm it)))
      (dec_bofhdr (bp_buf (bprms st (ei_bprm it)))) (ei_task it) (kst st) = Some (r, k)"
    by (auto simp: run_load_def Let_def bind_eq_Some_conv)
  then show ?thesis using load_item [OF RLoad refl, of r k] \<open>run_load ops_at it st = Some st'\<close>
    by (simp add: run_load_def Let_def)
next
  case (RFree it)
  then have "kfree (KPtr (ei_ptr it)) (kst st) \<bind> (\<lambda>k. Some (st\<lparr>kst := k, d_pc := RTake\<rparr>)) = Some st'"
    using assms by (simp add: bkexecd_def run_execq_def)
  then obtain k where "st' = st\<lparr>kst := k, d_pc := RTake\<rparr>" by (auto simp: bind_eq_Some_conv split: if_splits)
  then show ?thesis using free_item [OF RFree] by simp
next
  case DSchedule
  then show ?thesis using assms schedule by (cases "d_state st = TASK_RUNNING \<or> d_sig st") (simp_all add: bkexecd_def)
next
  case DInit
  then show ?thesis using assms init by (simp add: bkexecd_def)
next
  case DSetState
  then show ?thesis using assms setstate by (simp add: bkexecd_def)
next
  case DAddWait
  then show ?thesis using assms addwait by (simp add: bkexecd_def)
next
  case DTest
  then show ?thesis using assms test by (simp add: bkexecd_def)
next
  case DRunning
  then show ?thesis using assms running by (simp add: bkexecd_def)
next
  case DSignal
  then show ?thesis using assms signal by (simp add: bkexecd_def)
next
  case DCheck
  then show ?thesis using assms check by (simp add: bkexecd_def)
next
  case (RWake it)
  then show ?thesis using assms wake [OF RWake] by (simp add: bkexecd_def run_execq_def)
next
  case DExit
  then show ?thesis using assms by (simp add: bkexecd_def)
qed

lemma queue_exec_cases:
  obtains
    (put) p k where "queue_exec t st = set_task t (\<lambda>x. x\<lparr>t_pc := LWake\<rparr>)
          (st\<lparr>kst := k,
             execq_list := execq_list st @ [\<lparr>ei_ptr = p, ei_bprm = t_bprm (tasks st t), ei_task = t\<rparr>],
             queued := queued st @ [t]\<rparr>)"
  | (fault) k where "queue_exec t st = set_task t (\<lambda>x. x\<lparr>t_pc := LOops\<rparr>) (st\<lparr>kst := k\<rparr>)"
  by (cases "kmalloc 16 (kst st)"; cases "fst (kmalloc 16 (kst st))") (auto simp: queue_exec_def)

lemma start_elf_cases:
  obtains bp r where "start_elf sbh t st = set_task t (\<lambda>x. x\<lparr>t_pc := LDone r\<rparr>) (st\<lparr>bprms := (bprms st)(t_bprm (tasks st t) := bp)\<rparr>)"
  proof -
  let ?bp = "bprms st (t_bprm (tasks st t))"
  obtain r bs where "kread (bp_file ?bp) (b_elfoff (t_hdr (tasks st t))) BINPRM_BUF_SIZE (bp_buf ?bp) = (r, bs)" by fastforce
  then show ?thesis using that [of "if r < 0 then -ENOEXEC else sbh (?bp\<lparr>bp_buf := bs\<rparr>)" "?bp\<lparr>bp_buf := bs\<rparr>"]
    by (simp add: start_elf_def Let_def)
qed

lemma exec_act_cases:
  assumes "exec_act ops_at sbh a st = Some st'"
  obtains t where "a = ATask t" "load_bof_binary sbh t st = Some st'"
  | "a = ADaemon" "bkexecd ops_at st = Some st'"
  | t where "a = ASignal t" "st' = signal_task t st"
  | "a = AKill" "st' = st\<lparr>d_sig := True, d_state := TASK_RUNNING\<rparr>"
  using assms by (cases a) auto

text \<open>An invariant that the actions keep holds in every reachable state.\<close>

lemma exec_reach_invariant:
  assumes "exec_reach ops_at sbh ok st0 st" and "I st0"
    and "\<And>st a st'. I st \<Longrightarrow> ok a \<Longrightarrow> exec_act ops_at sbh a st = Some st' \<Longrightarrow> I st'"
  shows "I st"
  using assms(1) by induction (use assms(2,3) in blast)+

subsection \<open>The daemon does not miss an item\<close>

lemmas step_simps = set_task_def wake_up_more_exec_def signal_task_def

definition daemon_awake :: "exec_state \<Rightarrow> bool" where
  "daemon_awake st \<longleftrightarrow> (d_pc st \<in> {DTest, DSchedule} \<longrightarrow> d_waiting st) \<and>
     (d_pc st = DSchedule \<and> d_state st = TASK_INTERRUPTIBLE \<longrightarrow>
        execq_list st = [] \<or> (\<exists>t. t_pc (tasks st t) = LWake))"

lemma daemon_awake_set_task:
  "daemon_awake st \<Longrightarrow> t_pc (tasks st t) \<noteq> LWake \<Longrightarrow> daemon_awake (set_task t f st)"
  unfolding daemon_awake_def set_task_def by auto

lemma daemon_awake_frame:
  "daemon_awake (st\<lparr>kst := k\<rparr>) = daemon_awake st" "daemon_awake (st\<lparr>bprms := b\<rparr>) = daemon_awake st"
  by (simp_all add: daemon_awake_def)

lemma daemon_awake_task:
  assumes inv: "daemon_awake st" and "load_bof_binary sbh t st = Some st'"
  shows "daemon_awake st'"
  using assms(2)
proof (cases rule: load_bof_binary_cases)
  case queue
  show ?thesis
  proof (cases rule: queue_exec_cases [of t st])
    case (put p k)
    then show ?thesis using inv queue by (auto simp: daemon_awake_def set_task_def)
  next
    case (fault k)
    then show ?thesis using inv queue by (simp add: daemon_awake_set_task daemon_awake_frame)
  qed
next
  case wake
  then show ?thesis using inv by (auto simp: daemon_awake_def step_simps)
next
  case elf
  show ?thesis
    using inv elf by (cases rule: start_elf_cases [of sbh t st]) (simp add: daemon_awake_set_task daemon_awake_frame)
qed (use inv in \<open>auto intro: daemon_awake_set_task\<close>)

lemma daemon_awake_daemon:
  assumes inv: "daemon_awake st" and "bkexecd ops_at st = Some st'"
  shows "daemon_awake st'"
  using assms(2) by (cases rule: bkexecd_cases) (use inv in \<open>auto simp: daemon_awake_def set_task_def\<close>)

lemma daemon_awake_act:
  assumes "daemon_awake st" and "exec_act ops_at sbh a st = Some st'"
  shows "daemon_awake st'"
  using assms(2)
proof (cases rule: exec_act_cases)
  case (3 t)
  then show ?thesis using assms(1) by (auto simp: daemon_awake_def step_simps)
next
  case 4
  then show ?thesis using assms(1) by (auto simp: daemon_awake_def)
qed (use assms(1) in \<open>auto intro: daemon_awake_task daemon_awake_daemon\<close>)

text \<open>
  C16: no lost wake-up of the daemon. Under every interleaving of tasks, daemon and signals, the daemon
  sleeps only while its queue is empty or a task that has queued an item is about to wake it.
\<close>

theorem bkexecd_no_lost_item:
  assumes "exec_start st0" and "exec_reach ops_at sbh ok st0 st"
    and "d_pc st = DSchedule" and "d_state st = TASK_INTERRUPTIBLE"
  shows "execq_list st = [] \<or> (\<exists>t. t_pc (tasks st t) = LWake)"
proof -
  have "daemon_awake st0" using assms(1) by (simp add: daemon_awake_def exec_start_def)
  from exec_reach_invariant [of _ _ _ _ _ daemon_awake, OF assms(2) this] daemon_awake_act
  have "daemon_awake st" by blast
  then show ?thesis using assms(3,4) by (simp add: daemon_awake_def)
qed

subsection \<open>Loads are served in the order of the queue\<close>

definition in_hand :: "daemon_pc \<Rightarrow> execq_item list" where
  "in_hand pc = (case pc of RLoad it \<Rightarrow> [it] | _ \<Rightarrow> [])"

definition fifo :: "exec_state \<Rightarrow> bool" where
  "fifo st \<longleftrightarrow> d_pc st \<noteq> DInit \<and> queued st = map fst (loads st) @ map ei_task (in_hand (d_pc st) @ execq_list st)"

lemma fifo_act:
  assumes inv: "fifo st" and "exec_act ops_at sbh a st = Some st'"
  shows "fifo st'"
  using assms(2)
proof (cases rule: exec_act_cases)
  case (1 t)
  from 1(2) show ?thesis
  proof (cases rule: load_bof_binary_cases)
    case queue
    show ?thesis
      using inv queue by (cases rule: queue_exec_cases [of t st]) (auto simp: fifo_def set_task_def)
  next
    case elf
    show ?thesis
      using inv elf by (cases rule: start_elf_cases [of sbh t st]) (auto simp: fifo_def set_task_def)
  qed (use inv in \<open>auto simp: fifo_def step_simps\<close>)
next
  case 2
  from 2(2) show ?thesis by (cases rule: bkexecd_cases) (use inv in \<open>auto simp: fifo_def in_hand_def step_simps\<close>)
qed (use inv in \<open>auto simp: fifo_def step_simps\<close>)

text \<open>
  C17: the daemon serves the tasks in the order in which they queued, whatever the interleaving: the
  history of queueing is that of the completed loads, then the item in hand, then the queue.
\<close>

theorem run_execq_fifo:
  assumes "exec_start st0" and "exec_reach ops_at sbh ok st0 st"
  shows "queued st = map fst (loads st) @ map ei_task (in_hand (d_pc st) @ execq_list st)"
proof -
  have "fifo st0" using assms(1) by (simp add: fifo_def exec_start_def in_hand_def)
  from exec_reach_invariant [of _ _ _ _ _ fifo, OF assms(2) this] fifo_act
  have "fifo st" by blast
  then show ?thesis by (simp add: fifo_def)
qed

subsection \<open>Without signals a task goes on only after its load\<close>

definition waiting_pc :: "load_pc \<Rightarrow> bool" where
  "waiting_pc pc \<longleftrightarrow> pc = LWake \<or> pc = LSetState \<or> pc = LSchedule"

lemma waiting_pc_simps [simp]:
  "waiting_pc LWake" "waiting_pc LSetState" "waiting_pc LSchedule" "\<not> waiting_pc LEnter" "\<not> waiting_pc LQueue"
  "\<not> waiting_pc LLoaded" "\<not> waiting_pc LElf" "\<not> waiting_pc (LDone r)" "\<not> waiting_pc LOops"
  by (simp_all add: waiting_pc_def)

text \<open>The items whose task was not woken yet, and the tasks whose load is still to be done.\<close>

definition exec_items :: "exec_state \<Rightarrow> execq_item list" where
  "exec_items st = (case d_pc st of RLoad it \<Rightarrow> [it] | RWake it \<Rightarrow> [it] | _ \<Rightarrow> []) @ execq_list st"

definition exec_unwoken :: "exec_state \<Rightarrow> nat \<Rightarrow> bool" where
  "exec_unwoken st t \<longleftrightarrow> t \<in> ei_task ` set (exec_items st)"

definition exec_pending :: "exec_state \<Rightarrow> nat \<Rightarrow> bool" where
  "exec_pending st t \<longleftrightarrow> t \<in> ei_task ` set (in_hand (d_pc st) @ execq_list st)"

definition exec_loaded :: "exec_state \<Rightarrow> nat \<Rightarrow> bool" where
  "exec_loaded st t \<longleftrightarrow> (\<exists>r. (t, r) \<in> set (loads st) \<and>
     load_err (dec_bofhdr (bp_buf (bprms st (t_bprm (tasks st t))))) = word_of_int r)"

definition queue_ok :: "exec_state \<Rightarrow> bool" where
  "queue_ok st \<longleftrightarrow> d_pc st \<noteq> DInit \<and> distinct (map ei_task (exec_items st)) \<and>
     (\<forall>it\<in>set (exec_items st). ei_bprm it = t_bprm (tasks st (ei_task it))) \<and>
     inj (\<lambda>t. t_bprm (tasks st t)) \<and>
     (\<forall>b. 52 \<le> length (bp_buf (bprms st b)))"

definition task_ok :: "exec_state \<Rightarrow> nat \<Rightarrow> bool" where
  "task_ok st t \<longleftrightarrow> \<not> t_sig (tasks st t) \<and>
     (exec_unwoken st t \<longrightarrow> waiting_pc (t_pc (tasks st t)) \<and>
        (t_pc (tasks st t) = LSchedule \<longrightarrow> t_state (tasks st t) = TASK_INTERRUPTIBLE)) \<and>
     ((waiting_pc (t_pc (tasks st t)) \<or> t_pc (tasks st t) = LLoaded) \<and> bof_has_fpga (t_hdr (tasks st t)) \<longrightarrow>
        exec_pending st t \<or> exec_loaded st t)"

definition handshake :: "exec_state \<Rightarrow> bool" where
  "handshake st \<longleftrightarrow> queue_ok st \<and> (\<forall>t. task_ok st t)"

lemma exec_items_frame [simp]:
  "exec_items (set_task t f st) = exec_items st" "exec_items (st\<lparr>kst := k\<rparr>) = exec_items st" "exec_items (st\<lparr>bprms := b\<rparr>) = exec_items st"
  "exec_items (wake_up_more_exec st) = exec_items st"
  by (simp_all add: exec_items_def step_simps)

lemma exec_pending_frame [simp]:
  "exec_pending (set_task t f st) = exec_pending st" "exec_pending (st\<lparr>kst := k\<rparr>) = exec_pending st" "exec_pending (st\<lparr>bprms := b\<rparr>) = exec_pending st"
  "exec_pending (wake_up_more_exec st) = exec_pending st"
  "exec_unwoken (set_task t f st) = exec_unwoken st" "exec_unwoken (st\<lparr>kst := k\<rparr>) = exec_unwoken st" "exec_unwoken (st\<lparr>bprms := b\<rparr>) = exec_unwoken st"
  "exec_unwoken (wake_up_more_exec st) = exec_unwoken st"
  by (simp_all add: exec_pending_def exec_unwoken_def exec_items_def fun_eq_iff step_simps)

lemma exec_pending_unwoken: "exec_pending st t \<Longrightarrow> exec_unwoken st t"
  by (cases "d_pc st") (auto simp: exec_pending_def exec_unwoken_def exec_items_def in_hand_def)

lemma load_err_set:
  assumes "52 \<le> length buf"
  shows "load_err (dec_bofhdr (set_load_err r buf)) = word_of_int r" and "length (set_load_err r buf) = length buf"
proof -
  have "chunk 36 4 (set_load_err r buf) = enc32 (word_of_int r)"
    using assms by (simp add: set_load_err_def chunk_def layout_simps)
  then show "load_err (dec_bofhdr (set_load_err r buf)) = word_of_int r" by (simp add: dec_bofhdr_def codec_simps)
  show "length (set_load_err r buf) = length buf" using assms by (simp add: set_load_err_def layout_simps)
qed

text \<open>A step that changes only task \<open>t\<close> and keeps its image.\<close>

lemma handshake_set_task:
  assumes "handshake st" and "\<And>x. t_bprm (f x) = t_bprm x" and "task_ok (set_task t f st) t"
  shows "handshake (set_task t f st)"
proof -
  have bprm: "t_bprm (tasks (set_task t f st) u) = t_bprm (tasks st u)" for u
    using assms(2) by (simp add: set_task_def)
  have frame: "d_pc (set_task t f st) = d_pc st" "bprms (set_task t f st) = bprms st" "loads (set_task t f st) = loads st"
    by (simp_all add: set_task_def)
  have "task_ok (set_task t f st) u" for u
  proof (cases "u = t")
    case False
    then have "tasks (set_task t f st) u = tasks st u" by (simp add: set_task_def)
    then show ?thesis using assms(1) by (simp add: handshake_def task_ok_def exec_loaded_def frame)
  qed (use assms(3) in simp)
  then show ?thesis using assms(1) by (simp add: handshake_def queue_ok_def bprm frame)
qed

lemma handshake_frame:
  "handshake (st\<lparr>kst := k\<rparr>) = handshake st" "handshake (wake_up_more_exec st) = handshake st"
  by (auto simp: handshake_def queue_ok_def task_ok_def exec_loaded_def wake_up_more_exec_def exec_pending_def exec_unwoken_def exec_items_def)

lemma handshake_queue:
  assumes inv: "handshake st" and pc: "t_pc (tasks st t) = LQueue"
  shows "handshake (queue_exec t st)"
proof (cases rule: queue_exec_cases [of t st])
  case (fault k)
  have "\<not> exec_unwoken st t" and "\<not> t_sig (tasks st t)" using inv pc by (auto simp: handshake_def task_ok_def)
  then have "handshake (set_task t (\<lambda>x. x\<lparr>t_pc := LOops\<rparr>) (st\<lparr>kst := k\<rparr>))"
    using inv pc by (intro handshake_set_task) (simp_all add: handshake_frame task_ok_def, simp_all add: set_task_def)
  then show ?thesis by (simp only: fault)
next
  case (put p k)
  define it where "it = \<lparr>ei_ptr = p, ei_bprm = t_bprm (tasks st t), ei_task = t\<rparr>"
  define st' where "st' = queue_exec t st"
  have st': "st' = st\<lparr>kst := k, execq_list := execq_list st @ [it], queued := queued st @ [t],
      tasks := (tasks st)(t := (tasks st t)\<lparr>t_pc := LWake\<rparr>)\<rparr>"
    by (simp add: put st'_def it_def set_task_def)
  have items: "exec_items st' = exec_items st @ [it]" by (simp add: st' exec_items_def)
  have pend: "exec_pending st' u \<longleftrightarrow> exec_pending st u \<or> u = t" "exec_unwoken st' u \<longleftrightarrow> exec_unwoken st u \<or> u = t" for u
    by (auto simp: exec_pending_def exec_unwoken_def items it_def) (auto simp: st' it_def)
  have new: "\<not> exec_unwoken st t" using inv pc by (auto simp: handshake_def task_ok_def)
  have bprm: "t_bprm (tasks st' u) = t_bprm (tasks st u)" for u by (simp add: st')
  have rest: "d_pc st' = d_pc st" "bprms st' = bprms st" by (simp_all add: st')
  have "queue_ok st'"
    using inv new by (auto simp: handshake_def queue_ok_def bprm rest items it_def exec_unwoken_def)
  moreover have "task_ok st' u" for u
  proof (cases "u = t")
    case True
    have "tasks st' t = (tasks st t)\<lparr>t_pc := LWake\<rparr>" by (simp add: st')
    then show ?thesis using inv pc True by (simp add: handshake_def task_ok_def pend)
  next
    case False
    then show ?thesis using inv unfolding handshake_def task_ok_def pend exec_loaded_def by (simp add: st')
  qed
  ultimately show ?thesis by (simp add: handshake_def st'_def)
qed

lemma bp_buf_start_elf: "length (bp_buf (bprms st b)) \<le> length (bp_buf (bprms (start_elf sbh t st) b))"
  by (simp add: start_elf_def set_task_def kread_def Let_def split: prod.split)

lemma handshake_elf:
  assumes inv: "handshake st" and pc: "t_pc (tasks st t) = LElf"
  shows "handshake (start_elf sbh t st)"
proof (cases rule: start_elf_cases [of sbh t st])
  case (1 bp r)
  let ?st = "st\<lparr>bprms := (bprms st)(t_bprm (tasks st t) := bp)\<rparr>"
  have len: "52 \<le> length (bp_buf (bprms ?st b))" for b
  proof -
    have "52 \<le> length (bp_buf (bprms (start_elf sbh t st) b))"
      using bp_buf_start_elf [of st b sbh t] inv by (fastforce simp: handshake_def queue_ok_def intro: order_trans)
    then show ?thesis by (simp add: 1 set_task_def)
  qed
  have "inj (\<lambda>t. t_bprm (tasks st t))" using inv by (simp add: handshake_def queue_ok_def)
  then have other: "bprms ?st (t_bprm (tasks st u)) = bprms st (t_bprm (tasks st u))" if "u \<noteq> t" for u
    using that by (auto dest: injD)
  have "task_ok ?st u" for u
  proof (cases "u = t")
    case True
    then show ?thesis using inv pc by (auto simp: handshake_def task_ok_def)
  next
    case False
    have "task_ok st u" using inv by (simp add: handshake_def)
    then show ?thesis using other [OF False] by (simp add: task_ok_def exec_loaded_def)
  qed
  then have "handshake ?st" using inv len by (simp add: handshake_def queue_ok_def del: fun_upd_apply)
  moreover have "\<not> exec_unwoken st t" "\<not> t_sig (tasks st t)" using inv pc by (auto simp: handshake_def task_ok_def)
  ultimately show ?thesis unfolding 1
    by (intro handshake_set_task) (auto simp: task_ok_def, auto simp: set_task_def)
qed

lemma handshake_task:
  assumes inv: "handshake st" and "load_bof_binary sbh t st = Some st'"
  shows "handshake st'"
  using assms(2)
proof (cases rule: load_bof_binary_cases)
  case queue
  then show ?thesis using inv handshake_queue by simp
next
  case enter
  have "\<not> exec_unwoken st t" "\<not> t_sig (tasks st t)" using inv enter(1) by (auto simp: handshake_def task_ok_def)
  then show ?thesis using inv enter unfolding enter(2)
    by (intro handshake_set_task) (auto simp: task_ok_def, auto simp: set_task_def)
next
  case wake
  have "task_ok (wake_up_more_exec st) t" using inv handshake_frame by (metis handshake_def)
  then show ?thesis using inv wake unfolding wake(2)
    by (intro handshake_set_task) (simp_all add: handshake_frame task_ok_def exec_loaded_def, simp_all add: step_simps)
next
  case setstate
  have "task_ok st t" using inv by (simp add: handshake_def)
  then show ?thesis using inv setstate unfolding setstate(2)
    by (intro handshake_set_task) (simp_all add: task_ok_def exec_loaded_def, simp_all add: set_task_def)
next
  case schedule
  have ok: "task_ok st t" using inv by (simp add: handshake_def)
  then have "\<not> exec_unwoken st t" using schedule by (auto simp: task_ok_def)
  then show ?thesis using inv schedule ok exec_pending_unwoken [of st t] unfolding schedule(3)
    by (intro handshake_set_task) (simp_all add: task_ok_def exec_loaded_def, simp_all add: set_task_def)
next
  case (loaded e)
  have "\<not> exec_unwoken st t" "\<not> t_sig (tasks st t)" using inv loaded(1) by (auto simp: handshake_def task_ok_def)
  then show ?thesis using inv loaded unfolding loaded(3)
    by (intro handshake_set_task) (auto simp: task_ok_def, auto simp: set_task_def)
next
  case elf
  then show ?thesis using inv handshake_elf by simp
qed

text \<open>A step of the daemon that touches neither its items nor tasks and images.\<close>

lemma handshake_daemon_pc:
  assumes "handshake st" and "exec_items st' = exec_items st" and "in_hand (d_pc st') = in_hand (d_pc st)"
    and "execq_list st' = execq_list st" and "tasks st' = tasks st" and "bprms st' = bprms st" and "loads st' = loads st"
    and "d_pc st' \<noteq> DInit"
  shows "handshake st'"
  using assms by (simp add: handshake_def queue_ok_def task_ok_def exec_pending_def exec_unwoken_def exec_loaded_def)

lemma handshake_load:
  assumes inv: "handshake st" and pc: "d_pc st = RLoad it" and bp: "bp = bprms st (ei_bprm it)"
    and st': "st' = st\<lparr>kst := k, bprms := (bprms st)(ei_bprm it := bp\<lparr>bp_buf := set_load_err r (bp_buf bp)\<rparr>),
             d_pc := RWake it, loads := loads st @ [(ei_task it, r)]\<rparr>"
  shows "handshake st'"
proof -
  let ?u = "ei_task it"
  have items: "exec_items st' = exec_items st" by (simp add: st' exec_items_def pc)
  then have unwoken: "exec_unwoken st' = exec_unwoken st" by (simp add: exec_unwoken_def fun_eq_iff)
  have q: "queue_ok st" and len: "52 \<le> length (bp_buf bp)" using inv by (simp_all add: handshake_def queue_ok_def bp)
  have mine: "ei_bprm it = t_bprm (tasks st ?u)" using q pc by (simp add: queue_ok_def exec_items_def)
  have other: "bprms st' (t_bprm (tasks st t)) = bprms st (t_bprm (tasks st t))" if "t \<noteq> ?u" for t
    using that q by (auto simp: st' mine queue_ok_def dest: injD)
  have pend: "exec_pending st t \<Longrightarrow> t \<noteq> ?u \<Longrightarrow> exec_pending st' t" for t
    by (auto simp: exec_pending_def pc st' in_hand_def)
  have "exec_loaded st' ?u"
    using load_err_set(1) [OF len, of r] by (auto simp: exec_loaded_def st' mine)
  moreover have "exec_loaded st' t" if "exec_loaded st t" "t \<noteq> ?u" for t
    using that other [OF that(2)] by (auto simp: exec_loaded_def) (auto simp: st')
  ultimately have "task_ok st' t" for t
    using inv pend [of t] by (cases "t = ?u") (auto simp: handshake_def task_ok_def unwoken, auto simp: st')
  moreover have "queue_ok st'"
    using q load_err_set(2) [OF len, of r] len by (simp add: queue_ok_def items) (simp add: st' )
  ultimately show ?thesis by (simp add: handshake_def)
qed

lemma handshake_wake:
  assumes inv: "handshake st" and pc: "d_pc st = RWake it"
    and st': "st' = set_task (ei_task it) (\<lambda>x. x\<lparr>t_state := TASK_RUNNING\<rparr>) (st\<lparr>d_pc := RFree it\<rparr>)"
  shows "handshake st'"
proof -
  let ?u = "ei_task it"
  have items: "exec_items st = it # exec_items st'" by (simp add: st' exec_items_def pc set_task_def)
  have pend: "exec_pending st' = exec_pending st" by (simp add: exec_pending_def pc st' in_hand_def fun_eq_iff set_task_def)
  have q: "queue_ok st" using inv by (simp add: handshake_def)
  have gone: "\<not> exec_unwoken st' ?u" using q by (simp add: queue_ok_def items exec_unwoken_def)
  have unwoken: "exec_unwoken st' t \<Longrightarrow> exec_unwoken st t" for t by (simp add: exec_unwoken_def items)
  have bprm: "(\<lambda>t. t_bprm (tasks st' t)) = (\<lambda>t. t_bprm (tasks st t))" by (auto simp: st' set_task_def)
  have "task_ok st' t" for t
    using inv gone unwoken [of t]
    by (cases "t = ?u") (auto simp: handshake_def task_ok_def pend exec_loaded_def, auto simp: st' set_task_def)
  moreover have "queue_ok st'"
    using q unfolding queue_ok_def bprm fun_cong [OF bprm] by (simp add: items) (simp add: st' set_task_def)
  ultimately show ?thesis by (simp add: handshake_def)
qed

lemma handshake_daemon:
  assumes inv: "handshake st" and "bkexecd ops_at st = Some st'"
  shows "handshake st'"
  using assms(2)
proof (cases rule: bkexecd_cases)
  case init
  then show ?thesis using inv by (simp add: handshake_def queue_ok_def)
next
  case (load_item it bp r k)
  then show ?thesis using inv handshake_load by blast
next
  case (wake it)
  then show ?thesis using inv handshake_wake by blast
next
  case (take_item it its)
  then have "exec_items st' = exec_items st" "exec_pending st' = exec_pending st"
    by (auto simp: exec_items_def exec_pending_def in_hand_def fun_eq_iff)
  then show ?thesis using inv take_item
    by (simp add: handshake_def queue_ok_def task_ok_def exec_unwoken_def exec_loaded_def)
qed (use handshake_daemon_pc [OF inv, of st'] in \<open>auto simp: exec_items_def in_hand_def\<close>)

definition no_signal :: "act \<Rightarrow> bool" where
  "no_signal a = (case a of ASignal t \<Rightarrow> False | _ \<Rightarrow> True)"

lemma handshake_act:
  assumes inv: "handshake st" and "no_signal a" and "exec_act ops_at sbh a st = Some st'"
  shows "handshake st'"
  using assms(3)
proof (cases rule: exec_act_cases)
  case 4
  then show ?thesis
    using inv by (simp add: handshake_def queue_ok_def task_ok_def exec_pending_def exec_unwoken_def exec_loaded_def exec_items_def)
qed (use inv assms(2) in \<open>auto simp: no_signal_def intro: handshake_task handshake_daemon\<close>)

lemma handshake_start: "exec_start st \<Longrightarrow> handshake st"
proof -
  assume st: "exec_start st"
  have "52 \<le> length (bp_buf (bprms st b))" for b
    using st order_trans [of 52 128 "length (bp_buf (bprms st b))"] by (simp add: exec_start_def)
  moreover have "task_ok st t" for t
    using st by (auto simp: exec_start_def task_ok_def exec_unwoken_def exec_items_def)
       (metis load_pc.distinct waiting_pc_simps)+
  ultimately show ?thesis using st by (simp add: handshake_def queue_ok_def exec_start_def exec_items_def)
qed

text \<open>
  C6: as long as no signal is sent to a task, a task that executes a file with hardware goes on only
  after the daemon has completed its load; it fails with the result of that load, or continues with
  the ELF part when the result is 0.
\<close>

theorem load_bof_binary_waits:
  assumes "exec_start st0" and "exec_reach ops_at sbh no_signal st0 st"
    and "t_pc (tasks st t) = LLoaded" and "bof_has_fpga (t_hdr (tasks st t))"
  shows "\<exists>r st'. (t, r) \<in> set (loads st) \<and> t \<notin> ei_task ` set (execq_list st) \<and>
    load_bof_binary sbh t st = Some st' \<and>
    t_pc (tasks st' t) = (if word_of_int r = (0::u32) then LElf else LDone (sint (word_of_int r :: u32)))"
proof -
  have "handshake st"
    using exec_reach_invariant [of _ _ _ _ _ handshake, OF assms(2) handshake_start [OF assms(1)]] handshake_act by blast
  then have ok: "task_ok st t" by (simp add: handshake_def)
  then have "\<not> exec_unwoken st t" using assms(3) by (auto simp: task_ok_def)
  moreover have "exec_loaded st t"
    using ok assms(3,4) exec_pending_unwoken [of st t] by (auto simp: task_ok_def)
  ultimately show ?thesis using assms(3)
    by (auto simp: exec_loaded_def exec_unwoken_def exec_items_def load_bof_binary_def set_task_def Let_def)
qed

section \<open>Complete runs\<close>

text \<open>The daemon sleeps on an empty queue; task \<open>t\<close> starts to execute a file with hardware.\<close>

definition exec_ready :: "nat \<Rightarrow> exec_state \<Rightarrow> bool" where
  "exec_ready t st \<longleftrightarrow> d_pc st = DSchedule \<and> d_state st = TASK_INTERRUPTIBLE \<and> d_waiting st \<and> \<not> d_sig st \<and> execq_list st = [] \<and>
     t_pc (tasks st t) = LEnter \<and> t_state (tasks st t) = TASK_RUNNING \<and> \<not> t_sig (tasks st t) \<and>
     kalloc_ok (kst st) (nalloc (kst st)) \<and>
     (let buf = bp_buf (bprms st (t_bprm (tasks st t)))
      in 52 \<le> length buf \<and> bof_accepted (dec_bofhdr buf) \<and> bof_has_fpga (dec_bofhdr buf))"

definition task_file :: "exec_state \<Rightarrow> nat \<Rightarrow> kfile" where
  "task_file st t = bp_file (bprms st (t_bprm (tasks st t)))"

definition task_buf :: "exec_state \<Rightarrow> nat \<Rightarrow> u8 list" where
  "task_buf st t = bp_buf (bprms st (t_bprm (tasks st t)))"

text \<open>The kernel state once the item is allocated.\<close>

definition with_item :: "exec_state \<Rightarrow> borph_state" where
  "with_item st = (kst st)\<lparr>nalloc := Suc (nalloc (kst st)), klive := nalloc (kst st) # klive (kst st)\<rparr>"

lemma exec_run_append: "exec_run ops_at sbh (as @ bs) st = exec_run ops_at sbh as st \<bind> exec_run ops_at sbh bs"
  by (induction as arbitrary: st) (auto split: bind_split)

text \<open>The state after the task has queued its item and woken the daemon.\<close>

definition exec_queued :: "nat \<Rightarrow> exec_state \<Rightarrow> exec_state" where
  "exec_queued t st = st\<lparr>kst := with_item st,
     execq_list := [\<lparr>ei_ptr = nalloc (kst st), ei_bprm = t_bprm (tasks st t), ei_task = t\<rparr>],
     queued := queued st @ [t], d_state := TASK_RUNNING,
     tasks := (tasks st)(t := (tasks st t)\<lparr>t_hdr := dec_bofhdr (task_buf st t), t_pc := LSetState\<rparr>)\<rparr>"

lemma exec_run_queue:
  assumes "exec_ready t st"
  shows "exec_run ops_at sbh [ATask t, ATask t, ATask t] st = Some (exec_queued t st)"
  using assms
  by (simp add: exec_ready_def load_bof_binary_def queue_exec_def wake_up_more_exec_def set_task_def Let_def
      exec_queued_def with_item_def task_buf_def kmalloc_def)

text \<open>The daemon serves a single item and goes back to sleep.\<close>

definition exec_served :: "execq_item \<Rightarrow> int \<Rightarrow> borph_state \<Rightarrow> exec_state \<Rightarrow> exec_state" where
  "exec_served it r k st = st\<lparr>kst := k, execq_list := [],
     bprms := (bprms st)(ei_bprm it := (bprms st (ei_bprm it))\<lparr>bp_buf := set_load_err r (bp_buf (bprms st (ei_bprm it)))\<rparr>),
     loads := loads st @ [(ei_task it, r)],
     tasks := (tasks st)(ei_task it := (tasks st (ei_task it))\<lparr>t_state := TASK_RUNNING\<rparr>),
     d_state := TASK_INTERRUPTIBLE, d_waiting := True\<rparr>"

definition serve_acts :: "act list" where
  "serve_acts = replicate 12 ADaemon"

lemma exec_run_serve:
  assumes "d_pc st = DSchedule" and "d_state st = TASK_RUNNING" and "\<not> d_sig st" and "execq_list st = [it]"
    and "borph_load_hw ops_at (bp_file (bprms st (ei_bprm it))) (dec_bofhdr (bp_buf (bprms st (ei_bprm it)))) (ei_task it) (kst st) = Some (r, k)"
    and "kfree (KPtr (ei_ptr it)) k = Some k'"
  shows "exec_run ops_at sbh serve_acts st = Some (exec_served it r k' st)"
proof -
  have acts: "serve_acts = [ADaemon, ADaemon, ADaemon, ADaemon] @ [ADaemon, ADaemon, ADaemon, ADaemon] @ [ADaemon, ADaemon, ADaemon, ADaemon]"
    by (simp add: serve_acts_def eval_nat_numeral)
  have "exec_run ops_at sbh [ADaemon, ADaemon, ADaemon, ADaemon] st =
      Some (st\<lparr>d_waiting := False, d_pc := RTake\<rparr>)"
    using assms by (simp add: bkexecd_def)
  then show ?thesis
    using assms unfolding acts exec_run_append by (simp add: bkexecd_def run_execq_def run_load_def set_task_def exec_served_def Let_def del: kfree.simps)
qed

text \<open>The task queues its item and the daemon serves it, before or after the task goes to sleep.\<close>

definition item_of :: "nat \<Rightarrow> exec_state \<Rightarrow> execq_item" where
  "item_of t st = \<lparr>ei_ptr = nalloc (kst st), ei_bprm = t_bprm (tasks st t), ei_task = t\<rparr>"

lemma exec_run_served:
  assumes "exec_ready t st"
    and "borph_load_hw ops_at (task_file st t) (dec_bofhdr (task_buf st t)) t (with_item st) = Some (r, k)"
    and k': "kfree (KPtr (nalloc (kst st))) k = Some k'" and f: "f = id \<or> f = (\<lambda>x. x\<lparr>t_state := TASK_INTERRUPTIBLE, t_pc := LSchedule\<rparr>)"
  shows "exec_run ops_at sbh serve_acts (set_task t f (exec_queued t st)) =
    Some (exec_served (item_of t st) r k' (set_task t f (exec_queued t st)))"
  using assms(1,2) f k'
  by (intro exec_run_serve)
     (auto simp: exec_queued_def exec_ready_def task_file_def task_buf_def item_of_def set_task_def simp del: kfree.simps)

text \<open>
  C30: the handshake between a task and the daemon can fail. When the daemon completes the load before
  the task has marked itself as sleeping, the wake-up is lost: the task sleeps although its hardware
  is loaded, the daemon sleeps on an empty queue, and only a signal can end this.
\<close>

theorem load_bof_binary_lost_wakeup:
  assumes "exec_ready t st" and "borph_load_hw ops_at (task_file st t) (dec_bofhdr (task_buf st t)) t (with_item st) = Some (r, k)"
    and "nalloc (kst st) \<in> set (klive k)"
  shows "\<exists>as st'. list_all no_signal as \<and> exec_run ops_at sbh as st = Some st' \<and> (t, r) \<in> set (loads st') \<and>
    execq_list st' = [] \<and> t_pc (tasks st' t) = LSchedule \<and>
    load_bof_binary sbh t st' = None \<and> bkexecd ops_at st' = None"
proof -
  obtain k' where k': "kfree (KPtr (nalloc (kst st))) k = Some k'" using assms(3) by simp
  let ?s = "exec_served (item_of t st) r k' (exec_queued t st)"
  let ?as = "[ATask t, ATask t, ATask t] @ serve_acts @ [ATask t]"
  have "exec_run ops_at sbh serve_acts (exec_queued t st) = Some ?s"
    using exec_run_served [OF assms(1,2) k', of id] by (simp add: set_task_def)
  then have "exec_run ops_at sbh ?as st = load_bof_binary sbh t ?s"
    unfolding exec_run_append exec_run_queue [OF assms(1)] by (cases "load_bof_binary sbh t ?s") simp_all
  moreover have "list_all no_signal ?as" by (simp add: no_signal_def serve_acts_def list_all_iff)
  moreover have "\<exists>st'. load_bof_binary sbh t ?s = Some st' \<and> (t, r) \<in> set (loads st') \<and>
    execq_list st' = [] \<and> t_pc (tasks st' t) = LSchedule \<and> load_bof_binary sbh t st' = None \<and> bkexecd ops_at st' = None"
    using assms(1)
    by (simp add: load_bof_binary_def exec_served_def exec_queued_def item_of_def set_task_def Let_def exec_ready_def bkexecd_def)
  ultimately show ?thesis by metis
qed

text \<open>
  A signal that arrives while the task sleeps lets it return from \<open>load_bof_binary\<close> before the
  daemon has looked at its item: the item in the queue then refers to a finished call.
\<close>

theorem load_bof_binary_signal_early:
  assumes "exec_ready t st" and "load_err (dec_bofhdr (task_buf st t)) = 0"
  shows "\<exists>as st' ret. exec_run ops_at sbh as st = Some st' \<and> t_pc (tasks st' t) = LDone ret \<and>
    map ei_task (execq_list st') = [t] \<and> loads st' = loads st"
proof -
  let ?as = "[ATask t, ATask t, ATask t] @ [ATask t, ASignal t, ATask t, ATask t, ATask t]"
  have "\<exists>st' ret. exec_run ops_at sbh ?as st = Some st' \<and> t_pc (tasks st' t) = LDone ret \<and>
    map ei_task (execq_list st') = [t] \<and> loads st' = loads st"
    using assms unfolding exec_run_append exec_run_queue [OF assms(1)]
    by (simp add: load_bof_binary_def exec_queued_def set_task_def Let_def signal_task_def task_buf_def start_elf_def exec_ready_def
        split: prod.split)
  then show ?thesis by (rule exI [of _ ?as])
qed

text \<open>Up to the point where the task goes on, for a file with one region and an idle board.\<close>

definition asleep :: "exec_task \<Rightarrow> exec_task" where
  "asleep x = x\<lparr>t_state := TASK_INTERRUPTIBLE, t_pc := LSchedule\<rparr>"

definition load_acts :: "nat \<Rightarrow> act list" where
  "load_acts t = [ATask t, ATask t, ATask t] @ [ATask t] @ serve_acts"

lemma load_acts_no_signal: "list_all no_signal (load_acts t)"
  by (simp add: load_acts_def no_signal_def serve_acts_def list_all_iff)

lemma load_with_item:
  assumes mem: "\<forall>n. kalloc_ok (kst st) n" and one: "b_numchip bh = 1" and reg: "bof_region contents (b_hwoff bh) hdr regs strtab"
    and idle: "board_idle h (kst st)" and rhino: "for_rhino hdr"
    and cfg: "will_configure contents (pl_off hdr) (pl_len hdr) a b (kst st)"
  shows "\<exists>k. borph_load_hw rhino_ops_at (regular_file contents) bh t (with_item st) = Some (0, k) \<and>
    nalloc (kst st) \<in> set (klive k) \<and>
    (\<exists>bi. binfo k t = Some bi \<and> map (ioreg_entry k) (bi_ioreg bi) = rev (map (bof_entry strtab) regs)) \<and>
    fpga_rx k = fpga_rx (kst st) @ chunk (unat (pl_off hdr)) (unat (pl_len hdr)) contents"
proof -
  have "board_idle h (with_item st)" using idle by (simp add: board_idle_def with_item_def phy_get_def)
  moreover have "will_configure contents (pl_off hdr) (pl_len hdr) a b (with_item st)"
    using cfg by (simp add: will_configure_def configure_ready_def initb_answers_def with_item_def)
  moreover have "\<forall>n. kalloc_ok (with_item st) n" using mem by (simp add: with_item_def)
  ultimately obtain k bi where load: "borph_load_hw rhino_ops_at (regular_file contents) bh t (with_item st) = Some (0, k)"
    and live: "mset (klive k) = mset [nalloc (with_item st)..<Suc (Suc (Suc (nalloc (with_item st)))) + length regs] + mset (klive (with_item st))"
    and fp: "fpga_rx k = fpga_rx (with_item st) @ chunk (unat (pl_off hdr)) (unat (pl_len hdr)) contents"
    and bi: "binfo k = (binfo (with_item st))(t \<mapsto> bi)"
      "bi_ioreg bi = rev (ioregs_of (KPtr (Suc (nalloc (with_item st)))) (Suc (Suc (nalloc (with_item st)))) (Suc (Suc (Suc (nalloc (with_item st))))) regs)"
    and tab: "strtabs k = (strtabs (with_item st))(Suc (nalloc (with_item st)) \<mapsto> strtab)"
    using borph_load_hw_state [of "with_item st" bh contents hdr regs strtab h a b t] one reg rhino by auto
  have "map (ioreg_entry k) (bi_ioreg bi) = rev (map (bof_entry strtab) regs)"
    unfolding bi(2) rev_map [symmetric] using ioregs_of_entries [of k "Suc (nalloc (with_item st))" strtab] tab by simp
  moreover have "nalloc (kst st) \<in># mset (klive k)" unfolding live by (simp add: with_item_def)
  ultimately show ?thesis using load fp bi(1) by (intro exI [of _ k]) (simp add: with_item_def)
qed

lemma exec_run_load:
  assumes ready: "exec_ready t st"
    and load: "borph_load_hw ops_at (task_file st t) (dec_bofhdr (task_buf st t)) t (with_item st) = Some (r, k)"
    and live: "nalloc (kst st) \<in> set (klive k)"
  shows "\<exists>k'. exec_run ops_at sbh (load_acts t) st =
      Some (exec_served (item_of t st) r k' (set_task t asleep (exec_queued t st))) \<and>
    fpga_rx k' = fpga_rx k \<and> binfo k' = binfo k \<and> ioreg_entry k' = ioreg_entry k"
proof -
  obtain k' where k': "kfree (KPtr (nalloc (kst st))) k = Some k'" "fpga_rx k' = fpga_rx k" "binfo k' = binfo k" "ioreg_entry k' = ioreg_entry k"
    using live by (simp add: ioreg_entry_def [abs_def])
  have "load_bof_binary sbh t (exec_queued t st) = Some (set_task t asleep (exec_queued t st))"
    by (simp add: load_bof_binary_def exec_queued_def set_task_def asleep_def)
  moreover have "exec_run ops_at sbh serve_acts (set_task t asleep (exec_queued t st)) =
      Some (exec_served (item_of t st) r k' (set_task t asleep (exec_queued t st)))"
    using exec_run_served [OF ready load k'(1), of asleep] by (simp add: asleep_def [abs_def])
  ultimately show ?thesis
    unfolding load_acts_def exec_run_append exec_run_queue [OF ready] using k'(2-4)
    by (intro exI [of _ k']) simp
qed

lemma exec_run_bof:
  assumes "exec_ready t st" and "\<forall>n. kalloc_ok (kst st) n"
    and bp: "task_file st t = regular_file contents" "dec_bofhdr (task_buf st t) = bh" "length (task_buf st t) = BINPRM_BUF_SIZE"
    and "b_numchip bh = 1" and "bof_region contents (b_hwoff bh) hdr regs strtab"
    and "board_idle h (kst st)" and "for_rhino hdr" and "will_configure contents (pl_off hdr) (pl_len hdr) a b (kst st)"
    and elf: "unat (b_elfoff bh) + BINPRM_BUF_SIZE \<le> length contents"
  shows "\<exists>as st'. list_all no_signal as \<and> exec_run rhino_ops_at sbh as st = Some st' \<and> execq_list st' = [] \<and>
    t_pc (tasks st' t) = LDone (sbh \<lparr>bp_buf = chunk (unat (b_elfoff bh)) BINPRM_BUF_SIZE contents, bp_file = regular_file contents\<rparr>) \<and>
    fpga_rx (kst st') = fpga_rx (kst st) @ chunk (unat (pl_off hdr)) (unat (pl_len hdr)) contents \<and>
    (\<exists>bi. binfo (kst st') t = Some bi \<and> map (ioreg_entry (kst st')) (bi_ioreg bi) = rev (map (bof_entry strtab) regs))"
proof -
  obtain k where load: "exec_run rhino_ops_at sbh (load_acts t) st = Some (exec_served (item_of t st) 0 k (set_task t asleep (exec_queued t st)))"
    and k: "fpga_rx k = fpga_rx (kst st) @ chunk (unat (pl_off hdr)) (unat (pl_len hdr)) contents"
      "\<exists>bi. binfo k t = Some bi \<and> map (ioreg_entry k) (bi_ioreg bi) = rev (map (bof_entry strtab) regs)"
    using load_with_item [OF assms(2,6-10), of t] exec_run_load [OF assms(1), of rhino_ops_at 0 _ sbh] bp by metis
  let ?s = "exec_served (item_of t st) 0 k (set_task t asleep (exec_queued t st))"
  let ?as = "load_acts t @ [ATask t, ATask t, ATask t]"
  let ?fin = "start_elf sbh t (set_task t (\<lambda>x. x\<lparr>t_pc := LElf\<rparr>) ?s)"
  have "exec_run rhino_ops_at sbh [ATask t, ATask t, ATask t] ?s = Some ?fin"
    using load_err_set(1) [of "task_buf st t" 0] bp(3)
    by (simp add: load_bof_binary_def exec_served_def exec_queued_def item_of_def set_task_def asleep_def Let_def task_buf_def)
  then have run: "exec_run rhino_ops_at sbh ?as st = Some ?fin" using load by (simp add: exec_run_append)
  have upd: "(bprms st (t_bprm (tasks st t)))\<lparr>bp_buf := c\<rparr> = \<lparr>bp_buf = c, bp_file = regular_file contents\<rparr>" for c
    using bp(1) by (cases "bprms st (t_bprm (tasks st t))") (simp add: task_file_def)
  have "kread (regular_file contents) (b_elfoff bh) BINPRM_BUF_SIZE (set_load_err 0 (task_buf st t)) =
      (int BINPRM_BUF_SIZE, chunk (unat (b_elfoff bh)) BINPRM_BUF_SIZE contents)"
    using elf bp(3) by (intro kread_full) (simp_all add: load_err_set(2))
  then have "execq_list ?fin = [] \<and> kst ?fin = k \<and>
      t_pc (tasks ?fin t) = LDone (sbh \<lparr>bp_buf = chunk (unat (b_elfoff bh)) BINPRM_BUF_SIZE contents, bp_file = regular_file contents\<rparr>)"
    using bp by (simp add: start_elf_def set_task_def exec_served_def exec_queued_def item_of_def task_buf_def task_file_def asleep_def upd Let_def)
  moreover have "list_all no_signal ?as" using load_acts_no_signal by (simp add: no_signal_def)
  ultimately show ?thesis using run k by metis
qed

text \<open>
  Executing a BOF file for the idle board. When the task sleeps before the daemon has finished,
  \<open>load_bof_binary\<close> returns what the search for a handler gives on the ELF part of the file, after
  the payload of the file was sent to the FPGA and the task has become a hardware process
  with the registers of the file.
\<close>

theorem load_bof_binary_ok:
  assumes "exec_ready t st" and "\<forall>n. kalloc_ok (kst st) n"
    and bp: "task_file st t = regular_file contents" "dec_bofhdr (task_buf st t) = bh" "length (task_buf st t) = BINPRM_BUF_SIZE"
    and "b_numchip bh = 1" and "bof_region contents (b_hwoff bh) hdr regs strtab"
    and "board_idle h (kst st)" and "for_rhino hdr" and "will_configure contents (pl_off hdr) (pl_len hdr) a b (kst st)"
    and elf: "unat (b_elfoff bh) + BINPRM_BUF_SIZE \<le> length contents"
  shows "\<exists>as st'. list_all no_signal as \<and> exec_run rhino_ops_at sbh as st = Some st' \<and> execq_list st' = [] \<and>
    t_pc (tasks st' t) = LDone (sbh \<lparr>bp_buf = chunk (unat (b_elfoff bh)) BINPRM_BUF_SIZE contents, bp_file = regular_file contents\<rparr>) \<and>
    fpga_rx (kst st') = fpga_rx (kst st) @ chunk (unat (pl_off hdr)) (unat (pl_len hdr)) contents \<and>
    (\<exists>bi. binfo (kst st') t = Some bi \<and> map (ioreg_entry (kst st')) (bi_ioreg bi) = rev (map (bof_entry strtab) regs))"
  using exec_run_bof [OF assms] .

section \<open>An example\<close>

text \<open>A file of one region, with its main header in front and an ELF part of zeros behind.\<close>

definition demo_region_hdr :: hwrhdr where
  "demo_region_hdr = demo_hdr\<lparr>pl_off := 96, hstrtab_off := 92\<rparr>"

definition demo_main :: bofhdr where
  "demo_main = \<lparr>ident = [0x19, 0x42, 0x4F, 0x46] @ replicate 12 0, b_version = 6, b_machine = BM_RHINO, b_elfmachine = EM_ARM,
     b_numchip = 1, b_elfoff = 99, b_hwoff = 52, load_err = 0, b_ekver = 0, pad = (0, 0)\<rparr>"

definition demo_bof :: "u8 list" where
  "demo_bof = enc_bofhdr demo_main @ enc_hwrhdr demo_region_hdr @ enc_bofioreg demo_reg @ [97, 98, 99, 0] @ [1, 2, 3] @ replicate 128 0"

text \<open>Task 7 is about to execute it; the daemon is at the top of its loop, or asleep.\<close>

definition exec_boot :: exec_state where
  "exec_boot = \<lparr>kst = borph_boot, execq_list = [], bprms = (\<lambda>_. \<lparr>bp_buf = take 128 demo_bof, bp_file = regular_file demo_bof\<rparr>),
     tasks = (\<lambda>t. \<lparr>t_state = TASK_RUNNING, t_pc = (if t = 7 then LEnter else LDone 0), t_sig = False, t_bprm = t, t_hdr = demo_main\<rparr>),
     d_state = TASK_RUNNING, d_pc = DSetState, d_sig = False, d_waiting = False, queued = [], loads = []\<rparr>"

definition exec_idle :: exec_state where
  "exec_idle = exec_boot\<lparr>d_state := TASK_INTERRUPTIBLE, d_waiting := True, d_pc := DSchedule\<rparr>"

lemma length_demo_main: "length (enc_bofhdr demo_main) = 52"
  by (simp add: layout_simps enc_bofhdr_def demo_main_def)

lemma length_demo_bof [simp]: "length demo_bof = 227"
  by (simp add: demo_bof_def layout_simps length_demo_main)

lemma demo_bof_main: "dec_bofhdr (take 128 demo_bof) = demo_main"
  by (simp add: dec_bofhdr_def demo_bof_def enc_bofhdr_def demo_main_def chunk_def layout_simps codec_simps)

lemma demo_bof_region: "bof_region demo_bof 52 demo_region_hdr [demo_reg] [97, 98, 99, 0]"
  by (simp add: bof_region_def demo_bof_def chunk_def layout_simps length_demo_main demo_region_hdr_def demo_hdr_def)

lemma demo_bof_configure: "will_configure demo_bof 96 3 0 1 borph_boot"
  by (simp add: will_configure_def configure_ready_def initb_answers_def boot_simps)

lemma exec_boot_start: "exec_start exec_boot"
  by (simp add: exec_start_def exec_boot_def inj_def)

lemma exec_boot_idle: "exec_run ops_at sbh [ADaemon, ADaemon, ADaemon] exec_boot = Some exec_idle"
  by (simp add: exec_boot_def exec_idle_def bkexecd_def)

lemma exec_idle_ready: "exec_ready 7 exec_idle"
  by (simp add: exec_ready_def exec_idle_def exec_boot_def demo_bof_main bof_accepted_def bof_has_fpga_def boot_simps Let_def)
     (simp add: demo_main_def)

lemma exec_reach_run: "exec_run ops_at sbh as st = Some st' \<Longrightarrow> list_all ok as \<Longrightarrow> exec_reach ops_at sbh ok st0 st \<Longrightarrow> exec_reach ops_at sbh ok st0 st'"
  by (induction as arbitrary: st) (auto simp: bind_eq_Some_conv intro: exec_reach.step)

lemma exec_idle_reach: "exec_reach ops_at sbh no_signal exec_boot exec_idle"
  using exec_reach_run [OF exec_boot_idle, of no_signal] by (simp add: no_signal_def exec_reach.start)

theorem bkexecd_no_lost_item_witness:
  "exec_reach rhino_ops_at (\<lambda>_. 0) no_signal exec_boot exec_idle \<and> d_pc exec_idle = DSchedule \<and>
    (execq_list exec_idle = [] \<or> (\<exists>t. t_pc (tasks exec_idle t) = LWake))"
  using bkexecd_no_lost_item [OF exec_boot_start exec_idle_reach] exec_idle_reach by (simp add: exec_idle_def)

theorem run_execq_fifo_witness:
  "exec_reach rhino_ops_at (\<lambda>_. 0) no_signal exec_boot (exec_queued 7 exec_idle) \<and> queued (exec_queued 7 exec_idle) = [7]"
proof -
  have r: "exec_reach rhino_ops_at (\<lambda>_. 0) no_signal exec_boot (exec_queued 7 exec_idle)"
    using exec_reach_run [OF exec_run_queue [OF exec_idle_ready] _ exec_idle_reach] by (simp add: no_signal_def)
  show ?thesis
    using run_execq_fifo [OF exec_boot_start r] r by (simp add: exec_queued_def exec_idle_def exec_boot_def in_hand_def)
qed

lemma exec_idle_facts:
  "\<forall>n. kalloc_ok (kst exec_idle) n" "kst exec_idle = borph_boot" "task_file exec_idle 7 = regular_file demo_bof"
  "dec_bofhdr (task_buf exec_idle 7) = demo_main" "length (task_buf exec_idle 7) = 128" "b_numchip demo_main = 1"
  "bof_region demo_bof (b_hwoff demo_main) demo_region_hdr [demo_reg] [97, 98, 99, 0]"
  "for_rhino demo_region_hdr" "will_configure demo_bof (pl_off demo_region_hdr) (pl_len demo_region_hdr) 0 1 (kst exec_idle)"
  using demo_bof_region demo_bof_configure
  by (simp_all add: exec_idle_def exec_boot_def boot_simps task_file_def task_buf_def demo_bof_main)
     (simp_all add: demo_main_def demo_region_hdr_def demo_hdr_def for_rhino_def boot_simps)

lemma exec_idle_load:
  "\<exists>k. borph_load_hw rhino_ops_at (task_file exec_idle 7) (dec_bofhdr (task_buf exec_idle 7)) 7 (with_item exec_idle) = Some (0, k) \<and>
    nalloc (kst exec_idle) \<in> set (klive k)"
  using load_with_item [OF exec_idle_facts(1,6,7) _ exec_idle_facts(8,9), of _ 7] demo_board(1)
  by (auto simp: exec_idle_facts(2-4))

theorem load_bof_binary_waits_witness:
  "\<exists>st r. exec_reach rhino_ops_at (\<lambda>_. 0) no_signal exec_boot st \<and> t_pc (tasks st 7) = LLoaded \<and> (7, r) \<in> set (loads st)"
proof -
  obtain k where k: "exec_run rhino_ops_at (\<lambda>_. 0) (load_acts 7) exec_idle =
      Some (exec_served (item_of 7 exec_idle) 0 k (set_task 7 asleep (exec_queued 7 exec_idle)))" (is "_ = Some ?s")
    using exec_idle_load exec_run_load [OF exec_idle_ready] by blast
  let ?st = "set_task 7 (\<lambda>x. x\<lparr>t_state := TASK_RUNNING, t_pc := LLoaded\<rparr>) ?s"
  have "exec_act rhino_ops_at (\<lambda>_. 0) (ATask 7) ?s = Some ?st"
    by (simp add: load_bof_binary_def exec_served_def item_of_def set_task_def asleep_def)
  then have r: "exec_reach rhino_ops_at (\<lambda>_. 0) no_signal exec_boot ?st"
    using exec_reach.step [OF exec_reach_run [OF k load_acts_no_signal exec_idle_reach], of "ATask 7"] by (simp add: no_signal_def)
  have pc: "t_pc (tasks ?st 7) = LLoaded" "bof_has_fpga (t_hdr (tasks ?st 7))"
    using exec_idle_ready
    by (simp_all add: set_task_def exec_served_def item_of_def asleep_def exec_queued_def exec_ready_def task_buf_def Let_def)
  from load_bof_binary_waits [OF exec_boot_start r pc] r pc(1) show ?thesis by blast
qed

theorem load_bof_binary_lost_wakeup_witness:
  "\<exists>as st'. list_all no_signal as \<and> exec_run rhino_ops_at (\<lambda>_. 0) as exec_idle = Some st' \<and>
     load_bof_binary (\<lambda>_. 0) 7 st' = None \<and> bkexecd rhino_ops_at st' = None"
proof -
  obtain k where "borph_load_hw rhino_ops_at (task_file exec_idle 7) (dec_bofhdr (task_buf exec_idle 7)) 7 (with_item exec_idle) = Some (0, k)"
    "nalloc (kst exec_idle) \<in> set (klive k)" using exec_idle_load by blast
  from load_bof_binary_lost_wakeup [OF exec_idle_ready this, of "\<lambda>_. 0"] show ?thesis by blast
qed

theorem load_bof_binary_signal_early_witness:
  "\<exists>as st' ret. exec_run rhino_ops_at (\<lambda>_. 0) as exec_idle = Some st' \<and> t_pc (tasks st' 7) = LDone ret \<and>
    map ei_task (execq_list st') = [7]"
proof -
  have "load_err (dec_bofhdr (task_buf exec_idle 7)) = 0"
    by (simp add: task_buf_def exec_idle_def exec_boot_def demo_bof_main) (simp add: demo_main_def)
  from load_bof_binary_signal_early [OF exec_idle_ready this, of rhino_ops_at "\<lambda>_. 0"] show ?thesis by metis
qed

theorem load_bof_binary_ok_witness:
  "\<exists>as st'. exec_run rhino_ops_at (\<lambda>bp. int (length (bp_buf bp))) as exec_idle = Some st' \<and> t_pc (tasks st' 7) = LDone 128 \<and>
     fpga_rx (kst st') = [1, 2, 3]"
proof -
  have "chunk (unat (pl_off demo_region_hdr)) (unat (pl_len demo_region_hdr)) demo_bof = [1, 2, 3]"
    by (simp add: demo_bof_def chunk_def layout_simps length_demo_main demo_region_hdr_def demo_hdr_def)
  moreover have "unat (b_elfoff demo_main) + 128 \<le> length demo_bof" "length (chunk (unat (b_elfoff demo_main)) 128 demo_bof) = 128"
    "fpga_rx (kst exec_idle) = []"
    by (simp_all add: exec_idle_facts(2) chunk_def) (simp_all add: demo_main_def boot_simps)
  ultimately show ?thesis
    using load_bof_binary_ok [OF exec_idle_ready exec_idle_facts(1,3-7) _ exec_idle_facts(8,9), of _ "\<lambda>bp. int (length (bp_buf bp))"]
      demo_board(1) by (fastforce simp: exec_idle_facts(2))
qed

end
