(* ===== verification/ProcBorph.thy ===== *)
theory ProcBorph
  imports BorphLoad
begin

text \<open>
  The files under \<open>/proc/<pid>/hw\<close> of a hardware process, \<open>src/borph/fs/proc/proc_borph.c\<close>: the register
  files with their text and raw modes, the directory that lists them, and the files \<open>status\<close>,
  \<open>ioreg_mode\<close> and \<open>hwregion\<close>.

  The generic functions of procfs are parameters. User memory is the list of bytes that can be read
  from the given address; counts are below \<open>2 ^ 31\<close>, the limit of the system calls.
\<close>

section \<open>State\<close>

text \<open>
  The state gains the reference counts of tasks and which tasks are alive. An open register file is
  its register (the data of its inode) and the task of its inode.
\<close>

record proc_state = borph_state +
  task_live :: "nat \<Rightarrow> bool"
  task_refs :: "nat \<Rightarrow> int"

definition get_proc_task :: "nat \<Rightarrow> 'a proc_state_scheme \<Rightarrow> nat option \<times> 'a proc_state_scheme" where
  "get_proc_task tsk s =
     (if task_live s tsk then (Some tsk, s\<lparr>task_refs := (task_refs s)(tsk := task_refs s tsk + 1)\<rparr>) else (None, s))"

definition put_task_struct :: "nat \<Rightarrow> 'a proc_state_scheme \<Rightarrow> 'a proc_state_scheme" where
  "put_task_struct tsk s = s\<lparr>task_refs := (task_refs s)(tsk := task_refs s tsk - 1)\<rparr>"

text \<open>The registers of a task are freed when it exits; a file that is still open then points to freed memory.\<close>

definition reg_valid :: "borph_ioreg \<Rightarrow> 'a proc_state_scheme \<Rightarrow> bool" where
  "reg_valid r s \<longleftrightarrow> ir_ptr r \<in> set (klive s)"

definition region_addr :: "nat \<Rightarrow> borph_ioreg \<Rightarrow> 'a proc_state_scheme \<Rightarrow> hwr_addr option" where
  "region_addr tsk r s = do {
     bi \<leftarrow> binfo s tsk;
     rg \<leftarrow> find (\<lambda>rg. rg_ptr rg = ir_region r) (bi_hw_region bi);
     Some (rg_addr rg) }"

section \<open>Conversion of register contents\<close>

definition hex_char :: "u32 \<Rightarrow> u8" where
  "hex_char m = (if 10 \<le> m then 65 - 10 else 48) + ucast m"

fun ascii_loop :: "nat \<Rightarrow> u32 \<Rightarrow> u8 list \<Rightarrow> nat \<times> u8 list" where
  "ascii_loop 0 val cbuf = (0, cbuf)"
| "ascii_loop (Suc j) val cbuf =
     (let cbuf = cbuf[j := hex_char (val AND 0xF)]; val = drop_bit 4 val
      in if val = 0 then (j, cbuf) else ascii_loop j val cbuf)"

text \<open>The conversion works in place and needs room for 9 characters.\<close>

definition to_ascii :: "u8 list \<Rightarrow> int \<Rightarrow> (int \<times> u8 list) option" where
  "to_ascii buf len =
     (if len \<noteq> 4 then Some (-EINVAL, buf)
      else if length buf < 9 then None
      else case ascii_loop 8 (dec32 (chunk 0 4 buf)) buf of (j, cbuf) \<Rightarrow>
        Some (9, (replicate j 48 @ drop j cbuf)[8 := 10]))"

text \<open>
  \<open>convert_input\<close> on the 12 bytes of \<open>tmpbuf\<close>. The loops for hexadecimal and binary numbers skip the
  leading letter but still run \<open>cnt\<close> times; \<^const>\<open>None\<close> is a read behind the buffer. Sums wrap.
\<close>

fun conv_hex :: "u8 list \<Rightarrow> nat \<Rightarrow> u32 \<Rightarrow> u32 option" where
  "conv_hex buf 0 num = Some num"
| "conv_hex [] (Suc cnt) num = None"
| "conv_hex (c # buf) (Suc cnt) num =
     conv_hex buf cnt
       (if c \<noteq> 10 then
          num * 16 + (if 97 \<le> c \<and> c \<le> 102 then ucast (c - 97) else if 65 \<le> c \<and> c \<le> 70 then ucast (c - 65)
                      else if 48 \<le> c \<and> c \<le> 57 then ucast (c - 48) else 0)
        else num)"

fun conv_bin :: "u8 list \<Rightarrow> nat \<Rightarrow> u32 \<Rightarrow> (unit + u32) option" where
  "conv_bin buf 0 num = Some (Inr num)"
| "conv_bin [] (Suc cnt) num = None"
| "conv_bin (c # buf) (Suc cnt) num =
     (if c \<noteq> 10 then
        if 48 \<le> c \<and> c \<le> 49 then conv_bin buf cnt (num * 2 + ucast (c - 48)) else Some (Inl ())
      else conv_bin buf cnt num)"

fun conv_dec :: "u8 list \<Rightarrow> nat \<Rightarrow> u32 \<Rightarrow> u32 option" where
  "conv_dec buf 0 num = Some num"
| "conv_dec [] (Suc cnt) num = None"
| "conv_dec (c # buf) (Suc cnt) num = conv_dec buf cnt (if 48 \<le> c \<and> c \<le> 57 then num * 10 + ucast (c - 48) else num)"

definition convert_input :: "u8 list \<Rightarrow> nat \<Rightarrow> int option" where
  "convert_input buf cnt =
     (case buf of
        [] \<Rightarrow> None
      | c # rest \<Rightarrow>
          if c = 120 then (if cnt < 2 then Some (-EINVAL) else map_option sint (conv_hex rest cnt 0))
          else if c = 98 then
            (if cnt < 2 then Some (-EINVAL)
             else map_option (\<lambda>r. case r of Inl _ \<Rightarrow> -EINVAL | Inr num \<Rightarrow> sint num) (conv_bin rest cnt 0))
          else map_option sint (conv_dec buf cnt 0))"

section \<open>Reading a register\<close>

definition upd_iobuf :: "nat \<Rightarrow> (hwr_iobuf \<Rightarrow> hwr_iobuf) \<Rightarrow> 'a proc_state_scheme \<Rightarrow> 'a proc_state_scheme option" where
  "upd_iobuf b f s = do { io \<leftarrow> iobufs s b; Some (s\<lparr>iobufs := (iobufs s)(b \<mapsto> f io)\<rparr>) }"

text \<open>
  The transfer itself, between \<open>get_iobuf\<close> and \<open>put_iobuf\<close>: the return value and the bytes handed to
  \<open>copy_to_user\<close>, whose result the code ignores.
\<close>

definition read_iobuf ::
  "'a proc_state_scheme hwr_operations \<Rightarrow> borph_ioreg \<Rightarrow> int \<Rightarrow> nat \<Rightarrow> int \<Rightarrow> nat \<Rightarrow> 'a proc_state_scheme
    \<Rightarrow> (int \<times> u8 list \<times> 'a proc_state_scheme) option" where
  "read_iobuf ops r mode fcount fpos b s = do {
     recv \<leftarrow> op_recv_iobuf ops;
     s \<leftarrow> upd_iobuf b (\<lambda>io. io\<lparr>io_location := ir_loc r, io_offset := word_of_int fpos,
            io_size := (if mode \<noteq> 0 then fcount else fcount div 2)\<rparr>) s;
     (ret, s) \<leftarrow> recv b s;
     if ret < 0 then Some (ret, [], s)
     else do {
       io \<leftarrow> iobufs s b;
       (ret, dat) \<leftarrow> (if mode = 0 then to_ascii (io_data io) ret else Some (ret, io_data io));
       s \<leftarrow> upd_iobuf b (\<lambda>io. io\<lparr>io_data := dat\<rparr>) s;
       if ret < 0 then Some (ret, [], s)
       else if int (length dat) < ret then None
       else Some (ret, take (nat ret) dat, s) } }"

text \<open>The part of a read that uses the driver: the return value, the bytes and the new position.\<close>

definition read_hw ::
  "(nat \<Rightarrow> 'a proc_state_scheme hwr_operations) \<Rightarrow> nat \<Rightarrow> borph_ioreg \<Rightarrow> int \<Rightarrow> nat \<Rightarrow> int \<Rightarrow> 'a proc_state_scheme
    \<Rightarrow> (int \<times> u8 list \<times> int \<times> 'a proc_state_scheme) option" where
  "read_hw ops_at t r mode fcount fpos s = do {
     a \<leftarrow> region_addr t r s;
     (hwrops, s) \<leftarrow> get_hwrops a s;
     case hwrops of
       None \<Rightarrow> Some (0, [], fpos, s)
     | Some q \<Rightarrow> (case (op_get_iobuf (ops_at q), op_recv_iobuf (ops_at q), op_put_iobuf (ops_at q)) of
           (Some get, Some _, Some put) \<Rightarrow> do {
             (ib, s) \<leftarrow> get s;
             case ib of
               None \<Rightarrow> do { s \<leftarrow> put_hwrops a s; Some (0, [], fpos, s) }
             | Some b \<Rightarrow> do {
                 (ret, bs, s) \<leftarrow> read_iobuf (ops_at q) r mode fcount fpos b s;
                 let fpos = (if ret < 0 then fpos else if ir_mode r AND IORM_PIPE \<noteq> 0 then 0 else fpos + ret);
                 (_, s) \<leftarrow> put b s;
                 s \<leftarrow> put_hwrops a s;
                 Some (ret, bs, fpos, s) } }
         | _ \<Rightarrow> do { s \<leftarrow> put_hwrops a s; Some (0, [], fpos, s) }) }"

text \<open>
  \<open>own_pos\<close> says that \<open>fpos\<close> is the position of the file itself, as for \<open>read\<close> but not for \<open>pread\<close>.
\<close>

definition ioreg_reg_read ::
  "(nat \<Rightarrow> 'a proc_state_scheme hwr_operations) \<Rightarrow> nat \<Rightarrow> borph_ioreg option \<Rightarrow> bool \<Rightarrow> nat \<Rightarrow> int
    \<Rightarrow> 'a proc_state_scheme \<Rightarrow> (int \<times> u8 list \<times> int \<times> 'a proc_state_scheme) option" where
  "ioreg_reg_read ops_at tsk reg own_pos fcount fpos s =
     (case reg of
        None \<Rightarrow> Some (0, [], fpos, s)
      | Some r \<Rightarrow>
          if \<not> reg_valid r s then None
          else if ir_mode r AND IORM_PIPE \<noteq> 0 \<and> \<not> own_pos then Some (-ESPIPE, [], fpos, s)
          else (case get_proc_task tsk s of
              (None, s) \<Rightarrow> Some (0, [], fpos, s)
            | (Some t, s) \<Rightarrow> (case binfo s t of
                None \<Rightarrow> Some (0, [], fpos, put_task_struct t s)
              | Some bi \<Rightarrow>
                  let regblen = sint (if bi_ioreg_mode bi = 0 then push_bit 1 (ir_len r) else ir_len r)
                  in if regblen < fpos + int fcount \<and> regblen \<le> fpos then Some (0, [], fpos, put_task_struct t s)
                     else do {
                       let fcount = (if regblen < fpos + int fcount then nat (regblen - fpos) else fcount);
                       let fcount = (if PAGE_SIZE - 12 < fcount then PAGE_SIZE - 12 else fcount);
                       (ret, bs, fpos, s) \<leftarrow> read_hw ops_at t r (bi_ioreg_mode bi) fcount fpos s;
                       Some (ret, bs, fpos, put_task_struct t s) })))"

section \<open>Writing a register\<close>

text \<open>
  \<open>ubuf\<close> is what the user can be asked for: \<open>copy_from_user\<close> fails when more is wanted. The left result
  is the error in the returned pointer. \<open>tmpbuf\<close> lives on the stack.
\<close>

abbreviation (input) NUMTMPBUF :: nat where "NUMTMPBUF \<equiv> 12"

definition ioreg_reg_cp_udata_ascii ::
  "('a proc_state_scheme \<Rightarrow> (nat option \<times> 'a proc_state_scheme) option) \<Rightarrow> u8 list \<Rightarrow> nat \<Rightarrow> int
    \<Rightarrow> 'a proc_state_scheme \<Rightarrow> ((int + nat) \<times> 'a proc_state_scheme) option" where
  "ioreg_reg_cp_udata_ascii get ubuf fcount fpos s =
     (if fpos \<noteq> 0 then Some (Inl (-ESPIPE), s)
      else if NUMTMPBUF < fcount then Some (Inl (-EINVAL), s)
      else if length ubuf < fcount then Some (Inl (-EFAULT), s)
      else do {
        num \<leftarrow> convert_input (overlay (take fcount ubuf) (junk_bytes (stack_junk s) NUMTMPBUF)) fcount;
        if num < 0 then Some (Inl (-EINVAL), s)
        else do {
          (ib, s) \<leftarrow> get s;
          case ib of
            None \<Rightarrow> Some (Inl (-EINVAL), s)
          | Some b \<Rightarrow> do {
              io \<leftarrow> iobufs s b;
              if io_size io < fcount then Some (Inl (-EINVAL), s)
              else if length (io_data io) < 4 then None
              else do {
                s \<leftarrow> upd_iobuf b (\<lambda>io. io\<lparr>io_data := overlay (enc32 (word_of_int num)) (io_data io), io_size := 4\<rparr>) s;
                Some (Inr b, s) } } } })"

definition ioreg_reg_cp_udata_raw ::
  "('a proc_state_scheme \<Rightarrow> (nat option \<times> 'a proc_state_scheme) option) \<Rightarrow> borph_ioreg \<Rightarrow> u8 list \<Rightarrow> nat \<Rightarrow> int
    \<Rightarrow> 'a proc_state_scheme \<Rightarrow> ((int + nat) \<times> 'a proc_state_scheme) option" where
  "ioreg_reg_cp_udata_raw get r ubuf fcount fpos s = do {
     let len_in_byte = sint (ir_len r);
     let datacnt = (if len_in_byte - fpos < int fcount then to_s32 (len_in_byte - fpos) else int fcount);
     let datacnt = (if int PAGE_SIZE < to_u32 datacnt then PAGE_SIZE else nat datacnt);
     (ib, s) \<leftarrow> get s;
     case ib of
       None \<Rightarrow> Some (Inl (-EINVAL), s)
     | Some b \<Rightarrow> do {
         io \<leftarrow> iobufs s b;
         if io_size io = 0 then Some (Inl (-EINVAL), s)
         else do {
           let datacnt = (if io_size io < datacnt then io_size io else datacnt);
           if length ubuf < datacnt then Some (Inl (-EFAULT), s)
           else if length (io_data io) < datacnt then None
           else do {
             s \<leftarrow> upd_iobuf b (\<lambda>io. io\<lparr>io_data := overlay (take datacnt ubuf) (io_data io), io_size := datacnt\<rparr>) s;
             Some (Inr b, s) } } } }"

definition write_hw ::
  "(nat \<Rightarrow> 'a proc_state_scheme hwr_operations) \<Rightarrow> nat \<Rightarrow> borph_ioreg \<Rightarrow> int \<Rightarrow> u8 list \<Rightarrow> nat \<Rightarrow> int
    \<Rightarrow> 'a proc_state_scheme \<Rightarrow> (int \<times> int \<times> 'a proc_state_scheme) option" where
  "write_hw ops_at t r mode ubuf fcount fpos s = do {
     a \<leftarrow> region_addr t r s;
     (hwrops, s) \<leftarrow> get_hwrops a s;
     case hwrops of
       None \<Rightarrow> Some (-EINVAL, fpos, s)
     | Some q \<Rightarrow> (case (op_get_iobuf (ops_at q), op_send_iobuf (ops_at q), op_put_iobuf (ops_at q)) of
           (Some get, Some send, Some put) \<Rightarrow> do {
             (ib, s) \<leftarrow> (if mode = 1 then ioreg_reg_cp_udata_raw get r ubuf fcount fpos s
                         else ioreg_reg_cp_udata_ascii get ubuf fcount fpos s);
             case ib of
               Inl _ \<Rightarrow> do { s \<leftarrow> put_hwrops a s; Some (-EINVAL, fpos, s) }
             | Inr b \<Rightarrow> do {
                 s \<leftarrow> upd_iobuf b (\<lambda>io. io\<lparr>io_offset := word_of_int fpos, io_location := ir_loc r\<rparr>) s;
                 (ret, s) \<leftarrow> send b s;
                 let fpos = (if ret \<le> 0 then fpos else if ir_mode r AND IORM_PIPE \<noteq> 0 then 0 else fpos + ret);
                 (_, s) \<leftarrow> put b s;
                 s \<leftarrow> put_hwrops a s;
                 Some (ret, fpos, s) } }
         | _ \<Rightarrow> do { s \<leftarrow> put_hwrops a s; Some (-EINVAL, fpos, s) }) }"

definition ioreg_reg_write ::
  "(nat \<Rightarrow> 'a proc_state_scheme hwr_operations) \<Rightarrow> nat \<Rightarrow> borph_ioreg option \<Rightarrow> bool \<Rightarrow> u8 list \<Rightarrow> nat \<Rightarrow> int
    \<Rightarrow> 'a proc_state_scheme \<Rightarrow> (int \<times> int \<times> 'a proc_state_scheme) option" where
  "ioreg_reg_write ops_at tsk reg own_pos ubuf fcount fpos s =
     (case reg of
        None \<Rightarrow> Some (-EINVAL, fpos, s)
      | Some r \<Rightarrow>
          if \<not> reg_valid r s then None
          else if ir_mode r AND IORM_PIPE \<noteq> 0 \<and> \<not> own_pos then Some (-ESPIPE, fpos, s)
          else if uint (ir_len r) \<le> fpos then Some (int fcount, fpos, s)
          else (case get_proc_task tsk s of
              (None, s) \<Rightarrow> Some (-EINVAL, fpos, s)
            | (Some t, s) \<Rightarrow> (case binfo s t of
                None \<Rightarrow> Some (-EINVAL, fpos, put_task_struct t s)
              | Some bi \<Rightarrow> do {
                  (ret, fpos, s) \<leftarrow> write_hw ops_at t r (bi_ioreg_mode bi) ubuf fcount fpos s;
                  Some (ret, fpos, put_task_struct t s) })))"

text \<open>The return value and the new position of the file.\<close>

definition ioreg_reg_lseek :: "borph_ioreg option \<Rightarrow> int \<Rightarrow> int \<Rightarrow> int \<Rightarrow> 'a proc_state_scheme \<Rightarrow> (int \<times> int) option" where
  "ioreg_reg_lseek reg f_pos off whence s =
     (case reg of
        None \<Rightarrow> Some (-EINVAL, f_pos)
      | Some r \<Rightarrow>
          if \<not> reg_valid r s then None
          else if ir_mode r AND IORM_PIPE \<noteq> 0 then Some (-ESPIPE, f_pos)
          else if whence \<notin> {0, 1, 2} then Some (-EINVAL, f_pos)
          else
            let newpos = (if whence = 0 then off else if whence = 1 then f_pos + off else uint (ir_len r) + off)
            in if newpos < 0 then Some (-EINVAL, f_pos) else Some (newpos, newpos))"

section \<open>The directory of registers\<close>

record reg_inode =
  i_mode :: u32
  i_size :: u32
  i_data :: borph_ioreg

abbreviation (input) S_IFIFO :: u32 where "S_IFIFO \<equiv> 0x1000"
abbreviation (input) S_IFREG :: u32 where "S_IFREG \<equiv> 0x8000"
abbreviation (input) S_IRUGO :: u32 where "S_IRUGO \<equiv> 0x124"
abbreviation (input) S_IWUGO :: u32 where "S_IWUGO \<equiv> 0x92"

definition reg_file_mode :: "borph_ioreg \<Rightarrow> u32" where
  "reg_file_mode r =
     (if ir_mode r AND IORM_PIPE \<noteq> 0 then S_IFIFO else S_IFREG)
     OR (if ir_mode r AND IORM_READ \<noteq> 0 then S_IRUGO else 0)
     OR (if ir_mode r AND IORM_WRITE \<noteq> 0 then S_IWUGO else 0)"

text \<open>
  Whether \<open>proc_pid_make_inode\<close> finds an inode and \<open>pid_revalidate\<close> still finds the task are parameters.
  The result is an error or NULL, and the inode added to the directory cache.
\<close>

definition proc_ioreg_instantiate :: "bool \<Rightarrow> bool \<Rightarrow> borph_ioreg \<Rightarrow> int option \<times> reg_inode option" where
  "proc_ioreg_instantiate make_ok revalidate r =
     (if \<not> make_ok then (Some (-EINVAL), None)
      else ((if revalidate then None else Some (-EINVAL)),
        Some \<lparr>i_mode = reg_file_mode r, i_size = ir_len r, i_data = r\<rparr>))"

definition reg_name :: "'a proc_state_scheme \<Rightarrow> borph_ioreg \<Rightarrow> u8 list option" where
  "reg_name s r = do {
     p \<leftarrow> (case ir_strtab r of KPtr p \<Rightarrow> Some p | _ \<Rightarrow> None);
     tab \<leftarrow> strtabs s p;
     cstr tab (ir_name r) }"

text \<open>The first register of that name; \<^const>\<open>None\<close> when a name has no end.\<close>

fun find_reg :: "'a proc_state_scheme \<Rightarrow> u8 list \<Rightarrow> borph_ioreg list \<Rightarrow> borph_ioreg option option" where
  "find_reg s name [] = Some None"
| "find_reg s name (r # rs) = do { n \<leftarrow> reg_name s r; if n = name then Some (Some r) else find_reg s name rs }"

definition proc_ioreg_lookup ::
  "bool \<Rightarrow> bool \<Rightarrow> nat \<Rightarrow> u8 list \<Rightarrow> 'a proc_state_scheme \<Rightarrow> (int option \<times> reg_inode option \<times> 'a proc_state_scheme) option" where
  "proc_ioreg_lookup make_ok revalidate tsk name s =
     (case get_proc_task tsk s of
        (None, s) \<Rightarrow> Some (Some (-EINVAL), None, s)
      | (Some t, s) \<Rightarrow> (case binfo s t of
            None \<Rightarrow> Some (Some (-EINVAL), None, put_task_struct t s)
          | Some bi \<Rightarrow> do {
              found \<leftarrow> find_reg s name (bi_ioreg bi);
              case found of
                None \<Rightarrow> Some (Some (-ENOENT), None, put_task_struct t s)
              | Some r \<Rightarrow> (case proc_ioreg_instantiate make_ok revalidate r of
                    (e, inode) \<Rightarrow> Some (e, inode, put_task_struct t s)) }))"

text \<open>
  Listing. \<open>room\<close> is the number of entries that the caller's \<open>filldir\<close> still takes; the results are the
  names taken, the return value and the new position.
\<close>

fun fill_regs :: "'a proc_state_scheme \<Rightarrow> nat \<Rightarrow> nat \<Rightarrow> nat \<Rightarrow> borph_ioreg list \<Rightarrow> (bool \<times> u8 list list) option" where
  "fill_regs s room i pos [] = Some (True, [])"
| "fill_regs s room i pos (r # rs) =
     (if pos \<le> i then do {
        n \<leftarrow> reg_name s r;
        if room = 0 then Some (False, [])
        else do { (fin, ns) \<leftarrow> fill_regs s (room - 1) (i + 1) pos rs; Some (fin, n # ns) } }
      else fill_regs s room (i + 1) pos rs)"

definition proc_ioreg_readdir ::
  "nat \<Rightarrow> nat \<Rightarrow> nat \<Rightarrow> 'a proc_state_scheme \<Rightarrow> (int \<times> u8 list list \<times> nat \<times> 'a proc_state_scheme) option" where
  "proc_ioreg_readdir tsk room pos s =
     (case get_proc_task tsk s of
        (None, s) \<Rightarrow> Some (-ENOENT, [], pos, s)
      | (Some t, s) \<Rightarrow>
          if t = 0 then Some (-ENOENT, [], pos, put_task_struct t s)
          else
            let dots = (if pos = 0 then [[46], [46, 46]] else if pos = 1 then [[46, 46]] else []);
                taken = take room dots
            in if length taken < length dots then Some (0, taken, pos + length taken, put_task_struct t s)
               else (case binfo s t of
                   None \<Rightarrow> Some (1, taken, pos + length taken, put_task_struct t s)
                 | Some bi \<Rightarrow> do {
                     (fin, ns) \<leftarrow> fill_regs s (room - length taken) 2 pos (bi_ioreg bi);
                     Some (if fin then 1 else 0, taken @ ns, pos + length taken + length ns, put_task_struct t s) }))"

section \<open>The other files of a hardware process\<close>

fun hex_lower :: "nat \<Rightarrow> nat \<Rightarrow> u8 list" where
  "hex_lower 0 n = []"
| "hex_lower (Suc k) n = hex_lower k (n div 16) @ [of_nat (if n mod 16 < 10 then 48 + n mod 16 else 87 + n mod 16)]"

text \<open>\<open>snprintf(buffer, 5, "%04x", status)\<close> keeps the first four digits.\<close>

definition proc_status_read :: "nat \<Rightarrow> 'a proc_state_scheme \<Rightarrow> int \<times> u8 list" where
  "proc_status_read tsk s =
     (case binfo s tsk of
        None \<Rightarrow> (-EINVAL, [])
      | Some bi \<Rightarrow>
          let n = unat (bi_status bi); ds = dropWhile (\<lambda>c. c = 48) (hex_lower 8 n);
              ds = replicate (4 - length ds) 48 @ ds
          in (5, take 4 ds @ [10]))"

text \<open>A task that is gone is dereferenced all the same, and the reference is kept.\<close>

definition status_write :: "nat \<Rightarrow> nat \<Rightarrow> 'a proc_state_scheme \<Rightarrow> (int \<times> 'a proc_state_scheme) option" where
  "status_write tsk fcount s =
     (case get_proc_task tsk s of
        (None, s) \<Rightarrow> None
      | (Some t, s) \<Rightarrow> (case binfo s t of None \<Rightarrow> Some (-EINVAL, s) | Some _ \<Rightarrow> Some (int fcount, s)))"

definition proc_ioregmode_read :: "nat \<Rightarrow> 'a proc_state_scheme \<Rightarrow> int \<times> u8 list" where
  "proc_ioregmode_read tsk s =
     (case binfo s tsk of None \<Rightarrow> (-EINVAL, []) | Some bi \<Rightarrow> (2, [48 + word_of_int (bi_ioreg_mode bi), 10]))"

definition ioregmode_write :: "nat \<Rightarrow> u8 list \<Rightarrow> nat \<Rightarrow> 'a proc_state_scheme \<Rightarrow> (int \<times> 'a proc_state_scheme) option" where
  "ioregmode_write tsk ubuf fcount s =
     (case get_proc_task tsk s of
        (None, s) \<Rightarrow> None
      | (Some t, s) \<Rightarrow> (case binfo s t of
            None \<Rightarrow> Some (-EINVAL, s)
          | Some bi \<Rightarrow>
              if fcount = 0 then Some (0, s)
              else (case ubuf of
                  [] \<Rightarrow> Some (-EFAULT, s)
                | c # _ \<Rightarrow>
                    if c < 48 \<or> 57 < c then Some (-EINVAL, s)
                    else Some (int fcount, s\<lparr>binfo := (binfo s)(t \<mapsto> bi\<lparr>bi_ioreg_mode := uint (c - 48)\<rparr>)\<rparr>))))"

fun hex_upper :: "nat \<Rightarrow> nat \<Rightarrow> u8 list" where
  "hex_upper 0 n = []"
| "hex_upper (Suc k) n = hex_upper k (n div 16) @ [of_nat (if n mod 16 < 10 then 48 + n mod 16 else 55 + n mod 16)]"

text \<open>
  Each region is printed over the one before, always with number 0. The text is
  \<open>HW Region 0\n Address: 0x...\n\<close>.
\<close>

definition region_text :: "hwr_addr \<Rightarrow> u8 list" where
  "region_text a =
     (let ds = dropWhile (\<lambda>c. c = 48) (hex_upper 4 (unat (hwa_addr a)))
      in bytes_of ''HW Region 0'' @ [10] @ bytes_of '' Address: 0x'' @ (if ds = [] then [48] else ds) @ [10])"

definition proc_hwregion_read :: "nat \<Rightarrow> 'a proc_state_scheme \<Rightarrow> int \<times> u8 list" where
  "proc_hwregion_read tsk s =
     (case binfo s tsk of
        None \<Rightarrow> (-EINVAL, [])
      | Some bi \<Rightarrow> foldl (\<lambda>_ rg. (int (length (region_text (rg_addr rg))), region_text (rg_addr rg))) (0, []) (bi_hw_region bi))"

text \<open>The listing of the directory \<open>hw\<close> itself: \<open>pident\<close> stands for \<open>proc_pident_readdir\<close> on the table.\<close>

definition bphhw_stuff :: "u8 list list" where
  "bphhw_stuff = [bytes_of ''ioreg'', bytes_of ''status'', bytes_of ''ioreg_mode'', bytes_of ''hwregion'']"

definition proc_tgid_bphhw_readdir ::
  "(u8 list list \<Rightarrow> int) \<Rightarrow> nat \<Rightarrow> 'a proc_state_scheme \<Rightarrow> (int \<times> 'a proc_state_scheme) option" where
  "proc_tgid_bphhw_readdir pident tsk s =
     (case get_proc_task tsk s of
        (None, s) \<Rightarrow> None
      | (Some t, s) \<Rightarrow> (case binfo s t of None \<Rightarrow> Some (1, s) | Some _ \<Rightarrow> Some (pident bphhw_stuff, s)))"

section \<open>Access to a register of the RHINO board\<close>

text \<open>The process is alive and loaded, its register lies in a region of the board, and the transfer buffer is free.\<close>

definition proc_ready :: "nat \<Rightarrow> borph_ioreg \<Rightarrow> int \<Rightarrow> nat \<Rightarrow> hwr_iobuf \<Rightarrow> u32 \<Rightarrow> 'a proc_state_scheme \<Rightarrow> bool" where
  "proc_ready tsk r mode b io l s \<longleftrightarrow> reg_valid r s \<and> task_live s tsk \<and>
     (\<exists>bi. binfo s tsk = Some bi \<and> bi_ioreg_mode bi = mode) \<and>
     (\<exists>a. region_addr tsk r s = Some a \<and> driver_at a RHINO_HT RHINO_OPS s) \<and>
     rhino_iobuf s = KPtr b \<and> iobufs s b = Some io \<and> length (io_data io) = PAGE_SIZE - 12 \<and> 0 < rhino_sem s \<and>
     get_mapped_location (ir_loc r) s = Some l \<and> ir_mode r AND IORM_PIPE = 0"

lemma get_mapped_location_cong: "fpga_bus s' = fpga_bus s \<Longrightarrow> get_mapped_location loc s' = get_mapped_location loc s"
  by (simp add: get_mapped_location_def cong: option.case_cong)

lemma region_addr_frame:
  "binfo s' = binfo s \<Longrightarrow> region_addr tsk r s' = region_addr tsk r s"
  by (simp add: region_addr_def)

lemma rhino_ops_simps:
  "rhino_ops_at RHINO_OPS = rhino_hwr_operations" "op_get_iobuf rhino_hwr_operations = Some rhino_get_iobuf"
  "op_put_iobuf rhino_hwr_operations = Some rhino_put_iobuf" "op_send_iobuf rhino_hwr_operations = Some rhino_send_iobuf"
  "op_recv_iobuf rhino_hwr_operations = Some rhino_recv_iobuf"
  by (simp_all add: rhino_ops_at_def rhino_hwr_operations_def)

lemma rhino_get_iobuf_ready:
  assumes "rhino_iobuf s = KPtr b" and "iobufs s b = Some io" and "0 < rhino_sem s"
  shows "rhino_get_iobuf s = Some (Some b, s\<lparr>rhino_sem := rhino_sem s - 1, iobufs := (iobufs s)(b \<mapsto> io\<lparr>io_size := PAGE_SIZE - 12\<rparr>)\<rparr>)"
  using assms by (simp add: rhino_get_iobuf_def down_interruptible_def)

text \<open>The buffer as a write of \<open>bs\<close> leaves it, and the words that go over the bus.\<close>

definition write_io :: "borph_ioreg \<Rightarrow> u8 list \<Rightarrow> hwr_iobuf \<Rightarrow> hwr_iobuf" where
  "write_io r bs io = io\<lparr>io_data := overlay bs (io_data io), io_size := length bs, io_offset := 0, io_location := ir_loc r\<rparr>"

lemma to_u32_small: "0 \<le> x \<Longrightarrow> x < 2 ^ 32 \<Longrightarrow> to_u32 x = x"
  by (simp add: to_u32_def)

lemma write_hw_raw:
  assumes ready: "proc_ready tsk r mode b io l s" and mode: "mode = 1"
    and n: "length bs \<le> PAGE_SIZE - 12" "int (length bs) \<le> sint (ir_len r)"
    and ws: "send_words (length bs div 2) (overlay bs (io_data io)) l = Some ws"
  shows "write_hw rhino_ops_at tsk r mode bs (length bs) 0 s =
    Some (int (length bs div 2 * 2), int (length bs div 2 * 2), s\<lparr>iobufs := (iobufs s)(b \<mapsto> write_io r bs io), bus_writes := bus_writes s @ ws\<rparr>)"
proof -
  obtain a t where a: "region_addr tsk r s = Some a" "driver_at a RHINO_HT RHINO_OPS s" and t: "htstore s RHINO_HT = Some t"
    using ready driver_at_htstore by (force simp: proc_ready_def)
  let ?s1 = "s\<lparr>htstore := (htstore s)(RHINO_HT \<mapsto> t\<lparr>ht_count := ht_count t + 1\<rparr>)\<rparr>"
  let ?s2 = "s\<lparr>htstore := (htstore s)(RHINO_HT \<mapsto> t\<lparr>ht_count := ht_count t + 1\<rparr>), rhino_sem := rhino_sem s - 1,
      iobufs := (iobufs s)(b \<mapsto> io\<lparr>io_data := overlay bs (io_data io), io_size := length bs\<rparr>)\<rparr>"
  have "rhino_get_iobuf ?s1 = Some (Some b, ?s1\<lparr>rhino_sem := rhino_sem s - 1, iobufs := (iobufs s)(b \<mapsto> io\<lparr>io_size := PAGE_SIZE - 12\<rparr>)\<rparr>)"
    using ready rhino_get_iobuf_ready [of ?s1 b io] by (simp add: proc_ready_def)
  then have "ioreg_reg_cp_udata_raw rhino_get_iobuf r bs (length bs) 0 ?s1 = Some (Inr b, ?s2)"
    using ready n
    by (simp add: ioreg_reg_cp_udata_raw_def upd_iobuf_def proc_ready_def to_u32_small Let_def)
  moreover have "rhino_send_iobuf b (?s2\<lparr>iobufs := (iobufs s)(b \<mapsto> write_io r bs io)\<rparr>) = 
      Some (int (length bs div 2 * 2), ?s2\<lparr>iobufs := (iobufs s)(b \<mapsto> write_io r bs io), bus_writes := bus_writes s @ ws\<rparr>)"
    using ws ready get_mapped_location_cong [of "?s2\<lparr>iobufs := (iobufs s)(b \<mapsto> write_io r bs io)\<rparr>" s]
    by (simp add: rhino_send_iobuf_def write_io_def proc_ready_def Let_def)
  moreover have "upd_iobuf b (\<lambda>io. io\<lparr>io_offset := word_of_int 0, io_location := ir_loc r\<rparr>) ?s2 = Some (?s2\<lparr>iobufs := (iobufs s)(b \<mapsto> write_io r bs io)\<rparr>)"
    by (simp add: upd_iobuf_def write_io_def)
  moreover have "put_hwrops a (?s1\<lparr>iobufs := (iobufs s)(b \<mapsto> write_io r bs io), bus_writes := bus_writes s @ ws\<rparr>) =
      Some (s\<lparr>iobufs := (iobufs s)(b \<mapsto> write_io r bs io), bus_writes := bus_writes s @ ws\<rparr>)"
    by (subst put_hwrops_restore [OF a(2) t]) simp_all
  ultimately show ?thesis
    using a get_hwrops_driver [OF a(2) t] ready mode
    by (simp add: write_hw_def rhino_ops_simps rhino_put_iobuf_def up_def proc_ready_def)
qed

text \<open>The bytes that a read of \<open>n\<close> bytes at offset 0 finds in the device.\<close>

definition device_bytes :: "'a proc_state_scheme \<Rightarrow> nat \<Rightarrow> u32 \<Rightarrow> u8 list" where
  "device_bytes s n l = recv_words (fpga_read s (bus_writes s)) (n div 2) l"

lemma length_device_bytes [simp]: "length (device_bytes s n l) = 2 * (n div 2)"
  by (simp add: device_bytes_def)

lemma rhino_recv_ready:
  assumes "iobufs s b = Some io" and "io_location io = ir_loc r" and "io_offset io = 0" and "get_mapped_location (ir_loc r) s = Some l"
    and "io_size io \<le> length (io_data io)"
  shows "rhino_recv_iobuf b s = Some (int (io_size io div 2 * 2),
    s\<lparr>iobufs := (iobufs s)(b \<mapsto> io\<lparr>io_data := overlay (device_bytes s (io_size io) l) (io_data io)\<rparr>)\<rparr>)"
proof -
  have "io_size io div 2 * 2 \<le> length (io_data io)" using assms(5) by (meson div_times_less_eq_dividend le_trans)
  then show ?thesis using assms by (simp add: rhino_recv_iobuf_def device_bytes_def Let_def not_less)
qed

lemma read_iobuf_raw:
  assumes "iobufs s b = Some io" and "get_mapped_location (ir_loc r) s = Some l" and "mode \<noteq> 0" and "fcount \<le> length (io_data io)"
  shows "\<exists>io'. read_iobuf rhino_hwr_operations r mode fcount 0 b s =
      Some (int (fcount div 2 * 2), device_bytes s fcount l, s\<lparr>iobufs := (iobufs s)(b \<mapsto> io')\<rparr>) \<and>
    length (io_data io') = length (io_data io)"
proof -
  let ?io = "io\<lparr>io_location := ir_loc r, io_offset := word_of_int 0, io_size := fcount\<rparr>"
  let ?io' = "?io\<lparr>io_data := overlay (device_bytes s fcount l) (io_data io)\<rparr>"
  have "rhino_recv_iobuf b (s\<lparr>iobufs := (iobufs s)(b \<mapsto> ?io)\<rparr>) = Some (int (fcount div 2 * 2), s\<lparr>iobufs := (iobufs s)(b \<mapsto> ?io')\<rparr>)"
    using assms rhino_recv_ready [of "s\<lparr>iobufs := (iobufs s)(b \<mapsto> ?io)\<rparr>" b ?io r l]
      get_mapped_location_cong [of "s\<lparr>iobufs := (iobufs s)(b \<mapsto> ?io)\<rparr>" s] by (simp add: device_bytes_def)
  moreover have "2 * (fcount div 2) \<le> length (io_data io)" using assms(4) by (meson div_times_less_eq_dividend le_trans times_div_less_eq_dividend)
  ultimately have "read_iobuf rhino_hwr_operations r mode fcount 0 b s =
      Some (int (fcount div 2 * 2), device_bytes s fcount l, s\<lparr>iobufs := (iobufs s)(b \<mapsto> ?io')\<rparr>)"
    using assms
    by (simp add: read_iobuf_def rhino_ops_simps upd_iobuf_def overlay_def nat_mult_distrib mult.commute)
  moreover have "length (io_data ?io') = length (io_data io)"
    using \<open>2 * (fcount div 2) \<le> length (io_data io)\<close> by (simp add: max_def)
  ultimately show ?thesis by blast
qed

lemma read_hw_raw:
  assumes ready: "proc_ready tsk r mode b io l s" and mode: "mode \<noteq> 0" and n: "fcount \<le> PAGE_SIZE - 12"
  shows "\<exists>io'. read_hw rhino_ops_at tsk r mode fcount 0 s =
    Some (int (fcount div 2 * 2), device_bytes s fcount l, int (fcount div 2 * 2), s\<lparr>iobufs := (iobufs s)(b \<mapsto> io')\<rparr>) \<and>
    length (io_data io') = PAGE_SIZE - 12"
proof -
  obtain a t where a: "region_addr tsk r s = Some a" "driver_at a RHINO_HT RHINO_OPS s" and t: "htstore s RHINO_HT = Some t"
    using ready driver_at_htstore by (force simp: proc_ready_def)
  let ?s1 = "s\<lparr>htstore := (htstore s)(RHINO_HT \<mapsto> t\<lparr>ht_count := ht_count t + 1\<rparr>)\<rparr>"
  let ?s2 = "?s1\<lparr>rhino_sem := rhino_sem s - 1, iobufs := (iobufs s)(b \<mapsto> io\<lparr>io_size := PAGE_SIZE - 12\<rparr>)\<rparr>"
  have get: "rhino_get_iobuf ?s1 = Some (Some b, ?s2)"
    using ready rhino_get_iobuf_ready [of ?s1 b io] by (simp add: proc_ready_def)
  obtain io' where io': "read_iobuf rhino_hwr_operations r mode fcount 0 b ?s2 =
      Some (int (fcount div 2 * 2), device_bytes ?s2 fcount l, ?s2\<lparr>iobufs := (iobufs ?s2)(b \<mapsto> io')\<rparr>)"
    "length (io_data io') = PAGE_SIZE - 12"
    using read_iobuf_raw [of ?s2 b "io\<lparr>io_size := PAGE_SIZE - 12\<rparr>" r l mode fcount] ready n mode get_mapped_location_cong [of ?s2 s]
    by (auto simp: proc_ready_def)
  have "put_hwrops a (?s1\<lparr>iobufs := (iobufs s)(b \<mapsto> io')\<rparr>) = Some (s\<lparr>iobufs := (iobufs s)(b \<mapsto> io')\<rparr>)"
    by (subst put_hwrops_restore [OF a(2) t]) simp_all
  moreover have "device_bytes ?s2 fcount l = device_bytes s fcount l" by (simp add: device_bytes_def)
  ultimately have "read_hw rhino_ops_at tsk r mode fcount 0 s =
    Some (int (fcount div 2 * 2), device_bytes s fcount l, int (fcount div 2 * 2), s\<lparr>iobufs := (iobufs s)(b \<mapsto> io')\<rparr>)"
    using a get_hwrops_driver [OF a(2) t] ready get io'
    by (simp add: read_hw_def rhino_ops_simps rhino_put_iobuf_def up_def proc_ready_def)
  then show ?thesis using io'(2) by blast
qed

lemma get_proc_task_live: "task_live s tsk \<Longrightarrow> get_proc_task tsk s = (Some tsk, s\<lparr>task_refs := (task_refs s)(tsk := task_refs s tsk + 1)\<rparr>)"
  by (simp add: get_proc_task_def)

lemma proc_ready_refs [simp]: "proc_ready tsk r mode b io l (s\<lparr>task_refs := x\<rparr>) = proc_ready tsk r mode b io l s"
  by (simp add: proc_ready_def reg_valid_def region_addr_def driver_at_def get_mapped_location_cong [of "s\<lparr>task_refs := x\<rparr>" s])

text \<open>Entry and exit of the two functions around the part that uses the driver.\<close>

lemma ioreg_reg_write_ready:
  assumes "proc_ready tsk r mode b io l s" and "0 < ir_len r"
  shows "ioreg_reg_write ops_at tsk (Some r) own ubuf n 0 s =
    do { (ret, fpos, s) \<leftarrow> write_hw ops_at tsk r mode ubuf n 0 (s\<lparr>task_refs := (task_refs s)(tsk := task_refs s tsk + 1)\<rparr>);
         Some (ret, fpos, put_task_struct tsk s) }"
proof -
  have "\<not> uint (ir_len r) \<le> 0" using assms(2) by (simp add: word_less_def not_le)
  then show ?thesis using assms by (auto simp: ioreg_reg_write_def proc_ready_def get_proc_task_live)
qed

lemma ioreg_reg_read_ready:
  assumes "proc_ready tsk r mode b io l s" and "mode \<noteq> 0" and "int n \<le> sint (ir_len r)" and "n \<le> PAGE_SIZE - 12"
  shows "ioreg_reg_read ops_at tsk (Some r) own n 0 s =
    do { (ret, bs, fpos, s) \<leftarrow> read_hw ops_at tsk r mode n 0 (s\<lparr>task_refs := (task_refs s)(tsk := task_refs s tsk + 1)\<rparr>);
         Some (ret, bs, fpos, put_task_struct tsk s) }"
  using assms by (auto simp: ioreg_reg_read_def proc_ready_def get_proc_task_live Let_def)

text \<open>
  C9: what a process writes to a register file it reads back. In raw mode, on registers that are
  memory, a write of an even number of bytes within the register followed by a read returns exactly
  these bytes; the transfer buffer, the task and the driver are released each time.
\<close>

theorem ioreg_write_read:
  assumes ready: "proc_ready tsk r 1 b io l s" and dev: "fpga_read s = memory_device"
    and n: "even (length bs)" "0 < length bs" "length bs \<le> PAGE_SIZE - 12" "int (length bs) \<le> sint (ir_len r)"
  shows "\<exists>s1 s2. ioreg_reg_write rhino_ops_at tsk (Some r) own bs (length bs) 0 s = Some (int (length bs), int (length bs), s1) \<and>
    ioreg_reg_read rhino_ops_at tsk (Some r) own (length bs) 0 s1 = Some (int (length bs), bs, int (length bs), s2) \<and>
    rhino_sem s2 = rhino_sem s \<and> task_refs s2 = task_refs s \<and> htstore s2 = htstore s"
proof -
  let ?n = "length bs"
  have half: "?n div 2 * 2 = ?n" using n(1) by simp
  have len: "?n \<le> length (io_data io)" using ready n(3) by (simp add: proc_ready_def)
  then have k: "2 * (?n div 2) \<le> length (overlay bs (io_data io))" using n(1) by simp
  obtain ws where ws: "send_words (?n div 2) (overlay bs (io_data io)) l = Some ws" using send_words_eq [OF k] by blast
  let ?s1 = "s\<lparr>iobufs := (iobufs s)(b \<mapsto> write_io r bs io), bus_writes := bus_writes s @ ws\<rparr>"
  have "ir_len r \<noteq> 0" using n(2,4) by auto
  then have "0 < ir_len r" by (simp add: word_gt_0)
  then have w: "ioreg_reg_write rhino_ops_at tsk (Some r) own bs ?n 0 s = Some (int ?n, int ?n, ?s1)"
    using write_hw_raw [of tsk r 1 b io l "s\<lparr>task_refs := (task_refs s)(tsk := task_refs s tsk + 1)\<rparr>" bs ws] ready n ws half
    by (simp add: ioreg_reg_write_ready [OF ready] put_task_struct_def)
  have ready1: "proc_ready tsk r 1 b (write_io r bs io) l ?s1"
    using ready len get_mapped_location_cong [of ?s1 s]
    by (simp add: proc_ready_def reg_valid_def region_addr_def driver_at_def write_io_def max_def)
  have "?n div 2 \<le> 2 ^ 31" using n(3) by simp
  then have "device_bytes ?s1 ?n l = take (2 * (?n div 2)) (overlay bs (io_data io))"
    using recv_after_send [OF k _ ws] dev by (simp add: device_bytes_def)
  then have "device_bytes ?s1 ?n l = bs" using half by (simp add: overlay_def mult.commute)
  then obtain io' where "ioreg_reg_read rhino_ops_at tsk (Some r) own ?n 0 ?s1 = Some (int ?n, bs, int ?n, ?s1\<lparr>iobufs := (iobufs ?s1)(b \<mapsto> io')\<rparr>)"
    using read_hw_raw [of tsk r 1 b "write_io r bs io" l "?s1\<lparr>task_refs := (task_refs ?s1)(tsk := task_refs ?s1 tsk + 1)\<rparr>" ?n] ready1 n half
    by (auto simp: ioreg_reg_read_ready [OF ready1] put_task_struct_def device_bytes_def)
  with w show ?thesis by fastforce
qed

lemma write_hw_fault:
  assumes ready: "proc_ready tsk r 1 b io l s" and "length ubuf < n" and "n \<le> PAGE_SIZE - 12" and "int n \<le> sint (ir_len r)"
  shows "write_hw rhino_ops_at tsk r 1 ubuf n 0 s =
    Some (-EINVAL, 0, s\<lparr>rhino_sem := rhino_sem s - 1, iobufs := (iobufs s)(b \<mapsto> io\<lparr>io_size := PAGE_SIZE - 12\<rparr>)\<rparr>)"
proof -
  obtain a t where a: "region_addr tsk r s = Some a" "driver_at a RHINO_HT RHINO_OPS s" and t: "htstore s RHINO_HT = Some t"
    using ready driver_at_htstore by (force simp: proc_ready_def)
  let ?s1 = "s\<lparr>htstore := (htstore s)(RHINO_HT \<mapsto> t\<lparr>ht_count := ht_count t + 1\<rparr>)\<rparr>"
  let ?s2 = "?s1\<lparr>rhino_sem := rhino_sem s - 1, iobufs := (iobufs s)(b \<mapsto> io\<lparr>io_size := PAGE_SIZE - 12\<rparr>)\<rparr>"
  have "rhino_get_iobuf ?s1 = Some (Some b, ?s2)"
    using ready rhino_get_iobuf_ready [of ?s1 b io] by (simp add: proc_ready_def)
  then have "ioreg_reg_cp_udata_raw rhino_get_iobuf r ubuf n 0 ?s1 = Some (Inl (-EFAULT), ?s2)"
    using assms by (simp add: ioreg_reg_cp_udata_raw_def to_u32_small Let_def)
  moreover have "put_hwrops a ?s2 = Some (s\<lparr>rhino_sem := rhino_sem s - 1, iobufs := (iobufs s)(b \<mapsto> io\<lparr>io_size := PAGE_SIZE - 12\<rparr>)\<rparr>)"
    by (subst put_hwrops_restore [OF a(2) t]) simp_all
  ultimately show ?thesis
    using a get_hwrops_driver [OF a(2) t] by (simp add: write_hw_def rhino_ops_simps)
qed

lemma read_hw_blocks:
  assumes "region_addr tsk r s = Some a" and drv: "driver_at a RHINO_HT RHINO_OPS s" and "rhino_sem s = 0" and "\<not> sig_arrives s"
  shows "read_hw rhino_ops_at tsk r mode n 0 s = None"
proof -
  obtain t where "htstore s RHINO_HT = Some t" using drv driver_at_htstore by blast
  then show ?thesis using assms get_hwrops_driver [OF drv]
    by (simp add: read_hw_def rhino_ops_simps rhino_get_iobuf_def down_interruptible_def)
qed

text \<open>
  C31: a write from an address that cannot be read blocks the registers of the board. The transfer
  buffer is taken but not given back, and the next access waits for it forever.
\<close>

theorem ioreg_write_fault_blocks:
  assumes ready: "proc_ready tsk r 1 b io l s" and "rhino_sem s = 1" and "\<not> sig_arrives s"
    and "length ubuf < n" and n: "n \<le> PAGE_SIZE - 12" "int n \<le> sint (ir_len r)" and m: "m \<le> PAGE_SIZE - 12" "int m \<le> sint (ir_len r)"
  shows "\<exists>s1. ioreg_reg_write rhino_ops_at tsk (Some r) own ubuf n 0 s = Some (-EINVAL, 0, s1) \<and> rhino_sem s1 = 0 \<and>
    ioreg_reg_read rhino_ops_at tsk (Some r) own m 0 s1 = None"
proof -
  let ?s1 = "s\<lparr>rhino_sem := 0, iobufs := (iobufs s)(b \<mapsto> io\<lparr>io_size := PAGE_SIZE - 12\<rparr>)\<rparr>"
  have "ir_len r \<noteq> 0" using assms(4) n(2) by auto
  then have "0 < ir_len r" by (simp add: word_gt_0)
  then have "ioreg_reg_write rhino_ops_at tsk (Some r) own ubuf n 0 s = Some (-EINVAL, 0, ?s1)"
    using write_hw_fault [of tsk r b io l "s\<lparr>task_refs := (task_refs s)(tsk := task_refs s tsk + 1)\<rparr>" ubuf n] assms
    by (simp add: ioreg_reg_write_ready [OF ready] put_task_struct_def)
  moreover have "ioreg_reg_read rhino_ops_at tsk (Some r) own m 0 ?s1 = None"
  proof -
    obtain bi a where bi: "binfo s tsk = Some bi" "bi_ioreg_mode bi = 1" and a: "region_addr tsk r s = Some a" "driver_at a RHINO_HT RHINO_OPS s"
      and live: "task_live s tsk" "reg_valid r s" "ir_mode r AND IORM_PIPE = 0"
      using ready by (auto simp: proc_ready_def)
    let ?s2 = "?s1\<lparr>task_refs := (task_refs s)(tsk := task_refs s tsk + 1)\<rparr>"
    have "read_hw rhino_ops_at tsk r 1 m 0 ?s2 = None"
      using a assms(3) by (intro read_hw_blocks [of tsk r _ a]) (simp_all add: region_addr_def driver_at_def)
    then show ?thesis using bi live m
      by (simp add: ioreg_reg_read_def reg_valid_def get_proc_task_live Let_def)
  qed
  ultimately show ?thesis by auto
qed

section \<open>Numbers as text\<close>

lemma hex_upper_0: "hex_upper k 0 = replicate k 48"
  by (induction k) (simp_all add: replicate_append_same)

lemma length_hex_upper [simp]: "length (hex_upper k n) = k"
  by (induction k arbitrary: n) simp_all

lemma hex_char_table:
  "\<forall>m\<in>set [0..<16]. hex_char (of_nat m) = of_nat (if m < 10 then 48 + m else 55 + m)"
  by code_simp

lemma low_nibble: "val AND 0xF = (of_nat (unat val mod 16) :: u32)"
proof -
  have "val AND 0xF = take_bit 4 val" by (simp add: take_bit_eq_mask mask_numeral)
  also have "\<dots> = val mod 16" by (simp add: take_bit_eq_mod)
  finally show ?thesis by (simp add: word_arith_nat_mod)
qed

lemma hex_char_digit:
  "hex_char (val AND 0xF) = of_nat (if unat val mod 16 < 10 then 48 + unat val mod 16 else 55 + unat val mod 16)"
  unfolding low_nibble using hex_char_table by (simp del: upt_rec_numeral)

lemma unat_next_nibble: "unat (drop_bit 4 (val :: u32)) = unat val div 16"
  by (simp add: drop_bit_eq_div unat_div)

lemma ascii_loop_spec:
  "unat val < 16 ^ j \<Longrightarrow> j \<le> length cbuf \<Longrightarrow> ascii_loop j val cbuf = (k, out) \<Longrightarrow>
     replicate k 48 @ drop k (take j out) = hex_upper j (unat val) \<and> drop j out = drop j cbuf \<and> length out = length cbuf \<and> k \<le> j"
proof (induction j val cbuf arbitrary: k out rule: ascii_loop.induct)
  case (2 j val cbuf)
  let ?cb = "cbuf[j := hex_char (val AND 0xF)]"
  let ?d = "of_nat (if unat val mod 16 < 10 then 48 + unat val mod 16 else 55 + unat val mod 16) :: u8"
  have j: "take (Suc j) ?cb = take j cbuf @ [?d]" "drop (Suc j) ?cb = drop (Suc j) cbuf"
    using 2(3) by (simp_all add: take_Suc_conv_app_nth hex_char_digit)
  show ?case
  proof (cases "drop_bit 4 val = 0")
    case True
    then have "unat val div 16 = 0" using unat_next_nibble [of val] by simp
    then show ?thesis using True 2(2-4) j by (auto simp: Let_def hex_upper_0)
  next
    case False
    have small: "unat (drop_bit 4 val) < 16 ^ j" using 2(2) by (simp add: unat_next_nibble less_mult_imp_div_less mult.commute)
    have "ascii_loop j (drop_bit 4 val) ?cb = (k, out)" using False 2(4) by (simp add: Let_def)
    with 2(1) [OF refl refl False small] 2(3)
    have ih: "replicate k 48 @ drop k (take j out) = hex_upper j (unat val div 16)" "drop j out = drop j ?cb" "length out = length cbuf" "k \<le> j"
      by (simp_all add: unat_next_nibble)
    have "out ! j = ?cb ! j" using ih(2,3) 2(3) by (metis Cons_nth_drop_Suc Suc_le_lessD length_list_update nth_via_drop)
    then have "take (Suc j) out = take j out @ [?d]" using ih(3) 2(3) by (simp add: take_Suc_conv_app_nth hex_char_digit)
    moreover have "drop (Suc j) out = drop (Suc j) cbuf" using ih(2) by (metis drop_Suc drop_tl j(2))
    ultimately show ?thesis using ih 2(3) by simp
  qed
qed auto

text \<open>
  A register of one word is read in text mode as its value in eight hexadecimal digits and a
  newline, whatever the value; the rest of the buffer is untouched. (The bytes are the nine that the
  function reports.)
\<close>

theorem to_ascii_hex:
  assumes "9 \<le> length buf"
  shows "\<exists>out. to_ascii buf 4 = Some (9, out) \<and> take 9 out = hex_upper 8 (unat (dec32 (chunk 0 4 buf))) @ [10] \<and>
    drop 9 out = drop 9 buf \<and> length out = length buf"
proof -
  let ?v = "dec32 (chunk 0 4 buf)"
  obtain k out where r: "ascii_loop 8 ?v buf = (k, out)" by fastforce
  have "unat ?v < 16 ^ 8" using unsigned_less [of ?v] by simp
  from ascii_loop_spec [OF this _ r] assms
  have s: "replicate k 48 @ drop k (take 8 out) = hex_upper 8 (unat ?v)" "drop 8 out = drop 8 buf" "length out = length buf" "k \<le> 8" by simp_all
  have "drop k out = drop k (take 8 out @ drop 8 out)" by simp
  also have "\<dots> = drop k (take 8 out) @ drop 8 out" using s(3,4) assms by (simp only: drop_append) (simp add: min_def)
  finally have "replicate k 48 @ drop k out = hex_upper 8 (unat ?v) @ drop 8 buf" using s(1,2) by simp
  moreover have "drop 8 buf = buf ! 8 # drop 9 buf" using assms Cons_nth_drop_Suc [of 8 buf] by simp
  ultimately have "(replicate k 48 @ drop k out)[8 := 10] = hex_upper 8 (unat ?v) @ 10 # drop 9 buf"
    by (simp add: list_update_append)
  then show ?thesis using assms r by (simp add: to_ascii_def)
qed

theorem to_ascii_hex_witness:
  "\<exists>out. to_ascii [0x2F, 0, 0, 0, 9, 9, 9, 9, 9, 9] 4 = Some (9, out) \<and> take 9 out = bytes_of ''0000002F'' @ [10]"
proof -
  have len: "9 \<le> length [0x2F, 0, 0, 0, 9, 9, 9, 9, 9, 9 :: u8]" by simp
  have hex: "hex_upper 8 (unat (dec32 (chunk 0 4 [0x2F, 0, 0, 0, 9, 9, 9, 9, 9, 9]))) = bytes_of ''0000002F''" by code_simp
  from to_ascii_hex [OF len] show ?thesis unfolding hex by blast
qed

lemma conv_dec_digits:
  "list_all isdigit_c ds \<Longrightarrow> conv_dec (ds @ rest) (length ds + n) num =
     conv_dec rest n (foldl (\<lambda>v d. v * 10 + ucast (d - 48)) num ds)"
  by (induction ds arbitrary: num) (simp_all add: isdigit_c_def)

lemma fold_digits: "list_all isdigit_c ds \<Longrightarrow> foldl (\<lambda>v d. v * 10 + ucast (d - 48)) (of_nat k :: u32) ds =
     of_nat (foldl (\<lambda>v d. v * 10 + (unat d - 48)) k ds)"
proof (induction ds arbitrary: k)
  case (Cons d ds)
  have "48 \<le> d" using Cons.prems by (simp add: isdigit_c_def)
  then have "unat (d - 48) = unat d - 48" by (simp add: unat_sub)
  then have "(ucast (d - 48) :: u32) = of_nat (unat d - 48)" by (metis of_nat_unat)
  then have step: "of_nat k * 10 + ucast (d - 48) = (of_nat (k * 10 + (unat d - 48)) :: u32)" by simp
  have "list_all isdigit_c ds" using Cons.prems by simp
  then show ?case using Cons.IH [of "k * 10 + (unat d - 48)"] by (simp only: foldl_Cons step)
qed simp

text \<open>
  Decimal input is understood: the digits of a number below \<open>2 ^ 31\<close>, closed by a newline, are
  converted to that number.
\<close>

theorem convert_input_decimal:
  assumes "list_all isdigit_c ds" and "dec_value ds < 2 ^ 31"
  shows "convert_input (ds @ 10 # junk) (length ds + 1) = Some (int (dec_value ds))"
proof -
  have "conv_dec (ds @ 10 # junk) (length ds + 1) 0 = Some (of_nat (dec_value ds))"
    using conv_dec_digits [OF assms(1), of "10 # junk" 1 0] fold_digits [OF assms(1), of 0] by (simp add: dec_value_def)
  moreover have "sint (of_nat (dec_value ds) :: u32) = int (dec_value ds)"
    using assms(2) by (simp add: signed_of_nat signed_take_bit_int_eq_self)
  moreover have "hd (ds @ [10]) \<noteq> 120 \<and> hd (ds @ [10]) \<noteq> 98" using assms(1) by (cases ds) (auto simp: isdigit_c_def)
  ultimately show ?thesis by (cases ds) (simp_all add: convert_input_def)
qed

theorem convert_input_decimal_witness: "convert_input (bytes_of ''1042'' @ 10 # [0, 0, 0]) 5 = Some 1042"
proof -
  have five: "(5::nat) = Suc (Suc (Suc (Suc (Suc 0))))" by simp
  show ?thesis unfolding five
    using convert_input_decimal [of "bytes_of ''1042''" "[0, 0, 0]"] by (simp add: bytes_of_def isdigit_c_def dec_value_def)
qed

text \<open>
  Hexadecimal input is not understood. The loop runs one step too far and takes the byte behind the
  input for a digit, so \<open>x1\<close> gives 16; and a letter counts from 0, so even with a newline behind the
  input \<open>xa\<close> gives 0.
\<close>

theorem convert_input_hex_wrong:
  "convert_input ([120, 49, 10] @ 0 # junk) 3 = Some 16 \<and> convert_input ([120, 97, 10] @ 10 # junk) 3 = Some 0"
  by (simp add: convert_input_def numeral_3_eq_3)

section \<open>Listing the registers\<close>

lemma fill_regs_names:
  assumes "map (reg_name s) rs = map Some names"
  shows "fill_regs s room i pos rs = Some (length names - (pos - i) \<le> room, take room (drop (pos - i) names))"
  using assms
proof (induction s room i pos rs arbitrary: names rule: fill_regs.induct)
  case (2 s room i pos r rs)
  then obtain n ns where n: "names = n # ns" "reg_name s r = Some n" "map (reg_name s) rs = map Some ns" by auto
  show ?case
  proof (cases "pos \<le> i")
    case True
    then show ?thesis using 2(1) [OF True n(2)] n by (cases room) auto
  next
    case False
    then have "pos - i = Suc (pos - (i + 1))" by simp
    then show ?thesis using 2(2) [OF False n(3)] False n(1) by (simp del: Suc_diff_diff)
  qed
qed simp

text \<open>
  A listing of the directory can be taken in any number of pieces. A call from position \<open>pos\<close> with
  room for \<open>room\<close> entries returns exactly the next entries of the fixed sequence of the dot entries and
  the register names, and the position behind them; it reports the end when the rest fits.
\<close>

theorem proc_ioreg_readdir_pieces:
  assumes "task_live s tsk" and "0 < tsk" and "binfo s tsk = Some bi" and "map (reg_name s) (bi_ioreg bi) = map Some names"
    and all: "entries = [46] # [46, 46] # names" and "pos \<le> length entries"
  shows "proc_ioreg_readdir tsk room pos s =
    Some (if length entries - pos \<le> room then 1 else 0, take room (drop pos entries), pos + length (take room (drop pos entries)), s)"
proof -
  let ?s = "s\<lparr>task_refs := (task_refs s)(tsk := task_refs s tsk + 1)\<rparr>"
  have "reg_name ?s = reg_name s" by (simp add: reg_name_def fun_eq_iff)
  then have "map (reg_name ?s) (bi_ioreg bi) = map Some names" using assms(4) by simp
  note fill = fill_regs_names [OF this]
  have undo: "put_task_struct tsk ?s = s" by (simp add: put_task_struct_def)
  consider "pos = 0" | "pos = 1" | "2 \<le> pos" by linarith
  then show ?thesis
  proof cases
    case 1
    then show ?thesis using assms fill undo
      by (cases room rule: nat.exhaust; cases "room - 1") (auto simp: proc_ioreg_readdir_def get_proc_task_live Let_def numeral_2_eq_2)
  next
    case 2
    then show ?thesis using assms fill undo
      by (cases room) (auto simp: proc_ioreg_readdir_def get_proc_task_live Let_def numeral_2_eq_2)
  next
    case 3
    then obtain p where "pos = Suc (Suc p)" by (metis add_2_eq_Suc le_Suc_ex)
    then show ?thesis using assms fill undo
      by (auto simp: proc_ioreg_readdir_def get_proc_task_live Let_def numeral_2_eq_2)
  qed
qed

section \<open>An example\<close>

text \<open>Task 7 has one register, of one word, in the region of the board; the transfer buffer is object 9.\<close>

definition demo_ioreg :: borph_ioreg where
  "demo_ioreg = \<lparr>ir_ptr = 3, ir_strtab = KPtr 1, ir_name = 0, ir_mode = 3, ir_loc = 0x40000000, ir_len = 4, ir_region = 2\<rparr>"

definition demo_info :: borph_info where
  "demo_info = \<lparr>bi_ptr = 0, bi_hw_region = [\<lparr>rg_ptr = 2, rg_addr = RHINO_ADDR, rg_strtab = KPtr 1\<rparr>], bi_ioreg = [demo_ioreg],
     bi_ioreg_mode = 1, bi_status = 1\<rparr>"

definition demo_iobuf :: hwr_iobuf where
  "demo_iobuf = \<lparr>io_location = 0, io_offset = 0, io_size = 0, io_data = replicate 4084 0\<rparr>"

definition proc_boot :: proc_state where
  "proc_boot = (borph_state.extend borph_boot (proc_state.fields (\<lambda>_. True) (\<lambda>_. 0)))
     \<lparr>klive := [0, 1, 2, 3, 9], iobufs := [9 \<mapsto> demo_iobuf], rhino_iobuf := KPtr 9, strtabs := [1 \<mapsto> [97, 98, 0]], binfo := [7 \<mapsto> demo_info]\<rparr>"

lemmas proc_boot_simps = proc_boot_def borph_state.extend_def proc_state.fields_def boot_simps

lemma proc_boot_ready: "proc_ready 7 demo_ioreg 1 9 demo_iobuf 0x40000000 proc_boot"
  by (simp add: proc_ready_def reg_valid_def region_addr_def driver_at_def get_mapped_location_def cs_of_def in_window_def FPGA_CS_BASE_def
      demo_ioreg_def demo_info_def demo_iobuf_def proc_boot_simps hwrtype_rhino_def)

theorem ioreg_write_read_witness:
  "\<exists>s1 s2. ioreg_reg_write rhino_ops_at 7 (Some demo_ioreg) True [1, 2, 3, 4] 4 0 proc_boot = Some (4, 4, s1) \<and>
    ioreg_reg_read rhino_ops_at 7 (Some demo_ioreg) True 4 0 s1 = Some (4, [1, 2, 3, 4], 4, s2)"
proof -
  have "fpga_read proc_boot = memory_device" by (simp add: proc_boot_simps)
  moreover have four: "length [1, 2, 3, 4 :: u8] = 4" and "sint (ir_len demo_ioreg) = 4" by (simp_all add: demo_ioreg_def)
  ultimately show ?thesis
    using ioreg_write_read [OF proc_boot_ready, of "[1, 2, 3, 4]" True] unfolding four by auto
qed

theorem ioreg_write_fault_blocks_witness:
  "\<exists>s1. ioreg_reg_write rhino_ops_at 7 (Some demo_ioreg) True [] 4 0 proc_boot = Some (-EINVAL, 0, s1) \<and>
    ioreg_reg_read rhino_ops_at 7 (Some demo_ioreg) True 4 0 s1 = None"
proof -
  have "rhino_sem proc_boot = 1" "\<not> sig_arrives proc_boot" by (simp_all add: proc_boot_simps)
  from ioreg_write_fault_blocks [OF proc_boot_ready this, of "[]" 4 4 True] show ?thesis by (auto simp: demo_ioreg_def)
qed

theorem proc_ioreg_readdir_pieces_witness:
  "proc_ioreg_readdir 7 2 1 proc_boot = Some (1, [[46, 46], [97, 98]], 3, proc_boot)"
proof -
  have "task_live proc_boot 7" "binfo proc_boot 7 = Some demo_info" "map (reg_name proc_boot) (bi_ioreg demo_info) = map Some [[97, 98]]"
    by (simp_all add: proc_boot_simps demo_info_def demo_ioreg_def reg_name_def cstr_def)
  from proc_ioreg_readdir_pieces [OF this(1) _ this(2,3) refl, of 1 2] show ?thesis by (simp add: numeral_eq_Suc)
qed

end
