(* ===== verification/Ctext.thy ===== *)
theory Ctext
  imports Prelude
begin

text \<open>
  Numbers as text, as far as the programs use \<open>ctype.h\<close>, \<open>strtol\<close>, \<open>scanf\<close> and \<open>printf\<close>. Text is a
  list of bytes.
\<close>

section \<open>Reading numbers\<close>

definition isspace_c :: "u8 \<Rightarrow> bool" where
  "isspace_c c \<longleftrightarrow> c = 32 \<or> (9 \<le> c \<and> c \<le> 13)"

text \<open>An optional sign in front of a number.\<close>

fun scan_sign :: "u8 list \<Rightarrow> bool \<times> u8 list" where
  "scan_sign [] = (False, [])"
| "scan_sign (c # cs) = (if c = 45 then (True, cs) else if c = 43 then (False, cs) else (False, c # cs))"

definition isxdigit_c :: "u8 \<Rightarrow> bool" where
  "isxdigit_c c \<longleftrightarrow> isdigit_c c \<or> (65 \<le> c \<and> c \<le> 70) \<or> (97 \<le> c \<and> c \<le> 102)"

definition xdigit_value :: "u8 \<Rightarrow> nat" where
  "xdigit_value c = (if isdigit_c c then unat c - 48 else if c < 97 then unat c - 55 else unat c - 87)"

definition hex_value :: "u8 list \<Rightarrow> nat" where
  "hex_value ds = foldl (\<lambda>v d. v * 16 + xdigit_value d) 0 ds"

text \<open>
  \<open>strtol\<close> with the base 10 or 0: the number, clamped to the range of a 32-bit \<open>long\<close>, and whether there
  was one, which the callers learn from \<open>endptr\<close>. With base 0 a prefix selects base 16 or 8.
\<close>

definition digits_value :: "nat \<Rightarrow> u8 list \<Rightarrow> nat" where
  "digits_value base ds = foldl (\<lambda>v d. v * base + xdigit_value d) 0 ds"

definition isdigit_base :: "nat \<Rightarrow> u8 \<Rightarrow> bool" where
  "isdigit_base base c \<longleftrightarrow> isxdigit_c c \<and> xdigit_value c < base"

definition clamp_long :: "int \<Rightarrow> int" where
  "clamp_long v = max (- (2 ^ 31)) (min (2 ^ 31 - 1) v)"

fun number_base :: "nat \<Rightarrow> u8 list \<Rightarrow> nat \<times> u8 list" where
  "number_base base (z # x # d # cs) =
     (if base = 0 \<and> z = 48 \<and> (x = 120 \<or> x = 88) \<and> isxdigit_c d then (16, d # cs)
      else (if base \<noteq> 0 then base else if z = 48 then 8 else 10, z # x # d # cs))"
| "number_base base cs = (if base \<noteq> 0 then base else if cs \<noteq> [] \<and> hd cs = 48 then 8 else 10, cs)"

definition strtol :: "nat \<Rightarrow> u8 list \<Rightarrow> int \<times> bool" where
  "strtol base s =
     (case scan_sign (dropWhile isspace_c s) of (neg, cs) \<Rightarrow>
      case number_base base cs of (b, cs) \<Rightarrow>
        let ds = takeWhile (isdigit_base b) cs; v = int (digits_value b ds)
        in (clamp_long (if neg then - v else v), ds \<noteq> []))"

section \<open>Printing numbers\<close>

definition hex_digit :: "nat \<Rightarrow> u8" where
  "hex_digit n = (if n < 10 then of_nat (48 + n) else of_nat (87 + n))"

function nat_digits :: "nat \<Rightarrow> nat \<Rightarrow> u8 list" where
  "nat_digits base n =
     (if base < 2 \<or> n < base then [hex_digit n] else nat_digits base (n div base) @ [hex_digit (n mod base)])"
  by pat_completeness auto
termination by (relation "measure snd") auto

declare nat_digits.simps [simp del]

definition fmt_x :: "u32 \<Rightarrow> u8 list" where
  "fmt_x w = nat_digits 16 (unat w)"

text \<open>\<open>%d\<close> prints an unsigned argument as a signed number.\<close>

definition fmt_d :: "u32 \<Rightarrow> u8 list" where
  "fmt_d w = (if sint w < 0 then 45 # nat_digits 10 (nat (- sint w)) else nat_digits 10 (nat (sint w)))"

definition pad_right :: "nat \<Rightarrow> u8 list \<Rightarrow> u8 list" where
  "pad_right n s = s @ replicate (n - length s) 32"

definition pad_zero :: "nat \<Rightarrow> u8 list \<Rightarrow> u8 list" where
  "pad_zero n s = replicate (n - length s) 48 @ s"

end
