(* ===== verification/Mkbof.thy ===== *)
theory Mkbof
  imports BorphLoad Ctext
begin

text \<open>
  The tool \<open>mkbof\<close> (\<open>src/borph/tools/borph/mkbof.c\<close>) that packs an ELF program, a symbol file and an
  FPGA bit file into a BOF file, with the byte order helpers of \<open>include/hbyteorder.h\<close>.

  The file system is a parameter; messages to the terminal are not modelled. The C functions \<open>fgets\<close>,
  \<open>sscanf\<close> and \<open>atoi\<close> are modelled as far as the tool uses them.
\<close>

section \<open>Byte order\<close>

text \<open>The loops of \<open>hbyteorder.h\<close>; the tools run on a little-endian machine.\<close>

fun swap_loop32 :: "nat \<Rightarrow> nat \<Rightarrow> u32 \<Rightarrow> u32 \<Rightarrow> u32" where
  "swap_loop32 0 i tmp val = tmp"
| "swap_loop32 (Suc n) i tmp val =
     swap_loop32 n (i + 1) (tmp OR push_bit (8 * (4 - i - 1)) (val AND 0xFF)) (drop_bit 8 val)"

definition swap_byte32 :: "u32 \<Rightarrow> u32" where
  "swap_byte32 val = swap_loop32 4 0 0 val"

fun swap_loop16 :: "nat \<Rightarrow> nat \<Rightarrow> u16 \<Rightarrow> u16 \<Rightarrow> u16" where
  "swap_loop16 0 i tmp val = tmp"
| "swap_loop16 (Suc n) i tmp val =
     swap_loop16 n (i + 1) (tmp OR push_bit (8 * (2 - i - 1)) (val AND 0xFF)) (drop_bit 8 val)"

definition swap_byte16 :: "u16 \<Rightarrow> u16" where
  "swap_byte16 val = swap_loop16 2 0 0 val"

abbreviation (input) htole32 :: "u32 \<Rightarrow> u32" where "htole32 x \<equiv> x"
abbreviation (input) htole16 :: "u16 \<Rightarrow> u16" where "htole16 x \<equiv> x"
abbreviation (input) htobe32 :: "u32 \<Rightarrow> u32" where "htobe32 x \<equiv> swap_byte32 x"
abbreviation (input) htobe16 :: "u16 \<Rightarrow> u16" where "htobe16 x \<equiv> swap_byte16 x"

text \<open>\<open>mkbof\<close> converts each structure before it writes it; other values of \<open>oendian\<close> print an error.\<close>

definition FixEndian_bofhdr :: "u8 \<Rightarrow> bofhdr \<Rightarrow> bofhdr" where
  "FixEndian_bofhdr oendian b =
     (if oendian = BOFDATA2LSB then
        b\<lparr>b_version := htole32 (b_version b), b_machine := htole16 (b_machine b),
          b_elfmachine := htole16 (b_elfmachine b), b_numchip := htole32 (b_numchip b),
          b_elfoff := htole32 (b_elfoff b), b_hwoff := htole32 (b_hwoff b), b_ekver := htole32 (b_ekver b)\<rparr>
      else if oendian = BOFDATA2MSB then
        b\<lparr>b_version := htobe32 (b_version b), b_machine := htobe16 (b_machine b),
          b_elfmachine := htole16 (b_elfmachine b), b_numchip := htobe32 (b_numchip b),
          b_elfoff := htobe32 (b_elfoff b), b_hwoff := htobe32 (b_hwoff b), b_ekver := htobe32 (b_ekver b)\<rparr>
      else b)"

definition FixEndian_hwrhdr :: "u8 \<Rightarrow> hwrhdr \<Rightarrow> hwrhdr" where
  "FixEndian_hwrhdr oendian h =
     (if oendian = BOFDATA2LSB then
        h\<lparr>hflag := htole32 (hflag h),
          haddr := \<lparr>hwa_class = htole16 (hwa_class (haddr h)), hwa_addr = htole16 (hwa_addr (haddr h))\<rparr>,
          pl_off := htole32 (pl_off h), pl_len := htole32 (pl_len h), nr_symbol := htole32 (nr_symbol h),
          hstrtab_off := htole32 (hstrtab_off h), next_hwr := htole32 (next_hwr h)\<rparr>
      else if oendian = BOFDATA2MSB then
        h\<lparr>hflag := htobe32 (hflag h),
          haddr := \<lparr>hwa_class = htobe16 (hwa_class (haddr h)), hwa_addr = htobe16 (hwa_addr (haddr h))\<rparr>,
          pl_off := htobe32 (pl_off h), pl_len := htobe32 (pl_len h), nr_symbol := htobe32 (nr_symbol h),
          hstrtab_off := htobe32 (hstrtab_off h), next_hwr := htobe32 (next_hwr h)\<rparr>
      else h)"

definition FixEndian_ioreg :: "u8 \<Rightarrow> bofioreg \<Rightarrow> bofioreg" where
  "FixEndian_ioreg oendian r =
     (if oendian = BOFDATA2LSB then
        r\<lparr>ior_name := htole16 (ior_name r), ior_mode := htole16 (ior_mode r),
          ior_loc := htole32 (ior_loc r), ior_len := htole32 (ior_len r)\<rparr>
      else if oendian = BOFDATA2MSB then
        r\<lparr>ior_name := htobe16 (ior_name r), ior_mode := htobe16 (ior_mode r),
          ior_loc := htobe32 (ior_loc r), ior_len := htobe32 (ior_len r)\<rparr>
      else r)"

section \<open>Arguments\<close>

text \<open>
  Strings are byte lists without their final NUL. The left result is the exit code of a run that ends
  early; \<^const>\<open>None\<close> is an overrun buffer or a NULL file name.
\<close>

record mk_opts =
  fbofname :: "u8 list"
  felfname :: "u8 list option"
  fbitname :: "u8 list option"
  fsymname :: "u8 list option"
  s_placed :: u32
  s_placedloc :: u32
  s_noconfig :: u32
  s_verbose :: u32
  g_ekver :: u32
  g_addrClass :: u32

text \<open>A value outside \<open>int\<close> is undefined.\<close>

definition atoi :: "u8 list \<Rightarrow> int option" where
  "atoi s =
     (case scan_sign (dropWhile isspace_c s) of (neg, cs) \<Rightarrow>
        let v = int (dec_value (takeWhile isdigit_c cs)); v = (if neg then - v else v)
        in if - (2 ^ 31) \<le> v \<and> v < 2 ^ 31 then Some v else None)"

abbreviation (input) UsageExit :: "(int + 'b) option" where "UsageExit \<equiv> Some (Inl 1)"

text \<open>The options \<open>-o\<close>, \<open>-e\<close>, \<open>-s\<close> and \<open>-t\<close> take a value.\<close>

definition set_opt_value :: "u8 \<Rightarrow> u8 list \<Rightarrow> mk_opts \<Rightarrow> mk_opts option" where
  "set_opt_value c v opts =
     (if c = 111 then (if length v < 256 then Some (opts\<lparr>fbofname := v\<rparr>) else None)
      else if c = 101 then Some (opts\<lparr>felfname := Some v\<rparr>)
      else if c = 115 then Some (opts\<lparr>fsymname := Some v\<rparr>)
      else do { n \<leftarrow> atoi v; Some (opts\<lparr>g_addrClass := word_of_int n\<rparr>) })"

fun scan_args :: "u8 list list \<Rightarrow> mk_opts \<Rightarrow> (int + mk_opts) option" where
  "scan_args [] opts = Some (Inr opts)"
| "scan_args (arg # args) opts =
     (if arg = [] \<or> hd arg \<noteq> 45 then scan_args args (opts\<lparr>fbitname := Some arg\<rparr>)
      else if tl arg = [] then UsageExit
      else if hd (tl arg) = 118 then scan_args args (opts\<lparr>s_verbose := 1\<rparr>)
      else if hd (tl arg) \<notin> {111, 101, 115, 116} then UsageExit
      else case args of
          [] \<Rightarrow> UsageExit
        | v # args' \<Rightarrow> do { opts \<leftarrow> set_opt_value (hd (tl arg)) v opts; scan_args args' opts })"

definition default_opts :: mk_opts where
  "default_opts = \<lparr>fbofname = [], felfname = None, fbitname = None, fsymname = None, s_placed = 0,
     s_placedloc = 0, s_noconfig = 0, s_verbose = 0, g_ekver = 0x0000e001, g_addrClass = 5\<rparr>"

text \<open>\<open>sprintf(fbofname, "%s.bof", fbitname)\<close> when no output name was given.\<close>

definition output_name :: "mk_opts \<Rightarrow> u8 list option" where
  "output_name opts =
     (if fbofname opts \<noteq> [] then Some (fbofname opts)
      else do { b \<leftarrow> fbitname opts; if length b + 4 < 256 then Some (b @ [46, 98, 111, 102]) else None })"

section \<open>Files\<close>

text \<open>
  The machine the tool runs on: its files by name, the names that can be created, whether a
  temporary file can be had, and the ELF programs of \<open>elf_def.h\<close> that are embedded by default.
\<close>

record host =
  files :: "u8 list \<rightharpoonup> u8 list"
  can_create :: "u8 list \<Rightarrow> bool"
  tmpfile_ok :: bool
  default_x86_elf_bin :: "u8 list"
  default_arm_elf_bin :: "u8 list"
  default_ppc_elf_bin :: "u8 list"

text \<open>The block size of the copy loop is 512. Writes to an open file succeed.\<close>

function copy_remain_file :: "u8 list \<Rightarrow> u8 list" where
  "copy_remain_file fromfile =
     (let block = take 512 fromfile in if block = [] then [] else block @ copy_remain_file (drop 512 fromfile))"
  by pat_completeness auto
termination by (relation "measure length") auto

declare copy_remain_file.simps [simp del]

text \<open>
  The result \<open>cnt\<close> of \<open>fwrite\<close> is unsigned, so the test for an error only sees 0, and a class without a
  default program leaves the temporary file empty.
\<close>

definition GenerateElfFile :: "host \<Rightarrow> u32 \<Rightarrow> u8 list option" where
  "GenerateElfFile hst class =
     (if \<not> tmpfile_ok hst then None
      else if class = 4 then Some (default_x86_elf_bin hst)
      else if class = 5 \<or> class = 6 then Some (default_arm_elf_bin hst)
      else if class = 3 then Some (default_ppc_elf_bin hst)
      else Some [])"

record mk_inputs =
  in_opts :: mk_opts
  in_elf :: "u8 list"
  in_bit :: "u8 list"
  in_sym :: "u8 list"
  in_out :: "u8 list"

text \<open>An output file that is one of the input files would be truncated while it is read.\<close>

definition Initialize :: "host \<Rightarrow> u8 list list \<Rightarrow> (int + mk_inputs) option" where
  "Initialize hst args =
     (if length args < 3 then UsageExit
      else do {
        r \<leftarrow> scan_args args default_opts;
        case r of Inl c \<Rightarrow> Some (Inl c) | Inr opts \<Rightarrow> do {
          out \<leftarrow> output_name opts;
          case (case felfname opts of None \<Rightarrow> GenerateElfFile hst (g_addrClass opts) | Some n \<Rightarrow> files hst n) of
            None \<Rightarrow> Some (Inl 1)
          | Some elf \<Rightarrow> do {
              bn \<leftarrow> fbitname opts;
              case files hst bn of
                None \<Rightarrow> Some (Inl 1)
              | Some bits \<Rightarrow> do {
                  sn \<leftarrow> fsymname opts;
                  case files hst sn of
                    None \<Rightarrow> Some (Inl 1)
                  | Some symf \<Rightarrow>
                      if \<not> can_create hst out then Some (Inl 1)
                      else if Some out = felfname opts \<or> out = bn \<or> out = sn then None
                      else Some (Inr \<lparr>in_opts = opts, in_elf = elf, in_bit = bits, in_sym = symf, in_out = out\<rparr>) } } } })"

section \<open>The symbol file\<close>

record symbol =
  sy_name :: "u8 list"
  sy_mode :: u32
  sy_loc :: u32
  sy_len :: u32

abbreviation (input) SYMTAB_SIZE :: nat where "SYMTAB_SIZE \<equiv> 1024"

text \<open>\<open>fgets\<close> with a buffer of \<open>n + 1\<close> bytes: the line read and the rest of the file.\<close>

fun fgets :: "nat \<Rightarrow> u8 list \<Rightarrow> u8 list \<times> u8 list" where
  "fgets 0 bs = ([], bs)"
| "fgets (Suc n) [] = ([], [])"
| "fgets (Suc n) (b # bs) = (if b = 10 then ([b], bs) else case fgets n bs of (l, r) \<Rightarrow> (b # l, r))"

fun skip_0x :: "u8 list \<Rightarrow> u8 list" where
  "skip_0x (a # b # cs) = (if a = 48 \<and> (b = 120 \<or> b = 88) then cs else a # b # cs)"
| "skip_0x cs = cs"

text \<open>
  \<open>%x\<close>: the left result says that the conversion fails; a value outside \<open>unsigned\<close> is undefined.
\<close>

definition scan_hex :: "u8 list \<Rightarrow> (unit + u32 \<times> u8 list) option" where
  "scan_hex s =
     (case scan_sign (dropWhile isspace_c s) of (neg, cs) \<Rightarrow>
        let cs = skip_0x cs; ds = takeWhile isxdigit_c cs; v = hex_value ds
        in if ds = [] then Some (Inl ())
           else if 2 ^ 32 \<le> v then None
           else Some (Inr (if neg then - of_nat v else of_nat v, dropWhile isxdigit_c cs)))"

text \<open>
  \<open>sscanf(block, "%s %x %x %x\n", ...)\<close>: the number of conversions (-1 for a blank line) and the
  symbol. \<open>old\<close> is the content of the entry before. A name that does not fit overruns the entry.
\<close>

definition sscanf_symbol :: "u8 list \<Rightarrow> symbol \<Rightarrow> (int \<times> symbol) option" where
  "sscanf_symbol block old =
     (let s = dropWhile isspace_c block; name = takeWhile (\<lambda>c. \<not> isspace_c c) s
      in if s = [] then Some (-1, old)
         else if 256 \<le> length name then None
         else do {
           let sy = old\<lparr>sy_name := name\<rparr>;
           r \<leftarrow> scan_hex (dropWhile (\<lambda>c. \<not> isspace_c c) s);
           case r of Inl _ \<Rightarrow> Some (1, sy) | Inr (mode, s) \<Rightarrow> do {
             let sy = sy\<lparr>sy_mode := mode\<rparr>;
             r \<leftarrow> scan_hex s;
             case r of Inl _ \<Rightarrow> Some (2, sy) | Inr (loc, s) \<Rightarrow> do {
               let sy = sy\<lparr>sy_loc := loc\<rparr>;
               r \<leftarrow> scan_hex s;
               case r of Inl _ \<Rightarrow> Some (3, sy) | Inr (len, s) \<Rightarrow> Some (4, sy\<lparr>sy_len := len\<rparr>) } } })"

definition blank_symbol :: symbol where
  "blank_symbol = \<lparr>sy_name = [], sy_mode = 0, sy_loc = 0, sy_len = 0\<rparr>"

lemma fgets_shrinks: "0 < n \<Longrightarrow> bs \<noteq> [] \<Longrightarrow> length (snd (fgets n bs)) < length bs"
proof (induction n bs rule: fgets.induct)
  case (3 n b bs)
  then show ?case by (cases n; cases bs) (auto split: prod.split)
qed auto

text \<open>
  The table is static, so an entry that was not filled is zero. \<open>size_t size\<close> is unsigned: the test
  \<open>size < 4\<close> does not see the -1 of a blank line, which becomes a symbol without a name.
\<close>

function ReadSymbolFile :: "u8 list \<Rightarrow> symbol list \<Rightarrow> (int + symbol list) option" where
  "ReadSymbolFile fsym symtab =
     (if fsym = [] then Some (Inr symtab)
      else case fgets 511 fsym of (block, rest) \<Rightarrow>
        let line = takeWhile (\<lambda>c. c \<noteq> 0) block in
        if line = [] then None
        else if last line \<noteq> 10 then Some (Inl 1)
        else if SYMTAB_SIZE \<le> length symtab then None
        else do {
          (size, sy) \<leftarrow> sscanf_symbol line blank_symbol;
          if 0 \<le> size \<and> size < 4 then Some (Inl 2) else ReadSymbolFile rest (symtab @ [sy]) })"
  by pat_completeness auto
termination
proof (relation "measure (\<lambda>(fsym, symtab). length fsym)", goal_cases)
  case (2 fsym symtab x block rest)
  then show ?case using fgets_shrinks [of 511 fsym] by (cases "fgets 511 fsym") simp
qed simp

declare ReadSymbolFile.simps [simp del]

section \<open>The output file\<close>

definition strtab_size :: "symbol list \<Rightarrow> u32" where
  "strtab_size syms = foldl (\<lambda>n s. n + of_nat (length (sy_name s)) + 1) 0 syms"

fun WriteSymtab :: "symbol list \<Rightarrow> u16 \<Rightarrow> u8 list" where
  "WriteSymtab [] soff = []"
| "WriteSymtab (s # syms) soff =
     enc_bofioreg (FixEndian_ioreg BOFDATA2LSB
       \<lparr>ior_name = soff, ior_mode = ucast (sy_mode s), ior_loc = sy_loc s, ior_len = sy_len s\<rparr>)
     @ WriteSymtab syms (soff + of_nat (length (sy_name s)) + 1)"

definition WriteStrtab :: "symbol list \<Rightarrow> u8 list" where
  "WriteStrtab syms = concat (map (\<lambda>s. sy_name s @ [0]) syms)"

definition machine_of_class :: "u32 \<Rightarrow> u16" where
  "machine_of_class class =
     (if class = 4 then BM_NETFPGA else if class = 3 then BM_ROACH else if class = 5 then BM_RHINO
      else if class = 6 then BM_MOLERAD else BM_BEE2)"

definition make_bofhdr :: "mk_opts \<Rightarrow> u8 list \<Rightarrow> nat \<Rightarrow> bofhdr" where
  "make_bofhdr opts ehdr elf_size =
     \<lparr>ident = [0x19, 0x42, 0x4F, 0x46, 0, ehdr ! 5] @ replicate 10 0, b_version = 6,
      b_machine = machine_of_class (g_addrClass opts), b_elfmachine = dec16 (chunk 18 2 ehdr), b_numchip = 1,
      b_elfoff = of_nat elf_size, b_hwoff = of_nat (elf_size + sizeof_Elf32_Ehdr), load_err = 0,
      b_ekver = g_ekver opts, pad = (0xA5368120, 0xA5368121)\<rparr>"

definition make_hwrhdr :: "mk_opts \<Rightarrow> nat \<Rightarrow> nat \<Rightarrow> symbol list \<Rightarrow> hwrhdr" where
  "make_hwrhdr opts elf_size bitfile_size syms =
     (let flag = (if s_placed opts \<noteq> 0 then HFG_PLACED else 0);
          addr = (if s_placed opts \<noteq> 0 then s_placedloc opts else 0);
          flag = (if s_noconfig opts \<noteq> 0 then flag OR HFG_NOCONFIG else flag);
          off = of_nat (elf_size + sizeof_Elf32_Ehdr + sizeof_hwrhdr + length syms * sizeof_bofioreg)
      in \<lparr>hflag = flag, haddr = \<lparr>hwa_class = ucast (g_addrClass opts), hwa_addr = ucast addr\<rparr>,
          pl_off = off + strtab_size syms, pl_len = of_nat bitfile_size, nr_symbol = of_nat (length syms),
          hstrtab_off = off, next_hwr = 0\<rparr>)"

definition bof_image :: "mk_opts \<Rightarrow> u8 list \<Rightarrow> u8 list \<Rightarrow> symbol list \<Rightarrow> u8 list" where
  "bof_image opts elf bits syms =
     enc_bofhdr (FixEndian_bofhdr BOFDATA2LSB (make_bofhdr opts (take sizeof_Elf32_Ehdr elf) (length elf)))
     @ copy_remain_file (drop sizeof_Elf32_Ehdr elf) @ take sizeof_Elf32_Ehdr elf
     @ enc_hwrhdr (FixEndian_hwrhdr BOFDATA2LSB (make_hwrhdr opts (length elf) (length bits) syms))
     @ WriteSymtab syms 0 @ WriteStrtab syms @ copy_remain_file bits"

text \<open>The exit code and the files afterwards; the output file is created before the inputs are checked.\<close>

definition mkbof :: "host \<Rightarrow> u8 list list \<Rightarrow> (int \<times> (u8 list \<rightharpoonup> u8 list)) option" where
  "mkbof hst args = do {
     r \<leftarrow> Initialize hst args;
     case r of
       Inl c \<Rightarrow> Some (c, files hst)
     | Inr inp \<Rightarrow>
         if length (in_elf inp) < sizeof_Elf32_Ehdr then Some (1, (files hst)(in_out inp \<mapsto> []))
         else do {
           r \<leftarrow> ReadSymbolFile (in_sym inp) [];
           case r of
             Inl _ \<Rightarrow> Some (1, (files hst)(in_out inp \<mapsto> []))
           | Inr syms \<Rightarrow> Some (0, (files hst)(in_out inp \<mapsto> bof_image (in_opts inp) (in_elf inp) (in_bit inp) syms)) } }"

section \<open>The parts of the output\<close>

lemma copy_remain_file_all [simp]: "copy_remain_file bs = bs"
proof (induction bs rule: copy_remain_file.induct)
  case (1 bs)
  then show ?case by (cases "bs = []") (subst copy_remain_file.simps, simp add: Let_def)+
qed

lemma FixEndian_LSB [simp]:
  "FixEndian_bofhdr BOFDATA2LSB b = b" "FixEndian_hwrhdr BOFDATA2LSB h = h" "FixEndian_ioreg BOFDATA2LSB r = r"
  by (simp_all add: FixEndian_bofhdr_def FixEndian_hwrhdr_def FixEndian_ioreg_def)

abbreviation (input) sy_names :: "symbol list \<Rightarrow> u8 list list" where
  "sy_names syms \<equiv> map sy_name syms"

lemma WriteStrtab_strtab: "WriteStrtab syms = strtab_of (sy_names syms)"
  by (simp add: WriteStrtab_def strtab_of_def comp_def)

text \<open>The entries of the symbol table.\<close>

fun symtab_regs :: "symbol list \<Rightarrow> u16 \<Rightarrow> bofioreg list" where
  "symtab_regs [] soff = []"
| "symtab_regs (s # syms) soff =
     \<lparr>ior_name = soff, ior_mode = ucast (sy_mode s), ior_loc = sy_loc s, ior_len = sy_len s\<rparr>
     # symtab_regs syms (soff + of_nat (length (sy_name s)) + 1)"

lemma WriteSymtab_regs: "WriteSymtab syms soff = concat (map enc_bofioreg (symtab_regs syms soff))"
  by (induction syms soff rule: WriteSymtab.induct) simp_all

lemma length_symtab_regs [simp]: "length (symtab_regs syms soff) = length syms"
  by (induction syms soff rule: symtab_regs.induct) simp_all

lemma strtab_size_length: "strtab_size syms = of_nat (length (strtab_of (sy_names syms)))"
proof -
  have "foldl (\<lambda>n s. n + of_nat (length (sy_name s)) + 1) k syms = k + of_nat (length (strtab_of (sy_names syms)))" for k :: u32
    by (induction syms arbitrary: k) (simp_all add: algebra_simps)
  then show ?thesis by (simp add: strtab_size_def)
qed

text \<open>A symbol as the kernel sees it: the mode is cut to 16 bits.\<close>

definition sym_entry :: "symbol \<Rightarrow> u8 list option \<times> u32 \<times> u32 \<times> u32" where
  "sym_entry s = (Some (sy_name s), ucast (ucast (sy_mode s) :: u16), sy_loc s, sy_len s)"

text \<open>The names can be found as long as the string table has at most 64 KiB.\<close>

lemma symtab_regs_entries:
  assumes "length pre + length (strtab_of (sy_names syms)) \<le> 2 ^ 16" and "\<forall>s\<in>set syms. 0 \<notin> set (sy_name s)"
  shows "map (bof_entry (pre @ strtab_of (sy_names syms))) (symtab_regs syms (of_nat (length pre))) = map sym_entry syms"
  using assms
proof (induction syms arbitrary: pre)
  case (Cons s syms)
  have "length pre < 2 ^ 16" using Cons.prems(1) by simp
  then have "unat (of_nat (length pre) :: u16) = length pre" by (simp add: unsigned_of_nat take_bit_nat_eq_self)
  moreover have "cstr (pre @ sy_name s @ 0 # strtab_of (sy_names syms)) (length pre) = Some (sy_name s)"
    using Cons.prems(2) by (intro cstr_append) simp
  ultimately have "bof_entry (pre @ sy_name s @ 0 # strtab_of (sy_names syms))
      \<lparr>ior_name = of_nat (length pre), ior_mode = ucast (sy_mode s), ior_loc = sy_loc s, ior_len = sy_len s\<rparr> = sym_entry s"
    by (simp add: bof_entry_def sym_entry_def)
  moreover have "map (bof_entry ((pre @ sy_name s @ [0]) @ strtab_of (sy_names syms)))
      (symtab_regs syms (of_nat (length (pre @ sy_name s @ [0])))) = map sym_entry syms"
    using Cons.prems by (intro Cons.IH) simp_all
  ultimately show ?case by (simp add: algebra_simps)
qed simp

lemma ReadSymbolFile_length: "ReadSymbolFile f tab = Some (Inr syms) \<Longrightarrow> length tab \<le> SYMTAB_SIZE \<Longrightarrow> length syms \<le> SYMTAB_SIZE"
proof (induction f tab rule: ReadSymbolFile.induct)
  case (1 f tab)
  show ?case
    using 1(2,3) by (subst (asm) ReadSymbolFile.simps)
      (auto simp: Let_def bind_eq_Some_conv split: if_splits prod.splits dest!: 1(1))
qed

section \<open>The layout of the output\<close>

lemma length_bof_image:
  assumes "sizeof_Elf32_Ehdr \<le> length elf"
  shows "length (bof_image opts elf bits syms) =
    length elf + 80 + sizeof_bofioreg * length syms + length (strtab_of (sy_names syms)) + length bits"
  using assms
  by (simp add: bof_image_def length_enc_bofhdr ok_bofhdr_def make_bofhdr_def layout_simps WriteStrtab_strtab
      WriteSymtab_regs ioreg_codec.length_concat_enc list_all_iff)

lemma dec_bof_image:
  "dec_bofhdr (bof_image opts elf bits syms) = make_bofhdr opts (take sizeof_Elf32_Ehdr elf) (length elf)"
  by (simp add: bof_image_def dec_bofhdr_def enc_bofhdr_def make_bofhdr_def chunk_def layout_simps codec_simps)

text \<open>The three parts of the file: ELF program and ELF header, the region, the bit file.\<close>

lemma bof_image_elf:
  assumes "sizeof_Elf32_Ehdr \<le> length elf"
  shows "chunk sizeof_Elf32_Ehdr (length elf - sizeof_Elf32_Ehdr) (bof_image opts elf bits syms) = drop sizeof_Elf32_Ehdr elf"
    and "chunk (length elf) sizeof_Elf32_Ehdr (bof_image opts elf bits syms) = take sizeof_Elf32_Ehdr elf"
  using assms
  by (simp_all add: bof_image_def chunk_def length_enc_bofhdr ok_bofhdr_def make_bofhdr_def)

lemma bof_image_tail:
  assumes "sizeof_Elf32_Ehdr \<le> length elf"
  shows "drop (length elf + sizeof_Elf32_Ehdr) (bof_image opts elf bits syms) =
    enc_hwrhdr (make_hwrhdr opts (length elf) (length bits) syms) @
    concat (map enc_bofioreg (symtab_regs syms 0)) @ strtab_of (sy_names syms) @ bits"
  using assms
  by (simp add: bof_image_def length_enc_bofhdr ok_bofhdr_def make_bofhdr_def WriteSymtab_regs WriteStrtab_strtab)

lemma chunk_drop: "chunk (a + b) n bs = chunk b n (drop a bs)"
  by (simp add: chunk_def add.commute)

lemma unat_small [simp]: "n < 2 ^ 32 \<Longrightarrow> unat (of_nat n :: u32) = n"
  by (simp add: unsigned_of_nat take_bit_nat_eq_self)

lemma bof_image_region:
  assumes elf: "sizeof_Elf32_Ehdr \<le> length elf" and total: "length (bof_image opts elf bits syms) < 2 ^ 32" and "syms \<noteq> []"
  shows "bof_region (bof_image opts elf bits syms) (b_hwoff (make_bofhdr opts ehdr (length elf)))
    (make_hwrhdr opts (length elf) (length bits) syms) (symtab_regs syms 0) (strtab_of (sy_names syms))"
proof -
  let ?img = "bof_image opts elf bits syms" and ?L = "length elf + sizeof_Elf32_Ehdr" and ?tab = "strtab_of (sy_names syms)"
  let ?hdr = "make_hwrhdr opts (length elf) (length bits) syms"
  have len: "length elf + 80 + sizeof_bofioreg * length syms + length ?tab + length bits < 2 ^ 32"
    using total by (simp add: length_bof_image [OF elf])
  have off: "b_hwoff (make_bofhdr opts ehdr (length elf)) = of_nat ?L" by (simp add: make_bofhdr_def)
  have u: "unat (of_nat ?L :: u32) = ?L" using len by (intro unat_small) simp
  then have "(of_nat ?L :: u32) \<noteq> 0" by (metis add_is_0 unat_0 zero_neq_numeral)
  moreover have "chunk ?L sizeof_hwrhdr ?img = enc_hwrhdr ?hdr"
    using chunk_drop [of ?L 0] by (simp add: bof_image_tail [OF elf] chunk_def layout_simps)
  moreover have "chunk (?L + sizeof_hwrhdr) (sizeof_bofioreg * length syms) ?img = concat (map enc_bofioreg (symtab_regs syms 0))"
    unfolding chunk_drop by (simp add: bof_image_tail [OF elf] chunk_def layout_simps ioreg_codec.length_concat_enc list_all_iff)
  moreover have "chunk (?L + (sizeof_hwrhdr + sizeof_bofioreg * length syms)) (length ?tab) ?img = ?tab"
    unfolding chunk_drop [of ?L] by (simp add: bof_image_tail [OF elf] chunk_def layout_simps ioreg_codec.length_concat_enc list_all_iff)
  moreover have "pl_off ?hdr - hstrtab_off ?hdr = of_nat (length ?tab)" by (simp add: make_hwrhdr_def strtab_size_length Let_def)
  moreover have "?tab \<noteq> []" using \<open>syms \<noteq> []\<close> by (cases syms) simp_all
  moreover have "nr_symbol ?hdr = of_nat (length syms)" by (simp add: make_hwrhdr_def Let_def)
  ultimately show ?thesis
    using total unfolding bof_region_def off u by (simp add: add.assoc length_bof_image [OF elf])
qed

lemma bof_image_payload:
  assumes elf: "sizeof_Elf32_Ehdr \<le> length elf" and total: "length (bof_image opts elf bits syms) < 2 ^ 32"
  shows "chunk (unat (pl_off (make_hwrhdr opts (length elf) (length bits) syms)))
      (unat (pl_len (make_hwrhdr opts (length elf) (length bits) syms))) (bof_image opts elf bits syms) = bits"
    and "unat (pl_len (make_hwrhdr opts (length elf) (length bits) syms)) = length bits"
    and "unat (pl_off (make_hwrhdr opts (length elf) (length bits) syms)) =
      length elf + 80 + sizeof_bofioreg * length syms + length (strtab_of (sy_names syms))"
proof -
  let ?tab = "strtab_of (sy_names syms)" and ?L = "length elf + sizeof_Elf32_Ehdr"
  let ?hdr = "make_hwrhdr opts (length elf) (length bits) syms"
  have len: "length elf + 80 + sizeof_bofioreg * length syms + length ?tab + length bits < 2 ^ 32"
    using total by (simp add: length_bof_image [OF elf])
  have "pl_off ?hdr = of_nat (length elf + 80 + sizeof_bofioreg * length syms + length ?tab)"
    by (simp add: make_hwrhdr_def strtab_size_length Let_def)
  then show off: "unat (pl_off ?hdr) = length elf + 80 + sizeof_bofioreg * length syms + length ?tab"
    using len by (simp only:) (intro unat_small, simp)
  show pl: "unat (pl_len ?hdr) = length bits"
    using len by (simp add: make_hwrhdr_def Let_def)
  have "chunk (?L + (28 + sizeof_bofioreg * length syms + length ?tab)) (length bits) (bof_image opts elf bits syms) = bits"
    unfolding chunk_drop [of ?L] by (simp add: bof_image_tail [OF elf] chunk_def layout_simps ioreg_codec.length_concat_enc list_all_iff)
  then show "chunk (unat (pl_off ?hdr)) (unat (pl_len ?hdr)) (bof_image opts elf bits syms) = bits"
    by (simp add: off pl add.commute add.left_commute)
qed

lemma sscanf_symbol_name:
  assumes "sscanf_symbol line old = Some (n, sy)" and "0 \<notin> set line" and "0 \<notin> set (sy_name old)"
  shows "0 \<notin> set (sy_name sy)"
proof -
  have "sy_name sy = sy_name old \<or> sy_name sy = takeWhile (\<lambda>c. \<not> isspace_c c) (dropWhile isspace_c line)"
    using assms(1) by (auto simp: sscanf_symbol_def Let_def split: if_split_asm bind_split_asm sum.split_asm prod.split_asm)
  moreover have "0 \<notin> set (takeWhile (\<lambda>c. \<not> isspace_c c) (dropWhile isspace_c line))"
    using assms(2) by (meson set_dropWhileD set_takeWhileD)
  ultimately show ?thesis using assms(3) by auto
qed

text \<open>A successful read takes the lines one by one.\<close>

lemma ReadSymbolFile_step:
  assumes "ReadSymbolFile f tab = Some (Inr syms)" and "f \<noteq> []"
  obtains block rest line n sy where "fgets 511 f = (block, rest)" "line = takeWhile (\<lambda>c. c \<noteq> 0) block"
    "sscanf_symbol line blank_symbol = Some (n, sy)" "length tab < SYMTAB_SIZE" "length rest < length f"
    "ReadSymbolFile rest (tab @ [sy]) = Some (Inr syms)"
proof -
  obtain block rest where fg: "fgets 511 f = (block, rest)" by fastforce
  then have "length rest < length f" using fgets_shrinks [of 511 f] assms(2) by simp
  with assms fg show ?thesis
    by (subst (asm) ReadSymbolFile.simps)
       (auto simp: Let_def intro!: that split: if_split_asm bind_split_asm prod.split_asm)
qed

lemma ReadSymbolFile_names:
  "ReadSymbolFile f tab = Some (Inr syms) \<Longrightarrow> \<forall>s\<in>set tab. 0 \<notin> set (sy_name s) \<Longrightarrow> \<forall>s\<in>set syms. 0 \<notin> set (sy_name s)"
proof (induction "length f" arbitrary: f tab rule: less_induct)
  case less
  show ?case
  proof (cases "f = []")
    case True
    then show ?thesis using less.prems by (subst (asm) ReadSymbolFile.simps) simp
  next
    case False
    obtain block rest line n sy where l: "line = takeWhile (\<lambda>c. c \<noteq> 0) block"
      "sscanf_symbol line blank_symbol = Some (n, sy)" "length rest < length f" "ReadSymbolFile rest (tab @ [sy]) = Some (Inr syms)"
      by (rule ReadSymbolFile_step [OF less.prems(1) False])
    have "0 \<notin> set line" by (auto simp: l dest: set_takeWhileD)
    moreover have "0 \<notin> set (sy_name blank_symbol)" by (simp add: blank_symbol_def)
    ultimately have "0 \<notin> set (sy_name sy)" by (rule sscanf_symbol_name [OF l(2)])
    then have "\<forall>s\<in>set (tab @ [sy]). 0 \<notin> set (sy_name s)" using less.prems(2) by simp
    then show ?thesis by (rule less.hyps [OF l(3,4)])
  qed
qed

lemma set_opt_value_placed: "set_opt_value c v opts = Some opts' \<Longrightarrow> s_placed opts' = s_placed opts"
  by (auto simp: set_opt_value_def split: if_split_asm bind_split_asm)

lemma scan_args_placed: "scan_args args opts = Some (Inr opts') \<Longrightarrow> s_placed opts' = s_placed opts"
proof (induction args opts rule: scan_args.induct)
  case (2 arg args opts)
  then show ?case
    by (simp del: insert_iff split: if_split_asm list.split_asm bind_split_asm) (metis set_opt_value_placed)
qed simp

lemma Initialize_placed: "Initialize hst args = Some (Inr inp) \<Longrightarrow> s_placed (in_opts inp) = 0"
  by (auto simp: Initialize_def default_opts_def split: if_split_asm bind_split_asm sum.split_asm option.split_asm
      dest!: scan_args_placed)

text \<open>
  The file that \<open>mkbof\<close> writes has the layout the kernel expects. Its main header announces one
  chip and the machine of the hardware class; the region holds one entry per symbol and their names;
  the payload is the bit file; the ELF header is at the offset of the header, and the rest of the
  ELF file at its original place.
\<close>

theorem mkbof_ok:
  assumes "Initialize hst args = Some (Inr inp)" and elf: "sizeof_Elf32_Ehdr \<le> length (in_elf inp)"
    and "ReadSymbolFile (in_sym inp) [] = Some (Inr syms)" and syms: "syms \<noteq> []"
    and total: "length (in_elf inp) + 80 + sizeof_bofioreg * length syms + length (strtab_of (map sy_name syms)) + length (in_bit inp) < 2 ^ 32"
  shows "\<exists>img hdr. mkbof hst args = Some (0, (files hst)(in_out inp \<mapsto> img)) \<and>
    b_numchip (dec_bofhdr img) = 1 \<and> b_version (dec_bofhdr img) = 6 \<and>
    b_machine (dec_bofhdr img) = machine_of_class (g_addrClass (in_opts inp)) \<and>
    bof_region img (b_hwoff (dec_bofhdr img)) hdr (symtab_regs syms 0) (strtab_of (map sy_name syms)) \<and> next_hwr hdr = 0 \<and>
    chunk (unat (pl_off hdr)) (unat (pl_len hdr)) img = in_bit inp \<and>
    chunk (unat (b_elfoff (dec_bofhdr img))) sizeof_Elf32_Ehdr img = take sizeof_Elf32_Ehdr (in_elf inp) \<and>
    chunk sizeof_Elf32_Ehdr (length (in_elf inp) - sizeof_Elf32_Ehdr) img = drop sizeof_Elf32_Ehdr (in_elf inp)"
proof -
  let ?img = "bof_image (in_opts inp) (in_elf inp) (in_bit inp) syms"
  have total': "length ?img < 2 ^ 32" using total by (simp add: length_bof_image [OF elf])
  have "mkbof hst args = Some (0, (files hst)(in_out inp \<mapsto> ?img))"
    using assms(1,3) elf by (simp add: mkbof_def)
  moreover have "unat (of_nat (length (in_elf inp)) :: u32) = length (in_elf inp)" using total by (intro unat_small) simp
  ultimately show ?thesis
    using bof_image_region [OF elf total' syms] bof_image_payload(1) [OF elf total'] bof_image_elf [OF elf]
    by (intro exI [of _ ?img] exI [of _ "make_hwrhdr (in_opts inp) (length (in_elf inp)) (length (in_bit inp)) syms"])
       (simp add: dec_bof_image, simp add: make_bofhdr_def make_hwrhdr_def Let_def)
qed

text \<open>
  C8: what \<open>mkbof\<close> packs is what the kernel loads. On an idle board that can be configured with the bit
  file, loading the output of a run for the RHINO class sends exactly the bit file to the FPGA and
  gives the process one register per line of the symbol file, under its name.
\<close>

theorem mkbof_borph_load:
  assumes "Initialize hst args = Some (Inr inp)" and elf: "sizeof_Elf32_Ehdr \<le> length (in_elf inp)"
    and rd: "ReadSymbolFile (in_sym inp) [] = Some (Inr syms)" and syms: "syms \<noteq> []" and "g_addrClass (in_opts inp) = 5"
    and total: "length (in_elf inp) + 80 + sizeof_bofioreg * length syms + length (strtab_of (map sy_name syms)) + length (in_bit inp) < 2 ^ 32"
    and small: "length (strtab_of (map sy_name syms)) \<le> 2 ^ 16"
    and "\<forall>n. kalloc_ok s n" and "board_idle h s" and cfg: "will_configure (in_bit inp) 0 (of_nat (length (in_bit inp))) a b s"
  shows "\<exists>img s' bi. mkbof hst args = Some (0, (files hst)(in_out inp \<mapsto> img)) \<and>
    borph_load_hw rhino_ops_at (regular_file img) (dec_bofhdr img) tsk s = Some (0, s') \<and>
    fpga_rx s' = fpga_rx s @ in_bit inp \<and> binfo s' tsk = Some bi \<and>
    map (ioreg_entry s') (bi_ioreg bi) = rev (map sym_entry syms)"
proof -
  let ?img = "bof_image (in_opts inp) (in_elf inp) (in_bit inp) syms"
  let ?hdr = "make_hwrhdr (in_opts inp) (length (in_elf inp)) (length (in_bit inp)) syms"
  let ?bh = "make_bofhdr (in_opts inp) (take sizeof_Elf32_Ehdr (in_elf inp)) (length (in_elf inp))"
  have total': "length ?img < 2 ^ 32" using total by (simp add: length_bof_image [OF elf])
  have "b_numchip ?bh = 1" by (simp add: make_bofhdr_def)
  moreover have "for_rhino ?hdr" using assms(5) Initialize_placed [OF assms(1)] by (simp add: for_rhino_def make_hwrhdr_def Let_def)
  moreover have "will_configure ?img (pl_off ?hdr) (pl_len ?hdr) a b s"
    using cfg total bof_image_payload(2,3) [OF elf total']
    by (simp add: will_configure_def configure_ready_def length_bof_image [OF elf])
  ultimately obtain s' bi where "borph_load_hw rhino_ops_at (regular_file ?img) ?bh tsk s = Some (0, s')"
      "fpga_rx s' = fpga_rx s @ in_bit inp" "binfo s' tsk = Some bi"
      "map (ioreg_entry s') (bi_ioreg bi) = rev (map (bof_entry (strtab_of (map sy_name syms))) (symtab_regs syms 0))"
    using borph_load_hw_process [OF assms(8) _ bof_image_region [OF elf total' syms] assms(9), of "take sizeof_Elf32_Ehdr (in_elf inp)" a b tsk]
      bof_image_payload(1) [OF elf total'] by auto
  moreover have "map (bof_entry (strtab_of (map sy_name syms))) (symtab_regs syms 0) = map sym_entry syms"
    using symtab_regs_entries [of "[]" syms] small ReadSymbolFile_names [OF rd] by simp
  moreover have "mkbof hst args = Some (0, (files hst)(in_out inp \<mapsto> ?img))"
    using assms(1,3) elf by (simp add: mkbof_def)
  ultimately show ?thesis by (intro exI [of _ ?img] exI [of _ s'] exI [of _ bi]) (simp add: dec_bof_image)
qed

section \<open>Symbol files\<close>

text \<open>A line of a symbol file: name, mode, location and length, in hexadecimal.\<close>

fun hex_digits :: "nat \<Rightarrow> nat \<Rightarrow> u8 list" where
  "hex_digits 0 n = []"
| "hex_digits (Suc k) n = hex_digits k (n div 16) @ [hex_digit (n mod 16)]"

definition print_symbol :: "symbol \<Rightarrow> u8 list" where
  "print_symbol s = sy_name s @ 32 # hex_digits 8 (unat (sy_mode s)) @ 32 # hex_digits 8 (unat (sy_loc s))
     @ 32 # hex_digits 8 (unat (sy_len s)) @ [10]"

definition ok_symbol :: "symbol \<Rightarrow> bool" where
  "ok_symbol s \<longleftrightarrow> sy_name s \<noteq> [] \<and> length (sy_name s) < 256 \<and> list_all (\<lambda>c. \<not> isspace_c c \<and> c \<noteq> 0) (sy_name s)"

definition plain_hex :: "u8 \<Rightarrow> bool" where
  "plain_hex c \<longleftrightarrow> isxdigit_c c \<and> \<not> isspace_c c \<and> c \<notin> set [0, 10, 43, 45, 88, 120]"

lemma hex_digit_table: "\<forall>n\<in>set [0..<16]. plain_hex (hex_digit n) \<and> xdigit_value (hex_digit n) = n"
  by code_simp

lemma hex_digit_props: "n < 16 \<Longrightarrow> plain_hex (hex_digit n)" "n < 16 \<Longrightarrow> xdigit_value (hex_digit n) = n"
  using hex_digit_table by (simp_all del: upt_rec_numeral)

lemma length_hex_digits [simp]: "length (hex_digits k n) = k"
  by (induction k arbitrary: n) simp_all

lemma hex_digits_set: "c \<in> set (hex_digits k n) \<Longrightarrow> plain_hex c"
  by (induction k arbitrary: n) (auto simp: hex_digit_props)

lemma hex_value_digits: "hex_value (hex_digits k n) = n mod 16 ^ k"
proof (induction k arbitrary: n)
  case (Suc k)
  then have "hex_value (hex_digits (Suc k) n) = (n div 16 mod 16 ^ k) * 16 + n mod 16"
    using hex_digit_props(2) [of "n mod 16"] by (simp add: hex_value_def)
  also have "\<dots> = n mod 16 ^ Suc k" by (simp add: mod_mult2_eq algebra_simps)
  finally show ?case .
qed (simp add: hex_value_def)

lemma unat_u32_less: "unat (w :: u32) < 2 ^ 32"
proof -
  have "unat w < 2 ^ LENGTH(32)" by (rule unsigned_less)
  then show ?thesis by simp
qed

lemma hex_value_word: "hex_value (hex_digits 8 (unat (w :: u32))) = unat w"
  using unat_u32_less [of w] by (simp add: hex_value_digits)

text \<open>Scanning a printed number.\<close>

lemma hex_digits_Cons: "hex_digits 8 n = a # b # cs \<Longrightarrow> a \<noteq> 43 \<and> a \<noteq> 45 \<and> b \<noteq> 88 \<and> b \<noteq> 120 \<and> \<not> isspace_c a"
  using hex_digits_set [of a 8 n] hex_digits_set [of b 8 n] by (simp add: plain_hex_def)

lemma scan_hex_digits:
  assumes "\<not> isxdigit_c c"
  shows "scan_hex (32 # hex_digits 8 (unat w) @ c # rest) = Some (Inr (w, c # rest))"
proof -
  obtain a b cs where ab: "hex_digits 8 (unat w) = a # b # cs"
    by (cases "hex_digits 8 (unat w)" rule: remdups_adj.cases) (use length_hex_digits [of 8 "unat w"] in auto)
  have "isspace_c 32" by (simp add: isspace_c_def)
  then have "scan_sign (dropWhile isspace_c (32 # hex_digits 8 (unat w) @ c # rest)) = (False, hex_digits 8 (unat w) @ c # rest)"
    using hex_digits_Cons [OF ab] by (simp add: ab)
  moreover have "skip_0x (hex_digits 8 (unat w) @ c # rest) = hex_digits 8 (unat w) @ c # rest"
    using hex_digits_Cons [OF ab] by (simp add: ab)
  moreover have "takeWhile isxdigit_c (hex_digits 8 (unat w) @ c # rest) = hex_digits 8 (unat w)"
      "dropWhile isxdigit_c (hex_digits 8 (unat w) @ c # rest) = c # rest"
    using assms hex_digits_set [of _ 8 "unat w"] by (simp_all add: takeWhile_append2 dropWhile_append2 plain_hex_def)
  moreover have "hex_digits 8 (unat w) \<noteq> []" using ab by simp
  moreover have "\<not> 2 ^ 32 \<le> unat w" using unat_u32_less [of w] by simp
  ultimately show ?thesis by (simp add: scan_hex_def Let_def hex_value_word)
qed

lemma fgets_line: "10 \<notin> set l \<Longrightarrow> length l < n \<Longrightarrow> fgets n (l @ 10 # rest) = (l @ [10], rest)"
proof (induction l arbitrary: n)
  case Nil
  then show ?case by (cases n) simp_all
next
  case (Cons c l)
  then show ?case by (cases n) simp_all
qed

definition symbol_text :: "symbol \<Rightarrow> u8 list" where
  "symbol_text s = sy_name s @ 32 # hex_digits 8 (unat (sy_mode s)) @ 32 # hex_digits 8 (unat (sy_loc s))
     @ 32 # hex_digits 8 (unat (sy_len s))"

lemma print_symbol_text: "print_symbol s = symbol_text s @ [10]"
  by (simp add: print_symbol_def symbol_text_def)

lemma symbol_text_set:
  assumes "ok_symbol s"
  shows "10 \<notin> set (symbol_text s)" "0 \<notin> set (symbol_text s)" "length (symbol_text s) < 511"
  using assms hex_digits_set [of 10] hex_digits_set [of 0]
  by (auto simp: symbol_text_def ok_symbol_def list_all_iff plain_hex_def isspace_c_def)

lemma sscanf_print_symbol:
  assumes "ok_symbol s"
  shows "sscanf_symbol (print_symbol s) old = Some (4, s)"
proof -
  define tail where "tail = 32 # hex_digits 8 (unat (sy_mode s)) @ 32 # hex_digits 8 (unat (sy_loc s))
     @ 32 # hex_digits 8 (unat (sy_len s)) @ [10]"
  have name: "sy_name s \<noteq> []" "\<And>c. c \<in> set (sy_name s) \<Longrightarrow> \<not> isspace_c c" "length (sy_name s) < 256"
    using assms by (auto simp: ok_symbol_def list_all_iff)
  have sp: "isspace_c 32" "\<not> isxdigit_c 32" "\<not> isxdigit_c 10" by (simp_all add: isspace_c_def isxdigit_c_def isdigit_c_def)
  have shape: "print_symbol s = sy_name s @ tail" by (simp add: print_symbol_def tail_def)
  have "dropWhile isspace_c (print_symbol s) = print_symbol s"
    using name by (cases "sy_name s") (auto simp: print_symbol_def)
  moreover have "takeWhile (\<lambda>c. \<not> isspace_c c) (print_symbol s) = sy_name s" "dropWhile (\<lambda>c. \<not> isspace_c c) (print_symbol s) = tail"
    using name sp unfolding shape by (simp_all add: takeWhile_append2 dropWhile_append2) (simp_all add: tail_def)
  moreover have "print_symbol s \<noteq> []" by (simp add: print_symbol_def)
  moreover have "scan_hex tail = Some (Inr (sy_mode s, 32 # hex_digits 8 (unat (sy_loc s)) @ 32 # hex_digits 8 (unat (sy_len s)) @ [10]))"
    unfolding tail_def by (rule scan_hex_digits [OF sp(2)])
  moreover have "scan_hex (32 # hex_digits 8 (unat (sy_loc s)) @ 32 # hex_digits 8 (unat (sy_len s)) @ [10]) =
      Some (Inr (sy_loc s, 32 # hex_digits 8 (unat (sy_len s)) @ [10]))" by (rule scan_hex_digits [OF sp(2)])
  moreover have "scan_hex (32 # hex_digits 8 (unat (sy_len s)) @ [10]) = Some (Inr (sy_len s, [10]))" by (rule scan_hex_digits [OF sp(3)])
  ultimately show ?thesis using name(3) by (simp add: sscanf_symbol_def Let_def)
qed

lemma ReadSymbolFile_print:
  assumes "ok_symbol s" and "length tab < SYMTAB_SIZE"
  shows "ReadSymbolFile (print_symbol s @ rest) tab = ReadSymbolFile rest (tab @ [s])"
proof -
  have "fgets 511 (print_symbol s @ rest) = (print_symbol s, rest)"
    using fgets_line [of "symbol_text s" 511 rest] symbol_text_set [OF assms(1)] by (simp add: print_symbol_text)
  moreover have nul: "takeWhile (\<lambda>c. c \<noteq> 0) (print_symbol s) = print_symbol s"
    using symbol_text_set [OF assms(1)] by (simp add: print_symbol_text takeWhile_eq_all_conv) metis
  moreover have "print_symbol s \<noteq> []" "last (print_symbol s) = 10" by (simp_all add: print_symbol_text)
  ultimately show ?thesis
    using assms by (subst ReadSymbolFile.simps) (simp add: nul sscanf_print_symbol [OF assms(1)] Let_def)
qed

text \<open>
  C34: reading back a printed symbol file gives the symbols that were printed, in order, for any
  number of symbols that fits the table.
\<close>

theorem ReadSymbolFile_roundtrip:
  assumes "list_all ok_symbol syms" and "length tab + length syms \<le> SYMTAB_SIZE"
  shows "ReadSymbolFile (concat (map print_symbol syms)) tab = Some (Inr (tab @ syms))"
  using assms
proof (induction syms arbitrary: tab)
  case Nil
  then show ?case by (subst ReadSymbolFile.simps) simp
next
  case (Cons s syms)
  then show ?case using ReadSymbolFile_print [of s tab "concat (map print_symbol syms)"] by simp
qed

theorem ReadSymbolFile_roundtrip_witness:
  "ReadSymbolFile (print_symbol \<lparr>sy_name = [97, 98], sy_mode = 3, sy_loc = 0x8000000, sy_len = 4\<rparr>) [] =
     Some (Inr [\<lparr>sy_name = [97, 98], sy_mode = 3, sy_loc = 0x8000000, sy_len = 4\<rparr>])"
  using ReadSymbolFile_roundtrip [of "[\<lparr>sy_name = [97, 98], sy_mode = 3, sy_loc = 0x8000000, sy_len = 4\<rparr>]" "[]"]
  by (simp add: ok_symbol_def isspace_c_def)

text \<open>
  A blank line of the symbol file is not refused: it becomes a register without a name and of
  length 0. A table that is full is overrun by the next line.
\<close>

theorem ReadSymbolFile_blank_line:
  "ReadSymbolFile (10 # rest) tab = (if length tab < SYMTAB_SIZE then ReadSymbolFile rest (tab @ [blank_symbol]) else None)"
proof -
  have "fgets 511 (10 # rest) = ([10], rest)" using fgets_line [of "[]" 511 rest] by simp
  moreover have "sscanf_symbol [10] blank_symbol = Some (-1, blank_symbol)" by (simp add: sscanf_symbol_def isspace_c_def)
  ultimately show ?thesis by (subst ReadSymbolFile.simps) simp
qed

section \<open>An example\<close>

definition demo_symbol :: symbol where
  "demo_symbol = \<lparr>sy_name = [97, 98], sy_mode = 3, sy_loc = 0x8000000, sy_len = 4\<rparr>"

definition demo_elf :: "u8 list" where
  "demo_elf = [0x7F, 0x45, 0x4C, 0x46, 1, 1, 1] @ replicate 11 0 @ [40] @ replicate 141 0"

text \<open>A machine with a bit file \<open>b\<close> and a symbol file \<open>s\<close>, and the arguments \<open>-s s b\<close>.\<close>

definition demo_host :: host where
  "demo_host = \<lparr>files = [[98] \<mapsto> [1, 2, 3], [115] \<mapsto> print_symbol demo_symbol], can_create = (\<lambda>_. True), tmpfile_ok = True,
     default_x86_elf_bin = [], default_arm_elf_bin = demo_elf, default_ppc_elf_bin = []\<rparr>"

definition demo_args :: "u8 list list" where
  "demo_args = [[45, 115], [115], [98]]"

definition demo_inputs :: mk_inputs where
  "demo_inputs = \<lparr>in_opts = default_opts\<lparr>fbitname := Some [98], fsymname := Some [115]\<rparr>, in_elf = demo_elf, in_bit = [1, 2, 3],
     in_sym = print_symbol demo_symbol, in_out = [98, 46, 98, 111, 102]\<rparr>"

lemma demo_Initialize: "Initialize demo_host demo_args = Some (Inr demo_inputs)"
  by (simp add: Initialize_def demo_host_def demo_args_def demo_inputs_def default_opts_def output_name_def GenerateElfFile_def set_opt_value_def)

lemma demo_symbols: "ReadSymbolFile (in_sym demo_inputs) [] = Some (Inr [demo_symbol])"
proof -
  have "ok_symbol demo_symbol" by (simp add: ok_symbol_def demo_symbol_def isspace_c_def)
  then show ?thesis using ReadSymbolFile_print [of demo_symbol "[]" "[]"]
    by (simp add: demo_inputs_def) (subst ReadSymbolFile.simps, simp)
qed

lemma demo_sizes:
  "length (in_elf demo_inputs) = 160" "in_bit demo_inputs = [1, 2, 3]" "length (strtab_of (map sy_name [demo_symbol])) = 3"
  "g_addrClass (in_opts demo_inputs) = 5" "in_out demo_inputs = [98, 46, 98, 111, 102]"
  by (simp_all add: demo_inputs_def demo_elf_def demo_symbol_def default_opts_def)


theorem mkbof_ok_witness:
  "\<exists>img. mkbof demo_host demo_args = Some (0, (files demo_host)([98, 46, 98, 111, 102] \<mapsto> img)) \<and> b_machine (dec_bofhdr img) = BM_RHINO"
  using mkbof_ok [OF demo_Initialize _ demo_symbols] demo_sizes by (auto simp: machine_of_class_def)

theorem mkbof_borph_load_witness:
  "\<exists>img s' bi. mkbof demo_host demo_args = Some (0, (files demo_host)([98, 46, 98, 111, 102] \<mapsto> img)) \<and>
    borph_load_hw rhino_ops_at (regular_file img) (dec_bofhdr img) 7 borph_boot = Some (0, s') \<and>
    fpga_rx s' = [1, 2, 3] \<and> binfo s' 7 = Some bi \<and> map (ioreg_entry s') (bi_ioreg bi) = [(Some [97, 98], 3, 0x8000000, 4)]"
proof -
  have "\<forall>n. kalloc_ok borph_boot n" "fpga_rx borph_boot = []" "will_configure (in_bit demo_inputs) 0 (of_nat (length (in_bit demo_inputs))) 0 1 borph_boot"
    by (simp_all add: boot_simps demo_sizes will_configure_def configure_ready_def initb_answers_def)
  moreover have "sym_entry demo_symbol = (Some [97, 98], 3, 0x8000000, 4)" by (simp add: sym_entry_def demo_symbol_def)
  ultimately show ?thesis
    using mkbof_borph_load [OF demo_Initialize _ demo_symbols, of borph_boot _ 0 1 7] demo_sizes demo_board(1) by auto
qed

end
