(* ===== verification/Showbof.thy ===== *)
theory Showbof
  imports Mkbof
begin

text \<open>
  The tool \<open>showbof\<close> (\<open>src/borph/tools/borph/showbof.c\<close>) that prints the headers, the symbols and the
  payload of a BOF file, and its agreement with \<open>mkbof\<close>.
\<close>

section \<open>Names\<close>

definition machine_names :: "string list" where
  "machine_names = [''UNKNOWN'', '''', ''BEE2'', ''ROACH'', ''NETFPGA'', ''RHINO'']"

definition elfmachine_names :: "string list" where
  "elfmachine_names = [
     ''EM_NONE'', ''EM_M32'', ''EM_SPARC'', ''EM_386'', ''EM_68K'', ''EM_88K'', ''EM_INVAL6'', ''EM_860'',
     ''EM_MIPS'', ''EM_S370'', ''EM_MIPS_RS3_LE'', ''EM_INVAL11'', ''EM_INVAL12'', ''EM_INVAL13'', ''EM_INVAL14'', ''EM_PARISC'',
     ''EM_INVAL16'', ''EM_VPP500'', ''EM_SPARC32PLUS'', ''EM_960'', ''EM_PPC'', ''EM_PPC64'', ''EM_S390'', ''EM_INVAL23'',
     ''EM_INVAL24'', ''EM_INVAL25'', ''EM_INVAL26'', ''EM_INVAL27'', ''EM_INVAL28'', ''EM_INVAL29'', ''EM_INVAL30'', ''EM_INVAL31'',
     ''EM_INVAL32'', ''EM_INVAL33'', ''EM_INVAL34'', ''EM_INVAL35'', ''EM_V800'', ''EM_FR20'', ''EM_RH32'', ''EM_RCE'',
     ''EM_ARM'', ''EM_FAKE_ALPHA'', ''EM_SH'', ''EM_SPARCV9'', ''EM_TRICORE'', ''EM_ARC'', ''EM_H8_300'', ''EM_H8_300H'',
     ''EM_H8S'', ''EM_H8_500'', ''EM_IA_64'', ''EM_MIPS_X'', ''EM_COLDFIRE'', ''EM_68HC12'', ''EM_MMA'', ''EM_PCP'',
     ''EM_NCPU'', ''EM_NDR1'', ''EM_STARCORE'', ''EM_ME16'', ''EM_ST100'', ''EM_TINYJ'', ''EM_X86_64'', ''EM_PDSP'',
     ''EM_INVAL64'', ''EM_INVAL65'', ''EM_FX66'', ''EM_ST9PLUS'', ''EM_ST7'', ''EM_68HC16'', ''EM_68HC11'', ''EM_68HC08'',
     ''EM_68HC05'', ''EM_SVX'', ''EM_ST19'', ''EM_VAX'', ''EM_CRIS'', ''EM_JAVELIN'', ''EM_FIREPATH'', ''EM_ZSP'',
     ''EM_MMIX'', ''EM_HUANY'', ''EM_PRISM'', ''EM_AVR'', ''EM_FR30'', ''EM_D10V'', ''EM_D30V'', ''EM_V850'',
     ''EM_M32R'', ''EM_MN10300'', ''EM_MN10200'', ''EM_PJ'', ''EM_OPENRISC'', ''EM_ARC_A5'', ''EM_XTENSA'']"

definition MachineName :: "u16 \<Rightarrow> string" where
  "MachineName m = (if m < 4 then machine_names ! unat m else machine_names ! 0)"

definition ElfMachineName :: "u16 \<Rightarrow> string" where
  "ElfMachineName m = (if m < 95 then elfmachine_names ! unat m else elfmachine_names ! 0)"

section \<open>Byte order\<close>

text \<open>\<open>letoh\<close> is the identity on the little-endian machine the tool runs on, \<open>betoh\<close> swaps.\<close>

definition show_num16 :: "u8 \<Rightarrow> u16 \<Rightarrow> u16" where
  "show_num16 fendian n = (if fendian = BOFDATA2LSB then n else swap_byte16 n)"

definition show_num32 :: "u8 \<Rightarrow> u32 \<Rightarrow> u32" where
  "show_num32 fendian n = (if fendian = BOFDATA2LSB then n else swap_byte32 n)"

text \<open>The field \<open>b_ekver\<close> is not converted.\<close>

definition show_FixEndian_bofhdr :: "u8 \<Rightarrow> bofhdr \<Rightarrow> bofhdr" where
  "show_FixEndian_bofhdr fendian b =
     (if fendian = BOFDATA2MSB then
        b\<lparr>b_version := swap_byte32 (b_version b), b_machine := swap_byte16 (b_machine b),
          b_elfmachine := swap_byte16 (b_elfmachine b), b_numchip := swap_byte32 (b_numchip b),
          b_elfoff := swap_byte32 (b_elfoff b), b_hwoff := swap_byte32 (b_hwoff b)\<rparr>
      else b)"

definition show_FixEndian_hwrhdr :: "u8 \<Rightarrow> hwrhdr \<Rightarrow> hwrhdr" where
  "show_FixEndian_hwrhdr fendian h =
     (if fendian = BOFDATA2MSB then
        h\<lparr>hflag := swap_byte32 (hflag h),
          haddr := \<lparr>hwa_class = swap_byte16 (hwa_class (haddr h)), hwa_addr = swap_byte16 (hwa_addr (haddr h))\<rparr>,
          pl_off := swap_byte32 (pl_off h), pl_len := swap_byte32 (pl_len h), nr_symbol := swap_byte32 (nr_symbol h),
          hstrtab_off := swap_byte32 (hstrtab_off h), next_hwr := swap_byte32 (next_hwr h)\<rparr>
      else h)"

definition show_FixEndian_ioreg :: "u8 \<Rightarrow> bofioreg \<Rightarrow> bofioreg" where
  "show_FixEndian_ioreg fendian r =
     (if fendian = BOFDATA2MSB then
        r\<lparr>ior_name := swap_byte16 (ior_name r), ior_mode := swap_byte16 (ior_mode r),
          ior_loc := swap_byte32 (ior_loc r), ior_len := swap_byte32 (ior_len r)\<rparr>
      else r)"

section \<open>Printing\<close>

text \<open>
  A function that prints returns its text, and whether the program goes on or exits with a code.
  \<^const>\<open>None\<close> is an access outside an object. The file \<open>f\<close> is its contents.
\<close>

type_synonym printed = "(u8 list \<times> int option) option"

definition then_print :: "printed \<Rightarrow> printed \<Rightarrow> printed" where
  "then_print p q = do {
     (t, e) \<leftarrow> p;
     case e of Some c \<Rightarrow> Some (t, Some c) | None \<Rightarrow> do { (t', e') \<leftarrow> q; Some (t @ t', e') } }"

abbreviation (input) put_text :: "u8 list \<Rightarrow> printed" where "put_text t \<equiv> Some (t, None)"
abbreviation (input) put_exit :: "u8 list \<Rightarrow> printed" where "put_exit t \<equiv> Some (t, Some 1)"

definition bline :: "string \<Rightarrow> u8 list \<Rightarrow> u8 list" where
  "bline label v = bytes_of label @ v @ [10]"

definition PrintBOFHeader :: "bofhdr \<Rightarrow> u8 list" where
  "PrintBOFHeader b =
     bline ''ident[]:'' (concat (map (\<lambda>c. 32 # pad_zero 2 (nat_digits 16 (unat c))) (ident b)))
     @ bline ''version: '' (fmt_d (b_version b)) @ bline ''machine: '' (bytes_of (MachineName (b_machine b)))
     @ bline ''elfmachine: '' (bytes_of (ElfMachineName (b_elfmachine b))) @ bline ''numchip: '' (fmt_d (b_numchip b))
     @ bline ''elfoff: 0x'' (fmt_x (b_elfoff b)) @ bline ''hwoff: 0x'' (fmt_x (b_hwoff b))"

definition SprintHWRAddr :: "hwr_addr \<Rightarrow> u8 list" where
  "SprintHWRAddr a =
     (let cbuf =
        (if hwa_class a = HAC_BEE2FPGA then bytes_of ''BEE2FPGA''
         else if hwa_class a = HAC_PRMOD then bytes_of ''PRMOD''
         else if hwa_class a = HAC_ROACHV5 then bytes_of ''ROACHV5''
         else if hwa_class a = HAC_NETFPGA then bytes_of ''NETFPGA''
         else if hwa_class a = HAC_RHINO then bytes_of ''RHINO''
         else if hwa_class a = HAC_MOLERAD then bytes_of ''MoleRAD''
         else bline ''unknown class ('' (nat_digits 10 (unat (hwa_class a)) @ [41]))
      in bytes_of ''class: '' @ cbuf @ bytes_of '', addr: '' @ nat_digits 10 (unat (hwa_addr a)))"

text \<open>One line of the symbol table; a name that does not end in the string table is an overrun.\<close>

definition symbol_line :: "u8 list \<Rightarrow> nat \<Rightarrow> bofioreg \<Rightarrow> printed" where
  "symbol_line strtab i r = do {
     name \<leftarrow> cstr strtab (unat (ior_name r));
     put_text (bytes_of ''  '' @ pad_zero 2 (nat_digits 10 i) @ bytes_of '': ioreg   '' @ pad_right 24 name @ bytes_of ''0x''
       @ pad_right 8 (nat_digits 16 (unat (ior_mode r))) @ bytes_of ''  0x'' @ pad_right 8 (fmt_x (ior_loc r))
       @ bytes_of ''  '' @ fmt_d (ior_len r) @ [10]) }"

fun symbol_lines :: "u8 \<Rightarrow> u8 list \<Rightarrow> u8 list \<Rightarrow> nat \<Rightarrow> nat \<Rightarrow> nat \<Rightarrow> printed" where
  "symbol_lines fendian f strtab pos i 0 = put_text []"
| "symbol_lines fendian f strtab pos i (Suc n) =
     (if length (chunk pos sizeof_bofioreg f) < sizeof_bofioreg then put_exit (bytes_of ''Error reading ioreg'')
      else then_print (symbol_line strtab i (show_FixEndian_ioreg fendian (dec_bofioreg (chunk pos sizeof_bofioreg f))))
             (symbol_lines fendian f strtab (pos + sizeof_bofioreg) (i + 1) n))"

text \<open>
  The length of the string table is unsigned, so the test for a negative one only sees 0. The part of
  a message that \<open>strerror\<close> gives is left out.
\<close>

definition PrintSymbols :: "u8 \<Rightarrow> u8 list \<Rightarrow> u32 \<Rightarrow> hwrhdr \<Rightarrow> printed" where
  "PrintSymbols fendian f hwr_foff h =
     (let strtab_foff = hwr_foff + 28 + nr_symbol h * 12;
          strtab_len = pl_off h - hstrtab_off h;
          strtab = chunk (unat strtab_foff) (unat strtab_len) f
      in if nr_symbol h = 0 then put_text (bline ''  no symbol'' [])
         else if strtab_len \<le> 0 then put_exit (bline ''Negative strtab_len '' (fmt_d strtab_len))
         else if length strtab < unat strtab_len then put_exit (bytes_of ''Error reading strtab'')
         else then_print (put_text (bline ''      type    Name                    Mode        loc         len'' []))
                (symbol_lines fendian f strtab (unat (hwr_foff + 28)) 0 (unat (nr_symbol h))))"

definition PrintHWRHdr :: "u8 \<Rightarrow> u8 list \<Rightarrow> u32 \<Rightarrow> hwrhdr \<Rightarrow> printed" where
  "PrintHWRHdr fendian f hwr_foff h =
     then_print (put_text
       (bline ''  flag: '' (bytes_of (if hflag h AND HFG_PLACED \<noteq> 0 then ''HFG_PLACED'' else ''NONE''))
        @ bline ''  addr: '' (SprintHWRAddr (haddr h))
        @ bline ''  pl_off: 0x'' (fmt_x (pl_off h) @ bytes_of '' ('' @ fmt_d (pl_off h) @ [41])
        @ bline ''  pl_len: 0x'' (fmt_x (pl_len h) @ bytes_of '' ('' @ fmt_d (pl_len h) @ [41])
        @ bline ''  nr_symbol: '' (fmt_d (nr_symbol h))
        @ bline ''  strtab_off: 0x'' (fmt_x (hstrtab_off h) @ bytes_of '' ('' @ fmt_d (hstrtab_off h) @ [41])
        @ bline ''  next_hwr: 0x'' (fmt_x (next_hwr h) @ bytes_of '' ('' @ fmt_d (next_hwr h) @ [41])
        @ bline ''  << symbols >>'' []))
     (PrintSymbols fendian f hwr_foff h)"

text \<open>
  The header of a Xilinx bit file: four fields, each a letter, a length in two bytes and a string. The
  page with the start of the payload is mapped; behind the end of the file it is zero. A length byte
  above 127 depends on the signedness of \<open>char\<close> and is left open.
\<close>

definition payload_field :: "string \<Rightarrow> u8 list \<Rightarrow> nat \<Rightarrow> (u8 list \<times> nat) option" where
  "payload_field label m p = do {
     s \<leftarrow> (if p + 3 \<le> length m then cstr m (p + 3) else None);
     n \<leftarrow> arr_get m (p + 2);
     if 128 \<le> n then None else Some (bline label s, p + unat n + 3) }"

definition PrintHWRPayload :: "u8 list \<Rightarrow> u32 \<Rightarrow> hwrhdr \<Rightarrow> printed" where
  "PrintHWRPayload f hwr_foff h =
     (let pl_foff = unat (hwr_foff + 28 + nr_symbol h * 12 + (pl_off h - hstrtab_off h));
          page = chunk (pl_foff div PAGE_SIZE * PAGE_SIZE) PAGE_SIZE f;
          m = page @ replicate (PAGE_SIZE - length page) 0;
          off = pl_foff mod PAGE_SIZE;
          title = bline ''  << payload >>'' []
      in if page = [] then None
         else if 97 \<in> set (chunk off 200 m) then do {
           let p = off + length (takeWhile (\<lambda>c. c \<noteq> 97) (chunk off 200 m));
           (t1, p) \<leftarrow> payload_field ''  Filename: '' m p;
           (t2, p) \<leftarrow> payload_field ''  Device  : '' m p;
           (t3, p) \<leftarrow> payload_field ''  Date    : '' m p;
           (t4, p) \<leftarrow> payload_field ''  Time    : '' m p;
           put_text (title @ t1 @ t2 @ t3 @ t4) }
         else if length (chunk off 200 m) < 200 then None
         else put_text (title @ bytes_of ''can't find first info field''))"

text \<open>The offset of the next region is computed from the sizes, not taken from \<open>next_hwr\<close>.\<close>

fun hwr_loop :: "u8 \<Rightarrow> u8 list \<Rightarrow> u32 \<Rightarrow> nat \<Rightarrow> nat \<Rightarrow> printed" where
  "hwr_loop fendian f hwr_foff i 0 = put_text []"
| "hwr_loop fendian f hwr_foff i (Suc n) =
     then_print (put_text (bline ''** hwr #'' (nat_digits 10 i @ bytes_of '' **'')))
       (if length (chunk (unat hwr_foff) sizeof_hwrhdr f) < sizeof_hwrhdr then put_exit (bytes_of ''Error reading hwrhdr'')
        else
          let h = show_FixEndian_hwrhdr fendian (dec_hwrhdr (chunk (unat hwr_foff) sizeof_hwrhdr f))
          in then_print (PrintHWRHdr fendian f hwr_foff h) (then_print (PrintHWRPayload f hwr_foff h)
               (hwr_loop fendian f (hwr_foff + 28 + nr_symbol h * 12 + (pl_off h - hstrtab_off h) + pl_len h) (i + 1) n)))"

definition PrintHWR :: "u8 \<Rightarrow> u8 list \<Rightarrow> bofhdr \<Rightarrow> printed" where
  "PrintHWR fendian f b =
     (if b_numchip b = 0 then put_text (bline ''** no hwr in file **'' [])
      else hwr_loop fendian f (b_hwoff b) 0 (unat (b_numchip b)))"

text \<open>A file that cannot be opened is reported but then read all the same.\<close>

definition showbof :: "(u8 list \<rightharpoonup> u8 list) \<Rightarrow> u8 list list \<Rightarrow> printed" where
  "showbof fs args =
     (case args of
        [] \<Rightarrow> put_exit (bline ''Usage: showbof bof_file'' [])
      | filename # _ \<Rightarrow> (case fs filename of
            None \<Rightarrow> None
          | Some f \<Rightarrow>
              if length f < sizeof_bofhdr then put_exit (bytes_of ''Error parsing '' @ filename)
              else
                let b = dec_bofhdr f; fendian = ident b ! BI_ENDIAN
                in if take 4 (ident b) \<noteq> [0x19, 0x42, 0x4F, 0x46] then put_exit (bline ''Not a BOF file'' [])
                   else if fendian \<noteq> BOFDATA2LSB \<and> fendian \<noteq> BOFDATA2MSB then
                     put_exit (bline ''Unknown endianess '' (nat_digits 10 (unat fendian)))
                   else
                     let b = show_FixEndian_bofhdr fendian b
                     in then_print (put_text (bline ''Filename: '' filename @ PrintBOFHeader b)) (PrintHWR fendian f b)))"

section \<open>The listing of the symbols\<close>

definition line_text :: "nat \<Rightarrow> u8 list \<Rightarrow> u16 \<Rightarrow> u32 \<Rightarrow> u32 \<Rightarrow> u8 list" where
  "line_text i name mode loc len =
     bytes_of ''  '' @ pad_zero 2 (nat_digits 10 i) @ bytes_of '': ioreg   '' @ pad_right 24 name @ bytes_of ''0x''
       @ pad_right 8 (nat_digits 16 (unat mode)) @ bytes_of ''  0x'' @ pad_right 8 (fmt_x loc)
       @ bytes_of ''  '' @ fmt_d len @ [10]"

fun listing :: "nat \<Rightarrow> symbol list \<Rightarrow> u8 list" where
  "listing i [] = []"
| "listing i (s # syms) = line_text i (sy_name s) (ucast (sy_mode s)) (sy_loc s) (sy_len s) @ listing (i + 1) syms"

lemma show_FixEndian_LSB [simp]:
  "show_FixEndian_bofhdr BOFDATA2LSB b = b" "show_FixEndian_hwrhdr BOFDATA2LSB h = h" "show_FixEndian_ioreg BOFDATA2LSB r = r"
  by (simp_all add: show_FixEndian_bofhdr_def show_FixEndian_hwrhdr_def show_FixEndian_ioreg_def)

text \<open>The printed entry agrees with the entry the kernel sees.\<close>

lemma symbol_line_entry:
  assumes "bof_entry strtab r = sym_entry s" and "ior_mode r = ucast (sy_mode s)"
  shows "symbol_line strtab i r = put_text (line_text i (sy_name s) (ucast (sy_mode s)) (sy_loc s) (sy_len s))"
  using assms by (simp add: symbol_line_def line_text_def bof_entry_def sym_entry_def)

lemma symbol_lines_listing:
  assumes "drop pos f = concat (map enc_bofioreg regs) @ rest" and "map (bof_entry strtab) regs = map sym_entry syms"
    and "map ior_mode regs = map (\<lambda>s. ucast (sy_mode s)) syms"
  shows "symbol_lines BOFDATA2LSB f strtab pos i (length regs) = put_text (listing i syms)"
  using assms
proof (induction regs arbitrary: pos i syms)
  case (Cons r regs)
  then obtain s ss where s: "syms = s # ss" by (cases syms) auto
  have "chunk pos sizeof_bofioreg f = enc_bofioreg r"
    using Cons.prems(1) by (simp add: chunk_def layout_simps)
  moreover have "symbol_line strtab i r = put_text (line_text i (sy_name s) (ucast (sy_mode s)) (sy_loc s) (sy_len s))"
    using Cons.prems(2,3) s by (intro symbol_line_entry) simp_all
  moreover have "drop (pos + sizeof_bofioreg) f = concat (map enc_bofioreg regs) @ rest"
    using arg_cong [OF Cons.prems(1), of "drop sizeof_bofioreg"] by (simp add: layout_simps add.commute)
  then have "symbol_lines BOFDATA2LSB f strtab (pos + sizeof_bofioreg) (i + 1) (length regs) = put_text (listing (i + 1) ss)"
    using Cons.prems(2,3) s by (intro Cons.IH) simp_all
  ultimately show ?case by (simp add: s then_print_def layout_simps codec_simps)
qed simp

lemma symtab_regs_modes: "map ior_mode (symtab_regs syms soff) = map (\<lambda>s. ucast (sy_mode s)) syms"
  by (induction syms soff rule: symtab_regs.induct) simp_all



lemma swap_values: "swap_byte32 6 = 0x06000000" "swap_byte32 1 = 0x01000000"
  by code_simp+

text \<open>
  A BOF file around a big-endian program is misread. \<open>mkbof\<close> marks the file with the byte order of
  the ELF program but writes its own structures little-endian; \<open>showbof\<close> goes by the mark and takes
  version 6 for 100663296 and one chip for 16777216.
\<close>

theorem showbof_bigendian_misread:
  assumes "sizeof_Elf32_Ehdr \<le> length elf" and "elf ! 5 = BOFDATA2MSB"
  shows "ident (dec_bofhdr (bof_image opts elf bits syms)) ! BI_ENDIAN = BOFDATA2MSB \<and>
    b_version (show_FixEndian_bofhdr BOFDATA2MSB (dec_bofhdr (bof_image opts elf bits syms))) = 0x06000000 \<and>
    b_numchip (show_FixEndian_bofhdr BOFDATA2MSB (dec_bofhdr (bof_image opts elf bits syms))) = 0x01000000"
  using assms by (simp add: dec_bof_image make_bofhdr_def show_FixEndian_bofhdr_def swap_values)

theorem showbof_bigendian_misread_witness:
  "b_numchip (show_FixEndian_bofhdr BOFDATA2MSB (dec_bofhdr (bof_image default_opts (replicate 52 2) [] []))) = 0x01000000"
  using showbof_bigendian_misread [of "replicate 52 2" default_opts "[]" "[]"] by simp

end
