(* ===== verification/I2c.thy ===== *)
theory I2c
  imports Ctext "HOL-Library.Signed_Division"
begin

text \<open>
  The I2C access of the board utilities (\<open>src/utils/util/i2c.c\<close>) and the drivers on top of it: the
  power monitors (\<open>ina219.c\<close>), the temperature sensor (\<open>max1668.c\<close>) and the fan controller
  (\<open>tc654.c\<close>). The system calls are a parameter; what is relied on of the bus and the chips is stated
  as laws over a view of the environment.
\<close>

section \<open>The operating system\<close>

text \<open>
  The system calls the programs make, on an environment of any type. \<open>sys_open\<close> gives a descriptor or -1;
  \<open>sys_read\<close> gives the bytes read, \<^const>\<open>None\<close> for -1; \<open>sys_slave\<close> is \<open>ioctl\<close> with \<open>I2C_SLAVE\<close>.
\<close>

record 'e posix =
  sys_stat :: "string \<Rightarrow> 'e \<Rightarrow> int \<times> 'e"
  sys_open :: "string \<Rightarrow> 'e \<Rightarrow> int \<times> 'e"
  sys_close :: "int \<Rightarrow> 'e \<Rightarrow> int \<times> 'e"
  sys_slave :: "int \<Rightarrow> u8 \<Rightarrow> 'e \<Rightarrow> int \<times> 'e"
  sys_write :: "int \<Rightarrow> u8 list \<Rightarrow> 'e \<Rightarrow> int \<times> 'e"
  sys_read :: "int \<Rightarrow> nat \<Rightarrow> 'e \<Rightarrow> u8 list option \<times> 'e"

text \<open>
  A program's static variables, the environment, what it has printed, and the writes it has made to
  GPIO files.
\<close>

record 'e util_state =
  i2c_dev :: int
  slave_address :: int
  osenv :: 'e
  out :: "u8 list"
  gpio_log :: "(string \<times> u8 list) list"

definition say :: "u8 list \<Rightarrow> 'e util_state \<Rightarrow> 'e util_state" where
  "say t s = s\<lparr>out := out s @ t\<rparr>"

abbreviation (input) I2C_MAX_BUFLEN :: nat where "I2C_MAX_BUFLEN \<equiv> 4"

section \<open>i2c.c\<close>

definition i2c_open :: "'e posix \<Rightarrow> string \<Rightarrow> 'e util_state \<Rightarrow> int \<times> 'e util_state" where
  "i2c_open os path s =
     (case sys_open os path (osenv s) of (fd, e) \<Rightarrow>
        let s = s\<lparr>i2c_dev := fd, osenv := e\<rparr>
        in if fd = -1 then (1, say (bytes_of ''Failed to open '' @ bytes_of path @ [10]) s) else (0, s))"

definition i2c_close :: "'e posix \<Rightarrow> 'e util_state \<Rightarrow> int \<times> 'e util_state" where
  "i2c_close os s =
     (if i2c_dev s \<noteq> 0 then
        case sys_close os (i2c_dev s) (osenv s) of (rv, e) \<Rightarrow> (rv, s\<lparr>i2c_dev := 0, osenv := e\<rparr>)
      else (0, s))"

text \<open>The slave address is set only when it differs from the one remembered.\<close>

definition set_slave :: "'e posix \<Rightarrow> u8 \<Rightarrow> 'e util_state \<Rightarrow> bool \<times> 'e util_state" where
  "set_slave os adr s =
     (if uint adr \<noteq> slave_address s then
        case sys_slave os (i2c_dev s) adr (osenv s) of (r, e) \<Rightarrow>
          if r < 0 then (False, say (bytes_of ''Failed to set slave address'' @ [10]) (s\<lparr>osenv := e\<rparr>))
          else (True, s\<lparr>slave_address := uint adr, osenv := e\<rparr>)
      else (True, s))"

text \<open>\<open>i2c_read\<close> gives the bytes read; \<^const>\<open>None\<close> stands for the result -1.\<close>

definition i2c_read :: "'e posix \<Rightarrow> u8 \<Rightarrow> u8 \<Rightarrow> nat \<Rightarrow> 'e util_state \<Rightarrow> u8 list option \<times> 'e util_state" where
  "i2c_read os adr reg buf_len s =
     (case set_slave os adr s of (ok, s) \<Rightarrow>
        if \<not> ok then (None, s)
        else case sys_write os (i2c_dev s) [reg] (osenv s) of (n, e) \<Rightarrow>
          if n \<noteq> 1 then (None, s\<lparr>osenv := e\<rparr>)
          else case sys_read os (i2c_dev s) buf_len e of (r, e) \<Rightarrow> (r, s\<lparr>osenv := e\<rparr>))"

definition i2c_write :: "'e posix \<Rightarrow> u8 \<Rightarrow> u8 \<Rightarrow> u8 list \<Rightarrow> 'e util_state \<Rightarrow> int \<times> 'e util_state" where
  "i2c_write os adr reg buf s =
     (if length buf > I2C_MAX_BUFLEN then (-1, s)
      else case set_slave os adr s of (ok, s) \<Rightarrow>
        if \<not> ok then (-1, s)
        else case sys_write os (i2c_dev s) (reg # buf) (osenv s) of (n, e) \<Rightarrow>
          (if n = int (length buf) + 1 then int (length buf) else -1, s\<lparr>osenv := e\<rparr>))"

text \<open>The drivers read and write single bytes; a failed read gives 0.\<close>

definition read_byte :: "'e posix \<Rightarrow> u8 \<Rightarrow> u8 \<Rightarrow> 'e util_state \<Rightarrow> int \<times> u8 \<times> 'e util_state" where
  "read_byte os adr reg s =
     (case i2c_read os adr reg 1 s of (r, s) \<Rightarrow> (case r of Some [b] \<Rightarrow> (0, b, s) | _ \<Rightarrow> (1, 0, s)))"

definition write_byte :: "'e posix \<Rightarrow> u8 \<Rightarrow> u8 \<Rightarrow> u8 \<Rightarrow> 'e util_state \<Rightarrow> int \<times> 'e util_state" where
  "write_byte os adr reg b s =
     (case i2c_write os adr reg [b] s of (n, s) \<Rightarrow> (if n \<noteq> 1 then 1 else 0, s))"

section \<open>ina219.c: voltage, current and power\<close>

abbreviation (input) INA219_VOLT_REG :: u8 where "INA219_VOLT_REG \<equiv> 0x02"
abbreviation (input) INA219_CURR_REG :: u8 where "INA219_CURR_REG \<equiv> 0x04"
abbreviation (input) INA219_CAL_REG :: u8 where "INA219_CAL_REG \<equiv> 0x05"
abbreviation (input) INA219_CAL_VALUE :: u32 where "INA219_CAL_VALUE \<equiv> 0x2000"

definition INA219calibrate :: "'e posix \<Rightarrow> u8 \<Rightarrow> 'e util_state \<Rightarrow> int \<times> 'e util_state" where
  "INA219calibrate os i2c_addr s =
     (case i2c_write os i2c_addr INA219_CAL_REG
             [ucast (drop_bit 8 INA219_CAL_VALUE AND 0xFF), ucast (INA219_CAL_VALUE AND 0xFF)] s of
        (n, s) \<Rightarrow> (if n = 2 then 0 else 1, s))"

definition INA219readVoltage :: "'e posix \<Rightarrow> u8 \<Rightarrow> 'e util_state \<Rightarrow> int \<times> u16 \<times> 'e util_state" where
  "INA219readVoltage os i2c_addr s =
     (case i2c_read os i2c_addr INA219_VOLT_REG 2 s of (r, s) \<Rightarrow> (case r of
        Some [r0, r1] \<Rightarrow> (0, word_of_int ((push_bit 5 (uint r0) + drop_bit 3 (uint r1)) * 4), s)
      | _ \<Rightarrow> (1, 0, s)))"

text \<open>A \<open>short\<close> is kept as its value.\<close>

definition INA219readCurrent :: "'e posix \<Rightarrow> u8 \<Rightarrow> 'e util_state \<Rightarrow> int \<times> int \<times> 'e util_state" where
  "INA219readCurrent os i2c_addr s =
     (case i2c_read os i2c_addr INA219_CURR_REG 2 s of (r, s) \<Rightarrow> (case r of
        Some [r0, r1] \<Rightarrow> (0, sint (word_of_int (push_bit 8 (uint r0) + uint r1) :: u16), s)
      | _ \<Rightarrow> (1, 0, s)))"

text \<open>The results of the two reads are ignored. A product outside \<open>int\<close> would be undefined.\<close>

definition INA219readPower :: "'e posix \<Rightarrow> u8 \<Rightarrow> 'e util_state \<Rightarrow> (int \<times> int \<times> 'e util_state) option" where
  "INA219readPower os i2c_addr s =
     (case INA219readVoltage os i2c_addr s of (_, millivolts, s) \<Rightarrow>
      case INA219readCurrent os i2c_addr s of (_, milliamps, s) \<Rightarrow>
        let p = uint millivolts * milliamps
        in if p < - (2 ^ 31) \<or> 2 ^ 31 \<le> p then None else Some (0, p sdiv 1000, s))"

section \<open>max1668.c: temperatures\<close>

definition MAX1668readLocalTemp :: "'e posix \<Rightarrow> u8 \<Rightarrow> 'e util_state \<Rightarrow> int \<times> u8 \<times> 'e util_state" where
  "MAX1668readLocalTemp os i2c_addr s = read_byte os i2c_addr 0x00 s"

definition MAX1668readDX1Temp :: "'e posix \<Rightarrow> u8 \<Rightarrow> 'e util_state \<Rightarrow> int \<times> u8 \<times> 'e util_state" where
  "MAX1668readDX1Temp os i2c_addr s = read_byte os i2c_addr 0x01 s"

definition MAX1668readDX2Temp :: "'e posix \<Rightarrow> u8 \<Rightarrow> 'e util_state \<Rightarrow> int \<times> u8 \<times> 'e util_state" where
  "MAX1668readDX2Temp os i2c_addr s = read_byte os i2c_addr 0x02 s"

definition MAX1668readDX3Temp :: "'e posix \<Rightarrow> u8 \<Rightarrow> 'e util_state \<Rightarrow> int \<times> u8 \<times> 'e util_state" where
  "MAX1668readDX3Temp os i2c_addr s = read_byte os i2c_addr 0x03 s"

definition MAX1668readDX4Temp :: "'e posix \<Rightarrow> u8 \<Rightarrow> 'e util_state \<Rightarrow> int \<times> u8 \<times> 'e util_state" where
  "MAX1668readDX4Temp os i2c_addr s = read_byte os i2c_addr 0x04 s"

section \<open>tc654.c: the fan controller\<close>

abbreviation (input) TC654_RPM1 :: u8 where "TC654_RPM1 \<equiv> 0x00"
abbreviation (input) TC654_RPM2 :: u8 where "TC654_RPM2 \<equiv> 0x01"
abbreviation (input) TC654_FAN_FAULT1 :: u8 where "TC654_FAN_FAULT1 \<equiv> 0x02"
abbreviation (input) TC654_FAN_FAULT2 :: u8 where "TC654_FAN_FAULT2 \<equiv> 0x03"
abbreviation (input) TC654_CONFIG :: u8 where "TC654_CONFIG \<equiv> 0x04"
abbreviation (input) TC654_STATUS :: u8 where "TC654_STATUS \<equiv> 0x05"
abbreviation (input) TC654_DUTY_CYCLE :: u8 where "TC654_DUTY_CYCLE \<equiv> 0x06"
abbreviation (input) TC654_MFR_ID :: u8 where "TC654_MFR_ID \<equiv> 0x07"
abbreviation (input) TC654_VER_ID :: u8 where "TC654_VER_ID \<equiv> 0x08"

definition TC654readConfig :: "'e posix \<Rightarrow> u8 \<Rightarrow> 'e util_state \<Rightarrow> int \<times> u8 \<times> 'e util_state" where
  "TC654readConfig os i2c_addr s = read_byte os i2c_addr TC654_CONFIG s"

text \<open>The body that \<open>TC654readRPM1\<close> and \<open>TC654readRPM2\<close> share.\<close>

definition TC654readRPM :: "u8 \<Rightarrow> 'e posix \<Rightarrow> u8 \<Rightarrow> 'e util_state \<Rightarrow> int \<times> u16 \<times> 'e util_state" where
  "TC654readRPM reg os i2c_addr s =
     (case read_byte os i2c_addr reg s of (r, trpm, s) \<Rightarrow>
        if r \<noteq> 0 then (1, 0, s)
        else case TC654readConfig os i2c_addr s of (r, config, s) \<Rightarrow>
          let mult = (if r \<noteq> 0 \<and> config AND 0x40 \<noteq> 0 then 25 else 50)
          in (0, of_nat (unat trpm * mult), s))"

definition TC654readRPM1 :: "'e posix \<Rightarrow> u8 \<Rightarrow> 'e util_state \<Rightarrow> int \<times> u16 \<times> 'e util_state" where
  "TC654readRPM1 = TC654readRPM TC654_RPM1"

definition TC654readRPM2 :: "'e posix \<Rightarrow> u8 \<Rightarrow> 'e util_state \<Rightarrow> int \<times> u16 \<times> 'e util_state" where
  "TC654readRPM2 = TC654readRPM TC654_RPM2"

definition TC654readFault1 :: "'e posix \<Rightarrow> u8 \<Rightarrow> 'e util_state \<Rightarrow> int \<times> u16 \<times> 'e util_state" where
  "TC654readFault1 os i2c_addr s =
     (case read_byte os i2c_addr TC654_FAN_FAULT1 s of (r, tt, s) \<Rightarrow> if r \<noteq> 0 then (1, 0, s) else (0, of_nat (unat tt * 50), s))"

definition TC654readFault2 :: "'e posix \<Rightarrow> u8 \<Rightarrow> 'e util_state \<Rightarrow> int \<times> u16 \<times> 'e util_state" where
  "TC654readFault2 os i2c_addr s =
     (case read_byte os i2c_addr TC654_FAN_FAULT2 s of (r, tt, s) \<Rightarrow> if r \<noteq> 0 then (1, 0, s) else (0, of_nat (unat tt * 50), s))"

definition TC654writeFault1 :: "'e posix \<Rightarrow> u8 \<Rightarrow> u16 \<Rightarrow> 'e util_state \<Rightarrow> int \<times> 'e util_state" where
  "TC654writeFault1 os i2c_addr threshold s = write_byte os i2c_addr TC654_FAN_FAULT1 (of_nat (unat threshold div 50)) s"

definition TC654writeFault2 :: "'e posix \<Rightarrow> u8 \<Rightarrow> u16 \<Rightarrow> 'e util_state \<Rightarrow> int \<times> 'e util_state" where
  "TC654writeFault2 os i2c_addr threshold s = write_byte os i2c_addr TC654_FAN_FAULT2 (of_nat (unat threshold div 50)) s"

definition TC654writeConfig :: "'e posix \<Rightarrow> u8 \<Rightarrow> u8 \<Rightarrow> 'e util_state \<Rightarrow> int \<times> 'e util_state" where
  "TC654writeConfig os i2c_addr config s = write_byte os i2c_addr TC654_CONFIG config s"

definition TC654readStatus :: "'e posix \<Rightarrow> u8 \<Rightarrow> 'e util_state \<Rightarrow> int \<times> u8 \<times> 'e util_state" where
  "TC654readStatus os i2c_addr s = read_byte os i2c_addr TC654_STATUS s"

definition TC654readDutyCycle :: "'e posix \<Rightarrow> u8 \<Rightarrow> 'e util_state \<Rightarrow> int \<times> u8 \<times> 'e util_state" where
  "TC654readDutyCycle os i2c_addr s = read_byte os i2c_addr TC654_DUTY_CYCLE s"

definition TC654writeDutyCycle :: "'e posix \<Rightarrow> u8 \<Rightarrow> u8 \<Rightarrow> 'e util_state \<Rightarrow> int \<times> 'e util_state" where
  "TC654writeDutyCycle os i2c_addr ds s = write_byte os i2c_addr TC654_DUTY_CYCLE ds s"

definition TC654readManufacturerID :: "'e posix \<Rightarrow> u8 \<Rightarrow> 'e util_state \<Rightarrow> int \<times> u8 \<times> 'e util_state" where
  "TC654readManufacturerID os i2c_addr s = read_byte os i2c_addr TC654_MFR_ID s"

definition TC654readVersionID :: "'e posix \<Rightarrow> u8 \<Rightarrow> 'e util_state \<Rightarrow> int \<times> u8 \<times> 'e util_state" where
  "TC654readVersionID os i2c_addr s = read_byte os i2c_addr TC654_VER_ID s"

section \<open>Register devices\<close>

text \<open>
  What the programs rely on of the \<open>i2c-dev\<close> driver and the chips behind it. A view of the environment
  gives the slave address set on the descriptor, the register the last write pointed to, and for each
  device the registers that keep what is written to them. Setting the address of such a device
  succeeds; a write of one byte sets the pointer; a read gives the register at the pointer and changes
  no register; a longer write stores its data.
\<close>

record 'e i2c_view =
  v_sel :: "'e \<Rightarrow> u8 option"
  v_ptr :: "'e \<Rightarrow> u8"
  v_map :: "'e \<Rightarrow> u8 \<Rightarrow> u8 \<Rightarrow> u8 list option"

definition keeps_registers :: "'e i2c_view \<Rightarrow> 'e \<Rightarrow> 'e \<Rightarrow> bool" where
  "keeps_registers v e e' \<longleftrightarrow> v_sel v e' = v_sel v e \<and> v_map v e' = v_map v e"

definition slave_law :: "'e posix \<Rightarrow> int \<Rightarrow> 'e i2c_view \<Rightarrow> bool" where
  "slave_law os fd v \<longleftrightarrow> (\<forall>a e x e'. v_map v e a \<noteq> Map.empty \<longrightarrow> sys_slave os fd a e = (x, e') \<longrightarrow>
     0 \<le> x \<and> v_sel v e' = Some a \<and> v_map v e' = v_map v e)"

definition pointer_law :: "'e posix \<Rightarrow> int \<Rightarrow> 'e i2c_view \<Rightarrow> bool" where
  "pointer_law os fd v \<longleftrightarrow> (\<forall>a r e n e'. v_sel v e = Some a \<longrightarrow> v_map v e a \<noteq> Map.empty \<longrightarrow> sys_write os fd [r] e = (n, e') \<longrightarrow>
     n = 1 \<and> v_ptr v e' = r \<and> keeps_registers v e e')"

definition read_law :: "'e posix \<Rightarrow> int \<Rightarrow> 'e i2c_view \<Rightarrow> bool" where
  "read_law os fd v \<longleftrightarrow> (\<forall>n e x e'. sys_read os fd n e = (x, e') \<longrightarrow> keeps_registers v e e' \<and>
     (\<forall>a bs. v_sel v e = Some a \<longrightarrow> v_map v e a (v_ptr v e) = Some bs \<longrightarrow> n = length bs \<longrightarrow> x = Some bs))"

definition store_law :: "'e posix \<Rightarrow> int \<Rightarrow> 'e i2c_view \<Rightarrow> bool" where
  "store_law os fd v \<longleftrightarrow> (\<forall>a r bs old e n e'. v_sel v e = Some a \<longrightarrow> v_map v e a r = Some old \<longrightarrow> length bs = length old \<longrightarrow> bs \<noteq> [] \<longrightarrow>
     sys_write os fd (r # bs) e = (n, e') \<longrightarrow>
     n = int (length bs) + 1 \<and> v_sel v e' = Some a \<and> v_map v e' = (v_map v e)(a := (v_map v e a)(r \<mapsto> bs)))"

definition i2c_device :: "'e posix \<Rightarrow> int \<Rightarrow> 'e i2c_view \<Rightarrow> bool" where
  "i2c_device os fd v \<longleftrightarrow> slave_law os fd v \<and> pointer_law os fd v \<and> read_law os fd v \<and> store_law os fd v"

text \<open>
  The remembered slave address is the one set on the descriptor. It is remembered as 0 before it was
  ever set, so nothing is said about address 0.
\<close>

definition synced :: "'e i2c_view \<Rightarrow> 'e util_state \<Rightarrow> bool" where
  "synced v s \<longleftrightarrow> (\<forall>a. a \<noteq> 0 \<longrightarrow> slave_address s = uint a \<longrightarrow> v_sel v (osenv s) = Some a)"

definition ready :: "'e posix \<Rightarrow> 'e i2c_view \<Rightarrow> 'e util_state \<Rightarrow> bool" where
  "ready os v s \<longleftrightarrow> i2c_device os (i2c_dev s) v \<and> synced v s"

abbreviation registers :: "'e i2c_view \<Rightarrow> 'e util_state \<Rightarrow> u8 \<Rightarrow> u8 \<Rightarrow> u8 list option" where
  "registers v s \<equiv> v_map v (osenv s)"

text \<open>The parts of the program state that a transfer leaves alone.\<close>

definition same_program :: "'e util_state \<Rightarrow> 'e util_state \<Rightarrow> bool" where
  "same_program s s' \<longleftrightarrow> i2c_dev s' = i2c_dev s \<and> out s' = out s \<and> gpio_log s' = gpio_log s"

lemma same_program_trans: "same_program s t \<Longrightarrow> same_program t u \<Longrightarrow> same_program s u"
  by (simp add: same_program_def)

lemma set_slave_device:
  assumes "ready os v s" and "a \<noteq> 0" and "registers v s a \<noteq> Map.empty"
  obtains t where "set_slave os a s = (True, t)" "ready os v t" "v_sel v (osenv t) = Some a" "registers v t = registers v s"
    "same_program s t"
proof (cases "uint a = slave_address s")
  case True
  then have "v_sel v (osenv s) = Some a" using assms(1,2) by (simp add: ready_def synced_def)
  then show thesis using assms(1) True by (intro that [of s]) (simp_all add: set_slave_def same_program_def)
next
  case False
  obtain x e where x: "sys_slave os (i2c_dev s) a (osenv s) = (x, e)" by fastforce
  have "slave_law os (i2c_dev s) v" using assms(1) by (simp add: ready_def i2c_device_def)
  then have e: "0 \<le> x" "v_sel v e = Some a" "v_map v e = registers v s"
    using x assms(3) unfolding slave_law_def by blast+
  show thesis
    using False e assms(1) x by (intro that [of "s\<lparr>slave_address := uint a, osenv := e\<rparr>"])
      (simp_all add: set_slave_def ready_def synced_def same_program_def flip: word_uint_eq_iff)
qed

lemma i2c_read_device:
  assumes "ready os v s" and "a \<noteq> 0" and "registers v s a \<noteq> Map.empty"
  obtains x t where "i2c_read os a r n s = (x, t)" "ready os v t" "registers v t = registers v s" "same_program s t"
    "\<And>bs. registers v s a r = Some bs \<Longrightarrow> n = length bs \<Longrightarrow> x = Some bs"
proof -
  obtain t where t: "set_slave os a s = (True, t)" "ready os v t" "v_sel v (osenv t) = Some a" "registers v t = registers v s"
    "same_program s t" using set_slave_device [OF assms] .
  have dev: "pointer_law os (i2c_dev t) v" "read_law os (i2c_dev t) v" "store_law os (i2c_dev t) v"
    using t(2) by (simp_all add: ready_def i2c_device_def)
  obtain m e where m: "sys_write os (i2c_dev t) [r] (osenv t) = (m, e)" by fastforce
  have e: "m = 1" "v_ptr v e = r" "keeps_registers v (osenv t) e"
    using dev(1) t(3,4) assms(3) m unfolding pointer_law_def by metis+
  obtain x e' where x: "sys_read os (i2c_dev t) n e = (x, e')" by fastforce
  have e': "keeps_registers v e e'" using dev(2) x unfolding read_law_def by blast
  have "x = Some bs" if "registers v s a r = Some bs" "n = length bs" for bs
    using dev(2) x e t(3,4) that unfolding read_law_def keeps_registers_def by metis
  then show thesis
    using t e e' m x by (intro that [of x "t\<lparr>osenv := e'\<rparr>"])
      (simp_all add: i2c_read_def ready_def synced_def keeps_registers_def same_program_def)
qed

lemma i2c_write_device:
  assumes "ready os v s" and "a \<noteq> 0" and old: "registers v s a r = Some old" and len: "length bs = length old" "bs \<noteq> []" "length bs \<le> 4"
  obtains t where "i2c_write os a r bs s = (int (length bs), t)" "ready os v t" "same_program s t"
    "registers v t = (registers v s)(a := (registers v s a)(r \<mapsto> bs))"
proof -
  have "registers v s a \<noteq> Map.empty" using old by auto
  then obtain t where t: "set_slave os a s = (True, t)" "ready os v t" "v_sel v (osenv t) = Some a" "registers v t = registers v s"
    "same_program s t" using set_slave_device [OF assms(1,2)] by blast
  have dev: "pointer_law os (i2c_dev t) v" "read_law os (i2c_dev t) v" "store_law os (i2c_dev t) v"
    using t(2) by (simp_all add: ready_def i2c_device_def)
  obtain m e where m: "sys_write os (i2c_dev t) (r # bs) (osenv t) = (m, e)" by fastforce
  have e: "m = int (length bs) + 1" "v_sel v e = Some a" "v_map v e = (registers v s)(a := (registers v s a)(r \<mapsto> bs))"
    using dev(3) [unfolded store_law_def, rule_format, OF t(3) _ len(1,2) m] old t(4) by simp_all
  show thesis
    using t e m len by (intro that [of "t\<lparr>osenv := e\<rparr>"])
      (simp_all add: i2c_write_def ready_def synced_def same_program_def)
qed

lemma read_byte_device:
  assumes "ready os v s" and "a \<noteq> 0" and "registers v s a r = Some [b]"
  obtains t where "read_byte os a r s = (0, b, t)" "ready os v t" "registers v t = registers v s" "same_program s t"
proof -
  have "registers v s a \<noteq> Map.empty" using assms(3) by auto
  then obtain x t where "i2c_read os a r 1 s = (x, t)" "ready os v t" "registers v t = registers v s" "same_program s t"
    "\<And>bs. registers v s a r = Some bs \<Longrightarrow> 1 = length bs \<Longrightarrow> x = Some bs"
    using i2c_read_device [OF assms(1,2)] by metis
  then show thesis using assms(3) by (intro that) (simp_all add: read_byte_def)
qed

lemma read_byte_keeps:
  assumes "ready os v s" and "a \<noteq> 0" and "registers v s a \<noteq> Map.empty"
  obtains x b t where "read_byte os a r s = (x, b, t)" "ready os v t" "registers v t = registers v s" "same_program s t"
proof -
  obtain x t where "i2c_read os a r 1 s = (x, t)" "ready os v t" "registers v t = registers v s" "same_program s t"
    using i2c_read_device [OF assms] by metis
  then show thesis by (cases "read_byte os a r s") (auto simp: read_byte_def split: option.splits list.splits intro: that)
qed

lemma write_byte_device:
  assumes "ready os v s" and "a \<noteq> 0" and "registers v s a r = Some [old]"
  obtains t where "write_byte os a r b s = (0, t)" "ready os v t" "same_program s t"
    "registers v t = (registers v s)(a := (registers v s a)(r \<mapsto> [b]))"
proof -
  obtain t where "i2c_write os a r [b] s = (1, t)" "ready os v t" "same_program s t"
    "registers v t = (registers v s)(a := (registers v s a)(r \<mapsto> [b]))"
    using i2c_write_device [OF assms, of "[b]"] by auto
  then show thesis by (intro that) (simp_all add: write_byte_def)
qed

text \<open>
  C36: transfers on the I2C bus, with the remembered slave address. After a write to a register of one
  device, a read of any kept register of any device gives its value, the new one for the register
  written, and a read of the first register afterwards still gives what was written.
\<close>

theorem i2c_write_read:
  assumes ready: "ready os v s" and addr: "a \<noteq> 0" "b \<noteq> 0"
    and regs: "registers v s a r = Some old" "registers v s b q = Some x"
    and bs: "length bs = length old" "bs \<noteq> []" "length bs \<le> 4"
  shows "\<exists>s1 s2 s3. i2c_write os a r bs s = (int (length bs), s1) \<and>
    i2c_read os b q (length x) s1 = (Some (if a = b \<and> r = q then bs else x), s2) \<and>
    i2c_read os a r (length bs) s2 = (Some bs, s3) \<and> ready os v s3"
proof -
  obtain s1 where s1: "i2c_write os a r bs s = (int (length bs), s1)" "ready os v s1"
    "registers v s1 = (registers v s)(a := (registers v s a)(r \<mapsto> bs))"
    using i2c_write_device [OF ready addr(1) regs(1) bs] by metis
  have q: "registers v s1 b q = Some (if a = b \<and> r = q then bs else x)" and ne: "registers v s1 b \<noteq> Map.empty"
    using s1(3) regs by auto
  obtain y s2 where s2: "i2c_read os b q (length x) s1 = (y, s2)" "ready os v s2" "registers v s2 = registers v s1"
    "\<And>bs. registers v s1 b q = Some bs \<Longrightarrow> length x = length bs \<Longrightarrow> y = Some bs"
    using i2c_read_device [OF s1(2) addr(2) ne, of q "length x"] by metis
  have y: "y = Some (if a = b \<and> r = q then bs else x)" using s2(4) [OF q] regs bs by auto
  have r: "registers v s2 a r = Some bs" "registers v s2 a \<noteq> Map.empty" using s1(3) s2(3) by auto
  obtain z s3 where s3: "i2c_read os a r (length bs) s2 = (z, s3)" "ready os v s3"
    "\<And>bs'. registers v s2 a r = Some bs' \<Longrightarrow> length bs = length bs' \<Longrightarrow> z = Some bs'"
    using i2c_read_device [OF s2(2) addr(1) r(2), of r "length bs"] by metis
  show ?thesis using s1(1) s2(1) y s3(1,2) s3(3) [OF r(1)] by auto
qed

section \<open>A bus with a fan controller\<close>

record demo_bus =
  bus_sel :: "u8 option"
  bus_ptr :: u8
  bus_regs :: "u8 \<Rightarrow> u8 \<Rightarrow> u8 list option"

definition demo_view :: "demo_bus i2c_view" where
  "demo_view = \<lparr>v_sel = bus_sel, v_ptr = bus_ptr, v_map = bus_regs\<rparr>"

definition demo_write :: "u8 list \<Rightarrow> demo_bus \<Rightarrow> int \<times> demo_bus" where
  "demo_write bs e = (case (bus_sel e, bs) of
       (Some a, r # data) \<Rightarrow>
         if data = [] then (1, e\<lparr>bus_ptr := r\<rparr>)
         else (int (length data) + 1, e\<lparr>bus_ptr := r, bus_regs := (bus_regs e)(a := (bus_regs e a)(r \<mapsto> data))\<rparr>)
     | _ \<Rightarrow> (-1, e))"

definition demo_read :: "nat \<Rightarrow> demo_bus \<Rightarrow> u8 list option \<times> demo_bus" where
  "demo_read n e = (case bus_sel e of
       Some a \<Rightarrow> (case bus_regs e a (bus_ptr e) of Some bs \<Rightarrow> (Some (take n bs), e) | None \<Rightarrow> (Some (replicate n 7), e))
     | None \<Rightarrow> (None, e))"

definition demo_posix :: "demo_bus posix" where
  "demo_posix = \<lparr>sys_stat = \<lambda>_ e. (0, e), sys_open = \<lambda>_ e. (3, e), sys_close = \<lambda>_ e. (0, e),
     sys_slave = \<lambda>_ a e. (0, e\<lparr>bus_sel := Some a\<rparr>), sys_write = \<lambda>_. demo_write, sys_read = \<lambda>_. demo_read\<rparr>"

definition demo_regs :: "u8 \<Rightarrow> u8 \<Rightarrow> u8 list option" where
  "demo_regs = (\<lambda>_ _. None)(0x1B := [0x02 \<mapsto> [10], 0x04 \<mapsto> [0x0A], 0x06 \<mapsto> [2]], 0x40 := [0x05 \<mapsto> [0, 0]])"

definition demo_util :: "demo_bus util_state" where
  "demo_util = \<lparr>i2c_dev = 3, slave_address = 0, osenv = \<lparr>bus_sel = None, bus_ptr = 0, bus_regs = demo_regs\<rparr>, out = [], gpio_log = []\<rparr>"

lemma demo_device: "i2c_device demo_posix fd demo_view"
proof -
  have "slave_law demo_posix fd demo_view" "pointer_law demo_posix fd demo_view" "store_law demo_posix fd demo_view"
    by (auto simp: slave_law_def pointer_law_def store_law_def demo_posix_def demo_view_def demo_write_def keeps_registers_def)
  moreover have "read_law demo_posix fd demo_view"
    by (auto simp: read_law_def demo_posix_def demo_view_def demo_read_def keeps_registers_def split: option.splits)
  ultimately show ?thesis by (simp add: i2c_device_def)
qed

lemma demo_ready: "ready demo_posix demo_view demo_util"
  by (simp add: ready_def demo_device synced_def demo_util_def uint_0_iff)

theorem i2c_write_read_witness:
  "\<exists>s1 s2 s3. i2c_write demo_posix 0x40 0x05 [0x20, 0] demo_util = (2, s1) \<and>
    i2c_read demo_posix 0x1B 0x04 1 s1 = (Some [0x0A], s2) \<and>
    i2c_read demo_posix 0x40 0x05 (length [0x20, 0 :: u8]) s2 = (Some [0x20, 0], s3) \<and> ready demo_posix demo_view s3"
  using i2c_write_read [OF demo_ready, of "0x40" "0x1B" "0x05" "[0, 0]" "0x04" "[0x0A]" "[0x20, 0]"]
  by (simp add: demo_view_def demo_util_def demo_regs_def)

section \<open>Ranges of the readings\<close>

lemma voltage_range: "uint (word_of_int ((push_bit 5 (uint (r0 :: u8)) + drop_bit 3 (uint (r1 :: u8))) * 4) :: u16) \<le> 32764"
proof -
  define x where "x = (push_bit 5 (uint r0) + drop_bit 3 (uint r1)) * 4"
  have "uint r0 \<le> 255" "0 \<le> uint r0" "uint r1 \<le> 255" "0 \<le> uint r1"
    using uint_lt2p [of r0] uint_lt2p [of r1] by simp_all
  then have "(uint r0 * 32 + uint r1 div 8) * 4 \<le> 32764" "0 \<le> (uint r0 * 32 + uint r1 div 8) * 4" by presburger+
  then have x: "x \<le> 32764" "0 \<le> x" by (simp_all add: x_def push_bit_eq_mult drop_bit_eq_div)
  then have "uint (word_of_int x :: u16) = x" by (simp add: uint_word_of_int take_bit_int_eq_self)
  then show ?thesis using x by (simp add: x_def)
qed

lemma INA219readVoltage_range: "INA219readVoltage os a s = (r, mv, t) \<Longrightarrow> uint mv \<le> 32764"
  using voltage_range by (auto simp: INA219readVoltage_def split: prod.splits option.splits list.splits)

lemma INA219readCurrent_range:
  assumes "INA219readCurrent os a s = (r, ma, t)"
  shows "- 32768 \<le> ma \<and> ma \<le> 32767"
proof -
  have "- 32768 \<le> sint w \<and> sint w \<le> 32767" for w :: u16
    using sint_ge [of w] sint_lt [of w] by simp
  then show ?thesis
    using assms by (fastforce simp: INA219readCurrent_def split: prod.splits option.splits list.splits)
qed

lemma sdiv_milli:
  fixes p :: int
  assumes "\<bar>p\<bar> \<le> 1073610752"
  shows "\<bar>p sdiv 1000\<bar> \<le> 1073610"
proof -
  have "\<bar>p\<bar> div 1000 \<le> 1073610752 div 1000" using assms by (intro zdiv_mono1) simp_all
  moreover have "0 \<le> \<bar>p\<bar> div 1000" by (simp add: pos_imp_zdiv_nonneg_iff)
  ultimately show ?thesis by (auto simp: signed_divide_int_def abs_mult sgn_if abs_if split: if_splits)
qed


text \<open>
  The speed of a fan is computed with the resolution 50 whatever the resolution bit 0x40 of the
  configuration says: the bit is looked at only when the configuration could not be read.
\<close>

lemma TC654readRPM_ignores_resolution:
  assumes "read_byte os a reg s = (0, trpm, t)"
  shows "fst (snd (TC654readRPM reg os a s)) = of_nat (unat trpm * 50)"
proof -
  have "r \<noteq> 0 \<Longrightarrow> c = 0" if "TC654readConfig os a t = (r, c, u)" for r c u
    using that by (auto simp: TC654readConfig_def read_byte_def split: prod.splits option.splits list.splits)
  then show ?thesis using assms by (auto simp: TC654readRPM_def split: prod.splits)
qed

end
