(* ===== verification/RhinoUtil.thy ===== *)
theory RhinoUtil
  imports I2c
begin

text \<open>
  The board utilities of \<open>src/utils/util\<close>: \<open>rhino_fan\<close>, \<open>rhino_led\<close>, \<open>rhino_pwr\<close>, \<open>rhino_fmc\<close> and
  \<open>rhino_mon\<close>. A program is a function of the system calls, of what \<open>getopt_long\<close> makes of the
  arguments, and of the state; it gives its exit code, what it printed and what it wrote. The modes with
  which files are opened are left out.
\<close>

section \<open>Common parts\<close>

text \<open>
  \<open>getopt_long\<close> is a parameter: from the arguments, the options it returns one after the other, each
  with its argument, and the arguments that are left from \<open>optind\<close> on.
\<close>

type_synonym getopt = "u8 list list \<Rightarrow> (char \<times> u8 list) list \<times> u8 list list"

abbreviation (input) msg :: "string \<Rightarrow> u8 list" where "msg t \<equiv> bytes_of t @ [10]"

definition if_ok :: "int \<times> 'e util_state \<Rightarrow> ('e util_state \<Rightarrow> int \<times> 'e util_state) \<Rightarrow> int \<times> 'e util_state" where
  "if_ok p k = (case p of (r, s) \<Rightarrow> if r \<noteq> 0 then (r, s) else k s)"

definition fmt_02X :: "u8 \<Rightarrow> u8 list" where
  "fmt_02X b = pad_zero 2 (map (\<lambda>c. if 97 \<le> c then c - 32 else c) (nat_digits 16 (unat b)))"

definition pad_left :: "nat \<Rightarrow> u8 list \<Rightarrow> u8 list" where
  "pad_left n t = replicate (n - length t) 32 @ t"

lemma ready_say [simp]: "ready os v (say x s) = ready os v s"
  by (simp add: ready_def synced_def say_def)

lemma say_sel [simp]: "i2c_dev (say x s) = i2c_dev s" "osenv (say x s) = osenv s" "gpio_log (say x s) = gpio_log s"
  by (simp_all add: say_def)

text \<open>Opening a GPIO file, writing a text with its NUL, and closing it.\<close>

definition gpio_set :: "'e posix \<Rightarrow> string \<Rightarrow> string \<Rightarrow> 'e util_state \<Rightarrow> int \<times> 'e util_state" where
  "gpio_set os path t s =
     (case sys_open os path (osenv s) of (fd, e) \<Rightarrow>
        if fd = -1 then (1, s\<lparr>osenv := e\<rparr>)
        else
          let data = bytes_of t @ [0]; e = snd (sys_write os fd data e); e = snd (sys_close os fd e)
          in (0, s\<lparr>osenv := e, gpio_log := gpio_log s @ [(path, data)]\<rparr>))"

text \<open>Opening a GPIO file, reading one byte and closing it; the outer \<^const>\<open>None\<close> is a failed open.\<close>

definition gpio_get :: "'e posix \<Rightarrow> string \<Rightarrow> 'e util_state \<Rightarrow> u8 option option \<times> 'e util_state" where
  "gpio_get os path s =
     (case sys_open os path (osenv s) of (fd, e) \<Rightarrow>
        if fd = -1 then (None, s\<lparr>osenv := e\<rparr>)
        else case sys_read os fd 1 e of (r, e) \<Rightarrow>
          (Some (case r of Some [b] \<Rightarrow> Some b | _ \<Rightarrow> None), s\<lparr>osenv := snd (sys_close os fd e)\<rparr>))"

definition stat_ok :: "'e posix \<Rightarrow> string \<Rightarrow> 'e util_state \<Rightarrow> bool \<times> 'e util_state" where
  "stat_ok os path s = (case sys_stat os path (osenv s) of (r, e) \<Rightarrow> (r \<noteq> -1, s\<lparr>osenv := e\<rparr>))"

section \<open>rhino_fan.c\<close>

abbreviation (input) FAN_CONTRLR_ADDR :: u8 where "FAN_CONTRLR_ADDR \<equiv> 0x1B"

definition duty_label :: "string list" where
  "duty_label = [''30'', ''34.67'', ''39.33'', ''44'', ''48.67'', ''53.33'', ''58'', ''62.67'', ''67.33'', ''72'', ''76.67'', ''81.33'',
     ''86'', ''90.67'', ''95.33'', ''100'']"

record fan_opts =
  clear_flag :: bool
  mode_flag :: bool
  speed_flag :: bool
  pulse_flag :: bool
  fault_flag :: bool
  fan_mode :: u8
  dutycycle :: u8
  pulses :: u8
  threshold :: u16

definition fan_defaults :: fan_opts where
  "fan_defaults = \<lparr>clear_flag = False, mode_flag = False, speed_flag = False, pulse_flag = False, fault_flag = False,
     fan_mode = 97, dutycycle = 2, pulses = 2, threshold = 500\<rparr>"

text \<open>One option of the command line: the text printed, and the new settings unless the program exits.\<close>

definition fan_option :: "char \<Rightarrow> u8 list \<Rightarrow> fan_opts \<Rightarrow> u8 list \<times> fan_opts option" where
  "fan_option c optarg opts =
     (if c = CHR ''m'' then
        let m = hd (optarg @ [0])
        in if m \<noteq> 97 \<and> m \<noteq> 100 then (bytes_of ''Error: MODE must be either 'd' or 'a'' @ [39, 10], None)
           else ([], Some (opts\<lparr>mode_flag := True, fan_mode := m\<rparr>))
      else if c = CHR ''s'' then
        case strtol 10 optarg of (v, found) \<Rightarrow>
          let d = word_of_int v
          in if \<not> found \<or> d > 15 then (msg ''Error: DUTYCYCLE must be in the range [0:15]'', None)
             else ([], Some (opts\<lparr>speed_flag := True, dutycycle := d\<rparr>))
      else if c = CHR ''c'' then ([], Some (opts\<lparr>clear_flag := True\<rparr>))
      else if c = CHR ''p'' then
        case strtol 10 optarg of (v, found) \<Rightarrow>
          let p = word_of_int v
          in if \<not> found \<or> (p \<noteq> 1 \<and> p \<noteq> 2 \<and> p \<noteq> 4 \<and> p \<noteq> 8) then (msg ''Error: PULSES must be in the set (1,2,4,8)'', None)
             else ([], Some (opts\<lparr>pulse_flag := True, pulses := p\<rparr>))
      else if c = CHR ''f'' then
        case strtol 10 optarg of (v, found) \<Rightarrow>
          if \<not> found then (msg ''Error: invalid value for THRESHOLD'', None)
          else ([], Some (opts\<lparr>fault_flag := True, threshold := word_of_int v\<rparr>))
      else (bytes_of ''Unknown option: '' @ bytes_of [c] @ [10], Some opts))"

fun fan_options :: "(char \<times> u8 list) list \<Rightarrow> fan_opts \<Rightarrow> u8 list \<times> fan_opts option" where
  "fan_options [] opts = ([], Some opts)"
| "fan_options ((c, optarg) # rest) opts =
     (case fan_option c optarg opts of
        (t, None) \<Rightarrow> (t, None)
      | (t, Some opts) \<Rightarrow> (case fan_options rest opts of (t', r) \<Rightarrow> (t @ t', r)))"

definition config_mode :: "u8 \<Rightarrow> u8 \<Rightarrow> u8" where
  "config_mode m config = (if m = 100 then config OR 0x20 else config AND 0xDF)"

definition set_fan_mode :: "'e posix \<Rightarrow> u8 \<Rightarrow> 'e util_state \<Rightarrow> int \<times> 'e util_state" where
  "set_fan_mode os m s =
     (case TC654readConfig os FAN_CONTRLR_ADDR s of (r, config, s) \<Rightarrow>
        if r \<noteq> 0 then (0, s)
        else case TC654writeConfig os FAN_CONTRLR_ADDR (config_mode m config) s of (r, s) \<Rightarrow>
          if r = 0 then (0, say (bytes_of ''Fan PWM set to '' @ bytes_of (if m = 100 then ''digital'' else ''analog'') @ msg '' control'') s)
          else (1, say (msg ''Error setting fan PWM control'') s))"

definition set_fan_speed :: "'e posix \<Rightarrow> u8 \<Rightarrow> 'e util_state \<Rightarrow> int \<times> 'e util_state" where
  "set_fan_speed os d s =
     (case TC654writeDutyCycle os FAN_CONTRLR_ADDR d s of (r, s) \<Rightarrow>
        if r = 0 then
          (0, say (bytes_of ''Fan duty cycle set to: '' @ nat_digits 10 (unat d) @ bytes_of '' = '' @ bytes_of (duty_label ! unat d) @ msg ''%'') s)
        else (1, say (msg ''Error setting duty cycle'') s))"

definition pulse_bits :: "u8 \<Rightarrow> u8" where
  "pulse_bits p = (if p = 1 then 0 else if p = 4 then 2 else if p = 8 then 3 else 1)"

definition config_ppr :: "int \<Rightarrow> u8 \<Rightarrow> u8 \<Rightarrow> u8" where
  "config_ppr fan p config =
     (if fan = 1 then (config AND 0xF9) OR push_bit 1 (pulse_bits p) else (config AND 0xE7) OR push_bit 3 (pulse_bits p))"

definition set_fan_ppr :: "'e posix \<Rightarrow> int \<Rightarrow> u8 \<Rightarrow> 'e util_state \<Rightarrow> int \<times> 'e util_state" where
  "set_fan_ppr os fan p s =
     (case TC654readConfig os FAN_CONTRLR_ADDR s of (r, config, s) \<Rightarrow>
        if r \<noteq> 0 then (0, s)
        else case TC654writeConfig os FAN_CONTRLR_ADDR (config_ppr fan p config) s of (r, s) \<Rightarrow>
          if r = 0 then
            (0, say (bytes_of ''Set fan '' @ nat_digits 10 (nat fan) @ bytes_of '' PPR to '' @ nat_digits 10 (unat p) @ [10]) s)
          else (1, say (bytes_of ''Error setting fan '' @ nat_digits 10 (nat fan) @ msg '' PPR'') s))"

definition set_fan_fault :: "'e posix \<Rightarrow> int \<Rightarrow> u16 \<Rightarrow> 'e util_state \<Rightarrow> int \<times> 'e util_state" where
  "set_fan_fault os fan th s =
     (if fan = 1 then
        case TC654writeFault1 os FAN_CONTRLR_ADDR th s of (r, s) \<Rightarrow>
          if r = 0 then (0, say (bytes_of ''Set fan 1 fault threshold to '' @ nat_digits 10 (unat th) @ [10]) s)
          else (1, say (msg ''Error setting fan 1 fault threshold'') s)
      else
        case TC654writeFault2 os FAN_CONTRLR_ADDR th s of (r, s) \<Rightarrow>
          if r = 0 then (0, say (bytes_of ''Set fan 2 fault threshold to '' @ nat_digits 10 (unat th) @ [10]) s)
          else (1, say (msg ''Error setting fan 2 fault threshold'') s))"

definition clear_fan :: "'e posix \<Rightarrow> 'e util_state \<Rightarrow> int \<times> 'e util_state" where
  "clear_fan os s =
     (let fail = (\<lambda>s. (1, say (msg ''Error clearing fan fault'') s))
      in case TC654readConfig os FAN_CONTRLR_ADDR s of (r, config, s) \<Rightarrow>
        if r \<noteq> 0 then fail s
        else case TC654writeConfig os FAN_CONTRLR_ADDR (config OR 0x80) s of (r, s) \<Rightarrow>
          if r \<noteq> 0 then fail s
          else case TC654writeConfig os FAN_CONTRLR_ADDR ((config OR 0x80) AND 0x7F) s of (r, s) \<Rightarrow>
            if r \<noteq> 0 then fail s else (0, say (msg ''Fan fault cleared'') s))"

definition report_fan :: "'e posix \<Rightarrow> int \<Rightarrow> 'e util_state \<Rightarrow> 'e util_state" where
  "report_fan os fan s =
     (case TC654readStatus os FAN_CONTRLR_ADDR s of (r, status, s) \<Rightarrow>
        if r \<noteq> 0 then say (msg ''Error reading fan status'') s
        else if fan = 1 then
          case TC654readRPM1 os FAN_CONTRLR_ADDR s of (r, rpm, s) \<Rightarrow>
            if r = 0 then
              say (bytes_of ''Fan 1 RPM: '' @ nat_digits 10 (unat rpm) @ bytes_of (if status AND 1 \<noteq> 0 then '' FAULT'' else '''') @ [10]) s
            else say (msg ''Error reading fan 1 RPM'') s
        else
          case TC654readRPM2 os FAN_CONTRLR_ADDR s of (r, rpm, s) \<Rightarrow>
            if r = 0 then
              say (bytes_of ''Fan 2 RPM: '' @ nat_digits 10 (unat rpm) @ bytes_of (if status AND 2 \<noteq> 0 then '' FAULT'' else '''') @ [10]) s
            else say (msg ''Error reading fan 2 RPM'') s)"

text \<open>The work of the program once its arguments are known.\<close>

definition run_fan :: "'e posix \<Rightarrow> int \<Rightarrow> fan_opts \<Rightarrow> 'e util_state \<Rightarrow> int \<times> 'e util_state" where
  "run_fan os fan opts s =
     if_ok (i2c_open os ''/dev/i2c-1'' s) (\<lambda>s.
     if_ok (if mode_flag opts then set_fan_mode os (fan_mode opts) s else (0, s)) (\<lambda>s.
     if_ok (if speed_flag opts then set_fan_speed os (dutycycle opts) s else (0, s)) (\<lambda>s.
     if_ok (if pulse_flag opts then set_fan_ppr os fan (pulses opts) s else (0, s)) (\<lambda>s.
     if_ok (if fault_flag opts then set_fan_fault os fan (threshold opts) s else (0, s)) (\<lambda>s.
     if_ok (if clear_flag opts then clear_fan os s else (0, s)) (\<lambda>s.
       (0, snd (i2c_close os (report_fan os fan s)))))))))"

definition rhino_fan :: "'e posix \<Rightarrow> getopt \<Rightarrow> u8 list list \<Rightarrow> 'e util_state \<Rightarrow> int \<times> 'e util_state" where
  "rhino_fan os getopt_long args s =
     (case args of
        [] \<Rightarrow> (1, say (msg ''Usage: rhino_fan FAN_NUMBER [OPTIONS]'') s)
      | arg # _ \<Rightarrow> (case strtol 10 arg of (fan, found) \<Rightarrow>
          if \<not> found then (1, say (msg ''Usage: rhino_fan FAN_NUMBER [OPTIONS]'') s)
          else if \<not> (fan = 1 \<or> fan = 2) then (1, say (msg ''Error: FAN_NUMBER must be 1 or 2'') s)
          else case fan_options (fst (getopt_long args)) fan_defaults of
              (t, None) \<Rightarrow> (1, say t s)
            | (t, Some opts) \<Rightarrow> run_fan os fan opts (say t s)))"

section \<open>rhino_led.c\<close>

definition GPIOEX :: string where "GPIOEX = ''/sys/class/gpio/export''"
abbreviation (input) U_LED_0 :: string where "U_LED_0 \<equiv> ''/sys/class/gpio/gpio131/direction''"
abbreviation (input) U_LED_1 :: string where "U_LED_1 \<equiv> ''/sys/class/gpio/gpio130/direction''"

text \<open>A failed export goes unnoticed.\<close>

definition export_led :: "'e posix \<Rightarrow> string \<Rightarrow> string \<Rightarrow> 'e util_state \<Rightarrow> 'e util_state" where
  "export_led os path number s =
     (case stat_ok os path s of (ok, s) \<Rightarrow> if ok then s else snd (gpio_set os GPIOEX number s))"

definition rhino_led :: "'e posix \<Rightarrow> u8 list list \<Rightarrow> 'e util_state \<Rightarrow> int \<times> 'e util_state" where
  "rhino_led os args s =
     (case args of
        [a1, a2] \<Rightarrow>
          (let s = export_led os U_LED_0 ''131'' s;
               s = export_led os U_LED_1 ''130'' s;
               led_id = fst (strtol 10 a1)
           in if a2 \<noteq> bytes_of ''on'' \<and> a2 \<noteq> bytes_of ''off'' then (1, say (bytes_of ''Error: LED state must be 'on' or 'off'' @ [39, 10]) s)
              else
                let level = (if a2 = bytes_of ''on'' then ''high'' else ''low'')
                in if led_id = 0 then gpio_set os U_LED_0 level s
                   else if led_id = 1 then gpio_set os U_LED_1 level s
                   else (1, say (msg ''Error: LED number must be 0 or 1'') s))
      | _ \<Rightarrow> (1, say (msg ''Usage: rhino_led NUMBER [on|off]'') s))"

section \<open>rhino_pwr.c\<close>

abbreviation (input) FPGA_VCCINT_EN :: string where "FPGA_VCCINT_EN \<equiv> ''/sys/class/gpio/gpio99/direction''"
definition FPGA_VCCO_AUX_EN :: string where "FPGA_VCCO_AUX_EN = ''/sys/class/gpio/gpio100/direction''"
abbreviation (input) FPGA_VCCMGT_EN :: string where "FPGA_VCCMGT_EN \<equiv> ''/sys/class/gpio/gpio101/direction''"
abbreviation (input) FPGA_VCCINT_RD :: string where "FPGA_VCCINT_RD \<equiv> ''/sys/class/gpio/gpio99/value''"
abbreviation (input) FPGA_VCCO_AUX_RD :: string where "FPGA_VCCO_AUX_RD \<equiv> ''/sys/class/gpio/gpio100/value''"
abbreviation (input) FPGA_VCCMGT_RD :: string where "FPGA_VCCMGT_RD \<equiv> ''/sys/class/gpio/gpio101/value''"

text \<open>
  The rails chosen: \<open>vccint\<close>, \<open>vccaux\<close>, \<open>vccmgt\<close>. \<open>flags\<close> are the names of the options that
  \<open>getopt_long_only\<close> finds, \<open>optind1\<close> says that it ends with \<open>optind\<close> 1.
\<close>

definition pwr_rails :: "string list \<Rightarrow> bool \<Rightarrow> bool \<times> bool \<times> bool" where
  "pwr_rails flags optind1 =
     (let all = optind1 \<or> ''all'' \<in> set flags
      in (all \<or> ''vccint'' \<in> set flags, all \<or> ''vccaux'' \<in> set flags, all \<or> ''vccmgt'' \<in> set flags))"

fun pwr_check :: "'e posix \<Rightarrow> (bool \<times> string) list \<Rightarrow> 'e util_state \<Rightarrow> bool \<times> 'e util_state" where
  "pwr_check os [] s = (True, s)"
| "pwr_check os ((flag, path) # rest) s =
     (if flag then
        case stat_ok os path s of (ok, s) \<Rightarrow>
          if ok then pwr_check os rest s
          else (False, say (msg ''Error: kernel does not support power management GPIO access'') s)
      else pwr_check os rest s)"

fun pwr_switch :: "'e posix \<Rightarrow> string \<Rightarrow> (bool \<times> string) list \<Rightarrow> 'e util_state \<Rightarrow> 'e util_state" where
  "pwr_switch os level [] s = s"
| "pwr_switch os level ((flag, path) # rest) s =
     pwr_switch os level rest (if flag then snd (gpio_set os path level s) else s)"

text \<open>
  The state buffer is used for the answer too; \<open>first\<close> is its first byte, if it has been set. A failed
  read leaves the buffer as it is. \<^const>\<open>None\<close> is a test of a byte that was never set.
\<close>

fun pwr_show :: "'e posix \<Rightarrow> (bool \<times> string \<times> string) list \<Rightarrow> u8 option \<Rightarrow> 'e util_state \<Rightarrow> 'e util_state option" where
  "pwr_show os [] first s = Some s"
| "pwr_show os ((flag, path, label) # rest) first s =
     (if flag then
        case gpio_get os path s of (r, s) \<Rightarrow> (case r of
            None \<Rightarrow> pwr_show os rest first s
          | Some v \<Rightarrow> do {
              b \<leftarrow> (case v of Some b \<Rightarrow> Some b | None \<Rightarrow> first);
              let t = (if b = 48 then ''off'' else ''on'');
              pwr_show os rest (Some 111) (say (bytes_of label @ bytes_of t @ [10]) s) })
      else pwr_show os rest first s)"

definition rhino_pwr :: "'e posix \<Rightarrow> string list \<Rightarrow> bool \<Rightarrow> u8 list list \<Rightarrow> 'e util_state \<Rightarrow> (int \<times> 'e util_state) option" where
  "rhino_pwr os flags optind1 rest s =
     (case pwr_rails flags optind1 of (int_flag, aux_flag, mgt_flag) \<Rightarrow>
      let en = [(int_flag, FPGA_VCCINT_EN), (aux_flag, FPGA_VCCO_AUX_EN), (mgt_flag, FPGA_VCCMGT_EN)];
          rd = [(int_flag, FPGA_VCCINT_RD, ''FPGA_VCCINT   : ''), (aux_flag, FPGA_VCCO_AUX_RD, ''FPGA_VCCO_AUX : ''),
                (mgt_flag, FPGA_VCCMGT_RD, ''FPGA_VCCMGT   : '')]
      in case pwr_check os en s of (ok, s) \<Rightarrow>
        if \<not> ok then Some (1, s)
        else case rest of
            [] \<Rightarrow> map_option (\<lambda>s. (0, s)) (pwr_show os rd None s)
          | arg # _ \<Rightarrow>
              if arg = bytes_of ''on'' then map_option (\<lambda>s. (0, s)) (pwr_show os rd (Some 104) (pwr_switch os ''high'' en s))
              else if arg = bytes_of ''off'' then map_option (\<lambda>s. (0, s)) (pwr_show os rd (Some 108) (pwr_switch os ''low'' en s))
              else Some (1, say (bytes_of ''Error: power state must be 'on' or 'off'' @ [39, 10]) s))"

section \<open>rhino_fmc.c\<close>

definition FMC0_SUPPLY_EN :: string where "FMC0_SUPPLY_EN = ''/sys/class/gpio/gpio102/direction''"
abbreviation (input) FMC0_SUPPLY_RD :: string where "FMC0_SUPPLY_RD \<equiv> ''/sys/class/gpio/gpio102/value''"
definition FMC0_AUX_EN :: string where "FMC0_AUX_EN = ''/sys/class/gpio/gpio103/direction''"
abbreviation (input) FMC0_AUX_RD :: string where "FMC0_AUX_RD \<equiv> ''/sys/class/gpio/gpio103/value''"
definition FMC1_SUPPLY_EN :: string where "FMC1_SUPPLY_EN = ''/sys/class/gpio/gpio104/direction''"
abbreviation (input) FMC1_SUPPLY_RD :: string where "FMC1_SUPPLY_RD \<equiv> ''/sys/class/gpio/gpio104/value''"
definition FMC1_AUX_EN :: string where "FMC1_AUX_EN = ''/sys/class/gpio/gpio105/direction''"
abbreviation (input) FMC1_AUX_RD :: string where "FMC1_AUX_RD \<equiv> ''/sys/class/gpio/gpio105/value''"
abbreviation (input) FMC0_GA0 :: string where "FMC0_GA0 \<equiv> ''/sys/class/gpio/gpio140/direction''"
abbreviation (input) FMC0_GA1 :: string where "FMC0_GA1 \<equiv> ''/sys/class/gpio/gpio141/direction''"
abbreviation (input) FMC0_nPRSNT_M2C :: string where "FMC0_nPRSNT_M2C \<equiv> ''/sys/class/gpio/gpio142/value''"
abbreviation (input) FMC1_GA0 :: string where "FMC1_GA0 \<equiv> ''/sys/class/gpio/gpio155/direction''"
abbreviation (input) FMC1_GA1 :: string where "FMC1_GA1 \<equiv> ''/sys/class/gpio/gpio152/direction''"
abbreviation (input) FMC1_nPRSNT_M2C :: string where "FMC1_nPRSNT_M2C \<equiv> ''/sys/class/gpio/gpio153/value''"
definition FMC_PG_C2M :: string where "FMC_PG_C2M = ''/sys/class/gpio/gpio143/direction''"

abbreviation (input) fmc_aux :: "int \<Rightarrow> string" where "fmc_aux fmc \<equiv> (if fmc = 0 then FMC0_AUX_EN else FMC1_AUX_EN)"
abbreviation (input) fmc_supply :: "int \<Rightarrow> string" where "fmc_supply fmc \<equiv> (if fmc = 0 then FMC0_SUPPLY_EN else FMC1_SUPPLY_EN)"

text \<open>A GPIO that is not exported yet is exported by its number, the characters 20 to 22 of its path.\<close>

definition export_gpio :: "'e posix \<Rightarrow> string \<Rightarrow> 'e util_state \<Rightarrow> int \<times> 'e util_state" where
  "export_gpio os path s =
     (case stat_ok os path s of (ok, s) \<Rightarrow> if ok then (0, s) else gpio_set os GPIOEX (take 3 (drop 20 path)) s)"

text \<open>The recurring step of the functions below: export, open, write, close.\<close>

definition fmc_set :: "'e posix \<Rightarrow> string \<Rightarrow> string \<Rightarrow> 'e util_state \<Rightarrow> int \<times> 'e util_state" where
  "fmc_set os path level s = if_ok (export_gpio os path s) (gpio_set os path level)"

definition fmc_power_on :: "'e posix \<Rightarrow> int \<Rightarrow> 'e util_state \<Rightarrow> int \<times> 'e util_state" where
  "fmc_power_on os fmc s =
     if_ok (gpio_set os FPGA_VCCO_AUX_EN ''high'' s) (\<lambda>s.
     if_ok (fmc_set os FMC_PG_C2M ''high'' s) (\<lambda>s.
     if_ok (fmc_set os (fmc_aux fmc) ''high'' s) (fmc_set os (fmc_supply fmc) ''high'')))"

definition fmc_power_off :: "'e posix \<Rightarrow> int \<Rightarrow> 'e util_state \<Rightarrow> int \<times> 'e util_state" where
  "fmc_power_off os fmc s =
     if_ok (fmc_set os (fmc_supply fmc) ''low'' s) (\<lambda>s.
     if_ok (fmc_set os FMC_PG_C2M ''low'' s) (fmc_set os (fmc_aux fmc) ''low''))"

record fmc_opts =
  enable_flag :: bool
  disable_flag :: bool
  address_flag :: bool
  command_flag :: bool
  write_flag :: bool
  fmc_GA :: int

definition fmc_defaults :: fmc_opts where
  "fmc_defaults = \<lparr>enable_flag = False, disable_flag = False, address_flag = False, command_flag = False, write_flag = False, fmc_GA = 0\<rparr>"

definition fmc_option :: "char \<Rightarrow> u8 list \<Rightarrow> fmc_opts \<Rightarrow> u8 list \<times> fmc_opts option" where
  "fmc_option c optarg opts =
     (if c = CHR ''e'' then ([], Some (opts\<lparr>enable_flag := True\<rparr>))
      else if c = CHR ''d'' then ([], Some (opts\<lparr>disable_flag := True\<rparr>))
      else if c = CHR ''a'' then
        case strtol 0 optarg of (v, found) \<Rightarrow>
          if \<not> found \<or> v > 3 \<or> v < 0 then (msg ''Error: invalid value for GA'', None)
          else ([], Some (opts\<lparr>address_flag := True, fmc_GA := v\<rparr>))
      else if c = CHR ''c'' then
        let o1 = hd (optarg @ [0])
        in if o1 = 114 then ([], Some (opts\<lparr>command_flag := True, write_flag := False\<rparr>))
           else if o1 = 119 then ([], Some (opts\<lparr>command_flag := True, write_flag := True\<rparr>))
           else (msg ''Error: -c option requires 'r' or 'w' as an argument'', None)
      else if c = CHR ''?'' then ([], None)
      else (bytes_of ''Unknown option: '' @ bytes_of [c] @ [10], Some opts))"

fun fmc_options :: "(char \<times> u8 list) list \<Rightarrow> fmc_opts \<Rightarrow> u8 list \<times> fmc_opts option" where
  "fmc_options [] opts = ([], Some opts)"
| "fmc_options ((c, optarg) # rest) opts =
     (case fmc_option c optarg opts of
        (t, None) \<Rightarrow> (t, None)
      | (t, Some opts) \<Rightarrow> (case fmc_options rest opts of (t', r) \<Rightarrow> (t @ t', r)))"

definition fmc_address :: "'e posix \<Rightarrow> int \<Rightarrow> int \<Rightarrow> 'e util_state \<Rightarrow> int \<times> 'e util_state" where
  "fmc_address os fmc GA s =
     if_ok (fmc_set os (if fmc = 0 then FMC0_GA0 else FMC1_GA0) (if GA AND 0x02 \<noteq> 0 then ''high'' else ''low'') s) (\<lambda>s.
     if_ok (fmc_set os (if fmc = 0 then FMC0_GA1 else FMC1_GA1) (if GA AND 0x01 \<noteq> 0 then ''high'' else ''low'') s) (\<lambda>s.
       (0, say (bytes_of ''GA[0:1] set to 0x'' @ fmt_02X (word_of_int GA) @ [10]) s)))"

text \<open>A register access; the arguments are those behind the FMC number.\<close>

definition fmc_arg :: "string \<Rightarrow> u8 list list \<Rightarrow> u8 list + u8 \<times> u8 list list" where
  "fmc_arg what args =
     (case args of
        [] \<Rightarrow> Inl (msg ''Usage: rhino_fmc FMCID -c [r|w] I2C_DEVICE REGISTER [VALUE]'')
      | arg # rest \<Rightarrow> (case strtol 0 arg of (v, found) \<Rightarrow>
          if found then Inr (word_of_int v, rest) else Inl (bytes_of what @ arg @ [10])))"

definition fmc_write_reg :: "'e posix \<Rightarrow> u8 \<Rightarrow> u8 \<Rightarrow> u8 list list \<Rightarrow> 'e util_state \<Rightarrow> int \<times> 'e util_state" where
  "fmc_write_reg os dev reg args s =
     (case fmc_arg ''Error: invalid value: '' args of
        Inl t \<Rightarrow> (1, say t s)
      | Inr (val, _) \<Rightarrow> (case i2c_write os dev reg [val] s of (r, s) \<Rightarrow>
          if r = 1 then
            (0, say (bytes_of ''Wrote 0x'' @ fmt_02X val @ bytes_of '' to register 0x'' @ fmt_02X reg @ bytes_of '' on device 0x'' @ fmt_02X dev @ [10]) s)
          else (1, say (msg ''Error: failed to write to register'') s)))"

definition fmc_read_reg :: "'e posix \<Rightarrow> u8 \<Rightarrow> u8 \<Rightarrow> 'e util_state \<Rightarrow> int \<times> 'e util_state" where
  "fmc_read_reg os dev reg s =
     (case i2c_read os dev reg 1 s of (r, s) \<Rightarrow> (case r of
        Some [val] \<Rightarrow>
          (0, say (bytes_of ''Register 0x'' @ fmt_02X reg @ bytes_of '' on device 0x'' @ fmt_02X dev @ bytes_of '' = 0x'' @ fmt_02X val @ [10]) s)
      | _ \<Rightarrow> (1, say (msg ''Error: failed to read register'') s)))"

definition fmc_command :: "'e posix \<Rightarrow> bool \<Rightarrow> u8 list list \<Rightarrow> 'e util_state \<Rightarrow> int \<times> 'e util_state" where
  "fmc_command os wr args s =
     (case i2c_open os ''/dev/i2c-3'' s of (r, s) \<Rightarrow>
        if r \<noteq> 0 then (1, say (msg ''Error: failed to open I2C'') s)
        else case fmc_arg ''Error: invalid I2C device: '' args of
            Inl t \<Rightarrow> (1, say t s)
          | Inr (dev, args) \<Rightarrow> (case fmc_arg ''Error: invalid I2C register: '' args of
              Inl t \<Rightarrow> (1, say t s)
            | Inr (reg, args) \<Rightarrow>
                if_ok (if wr then fmc_write_reg os dev reg args s else fmc_read_reg os dev reg s) (\<lambda>s. (0, snd (i2c_close os s)))))"

text \<open>One line of the status: the text for \<open>'0'\<close> and for \<open>'1'\<close>; nothing for another value.\<close>

definition fmc_line :: "'e posix \<Rightarrow> string \<Rightarrow> u8 list \<Rightarrow> u8 list \<Rightarrow> 'e util_state \<Rightarrow> int \<times> 'e util_state" where
  "fmc_line os path t0 t1 s =
     (case gpio_get os path s of (r, s) \<Rightarrow> (case r of
        None \<Rightarrow> (1, say (msg ''Error: failed to open GPIO'') s)
      | Some None \<Rightarrow> (0, say (msg ''Error: failed to read GPIO'') s)
      | Some (Some v) \<Rightarrow> (0, say (if v = 48 then t0 else if v = 49 then t1 else []) s)))"

text \<open>The three exports are joined by \<open>||\<close>: the first failure ends them.\<close>

definition fmc_slot :: "'e posix \<Rightarrow> int \<Rightarrow> 'e util_state \<Rightarrow> int \<times> 'e util_state" where
  "fmc_slot os fmc s =
     (let gpio = (if fmc = 0 then FMC0_nPRSNT_M2C else FMC1_nPRSNT_M2C);
          fmcaux = (if fmc = 0 then FMC0_AUX_RD else FMC1_AUX_RD);
          fmcsupply = (if fmc = 0 then FMC0_SUPPLY_RD else FMC1_SUPPLY_RD);
          slot = nat_digits 10 (nat fmc) @ [10]
      in case if_ok (export_gpio os gpio s) (\<lambda>s. if_ok (export_gpio os fmcaux s) (export_gpio os fmcsupply)) of (r, s) \<Rightarrow>
        if r \<noteq> 0 then (1, say (msg ''Error: failed to export GPIO'') s)
        else
          if_ok (fmc_line os gpio (bytes_of ''Card present in FMC slot '' @ slot) (bytes_of ''No card present in FMC slot '' @ slot) s) (\<lambda>s.
          if_ok (fmc_line os fmcaux (msg ''Auxillary power: off'') (msg ''Auxillary power: on'') s)
            (fmc_line os fmcsupply (msg ''Supply power: off'') (msg ''Supply power: on''))))"

text \<open>\<^const>\<open>None\<close> is a test of a variable that a failed read left unset.\<close>

definition fmc_status :: "'e posix \<Rightarrow> int \<Rightarrow> 'e util_state \<Rightarrow> (int \<times> 'e util_state) option" where
  "fmc_status os fmc s =
     (case gpio_get os FPGA_VCCO_AUX_RD s of (r, s) \<Rightarrow> (case r of
        None \<Rightarrow> Some (fmc_slot os fmc s)
      | Some v \<Rightarrow> do {
          b \<leftarrow> v;
          Some (if b = 48 then (0, say (msg ''FMC supply power is off'') s) else fmc_slot os fmc s) }))"

text \<open>Powering on or off reports a failure but the program still exits with 0.\<close>

definition run_fmc :: "'e posix \<Rightarrow> int \<Rightarrow> fmc_opts \<Rightarrow> u8 list list \<Rightarrow> 'e util_state \<Rightarrow> (int \<times> 'e util_state) option" where
  "run_fmc os fmc opts rest s =
     (let name = nat_digits 10 (nat fmc)
      in case stat_ok os FPGA_VCCO_AUX_EN s of (ok, s) \<Rightarrow>
        if \<not> ok then Some (1, say (msg ''Error: kernel does not support power management GPIO access'') s)
        else if enable_flag opts then
          if disable_flag opts \<or> address_flag opts \<or> command_flag opts then Some (1, say (msg ''The -e option is mutually exlusive'') s)
          else case fmc_power_on os fmc s of (r, s) \<Rightarrow>
            Some (0, say (if r = 0 then bytes_of ''FMC '' @ name @ msg '' powered on'' else bytes_of ''Failed to power on FMC '' @ name @ [10]) s)
        else if disable_flag opts then
          if address_flag opts \<or> command_flag opts then Some (1, say (msg ''The -d option is mutually exlusive'') s)
          else case fmc_power_off os fmc s of (r, s) \<Rightarrow>
            Some (0, say (if r = 0 then bytes_of ''FMC '' @ name @ msg '' powered off'' else bytes_of ''Failed to power off FMC '' @ name @ [10]) s)
        else if address_flag opts then
          if command_flag opts then Some (1, say (msg ''The -a option is mutually exlusive'') s) else Some (fmc_address os fmc (fmc_GA opts) s)
        else if command_flag opts then Some (fmc_command os (write_flag opts) (drop 1 rest) s)
        else fmc_status os fmc s)"

definition rhino_fmc :: "'e posix \<Rightarrow> getopt \<Rightarrow> u8 list list \<Rightarrow> 'e util_state \<Rightarrow> (int \<times> 'e util_state) option" where
  "rhino_fmc os getopt_long args s =
     (case args of
        [] \<Rightarrow> Some (1, say (msg ''Usage: rhino_fmc FMCID [OPTIONS]'') s)
      | arg # _ \<Rightarrow> (case strtol 10 arg of (fmc, found) \<Rightarrow>
          if \<not> found then Some (1, say (msg ''Usage: rhino_fmc FMCID [OPTIONS]'') s)
          else if \<not> (fmc = 0 \<or> fmc = 1) then Some (1, say (msg ''Error: FMCID must be 0 or 1'') s)
          else case getopt_long args of (found, rest) \<Rightarrow> (case fmc_options found fmc_defaults of
              (t, None) \<Rightarrow> Some (1, say t s)
            | (t, Some opts) \<Rightarrow> run_fmc os fmc opts rest (say t s))))"

section \<open>rhino_mon.c\<close>

abbreviation (input) NCHANNELS :: nat where "NCHANNELS \<equiv> 12"
abbreviation (input) TEMP_MON_ADDR :: u8 where "TEMP_MON_ADDR \<equiv> 0x18"

definition channel_name :: "string list" where
  "channel_name = [''PROCT'', ''FPGAT'', ''AMBT'', ''12V'', ''PROC5V'', ''FPGA1V2'', ''FPGA1V5'', ''FPGA2V5'', ''FPGA3V3'', ''FMC2V5'', ''FMC3V3'', ''FMC12V'']"

definition channel_label :: "string list" where
  "channel_label = [''PROC'', ''FPGA'', ''AMB'', ''12V'', ''PROC_5V'', ''FPGA_1.2V'', ''FPGA_1.5V'', ''FPGA_2.5V'', ''FPGA_3.3V'', ''FMC_2.5V'', ''FMC_3.3V'', ''FMC_12V'']"

definition channel_reg :: "u8 list" where
  "channel_reg = [0, 0, 0, 0x40, 0x49, 0x41, 0x42, 0x43, 0x44, 0x45, 0x46, 0x47]"

record mon_opts =
  voltage_flag :: bool
  current_flag :: bool
  power_flag :: bool
  daemon_flag :: bool
  delay :: int
  logfile :: "u8 list"

text \<open>A name of 100 bytes or more fills the buffer of the log file without a final NUL.\<close>

definition mon_option :: "char \<Rightarrow> u8 list \<Rightarrow> mon_opts \<Rightarrow> u8 list \<times> mon_opts" where
  "mon_option c optarg opts =
     (if c = CHR ''v'' then ([], opts\<lparr>voltage_flag := True\<rparr>)
      else if c = CHR ''c'' then ([], opts\<lparr>current_flag := True\<rparr>)
      else if c = CHR ''p'' then ([], opts\<lparr>power_flag := True\<rparr>)
      else if c = CHR ''d'' then ([], opts\<lparr>daemon_flag := True\<rparr>)
      else if c = CHR ''t'' then
        case strtol 10 optarg of (v, found) \<Rightarrow> ([], opts\<lparr>delay := if \<not> found \<or> v = 0 then 1 else v\<rparr>)
      else if c = CHR ''l'' then ([], opts\<lparr>logfile := take 100 optarg\<rparr>)
      else (bytes_of ''Unknown option: '' @ bytes_of [c] @ [10], opts))"

fun mon_options :: "(char \<times> u8 list) list \<Rightarrow> mon_opts \<Rightarrow> u8 list \<times> mon_opts" where
  "mon_options [] opts =
     ([], if \<not> voltage_flag opts \<and> \<not> current_flag opts \<and> \<not> power_flag opts then opts\<lparr>voltage_flag := True\<rparr> else opts)"
| "mon_options ((c, optarg) # rest) opts =
     (case mon_option c optarg opts of (t, opts) \<Rightarrow> case mon_options rest opts of (t', opts) \<Rightarrow> (t @ t', opts))"

text \<open>The channels chosen by their names, and how many times a name was given; all without a name.\<close>

fun choose_channels :: "u8 list list \<Rightarrow> bool list \<times> nat \<Rightarrow> bool list \<times> nat" where
  "choose_channels [] r = r"
| "choose_channels (arg # rest) (channel, nchannels) =
     choose_channels rest
       (map (\<lambda>(c, name). c \<or> bytes_of name = arg) (zip channel channel_name),
        nchannels + length (filter (\<lambda>name. bytes_of name = arg) channel_name))"

definition mon_channels :: "u8 list list \<Rightarrow> bool list \<times> nat" where
  "mon_channels args =
     (case choose_channels args (replicate NCHANNELS False, 0) of (channel, nchannels) \<Rightarrow>
        if nchannels = 0 then (replicate NCHANNELS True, NCHANNELS) else (channel, nchannels))"

definition mon_calibrate :: "'e posix \<Rightarrow> bool list \<Rightarrow> 'e util_state \<Rightarrow> 'e util_state" where
  "mon_calibrate os channel s =
     fold (\<lambda>i s. if channel ! i then snd (INA219calibrate os (channel_reg ! i) s) else s) [3..<NCHANNELS] s"

abbreviation (input) mon_rule :: "nat \<Rightarrow> u8 list" where
  "mon_rule n \<equiv> bytes_of ''+'' @ concat (replicate n (bytes_of ''-----------+'')) @ [10]"

definition mon_header :: "bool list \<Rightarrow> nat \<Rightarrow> u8 list" where
  "mon_header channel nchannels =
     bytes_of ''|'' @ concat (map (\<lambda>i. if channel ! i then pad_left 10 (bytes_of (channel_label ! i)) @ bytes_of '' |'' else []) [0..<NCHANNELS])
     @ [10] @ mon_rule nchannels"

definition leader_val :: "bool list \<Rightarrow> u8 list" where
  "leader_val channel = bytes_of ''|'' @ concat (map (\<lambda>i. if channel ! i then bytes_of ''           |'' else []) [0, 1, 2])"

text \<open>A \<open>char\<close> is unsigned on the ARM processor.\<close>

definition mon_temp :: "('e util_state \<Rightarrow> int \<times> u8 \<times> 'e util_state) \<Rightarrow> bool \<Rightarrow> 'e util_state \<Rightarrow> 'e util_state" where
  "mon_temp rd chosen s =
     (if chosen then case rd s of (_, temp, s) \<Rightarrow> say (pad_left 9 (nat_digits 10 (unat temp)) @ bytes_of ''C |'') s else s)"

definition fmt_volts :: "u16 \<Rightarrow> u8 list" where
  "fmt_volts mv = pad_left 4 (nat_digits 10 (unat mv div 1000)) @ bytes_of ''.'' @ pad_zero 3 (nat_digits 10 (unat mv mod 1000)) @ bytes_of '' V |''"

text \<open>\<open>%8.3lf\<close> of a number of thousandths.\<close>

definition fmt_milli :: "int \<Rightarrow> u8 list" where
  "fmt_milli v = pad_left 8 ((if v < 0 then [45] else []) @ nat_digits 10 (nat \<bar>v\<bar> div 1000) @ bytes_of ''.'' @ pad_zero 3 (nat_digits 10 (nat \<bar>v\<bar> mod 1000)))"

fun mon_line :: "(u8 \<Rightarrow> 'e util_state \<Rightarrow> (u8 list \<times> 'e util_state) option) \<Rightarrow> bool list \<Rightarrow> nat list \<Rightarrow> 'e util_state \<Rightarrow> 'e util_state option" where
  "mon_line cell channel [] s = Some (say [10] s)"
| "mon_line cell channel (i # is) s =
     (if channel ! i then do { (t, s) \<leftarrow> cell (channel_reg ! i) s; mon_line cell channel is (say t s) }
      else mon_line cell channel is s)"

definition volt_cell :: "'e posix \<Rightarrow> u8 \<Rightarrow> 'e util_state \<Rightarrow> (u8 list \<times> 'e util_state) option" where
  "volt_cell os a s = (case INA219readVoltage os a s of (_, mv, s) \<Rightarrow> Some (fmt_volts mv, s))"

definition amp_cell :: "'e posix \<Rightarrow> u8 \<Rightarrow> 'e util_state \<Rightarrow> (u8 list \<times> 'e util_state) option" where
  "amp_cell os a s = (case INA219readCurrent os a s of (_, ma, s) \<Rightarrow> Some (fmt_milli ma @ bytes_of '' A |'', s))"

definition watt_cell :: "'e posix \<Rightarrow> u8 \<Rightarrow> 'e util_state \<Rightarrow> (u8 list \<times> 'e util_state) option" where
  "watt_cell os a s = do { (_, mw, s) \<leftarrow> INA219readPower os a s; Some (fmt_milli mw @ bytes_of '' W |'', s) }"

text \<open>One round of the loop; the first line printed has no leader but follows the temperatures.\<close>

definition mon_round :: "'e posix \<Rightarrow> mon_opts \<Rightarrow> bool list \<Rightarrow> nat \<Rightarrow> 'e util_state \<Rightarrow> 'e util_state option" where
  "mon_round os opts channel nchannels s = do {
     let s = say (bytes_of ''|'') s;
     let s = mon_temp (MAX1668readDX1Temp os TEMP_MON_ADDR) (channel ! 0) s;
     let s = mon_temp (MAX1668readDX2Temp os TEMP_MON_ADDR) (channel ! 1) s;
     let s = mon_temp (MAX1668readDX3Temp os TEMP_MON_ADDR) (channel ! 2) s;
     s \<leftarrow> (if voltage_flag opts then mon_line (volt_cell os) channel [3..<NCHANNELS] s else Some s);
     let leader = (if voltage_flag opts then leader_val channel else []);
     s \<leftarrow> (if current_flag opts then mon_line (amp_cell os) channel [3..<NCHANNELS] (say leader s) else Some s);
     let leader = (if current_flag opts then leader_val channel else leader);
     s \<leftarrow> (if power_flag opts then mon_line (watt_cell os) channel [3..<NCHANNELS] (say leader s) else Some s);
     Some (say (mon_rule nchannels) s) }"

fun mon_rounds :: "'e posix \<Rightarrow> mon_opts \<Rightarrow> bool list \<Rightarrow> nat \<Rightarrow> nat \<Rightarrow> 'e util_state \<Rightarrow> 'e util_state option" where
  "mon_rounds os opts channel nchannels 0 s = Some s"
| "mon_rounds os opts channel nchannels (Suc n) s = do { s \<leftarrow> mon_round os opts channel nchannels s; mon_rounds os opts channel nchannels n s }"

text \<open>The program in the foreground, up to a number of rounds of its endless loop; the left result is an exit.\<close>

definition rhino_mon :: "'e posix \<Rightarrow> getopt \<Rightarrow> u8 list list \<Rightarrow> nat \<Rightarrow> 'e util_state \<Rightarrow> (int \<times> 'e util_state + 'e util_state) option" where
  "rhino_mon os getopt_long args n s =
     (case getopt_long args of (found, rest) \<Rightarrow>
      case mon_options found \<lparr>voltage_flag = False, current_flag = False, power_flag = False, daemon_flag = False, delay = 1,
          logfile = bytes_of ''/var/log/rhino_mon.log''\<rparr> of (t, opts) \<Rightarrow>
      case mon_channels rest of (channel, nchannels) \<Rightarrow>
      case i2c_open os ''/dev/i2c-1'' (say t s) of (r, s) \<Rightarrow>
        if r \<noteq> 0 then Some (Inl (1, s))
        else map_option Inr (mon_rounds os opts channel nchannels n (say (mon_header channel nchannels) (mon_calibrate os channel s))))"

end
