(* ===== verification/RhinoFan.thy ===== *)
theory RhinoFan
  imports RhinoUtil
begin

text \<open>
  Correctness of \<open>rhino_fan\<close>: the effect of every option on the registers of the fan controller.
\<close>

section \<open>Setting up the fan controller\<close>

text \<open>A step that succeeds and leaves the registers \<open>R\<close>, with the bus still usable; the last step closes it.\<close>

definition leads :: "'e posix \<Rightarrow> 'e i2c_view \<Rightarrow> int \<times> 'e util_state \<Rightarrow> int \<Rightarrow> (u8 \<Rightarrow> u8 \<Rightarrow> u8 list option) \<Rightarrow> bool" where
  "leads os v p fd R \<longleftrightarrow> (\<exists>t. p = (0, t) \<and> ready os v t \<and> i2c_dev t = fd \<and> registers v t = R)"

definition ends :: "'e i2c_view \<Rightarrow> int \<times> 'e util_state \<Rightarrow> (u8 \<Rightarrow> u8 \<Rightarrow> u8 list option) \<Rightarrow> bool" where
  "ends v p R \<longleftrightarrow> (\<exists>t. p = (0, t) \<and> registers v t = R)"

lemma leads_then_ends:
  assumes "leads os v p fd R" and "\<And>t. ready os v t \<Longrightarrow> i2c_dev t = fd \<Longrightarrow> registers v t = R \<Longrightarrow> ends v (k t) R'"
  shows "ends v (if_ok p k) R'"
  using assms by (auto simp: leads_def if_ok_def)

lemma leads_if:
  assumes "ready os v s" and "i2c_dev s = fd" and "c \<Longrightarrow> leads os v p fd R" and "\<not> c \<Longrightarrow> registers v s = R"
  shows "leads os v (if c then p else (0, s)) fd R"
  using assms by (auto simp: leads_def)

text \<open>The registers after writing one byte to a register of the fan controller.\<close>

abbreviation fan_store :: "u8 \<Rightarrow> u8 \<Rightarrow> (u8 \<Rightarrow> u8 \<Rightarrow> u8 list option) \<Rightarrow> u8 \<Rightarrow> u8 \<Rightarrow> u8 list option" where
  "fan_store r b R \<equiv> R(FAN_CONTRLR_ADDR := (R FAN_CONTRLR_ADDR)(r \<mapsto> [b]))"

lemma fan_write:
  assumes "ready os v s" and "registers v s FAN_CONTRLR_ADDR r = Some [old]"
  obtains t where "write_byte os FAN_CONTRLR_ADDR r b s = (0, t)" "ready os v t" "i2c_dev t = i2c_dev s"
    "registers v t = fan_store r b (registers v s)"
proof -
  have "FAN_CONTRLR_ADDR \<noteq> 0" by simp
  then show thesis using write_byte_device [OF assms(1) _ assms(2), of b] that unfolding same_program_def by blast
qed

lemma fan_read:
  assumes "ready os v s" and "registers v s FAN_CONTRLR_ADDR r = Some [b]"
  obtains t where "read_byte os FAN_CONTRLR_ADDR r s = (0, b, t)" "ready os v t" "i2c_dev t = i2c_dev s" "registers v t = registers v s"
proof -
  have "FAN_CONTRLR_ADDR \<noteq> 0" by simp
  then show thesis using read_byte_device [OF assms(1) _ assms(2)] that unfolding same_program_def by blast
qed

lemma fan_read_any:
  assumes "ready os v s" and "registers v s FAN_CONTRLR_ADDR \<noteq> Map.empty"
  obtains x b t where "read_byte os FAN_CONTRLR_ADDR r s = (x, b, t)" "ready os v t" "i2c_dev t = i2c_dev s" "registers v t = registers v s"
proof -
  have "FAN_CONTRLR_ADDR \<noteq> 0" by simp
  then show thesis using read_byte_keeps [OF assms(1) _ assms(2), of r] that unfolding same_program_def by blast
qed

lemma set_fan_mode_leads:
  assumes "ready os v s" and c: "registers v s FAN_CONTRLR_ADDR TC654_CONFIG = Some [c]"
  shows "leads os v (set_fan_mode os m s) (i2c_dev s) (fan_store TC654_CONFIG (config_mode m c) (registers v s))"
proof -
  obtain t where t: "read_byte os FAN_CONTRLR_ADDR TC654_CONFIG s = (0, c, t)" "ready os v t" "i2c_dev t = i2c_dev s"
    "registers v t = registers v s" by (rule fan_read [OF assms])
  have "registers v t FAN_CONTRLR_ADDR TC654_CONFIG = Some [c]" using c t(4) by simp
  then obtain u where "write_byte os FAN_CONTRLR_ADDR TC654_CONFIG (config_mode m c) t = (0, u)" "ready os v u" "i2c_dev u = i2c_dev t"
    "registers v u = fan_store TC654_CONFIG (config_mode m c) (registers v t)" by (rule fan_write [OF t(2)])
  then show ?thesis using t by (simp add: leads_def set_fan_mode_def TC654readConfig_def TC654writeConfig_def)
qed

lemma set_fan_ppr_leads:
  assumes "ready os v s" and c: "registers v s FAN_CONTRLR_ADDR TC654_CONFIG = Some [c]"
  shows "leads os v (set_fan_ppr os fan p s) (i2c_dev s) (fan_store TC654_CONFIG (config_ppr fan p c) (registers v s))"
proof -
  obtain t where t: "read_byte os FAN_CONTRLR_ADDR TC654_CONFIG s = (0, c, t)" "ready os v t" "i2c_dev t = i2c_dev s"
    "registers v t = registers v s" by (rule fan_read [OF assms])
  have "registers v t FAN_CONTRLR_ADDR TC654_CONFIG = Some [c]" using c t(4) by simp
  then obtain u where "write_byte os FAN_CONTRLR_ADDR TC654_CONFIG (config_ppr fan p c) t = (0, u)" "ready os v u" "i2c_dev u = i2c_dev t"
    "registers v u = fan_store TC654_CONFIG (config_ppr fan p c) (registers v t)" by (rule fan_write [OF t(2)])
  then show ?thesis using t by (simp add: leads_def set_fan_ppr_def TC654readConfig_def TC654writeConfig_def)
qed

lemma set_fan_speed_leads:
  assumes "ready os v s" and "registers v s FAN_CONTRLR_ADDR TC654_DUTY_CYCLE = Some [old]"
  shows "leads os v (set_fan_speed os d s) (i2c_dev s) (fan_store TC654_DUTY_CYCLE d (registers v s))"
proof -
  obtain u where "write_byte os FAN_CONTRLR_ADDR TC654_DUTY_CYCLE d s = (0, u)" "ready os v u" "i2c_dev u = i2c_dev s"
    "registers v u = fan_store TC654_DUTY_CYCLE d (registers v s)" by (rule fan_write [OF assms])
  then show ?thesis by (simp add: leads_def set_fan_speed_def TC654writeDutyCycle_def)
qed

abbreviation fault_reg :: "int \<Rightarrow> u8" where
  "fault_reg fan \<equiv> (if fan = 1 then TC654_FAN_FAULT1 else TC654_FAN_FAULT2)"

lemma set_fan_fault_leads:
  assumes "ready os v s" and "registers v s FAN_CONTRLR_ADDR (fault_reg fan) = Some [old]"
  shows "leads os v (set_fan_fault os fan th s) (i2c_dev s) (fan_store (fault_reg fan) (of_nat (unat th div 50)) (registers v s))"
proof -
  obtain u where "write_byte os FAN_CONTRLR_ADDR (fault_reg fan) (of_nat (unat th div 50)) s = (0, u)" "ready os v u" "i2c_dev u = i2c_dev s"
    "registers v u = fan_store (fault_reg fan) (of_nat (unat th div 50)) (registers v s)" by (rule fan_write [OF assms])
  then show ?thesis by (cases "fan = 1") (simp_all add: leads_def set_fan_fault_def TC654writeFault1_def TC654writeFault2_def)
qed

lemma clear_fan_leads:
  assumes "ready os v s" and c: "registers v s FAN_CONTRLR_ADDR TC654_CONFIG = Some [c]"
  shows "leads os v (clear_fan os s) (i2c_dev s) (fan_store TC654_CONFIG ((c OR 0x80) AND 0x7F) (registers v s))"
proof -
  obtain t where t: "read_byte os FAN_CONTRLR_ADDR TC654_CONFIG s = (0, c, t)" "ready os v t" "i2c_dev t = i2c_dev s"
    "registers v t = registers v s" by (rule fan_read [OF assms])
  have "registers v t FAN_CONTRLR_ADDR TC654_CONFIG = Some [c]" using c t(4) by simp
  then obtain u where u: "write_byte os FAN_CONTRLR_ADDR TC654_CONFIG (c OR 0x80) t = (0, u)" "ready os v u" "i2c_dev u = i2c_dev t"
    "registers v u = fan_store TC654_CONFIG (c OR 0x80) (registers v t)" by (rule fan_write [OF t(2)])
  have "registers v u FAN_CONTRLR_ADDR TC654_CONFIG = Some [c OR 0x80]" using u(4) by simp
  then obtain w where "write_byte os FAN_CONTRLR_ADDR TC654_CONFIG ((c OR 0x80) AND 0x7F) u = (0, w)" "ready os v w" "i2c_dev w = i2c_dev u"
    "registers v w = fan_store TC654_CONFIG ((c OR 0x80) AND 0x7F) (registers v u)" by (rule fan_write [OF u(2)])
  then show ?thesis using t u by (simp add: leads_def clear_fan_def Let_def TC654readConfig_def TC654writeConfig_def)
qed

lemma TC654readRPM_keeps:
  assumes "ready os v s" and ne: "registers v s FAN_CONTRLR_ADDR \<noteq> Map.empty" and "TC654readRPM reg os FAN_CONTRLR_ADDR s = (r, rpm, t)"
  shows "registers v t = registers v s \<and> i2c_dev t = i2c_dev s"
proof -
  obtain x b u where u: "read_byte os FAN_CONTRLR_ADDR reg s = (x, b, u)" "ready os v u" "i2c_dev u = i2c_dev s" "registers v u = registers v s"
    by (rule fan_read_any [OF assms(1,2)])
  have "registers v u FAN_CONTRLR_ADDR \<noteq> Map.empty" using u(4) ne by simp
  then obtain y c w where w: "read_byte os FAN_CONTRLR_ADDR TC654_CONFIG u = (y, c, w)" "i2c_dev w = i2c_dev u" "registers v w = registers v u"
    by (rule fan_read_any [OF u(2)])
  show ?thesis using assms(3) u w by (auto simp: TC654readRPM_def TC654readConfig_def Let_def split: if_splits)
qed

lemma report_fan_keeps:
  assumes "ready os v s" and ne: "registers v s FAN_CONTRLR_ADDR \<noteq> Map.empty"
  shows "registers v (report_fan os fan s) = registers v s \<and> i2c_dev (report_fan os fan s) = i2c_dev s"
proof -
  obtain x b u where u: "read_byte os FAN_CONTRLR_ADDR TC654_STATUS s = (x, b, u)" "ready os v u" "i2c_dev u = i2c_dev s" "registers v u = registers v s"
    by (rule fan_read_any [OF assms])
  have ne': "registers v u FAN_CONTRLR_ADDR \<noteq> Map.empty" using u(4) ne by simp
  obtain r1 rpm1 t1 where 1: "TC654readRPM1 os FAN_CONTRLR_ADDR u = (r1, rpm1, t1)" by (metis prod_cases3)
  obtain r2 rpm2 t2 where 2: "TC654readRPM2 os FAN_CONTRLR_ADDR u = (r2, rpm2, t2)" by (metis prod_cases3)
  show ?thesis
    using u TC654readRPM_keeps [OF u(2) ne' 1 [unfolded TC654readRPM1_def]] TC654readRPM_keeps [OF u(2) ne' 2 [unfolded TC654readRPM2_def]] 1 2
    by (simp add: report_fan_def TC654readStatus_def)
qed

lemma config_mode_bit: "n < 8 \<Longrightarrow> bit (config_mode m c) n = (if n = 5 then m = 100 else bit c n)"
  unfolding less_8 config_mode_def
  by (elim disjE) (simp_all add: bit_or_iff bit_and_iff split: if_split)

lemma clear_bit: "n < 8 \<Longrightarrow> bit ((c OR 0x80) AND (0x7F :: u8)) n = (n \<noteq> 7 \<and> bit c n)"
  unfolding less_8 
  by (elim disjE) (simp_all add: bit_or_iff bit_and_iff)

lemma config_ppr_bit:
  assumes "n < 8" and p: "p \<in> {1, 2, 4, 8}"
  shows "bit (config_ppr fan p c) n =
    (if n = (if fan = 1 then 1 else 3) then p \<in> {2, 8} else if n = (if fan = 1 then 2 else 4) then p \<in> {4, 8} else bit c n)"
proof -
  consider "p = 1" | "p = 2" | "p = 4" | "p = 8" using p by auto
  then show ?thesis
    using assms(1) unfolding less_8 config_ppr_def pulse_bits_def
    by cases (elim disjE; simp add: bit_or_iff bit_and_iff bit_push_bit_iff)+
qed

text \<open>
  What the options mean for a bit of the configuration register: bit 7 clears a fault and is left
  at 0, bit 5 selects digital control, the bits 1 and 2 (fan 1) or 3 and 4 (fan 2) hold the binary
  logarithm of the pulses per revolution.
\<close>

definition fan_config_bit :: "int \<Rightarrow> fan_opts \<Rightarrow> u8 \<Rightarrow> nat \<Rightarrow> bool" where
  "fan_config_bit fan opts c n =
     (if clear_flag opts \<and> n = 7 then False
      else if mode_flag opts \<and> n = 5 then fan_mode opts = 100
      else if pulse_flag opts \<and> n = (if fan = 1 then 1 else 3) then pulses opts \<in> {2, 8}
      else if pulse_flag opts \<and> n = (if fan = 1 then 2 else 4) then pulses opts \<in> {4, 8}
      else bit c n)"

definition fan_config :: "int \<Rightarrow> fan_opts \<Rightarrow> u8 \<Rightarrow> u8" where
  "fan_config fan opts c =
     (let c = if mode_flag opts then config_mode (fan_mode opts) c else c;
          c = if pulse_flag opts then config_ppr fan (pulses opts) c else c
      in if clear_flag opts then (c OR 0x80) AND 0x7F else c)"

abbreviation pulses_ok :: "fan_opts \<Rightarrow> bool" where
  "pulses_ok opts \<equiv> pulses opts \<in> {1, 2, 4, 8}"

lemma fan_config_bits: "n < 8 \<Longrightarrow> pulses_ok opts \<Longrightarrow> bit (fan_config fan opts c) n = fan_config_bit fan opts c n"
  by (simp only: fan_config_def Let_def fan_config_bit_def if_distrib [of "\<lambda>w. bit w n"] clear_bit config_ppr_bit config_mode_bit) auto

lemma fan_options_pulses:
  assumes "fan_options found opts = (t, Some opts')" and "pulses_ok opts"
  shows "pulses_ok opts'"
  using assms
proof (induction found opts arbitrary: t rule: fan_options.induct)
  case (2 c optarg rest opts)
  from "2.prems" obtain t1 opts1 where 1: "fan_option c optarg opts = (t1, Some opts1)" 
    by (auto split: prod.splits option.splits)
  have "pulses_ok opts1" using 1 "2.prems"(2) by (auto simp: fan_option_def Let_def split: if_splits prod.splits)
  moreover obtain t2 where "fan_options rest opts1 = (t2, Some opts')" using "2.prems"(1) 1 by (auto split: prod.splits)
  ultimately show ?case using "2.IH" [OF 1 [symmetric] refl] by simp
qed simp

text \<open>A step changes one register of the fan controller by a function of its value.\<close>

definition fan_update :: "u8 \<Rightarrow> (u8 \<Rightarrow> u8) \<Rightarrow> (u8 \<Rightarrow> u8 \<Rightarrow> u8 list option) \<Rightarrow> u8 \<Rightarrow> u8 \<Rightarrow> u8 list option" where
  "fan_update r f R = (case R FAN_CONTRLR_ADDR r of Some [c] \<Rightarrow> fan_store r (f c) R | _ \<Rightarrow> R)"

definition fan_chip :: "int \<Rightarrow> (u8 \<Rightarrow> u8 \<Rightarrow> u8 list option) \<Rightarrow> bool" where
  "fan_chip fan R \<longleftrightarrow> (\<forall>r\<in>{TC654_CONFIG, TC654_DUTY_CYCLE, fault_reg fan}. \<exists>b. R FAN_CONTRLR_ADDR r = Some [b])"

lemma fan_update_byte [simp]: "R FAN_CONTRLR_ADDR r = Some [c] \<Longrightarrow> fan_update r f R = fan_store r (f c) R"
  by (simp add: fan_update_def)

lemma fan_chip_update: "fan_chip fan R \<Longrightarrow> fan_chip fan (fan_update r f R)"
  by (cases "fan = 1") (auto simp: fan_chip_def fan_update_def split: option.splits list.splits)

lemma fan_chipE:
  assumes "fan_chip fan R" and "r \<in> {TC654_CONFIG, TC654_DUTY_CYCLE, fault_reg fan}"
  obtains b where "R FAN_CONTRLR_ADDR r = Some [b]"
  using assms by (auto simp: fan_chip_def)

lemma fan_step_ends:
  assumes "ready os v s" and "i2c_dev s = fd" and R: "registers v s = R" and chip: "fan_chip fan R"
    and step: "c \<Longrightarrow> leads os v p fd (fan_update r f R)"
    and rest: "\<And>t. ready os v t \<Longrightarrow> i2c_dev t = fd \<Longrightarrow> registers v t = (if c then fan_update r f R else R) \<Longrightarrow>
      fan_chip fan (if c then fan_update r f R else R) \<Longrightarrow> ends v (k t) R'"
  shows "ends v (if_ok (if c then p else (0, s)) k) R'"
proof (rule leads_then_ends)
  show "leads os v (if c then p else (0, s)) fd (if c then fan_update r f R else R)"
    using assms(1,2) R step by (intro leads_if) simp_all
  show "ends v (k t) R'" if "ready os v t" "i2c_dev t = fd" "registers v t = (if c then fan_update r f R else R)" for t
    using rest [OF that] chip fan_chip_update by simp
qed

lemma i2c_open_leads:
  assumes "sys_open os path (osenv s) = (fd, e)" and "fd \<noteq> -1" and "i2c_device os fd v" and "slave_address s = 0"
  shows "leads os v (i2c_open os path s) fd (v_map v e)"
  using assms by (auto simp: leads_def i2c_open_def ready_def synced_def uint_0_iff)

lemma fan_updates:
  assumes "ready os v s" and dev: "i2c_dev s = fd" and R: "registers v s = R" and chip: "fan_chip fan R"
  shows "leads os v (set_fan_mode os m s) fd (fan_update TC654_CONFIG (config_mode m) R)"
    and "leads os v (set_fan_ppr os fan p s) fd (fan_update TC654_CONFIG (config_ppr fan p) R)"
    and "leads os v (set_fan_speed os d s) fd (fan_update TC654_DUTY_CYCLE (\<lambda>_. d) R)"
    and "leads os v (set_fan_fault os fan th s) fd (fan_update (fault_reg fan) (\<lambda>_. of_nat (unat th div 50)) R)"
    and "leads os v (clear_fan os s) fd (fan_update TC654_CONFIG (\<lambda>c. (c OR 0x80) AND 0x7F) R)"
proof -
  obtain c where c: "registers v s FAN_CONTRLR_ADDR TC654_CONFIG = Some [c]" using fan_chipE [OF chip] R by blast
  obtain d where d: "registers v s FAN_CONTRLR_ADDR TC654_DUTY_CYCLE = Some [d]" using fan_chipE [OF chip] R by blast
  obtain f where f: "registers v s FAN_CONTRLR_ADDR (fault_reg fan) = Some [f]" using fan_chipE [OF chip] R by blast
  have upc: "fan_update TC654_CONFIG g (registers v s) = fan_store TC654_CONFIG (g c) (registers v s)" for g using c by (simp add: fan_update_def)
  have upd: "fan_update TC654_DUTY_CYCLE g (registers v s) = fan_store TC654_DUTY_CYCLE (g d) (registers v s)" for g
    using d by (simp add: fan_update_def)
  have upf: "fan_update (fault_reg fan) g (registers v s) = fan_store (fault_reg fan) (g f) (registers v s)" for g
    using f by (simp add: fan_update_def)
  show "leads os v (set_fan_mode os m s) fd (fan_update TC654_CONFIG (config_mode m) R)"
    unfolding R [symmetric] upc dev [symmetric] by (rule set_fan_mode_leads [OF assms(1) c])
  show "leads os v (set_fan_ppr os fan p s) fd (fan_update TC654_CONFIG (config_ppr fan p) R)"
    unfolding R [symmetric] upc dev [symmetric] by (rule set_fan_ppr_leads [OF assms(1) c])
  show "leads os v (clear_fan os s) fd (fan_update TC654_CONFIG (\<lambda>c. (c OR 0x80) AND 0x7F) R)"
    unfolding R [symmetric] upc dev [symmetric] by (rule clear_fan_leads [OF assms(1) c])
  show "leads os v (set_fan_speed os d s) fd (fan_update TC654_DUTY_CYCLE (\<lambda>_. d) R)" for d
    unfolding R [symmetric] upd dev [symmetric] by (rule set_fan_speed_leads [OF assms(1) d])
  show "leads os v (set_fan_fault os fan th s) fd (fan_update (fault_reg fan) (\<lambda>_. of_nat (unat th div 50)) R)"
    unfolding R [symmetric] upf dev [symmetric] by (rule set_fan_fault_leads [OF assms(1) f])
qed

definition fan_registers :: "int \<Rightarrow> fan_opts \<Rightarrow> (u8 \<Rightarrow> u8 \<Rightarrow> u8 list option) \<Rightarrow> u8 \<Rightarrow> u8 \<Rightarrow> u8 list option" where
  "fan_registers fan opts R =
     (let R = if mode_flag opts then fan_update TC654_CONFIG (config_mode (fan_mode opts)) R else R;
          R = if speed_flag opts then fan_update TC654_DUTY_CYCLE (\<lambda>_. dutycycle opts) R else R;
          R = if pulse_flag opts then fan_update TC654_CONFIG (config_ppr fan (pulses opts)) R else R;
          R = if fault_flag opts then fan_update (fault_reg fan) (\<lambda>_. of_nat (unat (threshold opts) div 50)) R else R
      in if clear_flag opts then fan_update TC654_CONFIG (\<lambda>c. (c OR 0x80) AND 0x7F) R else R)"

lemma run_fan_ends:
  assumes "sys_open os ''/dev/i2c-1'' (osenv s) = (fd, e)" and "fd \<noteq> -1" and "i2c_device os fd v" and "slave_address s = 0"
    and close: "\<And>e. v_map v (snd (sys_close os fd e)) = v_map v e" and chip: "fan_chip fan (v_map v e)"
  shows "ends v (run_fan os fan opts s) (fan_registers fan opts (v_map v e))"
proof -
  have closed: "ends v (0, snd (i2c_close os (report_fan os fan t))) R"
    if "ready os v t" "i2c_dev t = fd" "registers v t = R" "fan_chip fan R" for t R
  proof -
    have "registers v t FAN_CONTRLR_ADDR \<noteq> Map.empty" using that(3,4) by (auto simp: fan_chip_def)
    then show ?thesis
      using report_fan_keeps [OF that(1), of fan] that(2,3) close [of "osenv (report_fan os fan t)"]
      by (auto simp: ends_def i2c_close_def split: prod.splits)
  qed
  show ?thesis
    unfolding run_fan_def fan_registers_def Let_def
    apply (rule leads_then_ends [OF i2c_open_leads [OF assms(1-4)]])
    apply (rule fan_step_ends [where r = TC654_CONFIG and f = "config_mode (fan_mode opts)"], assumption, assumption, assumption, rule chip)
     apply (rule fan_updates(1); (assumption | rule chip))
    apply (rule fan_step_ends [where r = TC654_DUTY_CYCLE and f = "\<lambda>_. dutycycle opts"], assumption, assumption, assumption, assumption)
     apply (rule fan_updates(3); assumption)
    apply (rule fan_step_ends [where r = TC654_CONFIG and f = "config_ppr fan (pulses opts)"], assumption, assumption, assumption, assumption)
     apply (rule fan_updates(2); assumption)
    apply (rule fan_step_ends [where r = "fault_reg fan" and f = "\<lambda>_. of_nat (unat (threshold opts) div 50)"], assumption, assumption, assumption, assumption)
     apply (rule fan_updates(4); assumption)
    apply (rule fan_step_ends [where r = TC654_CONFIG and f = "\<lambda>c. (c OR 0x80) AND 0x7F"], assumption, assumption, assumption, assumption)
     apply (rule fan_updates(5); assumption)
    apply (rule closed; assumption)
    done
qed

lemma fan_update_at:
  "R FAN_CONTRLR_ADDR r = Some [c] \<Longrightarrow> fan_update r f R a q = (if a = FAN_CONTRLR_ADDR \<and> q = r then Some [f c] else R a q)"
  by simp

lemma fan_registers_at:
  assumes "R FAN_CONTRLR_ADDR TC654_CONFIG = Some [c]" "R FAN_CONTRLR_ADDR TC654_DUTY_CYCLE = Some [d]" "R FAN_CONTRLR_ADDR (fault_reg fan) = Some [f]"
  shows "fan_registers fan opts R a r =
    (if a = FAN_CONTRLR_ADDR \<and> r = TC654_CONFIG then Some [fan_config fan opts c]
     else if a = FAN_CONTRLR_ADDR \<and> r = TC654_DUTY_CYCLE then Some [if speed_flag opts then dutycycle opts else d]
     else if a = FAN_CONTRLR_ADDR \<and> r = fault_reg fan then Some [if fault_flag opts then of_nat (unat (threshold opts) div 50) else f]
     else R a r)"
proof -
  define R1 where "R1 = (if mode_flag opts then fan_update TC654_CONFIG (config_mode (fan_mode opts)) R else R)"
  define c1 where "c1 = (if mode_flag opts then config_mode (fan_mode opts) c else c)"
  have 1: "R1 a r = (if a = FAN_CONTRLR_ADDR \<and> r = TC654_CONFIG then Some [c1] else R a r)" for a r
    using assms(1) by (simp add: R1_def c1_def)
  define R2 where "R2 = (if speed_flag opts then fan_update TC654_DUTY_CYCLE (\<lambda>_. dutycycle opts) R1 else R1)"
  have 2: "R2 a r = (if a = FAN_CONTRLR_ADDR \<and> r = TC654_DUTY_CYCLE then Some [if speed_flag opts then dutycycle opts else d] else R1 a r)" for a r
    using assms(2) by (simp add: R2_def 1)
  define R3 where "R3 = (if pulse_flag opts then fan_update TC654_CONFIG (config_ppr fan (pulses opts)) R2 else R2)"
  define c3 where "c3 = (if pulse_flag opts then config_ppr fan (pulses opts) c1 else c1)"
  have 3: "R3 a r = (if a = FAN_CONTRLR_ADDR \<and> r = TC654_CONFIG then Some [c3] else R2 a r)" for a r
    by (simp add: R3_def c3_def 1 2)
  define R4 where "R4 = (if fault_flag opts then fan_update (fault_reg fan) (\<lambda>_. of_nat (unat (threshold opts) div 50)) R3 else R3)"
  have 4: "R4 a r = (if a = FAN_CONTRLR_ADDR \<and> r = fault_reg fan then Some [if fault_flag opts then of_nat (unat (threshold opts) div 50) else f]
      else R3 a r)" for a r
    using assms(3) by (cases "fan = 1") (simp_all add: R4_def 1 2 3)
  have "fan_registers fan opts R = (if clear_flag opts then fan_update TC654_CONFIG (\<lambda>c. (c OR 0x80) AND 0x7F) R4 else R4)"
    by (simp only: fan_registers_def Let_def R1_def R2_def R3_def R4_def)
  moreover have "R4 FAN_CONTRLR_ADDR TC654_CONFIG = Some [c3]" by (simp add: 3 4)
  ultimately show ?thesis
    by (cases "fan = 1") (simp_all add: fan_update_at 1 2 3 4 fan_config_def Let_def c1_def c3_def)
qed

text \<open>
  C37: \<open>rhino_fan\<close> sets the fan controller as asked. When the bus works, the program exits with 0; each
  bit of the configuration register is the one the options ask for or the one that was there before,
  the duty cycle and the fault threshold (in steps of 50 RPM) are set when asked for, and no other
  register of any device is changed.
\<close>

theorem rhino_fan_registers:
  assumes args: "args \<noteq> []" "strtol 10 (hd args) = (fan, True)" "fan = 1 \<or> fan = 2"
    and opts: "fan_options (fst (getopt_long args)) fan_defaults = (t, Some opts)"
    and bus: "sys_open os ''/dev/i2c-1'' (osenv s) = (fd, e)" "fd \<noteq> -1" "i2c_device os fd v" "slave_address s = 0"
    and close: "\<forall>e. v_map v (snd (sys_close os fd e)) = v_map v e"
    and regs: "v_map v e FAN_CONTRLR_ADDR TC654_CONFIG = Some [c]" "v_map v e FAN_CONTRLR_ADDR TC654_DUTY_CYCLE = Some [d]"
      "v_map v e FAN_CONTRLR_ADDR (fault_reg fan) = Some [f]"
  shows "\<exists>s' c'. rhino_fan os getopt_long args s = (0, s') \<and>
    registers v s' FAN_CONTRLR_ADDR TC654_CONFIG = Some [c'] \<and> (\<forall>n<8. bit c' n = fan_config_bit fan opts c n) \<and>
    registers v s' FAN_CONTRLR_ADDR TC654_DUTY_CYCLE = Some [if speed_flag opts then dutycycle opts else d] \<and>
    registers v s' FAN_CONTRLR_ADDR (fault_reg fan) = Some [if fault_flag opts then of_nat (unat (threshold opts) div 50) else f] \<and>
    (\<forall>a r. a \<noteq> FAN_CONTRLR_ADDR \<or> r \<notin> {TC654_CONFIG, TC654_DUTY_CYCLE, fault_reg fan} \<longrightarrow> registers v s' a r = v_map v e a r)"
proof -
  obtain arg rest where a: "args = arg # rest" using args(1) by (cases args) auto
  have "pulses_ok opts" by (rule fan_options_pulses [OF opts]) (simp add: fan_defaults_def)
  then have bits: "\<forall>n<8. bit (fan_config fan opts c) n = fan_config_bit fan opts c n" using fan_config_bits by blast
  have "fan_chip fan (v_map v e)" using regs by (simp add: fan_chip_def)
  then have "ends v (run_fan os fan opts (say t s)) (fan_registers fan opts (v_map v e))"
    using bus close [rule_format] by (intro run_fan_ends) (simp_all add: say_def)
  then obtain s' where s': "run_fan os fan opts (say t s) = (0, s')" "registers v s' = fan_registers fan opts (v_map v e)"
    unfolding ends_def by blast
  note at = fan_registers_at [where R = "v_map v e", OF regs]
  have "rhino_fan os getopt_long args s = (0, s')" using args opts s'(1) by (simp add: rhino_fan_def a)
  moreover have "registers v s' FAN_CONTRLR_ADDR TC654_CONFIG = Some [fan_config fan opts c]"
    unfolding s'(2) at by simp
  moreover have "registers v s' FAN_CONTRLR_ADDR TC654_DUTY_CYCLE = Some [if speed_flag opts then dutycycle opts else d]"
    unfolding s'(2) at by simp
  moreover have "registers v s' FAN_CONTRLR_ADDR (fault_reg fan) = Some [if fault_flag opts then of_nat (unat (threshold opts) div 50) else f]"
    unfolding s'(2) at by simp
  moreover have "\<forall>a r. a \<noteq> FAN_CONTRLR_ADDR \<or> r \<notin> {TC654_CONFIG, TC654_DUTY_CYCLE, fault_reg fan} \<longrightarrow> registers v s' a r = v_map v e a r"
    unfolding s'(2) at by simp
  ultimately show ?thesis using bits by blast
qed

theorem rhino_fan_registers_witness:
  "\<exists>s' c'. rhino_fan demo_posix (\<lambda>_. ([(CHR ''p'', [52])], [])) [[49]] demo_util = (0, s') \<and>
    registers demo_view s' 0x1B 0x04 = Some [c'] \<and> \<not> bit c' 1 \<and> bit c' 2 \<and> bit c' 3 \<and> registers demo_view s' 0x1B 0x06 = Some [2]"
proof -
  have num: "strtol 10 [49] = (1, True)" "strtol 10 [52] = (4, True)" by code_simp+
  have o: "fan_options (fst ((\<lambda>_. ([(CHR ''p'', [52])], [])) [[49]])) fan_defaults = ([], Some (fan_defaults\<lparr>pulse_flag := True, pulses := 4\<rparr>))"
    by (simp add: fan_option_def num)
  have e: "sys_open demo_posix ''/dev/i2c-1'' (osenv demo_util) = (3, osenv demo_util)" "slave_address demo_util = 0"
    "\<forall>e. v_map demo_view (snd (sys_close demo_posix 3 e)) = v_map demo_view e"
    by (simp_all add: demo_posix_def demo_util_def)
  have r: "v_map demo_view (osenv demo_util) 0x1B 0x04 = Some [0x0A]" "v_map demo_view (osenv demo_util) 0x1B 0x06 = Some [2]"
    "v_map demo_view (osenv demo_util) 0x1B (fault_reg 1) = Some [10]"
    by (simp_all add: demo_view_def demo_util_def demo_regs_def)
  have "\<exists>s' c'. rhino_fan demo_posix (\<lambda>_. ([(CHR ''p'', [52])], [])) [[49]] demo_util = (0, s') \<and>
    registers demo_view s' 0x1B 0x04 = Some [c'] \<and> (\<forall>n<8. bit c' n = fan_config_bit 1 (fan_defaults\<lparr>pulse_flag := True, pulses := 4\<rparr>) 0x0A n) \<and>
    registers demo_view s' 0x1B 0x06 = Some [2]"
    using rhino_fan_registers [of "[[49]]", OF _ _ _ o e(1) _ demo_device e(2,3) r] num by (simp add: fan_defaults_def) blast
  moreover have "\<not> fan_config_bit 1 (fan_defaults\<lparr>pulse_flag := True, pulses := 4\<rparr>) 0x0A 1"
    "fan_config_bit 1 (fan_defaults\<lparr>pulse_flag := True, pulses := 4\<rparr>) 0x0A 2" "fan_config_bit 1 (fan_defaults\<lparr>pulse_flag := True, pulses := 4\<rparr>) 0x0A 3"
    by (simp_all add: fan_config_bit_def fan_defaults_def)
  ultimately show ?thesis by (metis one_less_numeral_iff semiring_norm(76) numeral_less_iff less_num_simps)
qed

end
