(* ===== verification/RhinoFmc.thy ===== *)
theory RhinoFmc
  imports RhinoUtil
begin

text \<open>
  Correctness of \<open>rhino_fmc\<close>: the order in which the supplies of the FMC slots are switched.
\<close>

section \<open>Power sequencing of the FMC slots\<close>

lemma distinct_paths:
  "distinct [GPIOEX, FPGA_VCCO_AUX_EN, FMC_PG_C2M, FMC0_SUPPLY_EN, FMC0_AUX_EN, FMC1_SUPPLY_EN, FMC1_AUX_EN]"
  unfolding GPIOEX_def FPGA_VCCO_AUX_EN_def FMC_PG_C2M_def FMC0_SUPPLY_EN_def FMC0_AUX_EN_def FMC1_SUPPLY_EN_def FMC1_AUX_EN_def by simp

lemma path_neq [simp]:
  "GPIOEX \<noteq> FPGA_VCCO_AUX_EN" "GPIOEX \<noteq> FMC_PG_C2M" "GPIOEX \<noteq> FMC0_SUPPLY_EN" "GPIOEX \<noteq> FMC0_AUX_EN" "GPIOEX \<noteq> FMC1_SUPPLY_EN" "GPIOEX \<noteq> FMC1_AUX_EN"
  "FPGA_VCCO_AUX_EN \<noteq> GPIOEX" "FPGA_VCCO_AUX_EN \<noteq> FMC_PG_C2M" "FPGA_VCCO_AUX_EN \<noteq> FMC0_SUPPLY_EN" "FPGA_VCCO_AUX_EN \<noteq> FMC0_AUX_EN" "FPGA_VCCO_AUX_EN \<noteq> FMC1_SUPPLY_EN" "FPGA_VCCO_AUX_EN \<noteq> FMC1_AUX_EN"
  "FMC_PG_C2M \<noteq> GPIOEX" "FMC_PG_C2M \<noteq> FPGA_VCCO_AUX_EN" "FMC_PG_C2M \<noteq> FMC0_SUPPLY_EN" "FMC_PG_C2M \<noteq> FMC0_AUX_EN" "FMC_PG_C2M \<noteq> FMC1_SUPPLY_EN" "FMC_PG_C2M \<noteq> FMC1_AUX_EN"
  "FMC0_SUPPLY_EN \<noteq> GPIOEX" "FMC0_SUPPLY_EN \<noteq> FPGA_VCCO_AUX_EN" "FMC0_SUPPLY_EN \<noteq> FMC_PG_C2M" "FMC0_SUPPLY_EN \<noteq> FMC0_AUX_EN" "FMC0_SUPPLY_EN \<noteq> FMC1_SUPPLY_EN" "FMC0_SUPPLY_EN \<noteq> FMC1_AUX_EN"
  "FMC0_AUX_EN \<noteq> GPIOEX" "FMC0_AUX_EN \<noteq> FPGA_VCCO_AUX_EN" "FMC0_AUX_EN \<noteq> FMC_PG_C2M" "FMC0_AUX_EN \<noteq> FMC0_SUPPLY_EN" "FMC0_AUX_EN \<noteq> FMC1_SUPPLY_EN" "FMC0_AUX_EN \<noteq> FMC1_AUX_EN"
  "FMC1_SUPPLY_EN \<noteq> GPIOEX" "FMC1_SUPPLY_EN \<noteq> FPGA_VCCO_AUX_EN" "FMC1_SUPPLY_EN \<noteq> FMC_PG_C2M" "FMC1_SUPPLY_EN \<noteq> FMC0_SUPPLY_EN" "FMC1_SUPPLY_EN \<noteq> FMC0_AUX_EN" "FMC1_SUPPLY_EN \<noteq> FMC1_AUX_EN"
  "FMC1_AUX_EN \<noteq> GPIOEX" "FMC1_AUX_EN \<noteq> FPGA_VCCO_AUX_EN" "FMC1_AUX_EN \<noteq> FMC_PG_C2M" "FMC1_AUX_EN \<noteq> FMC0_SUPPLY_EN" "FMC1_AUX_EN \<noteq> FMC0_AUX_EN" "FMC1_AUX_EN \<noteq> FMC1_SUPPLY_EN"
  using distinct_paths by (simp_all add: eq_commute)

lemma low_not_high [simp]: "bytes_of ''low'' \<noteq> bytes_of ''high''"
  by code_simp

text \<open>The level of each GPIO after a list of writes, and the rule that a slot's supply is on only with its auxiliary power.\<close>

definition gpio_high :: "(string \<times> u8 list) list \<Rightarrow> string \<Rightarrow> bool" where
  "gpio_high log = foldl (\<lambda>lev (path, data). lev(path := data = bytes_of ''high'' @ [0])) (\<lambda>_. False) log"

definition supply_rule :: "(string \<Rightarrow> bool) \<Rightarrow> bool" where
  "supply_rule lev \<longleftrightarrow> (lev FMC0_SUPPLY_EN \<longrightarrow> lev FMC0_AUX_EN \<and> lev FPGA_VCCO_AUX_EN) \<and>
     (lev FMC1_SUPPLY_EN \<longrightarrow> lev FMC1_AUX_EN \<and> lev FPGA_VCCO_AUX_EN)"

definition always_safe :: "(string \<times> u8 list) list \<Rightarrow> bool" where
  "always_safe log \<longleftrightarrow> (\<forall>k\<le>length log. supply_rule (gpio_high (take k log)))"

lemma gpio_high_append [simp]: "gpio_high (log @ [(path, data)]) = (gpio_high log)(path := data = bytes_of ''high'' @ [0])"
  by (simp add: gpio_high_def)

lemma always_safe_append: "always_safe (log @ [x]) \<longleftrightarrow> always_safe log \<and> supply_rule (gpio_high (log @ [x]))"
proof -
  have "take k (log @ [x]) = (if k \<le> length log then take k log else log @ [x])" for k by simp
  then show ?thesis unfolding always_safe_def by (metis length_append_singleton le_Suc_eq not_less_eq_eq order_refl)
qed

lemma always_safe_last: "always_safe log \<Longrightarrow> supply_rule (gpio_high log)"
  by (auto simp: always_safe_def)

text \<open>
  One step: if the new level keeps the rule, the writes stay safe. The other levels are kept, and
  the level is set when the step succeeds.
\<close>

definition stepped :: "(string \<times> u8 list) list \<Rightarrow> string \<Rightarrow> bool \<Rightarrow> int \<Rightarrow> (string \<times> u8 list) list \<Rightarrow> bool" where
  "stepped log path b r log' \<longleftrightarrow> always_safe log' \<and> (\<forall>p. p \<noteq> GPIOEX \<longrightarrow> p \<noteq> path \<longrightarrow> gpio_high log' p = gpio_high log p) \<and>
     (r = 0 \<longrightarrow> gpio_high log' path = b)"

lemma gpio_set_log:
  assumes "gpio_set os path t s = (r, s')"
  shows "r = 0 \<and> gpio_log s' = gpio_log s @ [(path, bytes_of t @ [0])] \<or> r = 1 \<and> gpio_log s' = gpio_log s"
  using assms by (auto simp: gpio_set_def Let_def split: prod.splits if_splits)

lemma gpio_set_stepped:
  assumes "gpio_set os path (if b then ''high'' else ''low'') s = (r, s')" and "always_safe (gpio_log s)"
    and "supply_rule ((gpio_high (gpio_log s))(path := b))"
  shows "stepped (gpio_log s) path b r (gpio_log s')"
  using gpio_set_log [OF assms(1)] assms(2,3) by (cases b) (auto simp: stepped_def always_safe_append)

lemma supply_rule_export [simp]: "supply_rule (lev(GPIOEX := x)) = supply_rule lev"
  by (simp add: supply_rule_def)

lemma export_gpio_stepped:
  assumes "export_gpio os path s = (r, s')" and "always_safe (gpio_log s)"
  shows "always_safe (gpio_log s') \<and> (\<forall>p. p \<noteq> GPIOEX \<longrightarrow> gpio_high (gpio_log s') p = gpio_high (gpio_log s) p)"
proof -
  obtain ok s1 where 1: "stat_ok os path s = (ok, s1)" "gpio_log s1 = gpio_log s"
    by (cases "sys_stat os path (osenv s)") (simp add: stat_ok_def)
  show ?thesis
    using assms 1 gpio_set_log [of os GPIOEX "take 3 (drop 20 path)" s1 r s'] always_safe_last [OF assms(2)]
    by (auto simp: export_gpio_def always_safe_append split: if_splits)
qed

lemma fmc_set_stepped:
  assumes "fmc_set os path (if b then ''high'' else ''low'') s = (r, s')" and "always_safe (gpio_log s)"
    and "supply_rule ((gpio_high (gpio_log s))(path := b))" and "path \<noteq> GPIOEX"
  shows "stepped (gpio_log s) path b r (gpio_log s')"
proof -
  obtain r1 s1 where 1: "export_gpio os path s = (r1, s1)" by fastforce
  note e = export_gpio_stepped [OF 1 assms(2)]
  have eq: "supply_rule ((gpio_high (gpio_log s1))(path := b))"
  proof -
    have "gpio_high (gpio_log s1) = (gpio_high (gpio_log s))(GPIOEX := gpio_high (gpio_log s1) GPIOEX)" using e by (simp add: fun_eq_iff)
    then have "(gpio_high (gpio_log s1))(path := b) = ((gpio_high (gpio_log s))(path := b))(GPIOEX := gpio_high (gpio_log s1) GPIOEX)"
      using fun_upd_twist [OF assms(4)] by metis
    then show ?thesis using assms(3) by simp
  qed
  show ?thesis
  proof (cases "r1 = 0")
    case True
    then have "gpio_set os path (if b then ''high'' else ''low'') s1 = (r, s')" using assms(1) 1 by (simp add: fmc_set_def if_ok_def)
    then show ?thesis using gpio_set_stepped [of os path b s1 r s'] e eq by (simp add: stepped_def)
  next
    case False
    then show ?thesis using assms(1) 1 e by (auto simp: fmc_set_def if_ok_def stepped_def)
  qed
qed

lemma if_okE:
  assumes "if_ok p k = (r, t)"
  obtains s where "p = (0, s)" "k s = (r, t)" | "p = (r, t)" "r \<noteq> 0"
  using assms by (cases p) (auto simp: if_ok_def split: if_splits)

lemma fmc_power_on_safe:
  assumes "always_safe (gpio_log s)" and "fmc_power_on os fmc s = (r, s')"
  shows "always_safe (gpio_log s')"
proof -
  note rule = always_safe_last [OF assms(1), unfolded supply_rule_def]
  note paths = fmc_set_stepped [where b = True, unfolded if_True]
  obtain r1 s1 where 1: "gpio_set os FPGA_VCCO_AUX_EN ''high'' s = (r1, s1)" by fastforce
  have st1: "stepped (gpio_log s) FPGA_VCCO_AUX_EN True r1 (gpio_log s1)"
    using gpio_set_stepped [where b = True, unfolded if_True, OF 1 assms(1)] rule by (simp add: supply_rule_def)
  obtain r2 s2 where 2: "fmc_set os FMC_PG_C2M ''high'' s1 = (r2, s2)" by fastforce
  have st2: "stepped (gpio_log s1) FMC_PG_C2M True r2 (gpio_log s2)" if "r1 = 0"
    using paths [OF 2] st1 that rule by (cases "fmc = 0") (simp_all add: supply_rule_def stepped_def)
  obtain r3 s3 where 3: "fmc_set os (fmc_aux fmc) ''high'' s2 = (r3, s3)" by fastforce
  have st3: "stepped (gpio_log s2) (fmc_aux fmc) True r3 (gpio_log s3)" if "r1 = 0" "r2 = 0"
    using paths [OF 3] st1 st2 that rule by (cases "fmc = 0") (simp_all add: supply_rule_def stepped_def)
  obtain r4 s4 where 4: "fmc_set os (fmc_supply fmc) ''high'' s3 = (r4, s4)" by fastforce
  have st4: "stepped (gpio_log s3) (fmc_supply fmc) True r4 (gpio_log s4)" if "r1 = 0" "r2 = 0" "r3 = 0"
    using paths [OF 4] st1 st2 st3 that rule by (cases "fmc = 0") (simp_all add: supply_rule_def stepped_def)
  show ?thesis
    using assms(2) 1 2 3 4 st1 st2 st3 st4 by (auto simp: fmc_power_on_def if_ok_def stepped_def split: if_splits)
qed

lemma fmc_power_off_safe:
  assumes "always_safe (gpio_log s)" and "fmc_power_off os fmc s = (r, s')"
  shows "always_safe (gpio_log s')"
proof -
  note rule = always_safe_last [OF assms(1), unfolded supply_rule_def]
  note paths = fmc_set_stepped [where b = False, unfolded if_False]
  obtain r1 s1 where 1: "fmc_set os (fmc_supply fmc) ''low'' s = (r1, s1)" by fastforce
  have st1: "stepped (gpio_log s) (fmc_supply fmc) False r1 (gpio_log s1)"
    using paths [OF 1 assms(1)] rule by (cases "fmc = 0") (simp_all add: supply_rule_def)
  obtain r2 s2 where 2: "fmc_set os FMC_PG_C2M ''low'' s1 = (r2, s2)" by fastforce
  have st2: "stepped (gpio_log s1) FMC_PG_C2M False r2 (gpio_log s2)" if "r1 = 0"
    using paths [OF 2] st1 that rule by (cases "fmc = 0") (simp_all add: supply_rule_def stepped_def)
  obtain r3 s3 where 3: "fmc_set os (fmc_aux fmc) ''low'' s2 = (r3, s3)" by fastforce
  have st3: "stepped (gpio_log s2) (fmc_aux fmc) False r3 (gpio_log s3)" if "r1 = 0" "r2 = 0"
    using paths [OF 3] st1 st2 that rule by (cases "fmc = 0") (simp_all add: supply_rule_def stepped_def)
  show ?thesis
    using assms(2) 1 2 3 st1 st2 st3 by (auto simp: fmc_power_off_def if_ok_def stepped_def split: if_splits)
qed

text \<open>The rest of \<open>rhino_fmc\<close> writes no power GPIO.\<close>

lemma if_ok_safe:
  assumes "always_safe (gpio_log (snd p))" and "\<And>s. always_safe (gpio_log s) \<Longrightarrow> always_safe (gpio_log (snd (k s)))"
  shows "always_safe (gpio_log (snd (if_ok p k)))"
  using assms by (cases p) (simp add: if_ok_def)

lemma export_gpio_safe: "always_safe (gpio_log s) \<Longrightarrow> always_safe (gpio_log (snd (export_gpio os path s)))"
  using export_gpio_stepped [of os path s] by (cases "export_gpio os path s") auto

lemma supply_rule_other:
  assumes "p \<notin> {FPGA_VCCO_AUX_EN, FMC0_SUPPLY_EN, FMC0_AUX_EN, FMC1_SUPPLY_EN, FMC1_AUX_EN}"
  shows "supply_rule (lev(p := b)) = supply_rule lev"
  using assms by (auto simp: supply_rule_def)

lemma fmc_set_other_safe:
  assumes "path \<notin> {GPIOEX, FPGA_VCCO_AUX_EN, FMC0_SUPPLY_EN, FMC0_AUX_EN, FMC1_SUPPLY_EN, FMC1_AUX_EN}" and "always_safe (gpio_log s)"
  shows "always_safe (gpio_log (snd (fmc_set os path (if b then ''high'' else ''low'') s)))"
proof -
  obtain r t where "fmc_set os path (if b then ''high'' else ''low'') s = (r, t)" by fastforce
  moreover have "supply_rule ((gpio_high (gpio_log s))(path := b))"
    using supply_rule_other [of path] assms always_safe_last [OF assms(2)] by simp
  ultimately show ?thesis using fmc_set_stepped [of os path b s r t] assms by (simp add: stepped_def)
qed

lemma ga_paths:
  "FMC0_GA0 \<notin> {GPIOEX, FPGA_VCCO_AUX_EN, FMC0_SUPPLY_EN, FMC0_AUX_EN, FMC1_SUPPLY_EN, FMC1_AUX_EN}"
  "FMC0_GA1 \<notin> {GPIOEX, FPGA_VCCO_AUX_EN, FMC0_SUPPLY_EN, FMC0_AUX_EN, FMC1_SUPPLY_EN, FMC1_AUX_EN}"
  "FMC1_GA0 \<notin> {GPIOEX, FPGA_VCCO_AUX_EN, FMC0_SUPPLY_EN, FMC0_AUX_EN, FMC1_SUPPLY_EN, FMC1_AUX_EN}"
  "FMC1_GA1 \<notin> {GPIOEX, FPGA_VCCO_AUX_EN, FMC0_SUPPLY_EN, FMC0_AUX_EN, FMC1_SUPPLY_EN, FMC1_AUX_EN}"
  unfolding GPIOEX_def FPGA_VCCO_AUX_EN_def FMC0_SUPPLY_EN_def FMC0_AUX_EN_def FMC1_SUPPLY_EN_def FMC1_AUX_EN_def by simp_all

lemma fmc_address_safe: "always_safe (gpio_log s) \<Longrightarrow> always_safe (gpio_log (snd (fmc_address os fmc GA s)))"
proof -
  assume s: "always_safe (gpio_log s)"
  let ?P = "{GPIOEX, FPGA_VCCO_AUX_EN, FMC0_SUPPLY_EN, FMC0_AUX_EN, FMC1_SUPPLY_EN, FMC1_AUX_EN}"
  have "(if fmc = 0 then FMC0_GA0 else FMC1_GA0) \<notin> ?P" "(if fmc = 0 then FMC0_GA1 else FMC1_GA1) \<notin> ?P"
    using ga_paths by presburger+
  then show ?thesis
    unfolding fmc_address_def
    by (intro if_ok_safe fmc_set_other_safe s) (assumption | simp)+
qed

lemma i2c_log [simp]:
  "gpio_log (snd (i2c_open os path s)) = gpio_log s" "gpio_log (snd (i2c_close os s)) = gpio_log s"
  "gpio_log (snd (set_slave os a s)) = gpio_log s"
  by (auto simp: i2c_open_def i2c_close_def set_slave_def Let_def split: prod.splits)

lemma i2c_transfer_log [simp]:
  "gpio_log (snd (i2c_write os a r bs s)) = gpio_log s" "gpio_log (snd (i2c_read os a r n s)) = gpio_log s"
  using i2c_log(3) [of os a s] by (auto simp: i2c_write_def i2c_read_def split: prod.splits simp del: i2c_log)

lemma if_ok_log: "gpio_log (snd p) = l \<Longrightarrow> (\<And>s. gpio_log s = l \<Longrightarrow> gpio_log (snd (k s)) = l) \<Longrightarrow> gpio_log (snd (if_ok p k)) = l"
  by (cases p) (simp add: if_ok_def)

lemma fmc_reg_log [simp]:
  "gpio_log (snd (fmc_write_reg os dev reg args s)) = gpio_log s" "gpio_log (snd (fmc_read_reg os dev reg s)) = gpio_log s"
proof -
  have "gpio_log t = gpio_log s" if "i2c_write os dev reg bs s = (r, t)" for bs r t using i2c_transfer_log(1) [of os dev reg bs s] unfolding that by simp
  then show "gpio_log (snd (fmc_write_reg os dev reg args s)) = gpio_log s"
    by (auto simp: fmc_write_reg_def split: prod.splits sum.splits)
  have "gpio_log t = gpio_log s" if "i2c_read os dev reg 1 s = (r, t)" for r t using i2c_transfer_log(2) [of os dev reg 1 s] unfolding that by simp
  then show "gpio_log (snd (fmc_read_reg os dev reg s)) = gpio_log s"
    by (auto simp: fmc_read_reg_def split: prod.splits option.splits list.splits)
qed

lemma fmc_command_log: "gpio_log (snd (fmc_command os wr args s)) = gpio_log s"
proof -
  obtain r t where o: "i2c_open os ''/dev/i2c-3'' s = (r, t)" by fastforce
  then have t: "gpio_log t = gpio_log s" by (metis i2c_log(1) snd_conv)
  have "gpio_log (snd (if_ok (if wr then fmc_write_reg os dev reg args' t else fmc_read_reg os dev reg t) (\<lambda>s. (0, snd (i2c_close os s))))) = gpio_log s"
    for dev reg args' using t by (intro if_ok_log) simp_all
  then show ?thesis using o t by (simp add: fmc_command_def split: sum.split prod.split)
qed

lemma gpio_get_log: "gpio_get os path s = (r, t) \<Longrightarrow> gpio_log t = gpio_log s"
  by (auto simp: gpio_get_def split: prod.splits if_splits)

lemma fmc_line_log [simp]: "gpio_log (snd (fmc_line os path t0 t1 s)) = gpio_log s"
  using gpio_get_log [of os path s] by (auto simp: fmc_line_def split: prod.splits option.splits)

lemma fmc_slot_safe: "always_safe (gpio_log s) \<Longrightarrow> always_safe (gpio_log (snd (fmc_slot os fmc s)))"
proof -
  assume s: "always_safe (gpio_log s)"
  define p where "p = if_ok (export_gpio os (if fmc = 0 then FMC0_nPRSNT_M2C else FMC1_nPRSNT_M2C) s) (\<lambda>s.
    if_ok (export_gpio os (if fmc = 0 then FMC0_AUX_RD else FMC1_AUX_RD) s) (export_gpio os (if fmc = 0 then FMC0_SUPPLY_RD else FMC1_SUPPLY_RD)))"
  have "always_safe (gpio_log (snd p))" unfolding p_def by (intro if_ok_safe export_gpio_safe s)
  then show ?thesis
    unfolding fmc_slot_def Let_def p_def [symmetric] by (cases p) (auto intro!: if_ok_safe)
qed

lemma fmc_status_safe: "always_safe (gpio_log s) \<Longrightarrow> fmc_status os fmc s = Some (r, t) \<Longrightarrow> always_safe (gpio_log t)"
proof -
  assume s: "always_safe (gpio_log s)" and f: "fmc_status os fmc s = Some (r, t)"
  obtain x u where u: "gpio_get os FPGA_VCCO_AUX_RD s = (x, u)" by fastforce
  then have "always_safe (gpio_log u)" using s gpio_get_log by metis
  then have "always_safe (gpio_log (snd (fmc_slot os fmc u)))" "always_safe (gpio_log u)" by (simp_all add: fmc_slot_safe)
  then show ?thesis using f u by (auto simp: fmc_status_def split: option.splits bind_split_asm if_splits)
qed

lemma run_fmc_safe:
  assumes "always_safe (gpio_log s)" and run: "run_fmc os fmc opts rest s = Some (r, t)"
  shows "always_safe (gpio_log t)"
proof -
  obtain ok u where u: "stat_ok os FPGA_VCCO_AUX_EN s = (ok, u)" "gpio_log u = gpio_log s"
    by (cases "sys_stat os FPGA_VCCO_AUX_EN (osenv s)") (simp add: stat_ok_def)
  have su: "always_safe (gpio_log u)" using assms(1) u(2) by simp
  obtain r1 t1 where on: "fmc_power_on os fmc u = (r1, t1)" by fastforce
  obtain r2 t2 where off: "fmc_power_off os fmc u = (r2, t2)" by fastforce
  note parts = fmc_power_on_safe [OF su on] fmc_power_off_safe [OF su off] fmc_address_safe [OF su, of os fmc "fmc_GA opts"]
    fmc_command_log [of os "write_flag opts" "drop 1 rest" u] fmc_status_safe [OF su, of os fmc r t]
  show ?thesis
    using run u su on off parts by (auto simp: run_fmc_def Let_def split: if_splits)
qed

lemma rhino_fmc_safe:
  assumes "always_safe (gpio_log s)" and "rhino_fmc os getopt_long args s = Some (r, t)"
  shows "always_safe (gpio_log t)"
  using assms by (auto simp: rhino_fmc_def split: list.splits prod.splits if_splits option.splits dest!: run_fmc_safe [rotated])

text \<open>
  The GPIO writes of a board's life: runs of \<open>rhino_fmc\<close> with any arguments, one after the other, in any
  environments, in which any system call may fail.
\<close>

inductive fmc_history :: "'e posix \<Rightarrow> (string \<times> u8 list) list \<Rightarrow> bool" for os where
  fmc_start: "fmc_history os []"
| fmc_run: "fmc_history os (gpio_log s) \<Longrightarrow> rhino_fmc os getopt_long args s = Some (r, t) \<Longrightarrow> fmc_history os (gpio_log t)"


definition fmc_demo_os :: "unit posix" where
  "fmc_demo_os = \<lparr>sys_stat = \<lambda>_ e. (0, e), sys_open = \<lambda>_ e. (3, e), sys_close = \<lambda>_ e. (0, e), sys_slave = \<lambda>_ _ e. (0, e),
     sys_write = \<lambda>_ bs e. (int (length bs), e), sys_read = \<lambda>_ n e. (Some (replicate n 49), e)\<rparr>"


end
