(* ===== verification/Mmio.thy ===== *)
theory Mmio
  imports Prelude
begin

text \<open>
  Registers at physical addresses, as both boot loaders of the board (\<open>src/x-loader\<close> and \<open>src/u-boot\<close>) use
  them. The accesses are a parameter: volatile reads and writes of 8, 16 and 32 bits on hardware of any type.
  A read may change the hardware. What a device does with an access is stated where its driver is modelled, as a
  law over a view of the hardware; the law of a plain register, which holds what was written last, is stated here.
\<close>

section \<open>Volatile accesses\<close>

record 'h mmio =
  readb :: "u32 \<Rightarrow> 'h \<Rightarrow> u8 \<times> 'h"
  writeb :: "u8 \<Rightarrow> u32 \<Rightarrow> 'h \<Rightarrow> 'h"
  readw :: "u32 \<Rightarrow> 'h \<Rightarrow> u16 \<times> 'h"
  writew :: "u16 \<Rightarrow> u32 \<Rightarrow> 'h \<Rightarrow> 'h"
  readl :: "u32 \<Rightarrow> 'h \<Rightarrow> u32 \<times> 'h"
  writel :: "u32 \<Rightarrow> u32 \<Rightarrow> 'h \<Rightarrow> 'h"

section \<open>Addresses\<close>

lemma unat_of_nat_u32: "n < 2 ^ 32 \<Longrightarrow> unat (of_nat n :: u32) = n"
  by (simp add: unsigned_of_nat take_bit_nat_eq_self)

lemma of_nat_u32_eq: "m < 2 ^ 32 \<Longrightarrow> n < 2 ^ 32 \<Longrightarrow> (of_nat m :: u32) = of_nat n \<longleftrightarrow> m = n"
  by (auto dest!: arg_cong [where f = unat] simp: unat_of_nat)

section \<open>Plain registers\<close>

text \<open>The 32-bit registers at the addresses \<open>S\<close> hold what was written to them last, and reads change nothing in them.\<close>

definition plain_regs :: "'h mmio \<Rightarrow> ('h \<Rightarrow> u32 \<Rightarrow> u32) \<Rightarrow> u32 set \<Rightarrow> bool" where
  "plain_regs mm rf S \<longleftrightarrow>
     (\<forall>v a h. rf (writel mm v a h) = (if a \<in> S then (rf h)(a := v) else rf h)) \<and>
     (\<forall>a h. a \<in> S \<longrightarrow> fst (readl mm a h) = rf h a) \<and>
     (\<forall>a h. rf (snd (readl mm a h)) = rf h)"

lemma plain_regs_write: "plain_regs mm rf S \<Longrightarrow> rf (writel mm v a h) = (if a \<in> S then (rf h)(a := v) else rf h)"
  by (simp add: plain_regs_def)

lemma plain_regs_read: "plain_regs mm rf S \<Longrightarrow> a \<in> S \<Longrightarrow> fst (readl mm a h) = rf h a"
  by (simp add: plain_regs_def)

lemma plain_regs_keep: "plain_regs mm rf S \<Longrightarrow> rf (snd (readl mm a h)) = rf h"
  by (simp add: plain_regs_def)

end
