(* ===== verification/XloadSerial.thy ===== *)
theory XloadSerial
  imports Mmio
begin

text \<open>
  The serial line of the first-stage loader (\<open>src/x-loader/drivers/serial.c\<close> and \<open>drivers/ns16550.c\<close>), the law of a
  port, and what goes out on it.
\<close>

section \<open>The driver\<close>

text \<open>Every register is the first byte of four; \<open>console\<close> is the first serial port.\<close>

abbreviation (input) CFG_NS16550_COM1 :: u32 where "CFG_NS16550_COM1 \<equiv> 0x4806A000"
abbreviation (input) LCRVAL :: u8 where "LCRVAL \<equiv> 0x03"
abbreviation (input) MCRVAL :: u8 where "MCRVAL \<equiv> 0x01 OR 0x02"
abbreviation (input) FCRVAL :: u8 where "FCRVAL \<equiv> 0x01 OR 0x02 OR 0x04"

definition com_reg :: "u32 \<Rightarrow> u32 \<Rightarrow> u32" where
  "com_reg com_port r = com_port + 4 * r"

definition NS16550_init :: "'h mmio \<Rightarrow> u32 \<Rightarrow> u32 \<Rightarrow> 'h \<Rightarrow> 'h" where
  "NS16550_init mm com_port baud_divisor h =
     (let h = writeb mm 0 (com_reg com_port 1) h;
          h = writeb mm 7 (com_reg com_port 8) h;
          h = writeb mm (0x80 OR LCRVAL) (com_reg com_port 3) h;
          h = writeb mm (ucast (baud_divisor AND 0xff)) (com_reg com_port 0) h;
          h = writeb mm (ucast (drop_bit 8 baud_divisor AND 0xff)) (com_reg com_port 1) h;
          h = writeb mm LCRVAL (com_reg com_port 3) h;
          h = writeb mm MCRVAL (com_reg com_port 4) h;
          h = writeb mm FCRVAL (com_reg com_port 2) h
      in writeb mm 0 (com_reg com_port 8) h)"

definition NS16550_reinit :: "'h mmio \<Rightarrow> u32 \<Rightarrow> u32 \<Rightarrow> 'h \<Rightarrow> 'h" where
  "NS16550_reinit mm com_port baud_divisor h =
     (let h = writeb mm 0 (com_reg com_port 1) h;
          h = writeb mm 0x80 (com_reg com_port 3) h;
          h = writeb mm (ucast (baud_divisor AND 0xff)) (com_reg com_port 0) h;
          h = writeb mm (ucast (drop_bit 8 baud_divisor AND 0xff)) (com_reg com_port 1) h;
          h = writeb mm LCRVAL (com_reg com_port 3) h;
          h = writeb mm MCRVAL (com_reg com_port 4) h
      in writeb mm FCRVAL (com_reg com_port 2) h)"

text \<open>Polling the line status until a bit is set.\<close>

partial_function (option) wait_lsr :: "'h mmio \<Rightarrow> u32 \<Rightarrow> u8 \<Rightarrow> 'h \<Rightarrow> 'h option" where
  "wait_lsr mm com_port k h =
     (let (lsr, h) = readb mm (com_reg com_port 5) h in if lsr AND k = 0 then wait_lsr mm com_port k h else Some h)"

definition NS16550_putc :: "'h mmio \<Rightarrow> u32 \<Rightarrow> u8 \<Rightarrow> 'h \<Rightarrow> 'h option" where
  "NS16550_putc mm com_port c h = do {
     h \<leftarrow> wait_lsr mm com_port 0x20 h;
     Some (writeb mm c (com_reg com_port 0) h) }"

definition NS16550_getc :: "'h mmio \<Rightarrow> u32 \<Rightarrow> 'h \<Rightarrow> (u8 \<times> 'h) option" where
  "NS16550_getc mm com_port h = do {
     h \<leftarrow> wait_lsr mm com_port 0x01 h;
     Some (readb mm (com_reg com_port 0) h) }"

definition NS16550_tstc :: "'h mmio \<Rightarrow> u32 \<Rightarrow> 'h \<Rightarrow> bool \<times> 'h" where
  "NS16550_tstc mm com_port h = (let (lsr, h) = readb mm (com_reg com_port 5) h in (lsr AND 0x01 \<noteq> 0, h))"

definition calc_divisor :: u32 where
  "calc_divisor = 48000000 div 16 div 115200"

definition serial_init :: "'h mmio \<Rightarrow> 'h \<Rightarrow> int \<times> 'h" where
  "serial_init mm h = (0, NS16550_init mm CFG_NS16550_COM1 calc_divisor h)"

definition serial_putc :: "'h mmio \<Rightarrow> u8 \<Rightarrow> 'h \<Rightarrow> 'h option" where
  "serial_putc mm c h = do {
     h \<leftarrow> (if c = 10 then NS16550_putc mm CFG_NS16550_COM1 13 h else Some h);
     NS16550_putc mm CFG_NS16550_COM1 c h }"

text \<open>A string is its bytes up to the terminating zero.\<close>

fun serial_puts :: "'h mmio \<Rightarrow> u8 list \<Rightarrow> 'h \<Rightarrow> 'h option" where
  "serial_puts mm [] h = Some h"
| "serial_puts mm (c # s) h = do {
     h \<leftarrow> serial_putc mm c h;
     serial_puts mm s h }"

definition serial_getc :: "'h mmio \<Rightarrow> 'h \<Rightarrow> (u8 \<times> 'h) option" where
  "serial_getc mm h = NS16550_getc mm CFG_NS16550_COM1 h"

definition serial_tstc :: "'h mmio \<Rightarrow> 'h \<Rightarrow> bool \<times> 'h" where
  "serial_tstc mm h = NS16550_tstc mm CFG_NS16550_COM1 h"

definition serial_setbrg :: "'h mmio \<Rightarrow> 'h \<Rightarrow> 'h" where
  "serial_setbrg mm h = NS16550_reinit mm CFG_NS16550_COM1 calc_divisor h"

section \<open>The port\<close>

text \<open>
  A serial port: the divisor of its clock, its line control and mode, whether it has sent what it was given, and
  the bytes that went out. While bit 7 of the line control is set the first two registers are the divisor. The port
  sends while its mode is 0, with interrupts disabled or not; it is ready again after some reads of its status.
\<close>

record uart =
  u_dll :: u8
  u_dlm :: u8
  u_lcr :: u8
  u_mdr1 :: u8
  u_sent :: "u8 list"
  u_busy :: nat

definition uart_write :: "nat \<Rightarrow> u8 \<Rightarrow> u32 \<Rightarrow> uart \<Rightarrow> uart" where
  "uart_write slow v a u =
     (if a = com_reg CFG_NS16550_COM1 3 then u\<lparr>u_lcr := v\<rparr>
      else if a = com_reg CFG_NS16550_COM1 8 then u\<lparr>u_mdr1 := v\<rparr>
      else if a = com_reg CFG_NS16550_COM1 0 then
        if bit (u_lcr u) 7 then u\<lparr>u_dll := v\<rparr>
        else if u_mdr1 u = 0 \<and> u_busy u = 0 then u\<lparr>u_sent := u_sent u @ [v], u_busy := slow\<rparr> else u
      else if a = com_reg CFG_NS16550_COM1 1 \<and> bit (u_lcr u) 7 then u\<lparr>u_dlm := v\<rparr>
      else u)"

definition uart_law :: "'h mmio \<Rightarrow> ('h \<Rightarrow> uart) \<Rightarrow> nat \<Rightarrow> bool" where
  "uart_law mm port slow \<longleftrightarrow>
     (\<forall>v a h. port (writeb mm v a h) = uart_write slow v a (port h)) \<and>
     (\<forall>h. (fst (readb mm (com_reg CFG_NS16550_COM1 5) h) AND 0x20 = 0 \<longleftrightarrow> u_busy (port h) \<noteq> 0) \<and>
        port (snd (readb mm (com_reg CFG_NS16550_COM1 5) h)) = (port h)\<lparr>u_busy := u_busy (port h) - 1\<rparr>)"

definition uart_ready :: "uart \<Rightarrow> bool" where
  "uart_ready u \<longleftrightarrow> \<not> bit (u_lcr u) 7 \<and> u_mdr1 u = 0"

lemma wait_lsr_ready:
  assumes l: "uart_law mm port slow"
  shows "\<exists>h'. wait_lsr mm CFG_NS16550_COM1 0x20 h = Some h' \<and> port h' = (port h)\<lparr>u_busy := 0\<rparr>"
proof (induction "u_busy (port h)" arbitrary: h)
  case 0
  then show ?case using l by (subst wait_lsr.simps) (auto simp: uart_law_def case_prod_beta)
next
  case (Suc n)
  let ?h = "snd (readb mm (com_reg CFG_NS16550_COM1 5) h)"
  have p: "port ?h = (port h)\<lparr>u_busy := n\<rparr>" "fst (readb mm (com_reg CFG_NS16550_COM1 5) h) AND 0x20 = 0"
    using l Suc.hyps(2) by (simp_all add: uart_law_def flip: Suc.hyps(2))
  then show ?case using Suc.hyps(1) [of ?h] by (subst wait_lsr.simps) (simp add: case_prod_beta)
qed

lemma NS16550_putc_sends:
  assumes l: "uart_law mm port slow" and r: "uart_ready (port h)"
  shows "\<exists>h'. NS16550_putc mm CFG_NS16550_COM1 c h = Some h' \<and>
    port h' = (port h)\<lparr>u_sent := u_sent (port h) @ [c], u_busy := slow\<rparr>"
proof -
  obtain h1 where h1: "wait_lsr mm CFG_NS16550_COM1 0x20 h = Some h1" "port h1 = (port h)\<lparr>u_busy := 0\<rparr>"
    using wait_lsr_ready [OF l] by blast
  then show ?thesis using l r by (simp add: NS16550_putc_def uart_law_def uart_write_def com_reg_def uart_ready_def)
qed

definition crlf :: "u8 \<Rightarrow> u8 list" where
  "crlf c = (if c = 10 then [13, 10] else [c])"

lemma serial_putc_sends:
  assumes l: "uart_law mm port slow" and r: "uart_ready (port h)"
  shows "\<exists>h'. serial_putc mm c h = Some h' \<and> uart_ready (port h') \<and> u_sent (port h') = u_sent (port h) @ crlf c"
proof -
  obtain h1 where h1: "(if c = 10 then NS16550_putc mm CFG_NS16550_COM1 13 h else Some h) = Some h1"
      "uart_ready (port h1)" "u_sent (port h1) = u_sent (port h) @ (if c = 10 then [13] else [])"
    using NS16550_putc_sends [OF l r, of 13] r by (cases "c = 10") (auto simp: uart_ready_def)
  obtain h2 where "NS16550_putc mm CFG_NS16550_COM1 c h1 = Some h2"
      "port h2 = (port h1)\<lparr>u_sent := u_sent (port h1) @ [c], u_busy := slow\<rparr>"
    using NS16550_putc_sends [OF l h1(2)] by blast
  then show ?thesis using h1 by (auto simp: serial_putc_def crlf_def uart_ready_def)
qed

lemma serial_puts_sends:
  assumes l: "uart_law mm port slow"
  shows "uart_ready (port h) \<Longrightarrow> \<exists>h'. serial_puts mm s h = Some h' \<and> uart_ready (port h') \<and>
    u_sent (port h') = u_sent (port h) @ concat (map crlf s)"
proof (induction s arbitrary: h)
  case (Cons c s)
  obtain h1 where h1: "serial_putc mm c h = Some h1" "uart_ready (port h1)" "u_sent (port h1) = u_sent (port h) @ crlf c"
    using serial_putc_sends [OF l Cons.prems] by blast
  then show ?case using Cons.IH [OF h1(2)] by auto
qed simp

text \<open>
  After \<open>serial_init\<close> the serial line works: the port is set for 115200 baud within half a percent, and
  \<open>serial_puts\<close> returns, however long the port is busy between bytes, and sends the bytes of the string in order with
  a carriage return before each newline and nothing else.
\<close>

theorem serial_init_puts:
  assumes "uart_law mm port slow"
  shows "\<exists>h' h''. serial_init mm h = (0, h') \<and> serial_puts mm s h' = Some h'' \<and>
    u_sent (port h'') = u_sent (port h') @ concat (map crlf s) \<and> u_sent (port h') = u_sent (port h) \<and>
    (let d = unat (u_dll (port h')) + 256 * unat (u_dlm (port h')) in 200 * \<bar>48000000 - 16 * 115200 * int d\<bar> \<le> 48000000)"
proof -
  define h' where "h' = NS16550_init mm CFG_NS16550_COM1 calc_divisor h"
  have w: "port (writeb mm v a x) = uart_write slow v a (port x)" for v a x using assms by (simp add: uart_law_def)
  have p: "port h' = (port h)\<lparr>u_dll := 26, u_dlm := 0, u_lcr := 3, u_mdr1 := 0\<rparr>"
    by (simp add: h'_def NS16550_init_def Let_def w uart_write_def com_reg_def calc_divisor_def)
  have "uart_ready (port h')" by (simp add: p uart_ready_def)
  then show ?thesis
    using serial_puts_sends [OF assms, of h' s] by (auto simp: serial_init_def p simp flip: h'_def)
qed

text \<open>A port that needs three reads of its status to send a byte.\<close>

definition uart_mmio :: "uart mmio" where
  "uart_mmio = \<lparr>readb = \<lambda>a u. (if a = com_reg CFG_NS16550_COM1 5 then (if u_busy u = 0 then 0x20 else 0, u\<lparr>u_busy := u_busy u - 1\<rparr>) else (0, u)),
     writeb = uart_write 3, readw = \<lambda>_ u. (0, u), writew = \<lambda>_ _ u. u, readl = \<lambda>_ u. (0, u), writel = \<lambda>_ _ u. u\<rparr>"

definition uart_start :: uart where
  "uart_start = \<lparr>u_dll = 0, u_dlm = 0, u_lcr = 0, u_mdr1 = 7, u_sent = [], u_busy = 0\<rparr>"

lemma uart_mmio_law: "uart_law uart_mmio id 3"
  by (auto simp: uart_law_def uart_mmio_def)

theorem serial_init_puts_witness:
  "\<exists>h' h''. serial_init uart_mmio uart_start = (0, h') \<and> serial_puts uart_mmio [79, 75, 10] h' = Some h'' \<and> u_sent h'' = [79, 75, 13, 10]"
  using serial_init_puts [OF uart_mmio_law, of uart_start "[79, 75, 10]"] by (auto simp: crlf_def uart_start_def)

end
