(* ===== verification/NandEcc.thy ===== *)
theory NandEcc
  imports Prelude
begin

text \<open>
  The software error-correcting code of the first-stage loader, \<open>src/x-loader/lib/ecc.c\<close>: 22 parities
  of a block of 256 bytes, computed in two ways, and the correction of a block with two such codes.
  The messages that are printed are left out.
\<close>

section \<open>Computing the code\<close>

text \<open>The column parities of a byte: CP0 to CP5 in the bits 0 to 5, the parity of all bits in bit 6.\<close>

definition nand_ecc_precalc_table :: "u8 list" where
  "nand_ecc_precalc_table =
    [0x00, 0x55, 0x56, 0x03, 0x59, 0x0c, 0x0f, 0x5a, 0x5a, 0x0f, 0x0c, 0x59, 0x03, 0x56, 0x55, 0x00,
     0x65, 0x30, 0x33, 0x66, 0x3c, 0x69, 0x6a, 0x3f, 0x3f, 0x6a, 0x69, 0x3c, 0x66, 0x33, 0x30, 0x65,
     0x66, 0x33, 0x30, 0x65, 0x3f, 0x6a, 0x69, 0x3c, 0x3c, 0x69, 0x6a, 0x3f, 0x65, 0x30, 0x33, 0x66,
     0x03, 0x56, 0x55, 0x00, 0x5a, 0x0f, 0x0c, 0x59, 0x59, 0x0c, 0x0f, 0x5a, 0x00, 0x55, 0x56, 0x03,
     0x69, 0x3c, 0x3f, 0x6a, 0x30, 0x65, 0x66, 0x33, 0x33, 0x66, 0x65, 0x30, 0x6a, 0x3f, 0x3c, 0x69,
     0x0c, 0x59, 0x5a, 0x0f, 0x55, 0x00, 0x03, 0x56, 0x56, 0x03, 0x00, 0x55, 0x0f, 0x5a, 0x59, 0x0c,
     0x0f, 0x5a, 0x59, 0x0c, 0x56, 0x03, 0x00, 0x55, 0x55, 0x00, 0x03, 0x56, 0x0c, 0x59, 0x5a, 0x0f,
     0x6a, 0x3f, 0x3c, 0x69, 0x33, 0x66, 0x65, 0x30, 0x30, 0x65, 0x66, 0x33, 0x69, 0x3c, 0x3f, 0x6a,
     0x6a, 0x3f, 0x3c, 0x69, 0x33, 0x66, 0x65, 0x30, 0x30, 0x65, 0x66, 0x33, 0x69, 0x3c, 0x3f, 0x6a,
     0x0f, 0x5a, 0x59, 0x0c, 0x56, 0x03, 0x00, 0x55, 0x55, 0x00, 0x03, 0x56, 0x0c, 0x59, 0x5a, 0x0f,
     0x0c, 0x59, 0x5a, 0x0f, 0x55, 0x00, 0x03, 0x56, 0x56, 0x03, 0x00, 0x55, 0x0f, 0x5a, 0x59, 0x0c,
     0x69, 0x3c, 0x3f, 0x6a, 0x30, 0x65, 0x66, 0x33, 0x33, 0x66, 0x65, 0x30, 0x6a, 0x3f, 0x3c, 0x69,
     0x03, 0x56, 0x55, 0x00, 0x5a, 0x0f, 0x0c, 0x59, 0x59, 0x0c, 0x0f, 0x5a, 0x00, 0x55, 0x56, 0x03,
     0x66, 0x33, 0x30, 0x65, 0x3f, 0x6a, 0x69, 0x3c, 0x3c, 0x69, 0x6a, 0x3f, 0x65, 0x30, 0x33, 0x66,
     0x65, 0x30, 0x33, 0x66, 0x3c, 0x69, 0x6a, 0x3f, 0x3f, 0x6a, 0x69, 0x3c, 0x66, 0x33, 0x30, 0x65,
     0x00, 0x55, 0x56, 0x03, 0x59, 0x0c, 0x0f, 0x5a, 0x5a, 0x0f, 0x0c, 0x59, 0x03, 0x56, 0x55, 0x00]"

abbreviation precalc :: "u8 \<Rightarrow> u8" where
  "precalc b \<equiv> nand_ecc_precalc_table ! unat b"

text \<open>Four rounds of a loop of \<open>nand_trans_result\<close>: the mask reached and the byte built.\<close>

fun trans_loop :: "nat \<Rightarrow> u8 \<Rightarrow> u8 \<Rightarrow> u8 \<Rightarrow> u8 \<Rightarrow> u8 \<Rightarrow> u8 \<times> u8" where
  "trans_loop 0 a b reg2 reg3 tmp = (a, tmp)"
| "trans_loop (Suc n) a b reg2 reg3 tmp =
     (let tmp = if reg3 AND a \<noteq> 0 then tmp OR b else tmp;
          b = drop_bit 1 b;
          tmp = if reg2 AND a \<noteq> 0 then tmp OR b else tmp
      in trans_loop n (drop_bit 1 a) (drop_bit 1 b) reg2 reg3 tmp)"

definition nand_trans_result :: "u8 \<Rightarrow> u8 \<Rightarrow> u8 \<times> u8" where
  "nand_trans_result reg2 reg3 =
     (case trans_loop 4 0x80 0x80 reg2 reg3 0 of (a, tmp1) \<Rightarrow>
      case trans_loop 4 a 0x80 reg2 reg3 0 of (_, tmp2) \<Rightarrow> (tmp1, tmp2))"

text \<open>The two variants of \<open>nand_calculate_ecc\<close>. \<^const>\<open>None\<close> is a block of less than 256 bytes.\<close>

type_synonym ecc = "u8 \<times> u8 \<times> u8"

fun ecc_loop_legacy :: "u8 list \<Rightarrow> nat \<Rightarrow> u8 \<Rightarrow> u8 \<Rightarrow> u8 \<times> u8" where
  "ecc_loop_legacy [] j reg1 reg3 = (reg1, reg3)"
| "ecc_loop_legacy (d # dat) j reg1 reg3 =
     (let idx = precalc d
      in ecc_loop_legacy dat (j + 1) (reg1 XOR idx) (if idx AND 0x40 \<noteq> 0 then reg3 XOR of_nat j else reg3))"

definition nand_calculate_ecc_legacy :: "u8 list \<Rightarrow> ecc option" where
  "nand_calculate_ecc_legacy dat =
     (if length dat < 256 then None
      else case ecc_loop_legacy (take 256 dat) 0 0 0 of (reg1, reg3) \<Rightarrow>
        case nand_trans_result (if reg1 AND 0x40 \<noteq> 0 then NOT reg3 else reg3) reg3 of (e0, e1) \<Rightarrow>
          Some (NOT e0, NOT e1, push_bit 2 (NOT reg1) OR 0x03))"

fun ecc_loop :: "u8 list \<Rightarrow> nat \<Rightarrow> u8 \<Rightarrow> u8 \<Rightarrow> u8 \<Rightarrow> u8 \<times> u8 \<times> u8" where
  "ecc_loop [] j reg1 reg2 reg3 = (reg1, reg2, reg3)"
| "ecc_loop (d # dat) j reg1 reg2 reg3 =
     (let idx = precalc d; reg1 = reg1 XOR (idx AND 0x3f)
      in if idx AND 0x40 \<noteq> 0 then ecc_loop dat (j + 1) reg1 (reg2 XOR NOT (of_nat j)) (reg3 XOR of_nat j)
         else ecc_loop dat (j + 1) reg1 reg2 reg3)"

definition nand_calculate_ecc :: "u8 list \<Rightarrow> ecc option" where
  "nand_calculate_ecc dat =
     (if length dat < 256 then None
      else case ecc_loop (take 256 dat) 0 0 0 0 of (reg1, reg2, reg3) \<Rightarrow>
        case nand_trans_result reg2 reg3 of (e0, e1) \<Rightarrow> Some (NOT e0, NOT e1, push_bit 2 (NOT reg1) OR 0x03))"

section \<open>Correcting a block\<close>

text \<open>A loop that gathers every second bit of a syndrome byte, from the top.\<close>

fun gather_loop :: "nat \<Rightarrow> u8 \<Rightarrow> u8 \<Rightarrow> u8 \<Rightarrow> u8 \<Rightarrow> u8 \<times> u8" where
  "gather_loop 0 d c a acc = (a, acc)"
| "gather_loop (Suc n) d c a acc = gather_loop n d (drop_bit 2 c) (drop_bit 1 a) (if d AND c \<noteq> 0 then acc OR a else acc)"

text \<open>Counting the bits of a syndrome byte.\<close>

function count_loop :: "u8 \<Rightarrow> u8 \<Rightarrow> u8" where
  "count_loop d i = (if d = 0 then i else count_loop (drop_bit 1 d) (if d AND 1 \<noteq> 0 then i + 1 else i))"
  by pat_completeness auto
termination
  by (relation "measure (\<lambda>(d, i). unat d)") (auto simp: drop_bit_eq_div unat_div unat_gt_0 intro!: div_less_dividend)

declare count_loop.simps [simp del]

text \<open>The result, the data and the stored code. \<^const>\<open>None\<close> is a position outside the data.\<close>

definition nand_correct_data :: "u8 list \<Rightarrow> ecc \<Rightarrow> ecc \<Rightarrow> (int \<times> u8 list \<times> ecc) option" where
  "nand_correct_data dat read_ecc calc_ecc =
     (case (read_ecc, calc_ecc) of ((r0, r1, r2), (c0, c1, c2)) \<Rightarrow>
      let d1 = c0 XOR r0; d2 = c1 XOR r1; d3 = c2 XOR r2
      in if d1 OR d2 OR d3 = 0 then Some (0, dat, read_ecc)
         else
           let a = (d1 XOR drop_bit 1 d1) AND 0x55; b = (d2 XOR drop_bit 1 d2) AND 0x55; c = (d3 XOR drop_bit 1 d3) AND 0x54
           in if a = 0x55 \<and> b = 0x55 \<and> c = 0x54 then
                case gather_loop 4 d1 0x80 0x80 0 of (a, add) \<Rightarrow>
                case gather_loop 4 d2 0x80 a add of (_, add) \<Rightarrow>
                case gather_loop 3 d3 0x80 0x04 0 of (_, bitno) \<Rightarrow> do {
                  x \<leftarrow> arr_get dat (unat add);
                  dat \<leftarrow> arr_set dat (unat add) (x XOR push_bit (unat bitno) 0x01);
                  Some (1, dat, read_ecc) }
              else
                let i = count_loop d3 (count_loop d2 (count_loop d1 0))
                in if i = 1 then Some (2, dat, calc_ecc) else Some (-1, dat, read_ecc))"

section \<open>The code is linear\<close>

lemma byte_eqI: "(\<And>n. n < 8 \<Longrightarrow> bit (a :: u8) n = bit b n) \<Longrightarrow> a = b"
  by (rule bit_word_eqI) simp

lemma and_mask_bit:
  "(w AND 0x80 \<noteq> 0) = bit (w :: u8) 7" "(w AND 0x40 \<noteq> 0) = bit w 6" "(w AND 0x20 \<noteq> 0) = bit w 5" "(w AND 0x10 \<noteq> 0) = bit w 4"
  "(w AND 8 \<noteq> 0) = bit w 3" "(w AND 4 \<noteq> 0) = bit w 2" "(w AND 2 \<noteq> 0) = bit w 1" "(w AND 1 \<noteq> 0) = bit w 0"
  using and_exp_eq_0_iff_not_bit [of w 7] and_exp_eq_0_iff_not_bit [of w 6] and_exp_eq_0_iff_not_bit [of w 5] and_exp_eq_0_iff_not_bit [of w 4]
    and_exp_eq_0_iff_not_bit [of w 3] and_exp_eq_0_iff_not_bit [of w 2] and_exp_eq_0_iff_not_bit [of w 1] and_exp_eq_0_iff_not_bit [of w 0]
  by simp_all

text \<open>The entry of a byte is the sum of the entries of its bits.\<close>

definition col_code :: "nat \<Rightarrow> u8" where
  "col_code k = [0x55, 0x56, 0x59, 0x5a, 0x65, 0x66, 0x69, 0x6a] ! k"

definition col_parity :: "u8 \<Rightarrow> u8" where
  "col_parity b = (if bit b 0 then 0x55 else 0) XOR (if bit b 1 then 0x56 else 0) XOR (if bit b 2 then 0x59 else 0) XOR
     (if bit b 3 then 0x5a else 0) XOR (if bit b 4 then 0x65 else 0) XOR (if bit b 5 then 0x66 else 0) XOR
     (if bit b 6 then 0x69 else 0) XOR (if bit b 7 then 0x6a else 0)"

lemma precalc_table: "nand_ecc_precalc_table = map (\<lambda>i. col_parity (word_of_nat i)) [0..<256]"
  by code_simp

lemma unat_u8_less: "unat (b :: u8) < 256"
  using unsigned_less [of b, where 'a = nat] by simp

lemma precalc_eq: "precalc b = col_parity b"
  using unat_u8_less [of b] by (simp add: precalc_table del: upt_rec_numeral upt_conv_Cons)

lemma if_xor: "(if p \<noteq> q then c else 0) = (if p then c else 0) XOR (if q then c else (0 :: u8))"
  by simp

lemma col_parity_xor: "col_parity (a XOR b) = col_parity a XOR col_parity b"
  unfolding col_parity_def bit_xor_iff if_xor by (simp only: xor.assoc xor.left_commute xor.commute)

lemma col_parity_bit: "k < 8 \<Longrightarrow> col_parity (push_bit k 1) = col_code k"
  unfolding less_8 by (elim disjE) (simp_all add: col_parity_def col_code_def bit_push_bit_iff)

lemma bit_col_code: "k < 8 \<Longrightarrow> bit (col_code k) 6"
  unfolding less_8 by (elim disjE) (simp_all add: col_code_def)

text \<open>A sum over a block, of a function of the index and the byte.\<close>

fun xsum :: "(nat \<Rightarrow> u8 \<Rightarrow> u8) \<Rightarrow> nat \<Rightarrow> u8 list \<Rightarrow> u8" where
  "xsum f j [] = 0"
| "xsum f j (d # dat) = f j d XOR xsum f (j + 1) dat"

lemma xsum_update:
  "i < length dat \<Longrightarrow> xsum f j (dat[i := v]) = xsum f j dat XOR (f (j + i) (dat ! i) XOR f (j + i) v)"
proof (induction dat arbitrary: i j)
  case (Cons d dat)
  show ?case
  proof (cases i)
    case 0
    have "f j v XOR x = (f j d XOR x) XOR (f j d XOR f j v)" for x
      by (rule byte_eqI) (auto simp: bit_xor_iff)
    then show ?thesis using 0 by simp
  next
    case (Suc i')
    then show ?thesis using Cons by (simp add: xor.assoc)
  qed
qed simp

abbreviation cp_sum :: "u8 list \<Rightarrow> u8" where "cp_sum \<equiv> xsum (\<lambda>j d. precalc d AND 0x3f) 0"
abbreviation lp_sum :: "u8 list \<Rightarrow> u8" where "lp_sum \<equiv> xsum (\<lambda>j d. if bit (precalc d) 6 then of_nat j else 0) 0"
abbreviation lpc_sum :: "u8 list \<Rightarrow> u8" where "lpc_sum \<equiv> xsum (\<lambda>j d. if bit (precalc d) 6 then NOT (of_nat j) else 0) 0"

lemma ecc_loop_xsum:
  "ecc_loop dat j r1 r2 r3 =
    (r1 XOR xsum (\<lambda>j d. precalc d AND 0x3f) j dat, r2 XOR xsum (\<lambda>j d. if bit (precalc d) 6 then NOT (of_nat j) else 0) j dat,
     r3 XOR xsum (\<lambda>j d. if bit (precalc d) 6 then of_nat j else 0) j dat)"
  by (induction dat j r1 r2 r3 rule: ecc_loop.induct) (simp_all add: Let_def and_mask_bit xor.assoc)

lemma ecc_loop_legacy_xsum:
  "ecc_loop_legacy dat j r1 r3 =
    (r1 XOR xsum (\<lambda>j d. precalc d) j dat, r3 XOR xsum (\<lambda>j d. if bit (precalc d) 6 then of_nat j else 0) j dat)"
  by (induction dat j r1 r3 rule: ecc_loop_legacy.induct) (simp_all add: Let_def and_mask_bit xor.assoc)

text \<open>The loops over masks, unrolled.\<close>

lemma shift_masks:
  "drop_bit 1 (0x80 :: u8) = 0x40" "drop_bit 1 (0x40 :: u8) = 0x20" "drop_bit 1 (0x20 :: u8) = 0x10" "drop_bit 1 (0x10 :: u8) = 8"
  "drop_bit 1 (8 :: u8) = 4" "drop_bit 1 (4 :: u8) = 2" "drop_bit 1 (2 :: u8) = 1" "drop_bit 1 (1 :: u8) = 0"
  "drop_bit 2 (0x80 :: u8) = 0x20" "drop_bit 2 (0x20 :: u8) = 8" "drop_bit 2 (8 :: u8) = 2" "drop_bit 2 (2 :: u8) = 0"
  by code_simp+

lemma or_if: "(if c then w OR b else w) = w OR (if c then b else (0 :: u8))"
  by simp

lemma bit_if: "bit (if c then b else (0 :: u8)) n = (c \<and> bit b n)"
  by simp

lemma four_three: "(4 :: nat) = Suc (Suc (Suc (Suc 0)))" "(3 :: nat) = Suc (Suc (Suc 0))"
  by simp_all

lemma trans_loop_hi:
  "trans_loop 4 0x80 0x80 r2 r3 0 = (8,
    (if bit r3 7 then 0x80 else 0) OR (if bit r2 7 then 0x40 else 0) OR (if bit r3 6 then 0x20 else 0) OR (if bit r2 6 then 0x10 else 0) OR
    (if bit r3 5 then 8 else 0) OR (if bit r2 5 then 4 else 0) OR (if bit r3 4 then 2 else 0) OR (if bit r2 4 then 1 else 0))"
  unfolding four_three trans_loop.simps Let_def shift_masks and_mask_bit or_if by (simp only: or.assoc or.left_neutral)

lemma trans_loop_lo:
  "trans_loop 4 8 0x80 r2 r3 0 = (0,
    (if bit r3 3 then 0x80 else 0) OR (if bit r2 3 then 0x40 else 0) OR (if bit r3 2 then 0x20 else 0) OR (if bit r2 2 then 0x10 else 0) OR
    (if bit r3 1 then 8 else 0) OR (if bit r2 1 then 4 else 0) OR (if bit r3 0 then 2 else 0) OR (if bit r2 0 then 1 else 0))"
  unfolding four_three trans_loop.simps Let_def shift_masks and_mask_bit or_if by (simp only: or.assoc or.left_neutral)

lemma trans_result_bits:
  assumes "n < 8"
  shows "bit (fst (nand_trans_result r2 r3)) n = (if odd n then bit r3 (4 + n div 2) else bit r2 (4 + n div 2))"
    "bit (snd (nand_trans_result r2 r3)) n = (if odd n then bit r3 (n div 2) else bit r2 (n div 2))"
  using assms unfolding less_8 nand_trans_result_def trans_loop_hi trans_loop_lo
  by (elim disjE; simp add: bit_or_iff bit_if trans_loop_lo)+

lemma trans_result_xor:
  "nand_trans_result (a XOR b) (c XOR d) =
    (fst (nand_trans_result a c) XOR fst (nand_trans_result b d), snd (nand_trans_result a c) XOR snd (nand_trans_result b d))"
  by (rule prod_eqI; rule byte_eqI) (simp_all add: trans_result_bits bit_xor_iff)

section \<open>Bit errors\<close>

definition flip_data_bit :: "u8 list \<Rightarrow> nat \<Rightarrow> nat \<Rightarrow> u8 list" where
  "flip_data_bit dat j k = dat[j := dat ! j XOR push_bit k 1]"

lemma length_flip_data_bit [simp]: "length (flip_data_bit dat j k) = length dat"
  by (simp add: flip_data_bit_def)

lemma sums_flip:
  assumes "j < length dat" and k: "k < 8"
  shows "cp_sum (flip_data_bit dat j k) = cp_sum dat XOR (col_code k AND 0x3f)"
    and "lp_sum (flip_data_bit dat j k) = lp_sum dat XOR of_nat j"
    and "lpc_sum (flip_data_bit dat j k) = lpc_sum dat XOR NOT (of_nat j)"
proof -
  have p: "precalc (x XOR push_bit k 1) = precalc x XOR col_code k" for x
    unfolding precalc_eq col_parity_xor col_parity_bit [OF k] ..
  have m: "(x AND m) XOR ((x XOR c) AND m) = c AND m" for x c m :: u8
    by (rule byte_eqI) (auto simp: bit_xor_iff bit_and_iff)
  show "cp_sum (flip_data_bit dat j k) = cp_sum dat XOR (col_code k AND 0x3f)"
    unfolding flip_data_bit_def xsum_update [OF assms(1)] p m ..
  show "lp_sum (flip_data_bit dat j k) = lp_sum dat XOR of_nat j" "lpc_sum (flip_data_bit dat j k) = lpc_sum dat XOR NOT (of_nat j)"
    unfolding flip_data_bit_def xsum_update [OF assms(1)] p bit_xor_iff using bit_col_code [OF k] by simp_all
qed

text \<open>The code of a block from its three sums, and the difference of two codes.\<close>

definition ecc_of :: "u8 \<Rightarrow> u8 \<Rightarrow> u8 \<Rightarrow> ecc" where
  "ecc_of r1 r2 r3 = (NOT (fst (nand_trans_result r2 r3)), NOT (snd (nand_trans_result r2 r3)), push_bit 2 (NOT r1) OR 0x03)"

lemma calculate_ecc_of: "length dat = 256 \<Longrightarrow> nand_calculate_ecc dat = Some (ecc_of (cp_sum dat) (lpc_sum dat) (lp_sum dat))"
  by (simp add: nand_calculate_ecc_def ecc_loop_xsum ecc_of_def split: prod.split)

definition ecc_diff :: "ecc \<Rightarrow> ecc \<Rightarrow> ecc" where
  "ecc_diff x y = (fst x XOR fst y, fst (snd x) XOR fst (snd y), snd (snd x) XOR snd (snd y))"

lemma bit_three: "bit (3 :: int) n = (n < 2)"
  using bit_mask_iff [where 'a = int, of 2 n] by (simp add: mask_eq_exp_minus_1)

lemma ecc_of_diff:
  "ecc_diff (ecc_of (r1 XOR a) (r2 XOR b) (r3 XOR c)) (ecc_of r1 r2 r3) =
    (fst (nand_trans_result b c), snd (nand_trans_result b c), push_bit 2 a)"
  unfolding ecc_diff_def ecc_of_def trans_result_xor fst_conv snd_conv
  by (intro prod_eqI byte_eqI) (auto simp: bit_xor_iff bit_not_iff bit_or_iff bit_push_bit_iff bit_three)

text \<open>\<open>nand_correct_data\<close> in terms of the difference.\<close>

definition pair_parity :: "u8 \<Rightarrow> u8" where
  "pair_parity d = (d XOR drop_bit 1 d) AND 0x55"

lemma pair_parity_bits: "n < 8 \<Longrightarrow> bit (pair_parity d) n = (even n \<and> bit d n \<noteq> bit d (n + 1))"
  unfolding less_8 pair_parity_def by (elim disjE) (simp_all add: bit_and_iff bit_xor_iff bit_drop_bit_eq numeral_3_eq_3)

lemma pair_parity_3: "(d XOR drop_bit 1 d) AND 0x54 = pair_parity d AND 0x54"
  by (rule byte_eqI) (auto simp: pair_parity_def bit_and_iff less_8)

lemma line_syndrome:
  "pair_parity (fst (nand_trans_result (NOT x) x)) = 0x55" "pair_parity (snd (nand_trans_result (NOT x) x)) = 0x55"
  "pair_parity (fst (nand_trans_result x x)) = 0" "pair_parity (snd (nand_trans_result x x)) = 0"
  by (rule byte_eqI; simp add: pair_parity_bits trans_result_bits less_8; elim disjE; simp add: trans_result_bits bit_not_iff)+

lemma gather_hi:
  "gather_loop 4 d 0x80 0x80 0 =
    (8, (if bit d 7 then 0x80 else 0) OR (if bit d 5 then 0x40 else 0) OR (if bit d 3 then 0x20 else 0) OR (if bit d 1 then 0x10 else 0))"
  unfolding four_three gather_loop.simps shift_masks and_mask_bit or_if by (simp only: or.assoc or.left_neutral)

lemma gather_lo:
  "gather_loop 4 d 0x80 8 acc =
    (0, acc OR (if bit d 7 then 8 else 0) OR (if bit d 5 then 4 else 0) OR (if bit d 3 then 2 else 0) OR (if bit d 1 then 1 else 0))"
  unfolding four_three gather_loop.simps shift_masks and_mask_bit or_if by (simp only: or.assoc or.left_neutral)

lemma gather_col:
  "snd (gather_loop 3 d 0x80 4 0) = (if bit d 7 then 4 else 0) OR (if bit d 5 then 2 else 0) OR (if bit d 3 then 1 else 0)"
  unfolding four_three gather_loop.simps shift_masks and_mask_bit or_if by (simp only: or.assoc or.left_neutral snd_conv)

text \<open>The position of a single error is read off its syndrome.\<close>

lemma gather_line:
  "gather_loop 4 (snd (nand_trans_result (NOT x) x)) 0x80 (fst (gather_loop 4 (fst (nand_trans_result (NOT x) x)) 0x80 0x80 0))
     (snd (gather_loop 4 (fst (nand_trans_result (NOT x) x)) 0x80 0x80 0)) = (0, x)"
  unfolding gather_hi fst_conv snd_conv gather_lo prod.inject
  by (intro conjI refl byte_eqI, unfold less_8, elim disjE) (simp_all add: trans_result_bits bit_or_iff bit_if)

lemma col_syndrome:
  assumes "k < 8"
  shows "snd (gather_loop 3 (push_bit 2 (col_code k AND 0x3f)) 0x80 4 0) = of_nat k"
    "pair_parity (push_bit 2 (col_code k AND 0x3f)) AND 0x54 = 0x54"
  using assms unfolding less_8 by (elim disjE; simp only:; code_simp)+

lemma correct_data_diff:
  assumes "ecc_diff calc read = (d1, d2, d3)"
  shows "nand_correct_data dat read calc =
    (if d1 OR d2 OR d3 = 0 then Some (0, dat, read)
     else if pair_parity d1 = 0x55 \<and> pair_parity d2 = 0x55 \<and> pair_parity d3 AND 0x54 = 0x54 then
       (let add = snd (gather_loop 4 d2 0x80 (fst (gather_loop 4 d1 0x80 0x80 0)) (snd (gather_loop 4 d1 0x80 0x80 0)));
            bitno = snd (gather_loop 3 d3 0x80 4 0)
        in do { x \<leftarrow> arr_get dat (unat add); dat \<leftarrow> arr_set dat (unat add) (x XOR push_bit (unat bitno) 1); Some (1, dat, read) })
     else if count_loop d3 (count_loop d2 (count_loop d1 0)) = 1 then Some (2, dat, calc) else Some (-1, dat, read))"
proof -
  obtain r0 r1 r2 where r: "read = (r0, r1, r2)" by (rule prod_cases3)
  obtain c0 c1 c2 where c: "calc = (c0, c1, c2)" by (rule prod_cases3)
  have d: "c0 XOR r0 = d1" "c1 XOR r1 = d2" "c2 XOR r2 = d3" using assms by (simp_all add: ecc_diff_def r c)
  show ?thesis unfolding r c nand_correct_data_def case_prod_beta fst_conv snd_conv Let_def d pair_parity_3 pair_parity_def [symmetric] ..
qed

lemma flip_data_bit_twice: "j < length dat \<Longrightarrow> flip_data_bit (flip_data_bit dat j k) j k = dat"
  by (simp add: flip_data_bit_def xor.assoc)

lemma ecc_flip:
  assumes "length dat = 256" and "j < 256" and "k < 8"
  obtains e e' where "nand_calculate_ecc dat = Some e" "nand_calculate_ecc (flip_data_bit dat j k) = Some e'"
    "ecc_diff e' e = (fst (nand_trans_result (NOT (of_nat j)) (of_nat j)), snd (nand_trans_result (NOT (of_nat j)) (of_nat j)),
       push_bit 2 (col_code k AND 0x3f))"
proof -
  have j: "j < length dat" and len: "length (flip_data_bit dat j k) = 256" using assms by simp_all
  show thesis by (rule that [OF calculate_ecc_of [OF assms(1)] calculate_ecc_of [OF len, unfolded sums_flip [OF j assms(3)]] ecc_of_diff])
qed

text \<open>
  C20: the error-correcting code of a 256-byte block corrects every single-bit error of the data. When
  any one bit of a block is flipped, \<open>nand_correct_data\<close>, given the codes of the original and of the
  flipped block, restores the original and returns 1.
\<close>

theorem nand_correct_data_single:
  assumes "length dat = 256" and "j < 256" and "k < 8"
  shows "\<exists>e e'. nand_calculate_ecc dat = Some e \<and> nand_calculate_ecc (flip_data_bit dat j k) = Some e' \<and>
    nand_correct_data (flip_data_bit dat j k) e e' = Some (1, dat, e)"
proof -
  obtain e e' where e: "nand_calculate_ecc dat = Some e" "nand_calculate_ecc (flip_data_bit dat j k) = Some e'"
    and d: "ecc_diff e' e = (fst (nand_trans_result (NOT (of_nat j)) (of_nat j)), snd (nand_trans_result (NOT (of_nat j)) (of_nat j)),
       push_bit 2 (col_code k AND 0x3f))" using ecc_flip [OF assms] .
  have nz: "fst (nand_trans_result (NOT (of_nat j)) (of_nat j)) \<noteq> 0"
    using line_syndrome(1) [of "of_nat j"] by (auto simp: pair_parity_def)
  have idx: "unat (of_nat j :: u8) = j" "unat (of_nat k :: u8) = k" using assms(2,3) by (simp_all add: unat_of_nat)
  have "nand_correct_data (flip_data_bit dat j k) e e' = Some (1, flip_data_bit (flip_data_bit dat j k) j k, e)"
    unfolding correct_data_diff [OF d] gather_line col_syndrome [OF assms(3)] line_syndrome
    using nz assms idx by (simp add: arr_get_def arr_set_def flip_data_bit_def or_eq_0_iff)
  then show ?thesis using e flip_data_bit_twice assms by auto
qed

section \<open>Double errors and errors of the code\<close>

lemma count_loop_add: "count_loop d i = i + count_loop d 0"
proof (induction "unat d" arbitrary: d i rule: less_induct)
  case less
  show ?case
  proof (cases "d = 0")
    case False
    then have "unat (drop_bit 1 d) < unat d" by (auto simp: drop_bit_eq_div unat_div unat_gt_0 intro!: div_less_dividend)
    then have rec: "count_loop (drop_bit 1 d) i = i + count_loop (drop_bit 1 d) 0" for i using less by blast
    show ?thesis
      using False rec [of "i + 1"] rec [of 1] rec [of i] by (subst (1 2) count_loop.simps) (simp del: One_nat_def)
  qed (simp add: count_loop.simps)
qed

lemma count_step: "count_loop d 0 = of_bool (bit d 0) + count_loop (drop_bit 1 d) 0"
proof (cases "d = 0")
  case False
  then show ?thesis
    using count_loop_add [of "drop_bit 1 d" 1] by (subst count_loop.simps) (simp add: and_mask_bit del: One_nat_def)
qed (simp add: count_loop.simps)

lemma count_two: "count_loop d 0 = of_bool (bit d 0) + of_bool (bit d 1) + count_loop (drop_bit 2 d) 0"
  using count_step [of d] count_step [of "drop_bit 1 d"] by (simp add: bit_drop_bit_eq numeral_2_eq_2)

lemma count_even:
  assumes "pair_parity d = 0"
  shows "even (count_loop d 0)"
proof -
  have pairs: "bit d 0 = bit d 1" "bit d 2 = bit d 3" "bit d 4 = bit d 5" "bit d 6 = bit d 7"
    using pair_parity_bits [of 0 d] pair_parity_bits [of 2 d] pair_parity_bits [of 4 d] pair_parity_bits [of 6 d]
    unfolding assms by simp_all
  have "drop_bit 8 d = 0" by (rule byte_eqI) (simp add: bit_drop_bit_eq)
  then have "count_loop (drop_bit 8 d) 0 = 0" by (simp add: count_loop.simps)
  moreover have "count_loop d 0 = of_bool (bit d 0) + of_bool (bit d 1) + (of_bool (bit d 2) + of_bool (bit d 3) +
      (of_bool (bit d 4) + of_bool (bit d 5) + (of_bool (bit d 6) + of_bool (bit d 7) + count_loop (drop_bit 8 d) 0)))"
    using count_two [of d] count_two [of "drop_bit 2 d"] count_two [of "drop_bit 4 d"] count_two [of "drop_bit 6 d"]
    by (simp add: bit_drop_bit_eq)
  ultimately show ?thesis using pairs by simp
qed

lemma count_not_one:
  assumes "pair_parity d1 = 0" "pair_parity d2 = 0" "pair_parity d3 = 0"
  shows "count_loop d3 (count_loop d2 (count_loop d1 0)) \<noteq> 1"
proof -
  have "even (count_loop d1 0)" "even (count_loop d2 0)" "even (count_loop d3 0)" using assms by (simp_all add: count_even)
  moreover have "count_loop d3 (count_loop d2 (count_loop d1 0)) = count_loop d1 0 + count_loop d2 0 + count_loop d3 0"
    using count_loop_add [of d3 "count_loop d2 (count_loop d1 0)"] count_loop_add [of d2 "count_loop d1 0"] by simp
  ultimately have "even (count_loop d3 (count_loop d2 (count_loop d1 0)))" by simp
  then show ?thesis by auto
qed

lemma col_pairs:
  assumes "k < 8" "l < 8"
  shows "pair_parity (push_bit 2 ((col_code k AND 0x3f) XOR (col_code l AND 0x3f))) = 0"
    "push_bit 2 ((col_code k AND 0x3f) XOR (col_code l AND 0x3f)) = 0 \<longleftrightarrow> k = l"
proof -
  have "list_all (\<lambda>k. list_all (\<lambda>l. pair_parity (push_bit 2 ((col_code k AND 0x3f) XOR (col_code l AND 0x3f))) = 0 \<and>
      (push_bit 2 ((col_code k AND 0x3f) XOR (col_code l AND 0x3f)) = 0 \<longleftrightarrow> k = l)) [0..<8]) [0..<8]"
    by code_simp
  then show "pair_parity (push_bit 2 ((col_code k AND 0x3f) XOR (col_code l AND 0x3f))) = 0"
    "push_bit 2 ((col_code k AND 0x3f) XOR (col_code l AND 0x3f)) = 0 \<longleftrightarrow> k = l"
    using assms unfolding list_all_iff by (simp_all del: upt_rec_numeral)
qed

lemma trans_result_zero:
  assumes "fst (nand_trans_result x x) = 0" and "snd (nand_trans_result x x) = 0"
  shows "x = 0"
proof (rule byte_eqI)
  fix n :: nat assume n: "n < 8"
  have "bit (fst (nand_trans_result x x)) (2 * (n - 4)) = bit x n" if "4 \<le> n"
    using trans_result_bits(1) [of "2 * (n - 4)" x x] n that by simp
  moreover have "bit (snd (nand_trans_result x x)) (2 * n) = bit x n" if "n < 4"
    using trans_result_bits(2) [of "2 * n" x x] that by simp
  ultimately show "bit x n = bit 0 n" using assms by (cases "n < 4") auto
qed

lemma ecc_flip_two:
  assumes "length dat = 256" and "j1 < 256" "k1 < 8" "j2 < 256" "k2 < 8"
  obtains e e' where "nand_calculate_ecc dat = Some e" "nand_calculate_ecc (flip_data_bit (flip_data_bit dat j1 k1) j2 k2) = Some e'"
    "ecc_diff e' e = (fst (nand_trans_result (of_nat j1 XOR of_nat j2) (of_nat j1 XOR of_nat j2)),
       snd (nand_trans_result (of_nat j1 XOR of_nat j2) (of_nat j1 XOR of_nat j2)),
       push_bit 2 ((col_code k1 AND 0x3f) XOR (col_code k2 AND 0x3f)))"
proof -
  let ?d = "flip_data_bit dat j1 k1"
  have j: "j1 < length dat" "j2 < length ?d" and len: "length (flip_data_bit ?d j2 k2) = 256" using assms by simp_all
  have nn: "(a XOR NOT b) XOR NOT c = a XOR (b XOR c)" for a b c :: u8
    by (rule byte_eqI) (auto simp: bit_xor_iff bit_not_iff)
  show thesis
    by (rule that [OF calculate_ecc_of [OF assms(1)]
          calculate_ecc_of [OF len, unfolded sums_flip [OF j(2) assms(5)] sums_flip [OF j(1) assms(3)] nn, unfolded xor.assoc] ecc_of_diff])
qed

text \<open>
  Every double error of the data is detected. When two different bits of a block are flipped,
  \<open>nand_correct_data\<close> returns -1 and leaves the block as it is.
\<close>

theorem nand_correct_data_double:
  assumes "length dat = 256" and "j1 < 256" "k1 < 8" "j2 < 256" "k2 < 8" and ne: "(j1, k1) \<noteq> (j2, k2)"
  shows "\<exists>e e'. nand_calculate_ecc dat = Some e \<and> nand_calculate_ecc (flip_data_bit (flip_data_bit dat j1 k1) j2 k2) = Some e' \<and>
    nand_correct_data (flip_data_bit (flip_data_bit dat j1 k1) j2 k2) e e' = Some (-1, flip_data_bit (flip_data_bit dat j1 k1) j2 k2, e)"
proof -
  define x :: u8 where "x = of_nat j1 XOR of_nat j2"
  obtain e e' where e: "nand_calculate_ecc dat = Some e" "nand_calculate_ecc (flip_data_bit (flip_data_bit dat j1 k1) j2 k2) = Some e'"
    and d: "ecc_diff e' e = (fst (nand_trans_result x x), snd (nand_trans_result x x), push_bit 2 ((col_code k1 AND 0x3f) XOR (col_code k2 AND 0x3f)))"
    using ecc_flip_two [OF assms(1-5)] unfolding x_def .
  note col = col_pairs [OF assms(3,5)]
  have "\<not> (fst (nand_trans_result x x) = 0 \<and> snd (nand_trans_result x x) = 0 \<and> push_bit 2 ((col_code k1 AND 0x3f) XOR (col_code k2 AND 0x3f)) = 0)"
  proof
    assume z: "fst (nand_trans_result x x) = 0 \<and> snd (nand_trans_result x x) = 0 \<and> push_bit 2 ((col_code k1 AND 0x3f) XOR (col_code k2 AND 0x3f)) = 0"
    then have "x = 0" "k1 = k2" using trans_result_zero col(2) by blast+
    have "of_nat j1 = (of_nat j1 XOR of_nat j2) XOR (of_nat j2 :: u8)" by (simp add: xor.assoc)
    then have "(of_nat j1 :: u8) = of_nat j2" using \<open>x = 0\<close> unfolding x_def by simp
    then have "unat (of_nat j1 :: u8) = unat (of_nat j2 :: u8)" by simp
    then have "j1 = j2" using assms(2,4) by (simp add: unat_of_nat)
    then show False using ne \<open>k1 = k2\<close> by simp
  qed
  then have "nand_correct_data (flip_data_bit (flip_data_bit dat j1 k1) j2 k2) e e' = Some (-1, flip_data_bit (flip_data_bit dat j1 k1) j2 k2, e)"
    unfolding correct_data_diff [OF d] using count_not_one [OF line_syndrome(3,4) col(1)] line_syndrome(3,4) by (simp add: or_eq_0_iff)
  then show ?thesis using e by blast
qed

text \<open>The 24 bits of a code, and a code with one bit wrong.\<close>

definition flip_code_bit :: "ecc \<Rightarrow> nat \<Rightarrow> ecc" where
  "flip_code_bit e n = (case e of (e0, e1, e2) \<Rightarrow>
     if n < 8 then (e0 XOR push_bit n 1, e1, e2)
     else if n < 16 then (e0, e1 XOR push_bit (n - 8) 1, e2) else (e0, e1, e2 XOR push_bit (n - 16) 1))"

lemma count_single: "n < 8 \<Longrightarrow> count_loop (push_bit n 1) 0 = 1 \<and> push_bit n 1 \<noteq> (0 :: u8)"
  unfolding less_8 by (elim disjE; simp only:; code_simp)

lemma count_zero [simp]: "count_loop 0 i = i"
  by (simp add: count_loop.simps)

lemma pair_parity_zero [simp]: "pair_parity 0 = 0"
  by (simp add: pair_parity_def)

lemma code_diff:
  assumes "n < 24"
  shows "ecc_diff e (flip_code_bit e n) = (if n < 8 then (push_bit n 1, 0, 0) else if n < 16 then (0, push_bit (n - 8) 1, 0) else (0, 0, push_bit (n - 16) 1))"
proof -
  have "a XOR (a XOR b) = b" for a b :: u8 by (simp flip: xor.assoc)
  then show ?thesis by (cases e) (simp add: ecc_diff_def flip_code_bit_def del: push_bit_of_1)
qed

text \<open>
  An error of the stored code is told from an error of the data. When the code read back differs
  from the code of the block in one of its 24 bits, \<open>nand_correct_data\<close> returns 2, leaves the block as it
  is and replaces the code.
\<close>

theorem nand_correct_data_code_error:
  assumes "length dat = 256" and n: "n < 24"
  shows "\<exists>e. nand_calculate_ecc dat = Some e \<and> nand_correct_data dat (flip_code_bit e n) e = Some (2, dat, e)"
proof -
  obtain e where e: "nand_calculate_ecc dat = Some e" using calculate_ecc_of [OF assms(1)] by blast
  consider "n < 8" | "8 \<le> n" "n - 8 < 8" | "16 \<le> n" "n - 16 < 8" using n by linarith
  then have "nand_correct_data dat (flip_code_bit e n) e = Some (2, dat, e)"
  proof cases
    case 1
    then show ?thesis using correct_data_diff [OF code_diff [OF n, of e, simplified if_P [OF 1]], of dat] count_single by simp
  next
    case 2
    then have "ecc_diff e (flip_code_bit e n) = (0, push_bit (n - 8) 1, 0)" using code_diff [OF n] by auto
    then show ?thesis using correct_data_diff [of e "flip_code_bit e n" 0 "push_bit (n - 8) 1" 0 dat] count_single [OF 2(2)] by simp
  next
    case 3
    then have "ecc_diff e (flip_code_bit e n) = (0, 0, push_bit (n - 16) 1)" using code_diff [OF n] by auto
    then show ?thesis using correct_data_diff [of e "flip_code_bit e n" 0 0 "push_bit (n - 16) 1" dat] count_single [OF 3(2)] by simp
  qed
  then show ?thesis using e by blast
qed

section \<open>The two variants agree\<close>

lemma xsum_mask: "xsum (\<lambda>j d. f j d AND m) j dat = xsum f j dat AND m"
proof (induction dat arbitrary: j)
  case (Cons d dat)
  have "(a AND m) XOR (b AND m) = (a XOR b) AND m" for a b :: u8
    by (rule byte_eqI) (auto simp: bit_xor_iff bit_and_iff)
  then show ?case using Cons by simp
qed simp

lemma xsum_complement:
  "xsum (\<lambda>j d. if bit (f d) 6 then NOT (of_nat j) else 0) j dat =
    (let r = xsum (\<lambda>j d. if bit (f d) 6 then of_nat j else 0) j dat in if bit (xsum (\<lambda>j d. f d) j dat) 6 then NOT r else r)"
proof (induction dat arbitrary: j)
  case (Cons d dat)
  have "NOT a XOR NOT b = a XOR b" for a b :: u8 by (rule byte_eqI) (auto simp: bit_xor_iff bit_not_iff)
  then show ?case using Cons by (auto simp: Let_def bit_xor_iff)
qed simp


section \<open>Examples\<close>

definition demo_block :: "u8 list" where "demo_block = replicate 256 0xA5"

theorem nand_correct_data_single_witness:
  "\<exists>e e'. nand_calculate_ecc demo_block = Some e \<and> nand_calculate_ecc (flip_data_bit demo_block 17 3) = Some e' \<and>
    nand_correct_data (flip_data_bit demo_block 17 3) e e' = Some (1, demo_block, e)"
  using nand_correct_data_single [of demo_block 17 3] by (simp add: demo_block_def)

theorem nand_correct_data_double_witness:
  "\<exists>e e'. nand_calculate_ecc demo_block = Some e \<and> nand_calculate_ecc (flip_data_bit (flip_data_bit demo_block 17 3) 200 7) = Some e' \<and>
    nand_correct_data (flip_data_bit (flip_data_bit demo_block 17 3) 200 7) e e' =
      Some (-1, flip_data_bit (flip_data_bit demo_block 17 3) 200 7, e)"
  using nand_correct_data_double [of demo_block 17 3 200 7] by (simp add: demo_block_def)

theorem nand_correct_data_code_error_witness:
  "\<exists>e. nand_calculate_ecc demo_block = Some e \<and> nand_correct_data demo_block (flip_code_bit e 20) e = Some (2, demo_block, e)"
  using nand_correct_data_code_error [of demo_block 20] by (simp add: demo_block_def)

end
