(* ===== verification/HwEcc.thy ===== *)
theory HwEcc
  imports NandEcc
begin

text \<open>
  The correction of a chunk of 512 bytes with the codes of the memory controller, in
  \<open>src/x-loader/board/rhino/rhino.c\<close>: the bit count, the re-formatting of the stored codes, and what the
  correction does with errors of one and of two bits.
\<close>

section \<open>Correction of a 512-byte chunk\<close>

text \<open>The number of bits set, added up in fields of 2, 4, 8, 16 and 32 bits.\<close>

definition hweight32 :: "u32 \<Rightarrow> u32" where
  "hweight32 w =
     (let res = (w AND 0x55555555) + (drop_bit 1 w AND 0x55555555);
          res = (res AND 0x33333333) + (drop_bit 2 res AND 0x33333333);
          res = (res AND 0x0F0F0F0F) + (drop_bit 4 res AND 0x0F0F0F0F);
          res = (res AND 0x00FF00FF) + (drop_bit 8 res AND 0x00FF00FF)
      in (res AND 0x0000FFFF) + (drop_bit 16 res AND 0x0000FFFF))"

definition gen_true_ecc :: "ecc \<Rightarrow> u32" where
  "gen_true_ecc e = (case e of (e0, e1, e2) \<Rightarrow>
     ucast e0 OR push_bit 16 (ucast e1) OR push_bit 20 (ucast (e2 AND 0xF0)) OR push_bit 8 (ucast (e2 AND 0x0F)))"

text \<open>The result and the data; \<^const>\<open>None\<close> is a position outside the data. The messages are left out.\<close>

definition omap_correct_data_hw_ecc :: "u8 list \<Rightarrow> ecc \<Rightarrow> ecc \<Rightarrow> (int \<times> u8 list) option" where
  "omap_correct_data_hw_ecc dat read_ecc calc_ecc =
     (let orig_ecc = gen_true_ecc read_ecc; new_ecc = gen_true_ecc calc_ecc; res = orig_ecc XOR new_ecc
      in if res \<noteq> 0 then
           let hm = hweight32 res
           in if hm = 12 then do {
                let parity_bits = (ucast (drop_bit 16 res) :: u16);
                let bitno = (ucast (parity_bits AND 0x7) :: u8);
                let byte = drop_bit 3 parity_bits AND 0x1FF;
                x \<leftarrow> arr_get dat (unat byte);
                dat \<leftarrow> arr_set dat (unat byte) (x XOR push_bit (unat bitno) 0x1);
                Some (0, dat) }
              else if hm = 1 then Some (2, dat)
              else if orig_ecc = 0x0FFF0FFF \<and> new_ecc = 0 then Some (0, dat)
              else Some (-1, dat)
         else Some (0, dat))"

section \<open>The number of bits set\<close>

definition popcount :: "nat \<Rightarrow> nat \<Rightarrow> nat" where
  "popcount n w = (\<Sum>i<n. of_bool (bit w i))"

lemma small_bits: "y < 2 ^ L \<Longrightarrow> bit (y :: nat) i \<Longrightarrow> i < L"
  by (metis bit_take_bit_iff take_bit_nat_eq_self)

lemma small_if_bits: "(\<And>i. bit (y :: nat) i \<Longrightarrow> i < L) \<Longrightarrow> y < 2 ^ L"
  by (metis bit_eqI bit_take_bit_iff take_bit_nat_less_exp)

text \<open>A number made of a high part and a low part of \<open>L\<close> bits.\<close>

lemma join_bits: "y < 2 ^ L \<Longrightarrow> x * 2 ^ L + y = push_bit L x OR (y :: nat)"
  unfolding push_bit_eq_mult [symmetric] by (rule disjunctive_add) (auto simp: bit_push_bit_iff dest: small_bits)

lemma popcount_split:
  assumes "y < 2 ^ L"
  shows "popcount (L + n) (x * 2 ^ L + y) = popcount L y + popcount n x"
proof -
  have b: "bit (x * 2 ^ L + y) i = (if i < L then bit y i else bit x (i - L))" for i
    using small_bits [OF assms] by (auto simp: join_bits [OF assms] bit_or_iff bit_push_bit_iff)
  have "popcount L (x * 2 ^ L + y) = popcount L y" by (simp add: popcount_def b)
  then show ?thesis by (induction n) (simp_all add: popcount_def b)
qed

text \<open>One round of \<open>hweight32\<close>; it works on the two parts separately.\<close>

definition add_fields :: "nat \<Rightarrow> nat \<Rightarrow> nat \<Rightarrow> nat" where
  "add_fields k m w = (w AND m) + (drop_bit k w AND m)"

lemma add_fields_split:
  assumes "k \<le> L" and y: "y < 2 ^ L" and M: "M < 2 ^ (L - k)"
  shows "add_fields k (M * 2 ^ L + M) (x * 2 ^ L + y) = add_fields k M x * 2 ^ L + add_fields k M y"
proof -
  note bM = small_bits [OF M] and bY = small_bits [OF y]
  have M': "M < 2 ^ L" using M by (rule less_le_trans) (simp add: power_increasing)
  have "(x * 2 ^ L + y) AND (M * 2 ^ L + M) = push_bit L (x AND M) OR (y AND M)"
    unfolding join_bits [OF y] join_bits [OF M'] by (rule bit_eqI) (auto simp: bit_and_iff bit_or_iff bit_push_bit_iff dest: bM bY)
  moreover have "drop_bit k (x * 2 ^ L + y) AND (M * 2 ^ L + M) = push_bit L (drop_bit k x AND M) OR (drop_bit k y AND M)"
  proof (unfold join_bits [OF y] join_bits [OF M'], rule bit_eqI)
    fix n
    consider "L \<le> n" "\<not> bit y (k + n)" "\<not> bit M n" | "n < L" "bit M n" "k + n < L" | "n < L" "\<not> bit M n"
      using bM bY small_bits [OF M'] by (metis less_diff_conv add.commute not_less trans_le_add2)
    then show "bit (drop_bit k (push_bit L x OR y) AND (push_bit L M OR M)) n = bit (push_bit L (drop_bit k x AND M) OR (drop_bit k y AND M)) n"
      by cases (simp_all add: bit_and_iff bit_or_iff bit_push_bit_iff bit_drop_bit_eq)
  qed
  moreover have "push_bit L (x AND M) OR (y AND M) = (x AND M) * 2 ^ L + (y AND M)"
    "push_bit L (drop_bit k x AND M) OR (drop_bit k y AND M) = (drop_bit k x AND M) * 2 ^ L + (drop_bit k y AND M)"
    by (rule join_bits [symmetric]; rule small_if_bits; auto simp: bit_and_iff dest: small_bits [OF M'])+
  ultimately show ?thesis by (simp add: add_fields_def algebra_simps)
qed

lemma and_small: "(a :: nat) AND M < 2 ^ L" if "M < 2 ^ L"
  by (rule small_if_bits) (auto simp: bit_and_iff dest: small_bits [OF that])

lemma add_fields_less: "1 \<le> k \<Longrightarrow> k \<le> L \<Longrightarrow> M < 2 ^ (L - k) \<Longrightarrow> add_fields k M w < 2 ^ L"
proof -
  assume k: "1 \<le> k" "k \<le> L" and M: "M < 2 ^ (L - k)"
  have "(2 :: nat) ^ (L - k) + 2 ^ (L - k) \<le> 2 ^ L"
  proof -
    have "(2 :: nat) ^ (L - k + 1) \<le> 2 ^ L" using k by (intro power_increasing) simp_all
    then show ?thesis by simp
  qed
  then show ?thesis unfolding add_fields_def using and_small [OF M, of w] and_small [OF M, of "drop_bit k w"] by linarith
qed

lemma add_fields_last:
  assumes "x < 2 ^ L" and "y < 2 ^ L"
  shows "add_fields L (2 ^ L - 1) (x * 2 ^ L + y) = x + y"
proof -
  have m: "a AND (2 ^ L - 1) = a mod 2 ^ L" for a :: nat
    by (metis mask_eq_exp_minus_1 take_bit_eq_mask take_bit_eq_mod)
  have "drop_bit L (x * 2 ^ L + y) = x" using assms(2) by (simp add: drop_bit_eq_div)
  then show ?thesis unfolding add_fields_def m using assms by simp
qed

text \<open>The rounds for numbers of 2, 4, 8, 16 and 32 bits.\<close>

abbreviation h2 :: "nat \<Rightarrow> nat" where "h2 w \<equiv> add_fields 1 0x1 w"
abbreviation h4 :: "nat \<Rightarrow> nat" where "h4 w \<equiv> add_fields 2 0x3 (add_fields 1 0x5 w)"
abbreviation h8 :: "nat \<Rightarrow> nat" where "h8 w \<equiv> add_fields 4 0xF (add_fields 2 0x33 (add_fields 1 0x55 w))"
abbreviation h16 :: "nat \<Rightarrow> nat" where
  "h16 w \<equiv> add_fields 8 0xFF (add_fields 4 0x0F0F (add_fields 2 0x3333 (add_fields 1 0x5555 w)))"
abbreviation h32 :: "nat \<Rightarrow> nat" where
  "h32 w \<equiv> add_fields 16 0xFFFF (add_fields 8 0x00FF00FF (add_fields 4 0x0F0F0F0F (add_fields 2 0x33333333 (add_fields 1 0x55555555 w))))"

lemma h2_popcount: "w < 4 \<Longrightarrow> h2 w = popcount 2 w"
proof -
  assume "w < 4"
  then have "w = 0 \<or> w = 1 \<or> w = 2 \<or> w = 3" by linarith
  then show ?thesis by (elim disjE; simp only:; code_simp)
qed

text \<open>From one width to the next: the rounds work on both halves, and the last one adds the halves.\<close>

lemma halves: "popcount (L + L) w = popcount L (w div 2 ^ L) + popcount L (w mod 2 ^ L)"
  using popcount_split [of "w mod 2 ^ L" L L "w div 2 ^ L"] by (simp only: div_mult_mod_eq) simp

lemma add_fields_halves:
  assumes "1 \<le> k" and "k \<le> L" and "M < 2 ^ (L - k)" and "y < 2 ^ L" and "N = M * 2 ^ L + M"
  shows "add_fields k N (x * 2 ^ L + y) = add_fields k M x * 2 ^ L + add_fields k M y" and "add_fields k M y < 2 ^ L"
  using assms add_fields_split add_fields_less by blast+

lemma h4_popcount: "w < 2 ^ 4 \<Longrightarrow> h4 w = popcount 4 w"
proof -
  assume w: "w < 2 ^ 4"
  have 1: "add_fields 1 5 (w div 2 ^ 2 * 2 ^ 2 + w mod 2 ^ 2) = h2 (w div 2 ^ 2) * 2 ^ 2 + h2 (w mod 2 ^ 2)"
    by (rule add_fields_halves) simp_all
  have "add_fields 2 (2 ^ 2 - 1) (h2 (w div 2 ^ 2) * 2 ^ 2 + h2 (w mod 2 ^ 2)) = h2 (w div 2 ^ 2) + h2 (w mod 2 ^ 2)"
    by (rule add_fields_last; rule add_fields_less) simp_all
  then have "h4 w = h2 (w div 2 ^ 2) + h2 (w mod 2 ^ 2)" using 1 by simp
  then show ?thesis using halves [of 2 w] h2_popcount [of "w div 4"] h2_popcount [of "w mod 4"] w by simp
qed

lemma h8_popcount: "w < 2 ^ 8 \<Longrightarrow> h8 w = popcount 8 w"
proof -
  assume w: "w < 2 ^ 8"
  let ?x = "w div 2 ^ 4" and ?y = "w mod 2 ^ 4"
  have 1: "add_fields 1 0x55 (?x * 2 ^ 4 + ?y) = add_fields 1 5 ?x * 2 ^ 4 + add_fields 1 5 ?y" "add_fields 1 5 ?y < 2 ^ 4"
    by (rule add_fields_halves; simp)+
  have 2: "add_fields 2 0x33 (add_fields 1 5 ?x * 2 ^ 4 + add_fields 1 5 ?y) = h4 ?x * 2 ^ 4 + h4 ?y"
    by (rule add_fields_halves [OF _ _ _ 1(2)]) simp_all
  have "add_fields 4 (2 ^ 4 - 1) (h4 ?x * 2 ^ 4 + h4 ?y) = h4 ?x + h4 ?y"
    by (rule add_fields_last; rule add_fields_less) simp_all
  then have "h8 w = h4 ?x + h4 ?y" using 1(1) 2 by simp
  then show ?thesis using halves [of 4 w] h4_popcount [of ?x] h4_popcount [of ?y] w by simp
qed

lemma h16_popcount: "w < 2 ^ 16 \<Longrightarrow> h16 w = popcount 16 w"
proof -
  assume w: "w < 2 ^ 16"
  let ?x = "w div 2 ^ 8" and ?y = "w mod 2 ^ 8"
  have 1: "add_fields 1 0x5555 (?x * 2 ^ 8 + ?y) = add_fields 1 0x55 ?x * 2 ^ 8 + add_fields 1 0x55 ?y" "add_fields 1 0x55 ?y < 2 ^ 8"
    by (rule add_fields_halves; simp)+
  let ?x1 = "add_fields 1 0x55 ?x" and ?y1 = "add_fields 1 0x55 ?y"
  have 2: "add_fields 2 0x3333 (?x1 * 2 ^ 8 + ?y1) = add_fields 2 0x33 ?x1 * 2 ^ 8 + add_fields 2 0x33 ?y1" "add_fields 2 0x33 ?y1 < 2 ^ 8"
    by (rule add_fields_halves [OF _ _ _ 1(2)]; simp)+
  have 3: "add_fields 4 0x0F0F (add_fields 2 0x33 ?x1 * 2 ^ 8 + add_fields 2 0x33 ?y1) = h8 ?x * 2 ^ 8 + h8 ?y"
    by (rule add_fields_halves [OF _ _ _ 2(2)]) simp_all
  have "add_fields 8 (2 ^ 8 - 1) (h8 ?x * 2 ^ 8 + h8 ?y) = h8 ?x + h8 ?y"
    by (rule add_fields_last; rule add_fields_less) simp_all
  then have "h16 w = h8 ?x + h8 ?y" using 1(1) 2(1) 3 by simp
  then show ?thesis using halves [of 8 w] h8_popcount [of ?x] h8_popcount [of ?y] w by simp
qed

lemma h32_popcount: "w < 2 ^ 32 \<Longrightarrow> h32 w = popcount 32 w"
proof -
  assume w: "w < 2 ^ 32"
  let ?x = "w div 2 ^ 16" and ?y = "w mod 2 ^ 16"
  have 1: "add_fields 1 0x55555555 (?x * 2 ^ 16 + ?y) = add_fields 1 0x5555 ?x * 2 ^ 16 + add_fields 1 0x5555 ?y" "add_fields 1 0x5555 ?y < 2 ^ 16"
    by (rule add_fields_halves; simp)+
  let ?x1 = "add_fields 1 0x5555 ?x" and ?y1 = "add_fields 1 0x5555 ?y"
  have 2: "add_fields 2 0x33333333 (?x1 * 2 ^ 16 + ?y1) = add_fields 2 0x3333 ?x1 * 2 ^ 16 + add_fields 2 0x3333 ?y1"
      "add_fields 2 0x3333 ?y1 < 2 ^ 16"
    by (rule add_fields_halves [OF _ _ _ 1(2)]; simp)+
  let ?x2 = "add_fields 2 0x3333 ?x1" and ?y2 = "add_fields 2 0x3333 ?y1"
  have 3: "add_fields 4 0x0F0F0F0F (?x2 * 2 ^ 16 + ?y2) = add_fields 4 0x0F0F ?x2 * 2 ^ 16 + add_fields 4 0x0F0F ?y2"
      "add_fields 4 0x0F0F ?y2 < 2 ^ 16"
    by (rule add_fields_halves [OF _ _ _ 2(2)]; simp)+
  have 4: "add_fields 8 0x00FF00FF (add_fields 4 0x0F0F ?x2 * 2 ^ 16 + add_fields 4 0x0F0F ?y2) = h16 ?x * 2 ^ 16 + h16 ?y"
    by (rule add_fields_halves [OF _ _ _ 3(2)]) simp_all
  have "add_fields 16 (2 ^ 16 - 1) (h16 ?x * 2 ^ 16 + h16 ?y) = h16 ?x + h16 ?y"
    by (rule add_fields_last; rule add_fields_less) simp_all
  then have "h32 w = h16 ?x + h16 ?y" using 1(1) 2(1) 3(1) 4 by simp
  then show ?thesis using halves [of 16 w] h16_popcount [of ?x] h16_popcount [of ?y] w by simp
qed

lemma unat_u32_bound: "unat (w :: u32) < 2 ^ 32"
  using unsigned_less [of w, where 'a = nat] by simp

lemma unat_round:
  assumes "unat m < 2 ^ 31"
  shows "unat ((w AND m) + (drop_bit k w AND m) :: u32) = add_fields k (unat m) (unat w)"
proof -
  have "unat (w AND m) < 2 ^ 31" "unat (drop_bit k w AND m) < 2 ^ 31"
    unfolding unsigned_and_eq by (rule and_small [OF assms])+
  then have "unat ((w AND m) + (drop_bit k w AND m)) = unat (w AND m) + unat (drop_bit k w AND m)"
    by (simp add: unat_word_ariths)
  moreover have "take_bit 32 (unat w) = unat w" by (rule take_bit_nat_eq_self) (rule unat_u32_bound)
  ultimately show ?thesis by (simp add: add_fields_def unsigned_and_eq unsigned_drop_bit_eq)
qed

lemma hweight32_bits: "unat (hweight32 w) = (\<Sum>i<32. of_bool (bit w i))"
proof -
  have "unat (hweight32 w) = h32 (unat w)"
    unfolding hweight32_def Let_def by (simp add: unat_round)
  also have "\<dots> = popcount 32 (unat w)" by (rule h32_popcount [OF unat_u32_bound])
  also have "\<dots> = (\<Sum>i<32. of_bool (bit w i))" unfolding popcount_def by (rule sum.cong) (simp_all add: bit_unsigned_iff)
  finally show ?thesis .
qed

text \<open>
  The parallel bit count is a bit count. \<open>hweight32\<close> returns the number of bits set in its argument,
  for every 32-bit word.
\<close>

theorem hweight32_popcount: "unat (hweight32 w) = card {i. i < 32 \<and> bit w i}"
proof -
  have "{..<32} \<inter> {i. bit w i} = {i. i < 32 \<and> bit w i}" by auto
  then show ?thesis unfolding hweight32_bits by (simp add: sum_of_bool_eq)
qed

section \<open>The code of the memory controller\<close>

text \<open>
  The ECC engine of the memory controller computes, for the 4096 bits of a chunk of 512 bytes, 24
  parities: bit 16 + \<open>i\<close> of its result is the parity of the bits whose address has bit \<open>i\<close> set, bit \<open>i\<close>
  that of the others. A bit that is set contributes the code of its address.
\<close>

definition addr_code :: "nat \<Rightarrow> u32" where
  "addr_code a = push_bit 16 (of_nat a) OR (NOT (of_nat a) AND 0xFFF)"

fun bits_code :: "nat \<Rightarrow> nat \<Rightarrow> u8 \<Rightarrow> u32" where
  "bits_code 0 j d = 0"
| "bits_code (Suc n) j d = (if bit d n then addr_code (8 * j + n) else 0) XOR bits_code n j d"

fun hw_parity_from :: "nat \<Rightarrow> u8 list \<Rightarrow> u32" where
  "hw_parity_from j [] = 0"
| "hw_parity_from j (d # dat) = bits_code 8 j d XOR hw_parity_from (j + 1) dat"

abbreviation hw_parity :: "u8 list \<Rightarrow> u32" where
  "hw_parity \<equiv> hw_parity_from 0"

lemma xor_cancel: "a XOR (a XOR b) = (b :: u32)" "(a XOR b) XOR b = a"
  by (simp_all add: xor.assoc flip: xor.assoc [of a a b])

lemma bits_code_flip:
  "n \<le> 8 \<Longrightarrow> k < 8 \<Longrightarrow> bits_code n j (d XOR push_bit k 1) = bits_code n j d XOR (if k < n then addr_code (8 * j + k) else 0)"
proof (induction n)
  case (Suc n)
  have "bit (d XOR push_bit k 1) n = (bit d n \<noteq> (n = k))"
    unfolding bit_xor_iff bit_push_bit_iff using Suc.prems by (auto simp: bit_1_iff)
  then show ?case using Suc by (auto simp: xor.assoc xor.left_commute xor.commute xor_cancel less_Suc_eq)
qed simp

lemma hw_parity_flip:
  "i < length dat \<Longrightarrow> k < 8 \<Longrightarrow> hw_parity_from j (flip_data_bit dat i k) = hw_parity_from j dat XOR addr_code (8 * (j + i) + k)"
proof (induction dat arbitrary: i j)
  case (Cons d dat)
  show ?case
  proof (cases i)
    case 0
    then show ?thesis using bits_code_flip [of 8 k j d] Cons.prems by (simp add: flip_data_bit_def xor.assoc xor.left_commute xor.commute)
  next
    case (Suc i')
    then have "flip_data_bit (d # dat) i k = d # flip_data_bit dat i' k" by (simp add: flip_data_bit_def)
    then show ?thesis using Cons Suc by (simp add: xor.assoc add.assoc)
  qed
qed simp

lemma mask_consts: "(0xFFF :: u32) = mask 12" "(0xFF :: u32) = mask 8" "(0x0F :: u32) = mask 4" "(0xF0 :: u32) = push_bit 4 (mask 4)"
  "(0x0FFF0FFF :: u32) = mask 12 OR push_bit 16 (mask 12)" "(0x0F :: u8) = mask 4" "(0xF0 :: u8) = push_bit 4 (mask 4)"
  by (simp_all add: mask_eq_exp_minus_1 push_bit_eq_mult)

lemmas bits_of_code = bit_or_iff bit_and_iff bit_xor_iff bit_not_iff bit_push_bit_iff bit_drop_bit_eq bit_mask_iff bit_ucast_iff

lemma bit_of_nat_u32: "bit (of_nat x :: u32) i \<longleftrightarrow> i < 32 \<and> bit x i"
  by (auto simp: bit_of_nat_iff)

lemma bit_addr_code: "a < 4096 \<Longrightarrow> bit (addr_code a) i \<longleftrightarrow> i < 12 \<and> \<not> bit a i \<or> 16 \<le> i \<and> i < 28 \<and> bit a (i - 16)"
  unfolding addr_code_def mask_consts using small_bits [of a 12 "i - 16"] small_bits [of a 12 i] by (auto simp: bits_of_code bit_of_nat_u32)

lemma sum_lessThan_add: "(\<Sum>i<m + n. f i) = (\<Sum>i<m. f i) + (\<Sum>i<n. f (m + i :: nat) :: nat)"
  by (induction n) simp_all

lemma hweight32_fields:
  assumes "\<And>i. bit w i \<longleftrightarrow> i < 12 \<and> Q i \<or> 16 \<le> i \<and> i < 28 \<and> P (i - 16)"
  shows "unat (hweight32 w) = (\<Sum>i<12. of_bool (Q i)) + (\<Sum>i<12. of_bool (P i))"
proof -
  have "unat (hweight32 w) = (\<Sum>i<12 + (4 + (12 + 4)). of_bool (bit w i))" by (simp add: hweight32_bits)
  then show ?thesis unfolding sum_lessThan_add assms by (simp add: sum_of_bool_eq)
qed

lemma hweight32_addr_code: "a < 4096 \<Longrightarrow> hweight32 (addr_code a) = 12"
proof -
  assume "a < 4096"
  from hweight32_fields [OF bit_addr_code [OF this]]
  have "unat (hweight32 (addr_code a)) = (\<Sum>i<12. of_bool (\<not> bit a i) + of_bool (bit a i))" by (simp only: sum.distrib)
  also have "\<dots> = (\<Sum>i<12::nat. 1)" by (rule sum.cong) simp_all
  finally have "unat (hweight32 (addr_code a)) = unat (12 :: u32)" by simp
  then show ?thesis by (rule unsigned_word_eqI)
qed

lemma bit_addr_code_xor:
  "a < 4096 \<Longrightarrow> b < 4096 \<Longrightarrow> bit (addr_code a XOR addr_code b) i \<longleftrightarrow>
     i < 12 \<and> bit (a XOR b) i \<or> 16 \<le> i \<and> i < 28 \<and> bit (a XOR b) (i - 16)"
  unfolding bit_xor_iff by (auto simp: bit_addr_code)

lemma hweight32_addr_code_xor: "a < 4096 \<Longrightarrow> b < 4096 \<Longrightarrow> unat (hweight32 (addr_code a XOR addr_code b)) = 2 * popcount 12 (a XOR b)"
  unfolding hweight32_fields [OF bit_addr_code_xor] popcount_def by simp

definition ecc_bytes :: "u32 \<Rightarrow> ecc" where
  "ecc_bytes val = (ucast (val AND 0xFF), ucast (drop_bit 16 val AND 0xFF), ucast ((drop_bit 8 val AND 0x0F) OR (drop_bit 20 val AND 0xF0)))"

lemma field_cases:
  fixes n :: nat
  obtains (a) "n < 8" | (b) m where "n = 8 + m" "m < 4" | (c) m where "n = 12 + m" "m < 4" | (d) m where "n = 16 + m" "m < 8"
  | (e) m where "n = 24 + m" "m < 4" | (f) m where "n = 28 + m"
proof -
  have "n < 8 \<or> n = 8 + (n - 8) \<and> n - 8 < 4 \<or> n = 12 + (n - 12) \<and> n - 12 < 4 \<or> n = 16 + (n - 16) \<and> n - 16 < 8
    \<or> n = 24 + (n - 24) \<and> n - 24 < 4 \<or> n = 28 + (n - 28)" by linarith
  then show thesis using that by blast
qed

lemma no_bit_u8: "\<not> bit (e :: u8) (8 + m)" "\<not> bit e (12 + m)" "\<not> bit e (16 + m)" "\<not> bit e (24 + m)" "\<not> bit e (28 + m)" "\<not> bit e (20 + m)"
  using bit_imp_le_length [of e] by fastforce+

lemma bit_gen_true_ecc:
  "bit (gen_true_ecc (e0, e1, e2)) n \<longleftrightarrow>
     n < 8 \<and> bit e0 n \<or> 8 \<le> n \<and> n < 12 \<and> bit e2 (n - 8) \<or> 16 \<le> n \<and> n < 24 \<and> bit e1 (n - 16) \<or> 24 \<le> n \<and> n < 28 \<and> bit e2 (n - 20)"
  unfolding gen_true_ecc_def prod.case mask_consts
  by (cases n rule: field_cases) (simp_all add: bits_of_code no_bit_u8, auto)

lemma bit_ecc_bytes:
  "bit (ucast (v AND 0xFF) :: u8) n \<longleftrightarrow> n < 8 \<and> bit (v :: u32) n"
  "bit (ucast (drop_bit 16 v AND 0xFF) :: u8) n \<longleftrightarrow> n < 8 \<and> bit v (16 + n)"
  "bit (ucast ((drop_bit 8 v AND 0x0F) OR (drop_bit 20 v AND 0xF0)) :: u8) n \<longleftrightarrow> n < 8 \<and> bit v (if n < 4 then 8 + n else 20 + n)"
  unfolding mask_consts by (auto simp: bits_of_code)

lemma gen_true_ecc_bytes: "gen_true_ecc (ecc_bytes v) = v AND 0x0FFF0FFF"
proof (rule bit_word_eqI)
  fix n
  show "bit (gen_true_ecc (ecc_bytes v)) n = bit (v AND 0x0FFF0FFF) n"
    unfolding ecc_bytes_def bit_gen_true_ecc bit_ecc_bytes bit_and_iff [of v] mask_consts(5)
    by (cases n rule: field_cases) (simp_all add: bits_of_code)
qed

lemma addr_code_masked: "a < 4096 \<Longrightarrow> addr_code a AND 0x0FFF0FFF = addr_code a"
  unfolding mask_consts by (rule bit_word_eqI) (auto simp: bit_addr_code bits_of_code)

text \<open>The position in a syndrome.\<close>

lemma drop_syndrome:
  assumes "\<And>i. bit (w :: u32) i \<longleftrightarrow> i < 12 \<and> Q i \<or> 16 \<le> i \<and> i < 28 \<and> bit a (i - 16)" and "a < 4096"
  shows "(ucast (drop_bit 16 w) :: u16) = of_nat a"
  using small_bits [of a 12] assms(2) by (intro bit_word_eqI) (auto simp: assms(1) bit_ucast_iff bit_drop_bit_eq bit_of_nat_iff)

lemma syndrome_position:
  assumes "a < 4096"
  shows "unat (drop_bit 3 (of_nat a :: u16) AND 0x1FF) = a div 8" and "unat (ucast ((of_nat a :: u16) AND 0x7) :: u8) = a mod 8"
proof -
  have a: "unat (of_nat a :: u16) = a" using assms by (simp add: unsigned_of_nat take_bit_nat_eq_self)
  have m: "(0x1FF :: u16) = mask 9" "(0x7 :: u16) = mask 3" by (simp_all add: mask_eq_exp_minus_1)
  have "a div 8 < 512" using assms by simp
  then show "unat (drop_bit 3 (of_nat a :: u16) AND 0x1FF) = a div 8"
    unfolding m take_bit_eq_mask [symmetric] unsigned_take_bit_eq unsigned_drop_bit_eq a
    using assms by (simp add: drop_bit_eq_div take_bit_eq_mod)
  show "unat (ucast ((of_nat a :: u16) AND 0x7) :: u8) = a mod 8"
    unfolding m take_bit_eq_mask [symmetric] unsigned_ucast_eq unsigned_take_bit_eq a by (simp add: take_bit_eq_mod mod_mod_cancel)
qed

section \<open>Errors of one and of two bits\<close>

lemma hweight32_0 [simp]: "hweight32 0 = 0"
  by (simp add: hweight32_def)

text \<open>What the correction does with two codes of the engine, by their difference.\<close>

lemma gen_true_ecc_diff: "gen_true_ecc (ecc_bytes v) XOR gen_true_ecc (ecc_bytes (v XOR s)) = s AND 0x0FFF0FFF"
  unfolding gen_true_ecc_bytes by (rule bit_word_eqI) (auto simp: bit_xor_iff bit_and_iff)

lemma correct_syndrome:
  assumes w: "\<And>i. bit w i \<longleftrightarrow> i < 12 \<and> Q i \<or> 16 \<le> i \<and> i < 28 \<and> bit a (i - 16)" and a: "a < 4096"
    and "gen_true_ecc e XOR gen_true_ecc e' = w" and "hweight32 w = 12" and len: "length c = 512"
  shows "omap_correct_data_hw_ecc (c @ rest) e e' = Some (0, flip_data_bit c (a div 8) (a mod 8) @ rest)"
proof -
  have "w \<noteq> 0" using assms(4) by auto
  moreover have "a div 8 < length c" using a len by simp
  ultimately show ?thesis
    using assms(3,4) by (simp add: omap_correct_data_hw_ecc_def drop_syndrome [OF w a] syndrome_position [OF a] arr_get_def arr_set_def
        nth_append list_update_append flip_data_bit_def)
qed

lemma flip_parity:
  assumes "length c = 512" and "a < 4096"
  shows "hw_parity (flip_data_bit c (a div 8) (a mod 8)) = hw_parity c XOR addr_code a"
proof -
  have "a div 8 < length c" using assms by simp
  from hw_parity_flip [OF this, of "a mod 8" 0] show ?thesis by simp
qed

lemma hw_correct_single:
  assumes "length c = 512" and "a < 4096"
  shows "omap_correct_data_hw_ecc (flip_data_bit c (a div 8) (a mod 8) @ rest)
    (ecc_bytes (hw_parity c)) (ecc_bytes (hw_parity (flip_data_bit c (a div 8) (a mod 8)))) = Some (0, c @ rest)"
proof -
  have "omap_correct_data_hw_ecc (flip_data_bit c (a div 8) (a mod 8) @ rest)
    (ecc_bytes (hw_parity c)) (ecc_bytes (hw_parity (flip_data_bit c (a div 8) (a mod 8))))
    = Some (0, flip_data_bit (flip_data_bit c (a div 8) (a mod 8)) (a div 8) (a mod 8) @ rest)"
    by (rule correct_syndrome [OF bit_addr_code [OF assms(2)] assms(2)])
      (simp_all add: flip_parity assms gen_true_ecc_diff addr_code_masked hweight32_addr_code)
  then show ?thesis using assms by (simp add: flip_data_bit_twice)
qed

text \<open>
  C19: an error of one bit in a chunk of 512 bytes is corrected. With the codes that the memory controller
  gives for the chunk as it was written and for the chunk as it is read, in the bytes in which they
  are stored, \<open>omap_correct_data_hw_ecc\<close> returns 0 and leaves the chunk that was written; what follows the chunk
  in the buffer stays as it is. This holds for each of the 4096 bits.
\<close>

theorem omap_correct_data_hw_ecc_single:
  assumes "length c = 512" and "a < 4096"
  shows "omap_correct_data_hw_ecc (flip_data_bit c (a div 8) (a mod 8) @ rest)
    (ecc_bytes (hw_parity c)) (ecc_bytes (hw_parity (flip_data_bit c (a div 8) (a mod 8)))) = Some (0, c @ rest)"
  using assms by (rule hw_correct_single)

theorem omap_correct_data_hw_ecc_single_witness:
  "let c = replicate 512 0xA5
   in length c = 512 \<and> (29 :: nat) < 4096 \<and>
     omap_correct_data_hw_ecc (flip_data_bit c 3 5 @ [1]) (ecc_bytes (hw_parity c)) (ecc_bytes (hw_parity (flip_data_bit c 3 5))) = Some (0, c @ [1])"
  using omap_correct_data_hw_ecc_single [of "replicate 512 0xA5" 29 "[1]"] by (simp add: Let_def)

lemma xor_less_4096: "a < 4096 \<Longrightarrow> b < 4096 \<Longrightarrow> (a XOR b :: nat) < 4096"
  using small_if_bits [of "a XOR b" 12] small_bits [of a 12] small_bits [of b 12] by (auto simp: bit_xor_iff)

lemma xor_masked: "a < 4096 \<Longrightarrow> b < 4096 \<Longrightarrow> (addr_code a XOR addr_code b) AND 0x0FFF0FFF = addr_code a XOR addr_code b"
  by (simp add: bit.conj_xor_distrib2 addr_code_masked)

lemma popcount_pos: "a < 4096 \<Longrightarrow> b < 4096 \<Longrightarrow> a \<noteq> b \<Longrightarrow> 0 < popcount 12 (a XOR b)"
proof -
  assume ab: "a < 4096" "b < 4096" "a \<noteq> b"
  then obtain i where "bit (a XOR b) i" unfolding bit_xor_iff by (metis bit_eqI)
  moreover from this have "i < 12" using small_bits [of "a XOR b" 12] xor_less_4096 [OF ab(1,2)] by simp
  ultimately show ?thesis unfolding popcount_def by (intro sum_pos2 [of _ i]) simp_all
qed

lemma xor_full:
  assumes "a < 4096" and "b < 4096"
  shows "addr_code a XOR addr_code b = 0x0FFF0FFF \<longleftrightarrow> a XOR b = (0xFFF :: nat)"
proof -
  have m: "(0xFFF :: nat) = mask 12" by (simp add: mask_eq_exp_minus_1)
  have b: "bit (a XOR b) i \<Longrightarrow> i < 12" for i using small_bits [of "a XOR b" 12] xor_less_4096 [OF assms] by simp
  show ?thesis
  proof
    assume "addr_code a XOR addr_code b = 0x0FFF0FFF"
    then have "bit (addr_code a XOR addr_code b) i \<longleftrightarrow> i < 12" if "i < 12" for i
      using that unfolding mask_consts by (simp add: bits_of_code)
    then have "bit (a XOR b) i" if "i < 12" for i using that by (simp add: bit_addr_code_xor [OF assms])
    then show "a XOR b = 0xFFF" unfolding m using b by (intro bit_eqI) (auto simp: bit_mask_iff)
  next
    assume "a XOR b = 0xFFF"
    then have f: "bit (a XOR b) i \<longleftrightarrow> i < 12" for i unfolding m by (simp add: bit_mask_iff)
    show "addr_code a XOR addr_code b = 0x0FFF0FFF"
      unfolding mask_consts by (rule bit_word_eqI, unfold bit_addr_code_xor [OF assms] f bit_or_iff bit_push_bit_iff bit_mask_iff) auto
  qed
qed

lemma hw_correct_double:
  assumes "length c = 512" and "a < 4096" and "b < 4096" and "a \<noteq> b"
    and "d = flip_data_bit (flip_data_bit c (a div 8) (a mod 8)) (b div 8) (b mod 8)"
  shows "omap_correct_data_hw_ecc (d @ rest) (ecc_bytes (hw_parity c)) (ecc_bytes (hw_parity d)) =
    (if popcount 12 (a XOR b) = 6 then Some (0, flip_data_bit d ((a XOR b) div 8) ((a XOR b) mod 8) @ rest)
     else if gen_true_ecc (ecc_bytes (hw_parity c)) = 0x0FFF0FFF \<and> a XOR b = 0xFFF then Some (0, d @ rest)
     else Some (- 1, d @ rest))"
proof -
  let ?s = "addr_code a XOR addr_code b"
  let ?g = "gen_true_ecc (ecc_bytes (hw_parity c))" and ?g' = "gen_true_ecc (ecc_bytes (hw_parity d))"
  have len: "length d = 512" using assms by simp
  have diff: "?g XOR ?g' = ?s"
    unfolding assms(5) using gen_true_ecc_diff [of "hw_parity c" ?s] assms
    by (simp add: flip_parity xor_masked xor.assoc)
  have hm: "unat (hweight32 ?s) = 2 * popcount 12 (a XOR b)" by (rule hweight32_addr_code_xor [OF assms(2,3)])
  show ?thesis
  proof (cases "popcount 12 (a XOR b) = 6")
    case True
    then have "hweight32 ?s = 12" using hm by (simp add: unsigned_word_eqI)
    with correct_syndrome [OF bit_addr_code_xor [OF assms(2,3)] xor_less_4096 [OF assms(2,3)] diff this len] True
    show ?thesis by simp
  next
    case False
    then have "hweight32 ?s \<noteq> 12" using hm by auto
    moreover have "hweight32 ?s \<noteq> 1" using hm by auto
    moreover have "?s \<noteq> 0" using hm popcount_pos [OF assms(2-4)] by auto
    moreover have "?g = 0x0FFF0FFF \<Longrightarrow> ?g' = 0 \<longleftrightarrow> a XOR b = 0xFFF"
      using diff xor_full [OF assms(2,3)] by (metis xor.commute xor.right_neutral xor_cancel(1))
    ultimately show ?thesis using False by (auto simp: omap_correct_data_hw_ecc_def diff)
  qed
qed

text \<open>
  What becomes of an error of two bits, at the bit addresses \<open>a\<close> and \<open>b\<close>. When the two addresses differ in six
  of their twelve bits, the difference of the codes has twelve bits set, as that of one wrong bit has,
  and \<open>omap_correct_data_hw_ecc\<close> returns success after it has flipped a third bit, the one at the
  address \<open>a XOR b\<close>. Otherwise the error is reported with -1 and the data stay as they are, except for two
  complementary addresses in a chunk whose stored code is that of an erased page.
\<close>

theorem omap_correct_data_hw_ecc_double:
  assumes "length c = 512" and "a < 4096" and "b < 4096" and "a \<noteq> b"
    and "d = flip_data_bit (flip_data_bit c (a div 8) (a mod 8)) (b div 8) (b mod 8)"
  shows "omap_correct_data_hw_ecc (d @ rest) (ecc_bytes (hw_parity c)) (ecc_bytes (hw_parity d)) =
    (if popcount 12 (a XOR b) = 6 then Some (0, flip_data_bit d ((a XOR b) div 8) ((a XOR b) mod 8) @ rest)
     else if gen_true_ecc (ecc_bytes (hw_parity c)) = 0x0FFF0FFF \<and> a XOR b = 0xFFF then Some (0, d @ rest)
     else Some (- 1, d @ rest))"
  using assms by (rule hw_correct_double)

theorem omap_correct_data_hw_ecc_double_witness:
  "let c = replicate 512 0xA5; d = flip_data_bit (flip_data_bit c 0 0) 7 7
   in length c = 512 \<and> popcount 12 (0 XOR 63) = 6 \<and>
     omap_correct_data_hw_ecc (d @ [1]) (ecc_bytes (hw_parity c)) (ecc_bytes (hw_parity d)) = Some (0, flip_data_bit d 7 7 @ [1]) \<and>
     flip_data_bit d 7 7 \<noteq> c"
proof -
  have p: "popcount 12 (63 :: nat) = 6" by code_simp
  have "flip_data_bit (flip_data_bit (replicate 512 0xA5) 0 0 :: u8 list) 7 7 ! 0 \<noteq> 0xA5" by (simp add: flip_data_bit_def)
  then show ?thesis
    using omap_correct_data_hw_ecc_double [of "replicate 512 0xA5" 0 63 _ "[1]", OF _ _ _ _ refl] p
      flip_data_bit_twice [of 7 "flip_data_bit (replicate 512 0xA5) 0 0" 7]
    by (auto simp: Let_def flip_data_bit_def dest: arg_cong [of _ _ "\<lambda>x. x ! 0"])
qed

end
