(* ===== verification/XloadNand.thy ===== *)
theory XloadNand
  imports HwEcc Mmio
begin

text \<open>
  The first-stage loader boots from the NAND chip: the board part
  (\<open>src/x-loader/board/rhino/rhino.c\<close>), the driver of the chip (\<open>drivers/k9f1g08r0a.c\<close>) and the end of
  \<open>start_armboot\<close> (\<open>lib/board.c\<close>), as they are configured for this board: a 16-bit bus and the
  error-correcting engine of the memory controller. The accesses to registers are a parameter; what is relied on of
  the chip and of the engine is stated as laws over a view of the hardware. Messages and delays are left out.
\<close>

section \<open>The hardware\<close>

abbreviation (input) CONTROL_STATUS :: u32 where "CONTROL_STATUS \<equiv> 0x480022F0"
abbreviation (input) CONTROL_ID :: u32 where "CONTROL_ID \<equiv> 0x4830A204"
abbreviation (input) GPMC_SYSCONFIG :: u32 where "GPMC_SYSCONFIG \<equiv> 0x6E000010"
abbreviation (input) GPMC_IRQENABLE :: u32 where "GPMC_IRQENABLE \<equiv> 0x6E00001C"
abbreviation (input) GPMC_TIMEOUT_CONTROL :: u32 where "GPMC_TIMEOUT_CONTROL \<equiv> 0x6E000040"
abbreviation (input) GPMC_CONFIG_CS0 :: u32 where "GPMC_CONFIG_CS0 \<equiv> 0x6E000060"
abbreviation (input) NAND_COMMAND :: u32 where "NAND_COMMAND \<equiv> 0x6E00007C"
abbreviation (input) NAND_ADDRESS :: u32 where "NAND_ADDRESS \<equiv> 0x6E000080"
abbreviation (input) NAND_DATA :: u32 where "NAND_DATA \<equiv> 0x6E000084"
abbreviation (input) ECC_CONFIG :: u32 where "ECC_CONFIG \<equiv> 0x6E0001F4"
abbreviation (input) ECC_CONTROL :: u32 where "ECC_CONTROL \<equiv> 0x6E0001F8"
abbreviation (input) ECC_SIZE_CONFIG :: u32 where "ECC_SIZE_CONFIG \<equiv> 0x6E0001FC"
abbreviation (input) ECC1_RESULT :: u32 where "ECC1_RESULT \<equiv> 0x6E000200"

abbreviation (input) ECC_CLEAR_REG1 :: u32 where "ECC_CLEAR_REG1 \<equiv> 0x101"
abbreviation (input) ECC_SIZES :: u32 where "ECC_SIZES \<equiv> push_bit 22 0xFF OR push_bit 12 0xFF"

abbreviation (input) GPMC_NAND :: u32 where "GPMC_NAND \<equiv> 1"
abbreviation (input) GPMC_ONENAND :: u32 where "GPMC_ONENAND \<equiv> 3"
abbreviation (input) MMC_NAND :: u32 where "MMC_NAND \<equiv> 4"
abbreviation (input) MMC_ONENAND :: u32 where "MMC_ONENAND \<equiv> 5"

abbreviation (input) CPU_OMAP34XX :: u32 where "CPU_OMAP34XX \<equiv> 0x3400"
abbreviation (input) CPU_AM35XX :: u32 where "CPU_AM35XX \<equiv> 0x3500"
abbreviation (input) CPU_OMAP36XX :: u32 where "CPU_OMAP36XX \<equiv> 0x3600"

abbreviation (input) NAND_CMD_READ0 :: u8 where "NAND_CMD_READ0 \<equiv> 0"
abbreviation (input) NAND_CMD_READSTART :: u8 where "NAND_CMD_READSTART \<equiv> 0x30"
abbreviation (input) NAND_CMD_STATUS :: u8 where "NAND_CMD_STATUS \<equiv> 0x70"
abbreviation (input) NAND_CMD_READID :: u8 where "NAND_CMD_READID \<equiv> 0x90"
abbreviation (input) NAND_CMD_RESET :: u8 where "NAND_CMD_RESET \<equiv> 0xff"

abbreviation (input) ADDR_COLUMN :: u32 where "ADDR_COLUMN \<equiv> 1"
abbreviation (input) ADDR_PAGE :: u32 where "ADDR_PAGE \<equiv> 2"
abbreviation (input) ADDR_COLUMN_PAGE :: u32 where "ADDR_COLUMN_PAGE \<equiv> 3"
abbreviation (input) ADDR_OOB :: u32 where "ADDR_OOB \<equiv> 7"

abbreviation (input) NPAGE_SIZE :: nat where "NPAGE_SIZE \<equiv> 2048"
abbreviation (input) OOB_SIZE :: nat where "OOB_SIZE \<equiv> 64"
abbreviation (input) MAX_NUM_PAGES :: nat where "MAX_NUM_PAGES \<equiv> 64"
abbreviation (input) ECC_SIZE :: nat where "ECC_SIZE \<equiv> 512"
abbreviation (input) ECC_BYTES :: nat where "ECC_BYTES \<equiv> 12"
abbreviation (input) ECC_STEPS :: nat where "ECC_STEPS \<equiv> 4"
abbreviation (input) NAND_UBOOT_START :: nat where "NAND_UBOOT_START \<equiv> 0x80000"
abbreviation (input) NAND_UBOOT_END :: nat where "NAND_UBOOT_END \<equiv> 0x240000"
abbreviation (input) NAND_BLOCK_SIZE :: nat where "NAND_BLOCK_SIZE \<equiv> 0x20000"

definition bus_width :: nat where "bus_width = 16"

definition chipsize :: nat where "chipsize = 256 * 2 ^ 20"

definition ecc_pos :: "nat list" where "ecc_pos = [2, 3, 4, 5, 6, 7, 8, 9, 10, 11, 12, 13]"

section \<open>Boot pins and processor\<close>

definition is_cpu_family :: "'h mmio \<Rightarrow> 'h \<Rightarrow> u32 \<times> 'h" where
  "is_cpu_family mm h = (case readl mm CONTROL_ID h of (cpuid, h) \<Rightarrow> (CPU_AM35XX, h))"

definition get_sysboot_value :: "'h mmio \<Rightarrow> 'h \<Rightarrow> u32 \<times> 'h" where
  "get_sysboot_value mm h = (case readl mm CONTROL_STATUS h of (v, h) \<Rightarrow> (v AND 0x1F, h))"

definition get_mem_type :: "'h mmio \<Rightarrow> 'h \<Rightarrow> u32 \<times> 'h" where
  "get_mem_type mm h = (case get_sysboot_value mm h of (mem_type, h) \<Rightarrow>
     (if mem_type = 1 then GPMC_NAND else if mem_type = 9 then MMC_NAND else GPMC_NAND, h))"

section \<open>The error-correcting engine\<close>

definition omap_enable_hw_ecc :: "'h mmio \<Rightarrow> 'h \<Rightarrow> 'h" where
  "omap_enable_hw_ecc mm h =
     (let dev_width = 1; cs = 0;
          h = writel mm ECC_CLEAR_REG1 ECC_CONTROL h;
          h = writel mm ECC_SIZES ECC_SIZE_CONFIG h;
          val = push_bit 7 dev_width OR push_bit 1 cs OR 0x1
      in writel mm val ECC_CONFIG h)"

text \<open>The bytes of the codes, three for each step.\<close>

fun ecc_result_loop :: "'h mmio \<Rightarrow> nat \<Rightarrow> u32 \<Rightarrow> 'h \<Rightarrow> u8 list \<times> 'h" where
  "ecc_result_loop mm 0 ecc_addr h = ([], h)"
| "ecc_result_loop mm (Suc n) ecc_addr h =
     (case readl mm ecc_addr h of (val, h) \<Rightarrow>
        case ecc_bytes val of (e0, e1, e2) \<Rightarrow>
          case ecc_result_loop mm n (ecc_addr + 4) h of (es, h) \<Rightarrow> ([e0, e1, e2] @ es, h))"

definition omap_calculate_hw_ecc :: "'h mmio \<Rightarrow> nat \<Rightarrow> 'h \<Rightarrow> u8 list \<times> 'h" where
  "omap_calculate_hw_ecc mm steps h =
     (case ecc_result_loop mm steps ECC1_RESULT h of (es, h) \<Rightarrow> (es, writel mm 0 ECC_CONFIG h))"

section \<open>Commands and addresses\<close>

partial_function (option) nand_wait_ready :: "'h mmio \<Rightarrow> 'h \<Rightarrow> 'h option" where
  "nand_wait_ready mm h =
     (case readw mm NAND_DATA h of (v, h) \<Rightarrow>
        let ret_val = (ucast v :: u8) in if ret_val AND 0x40 = 0x40 then Some h else nand_wait_ready mm h)"

function NanD_Command :: "'h mmio \<Rightarrow> u8 \<Rightarrow> 'h \<Rightarrow> (int \<times> 'h) option" where
  "NanD_Command mm command h =
     (let h = writew mm (ucast command) NAND_COMMAND h
      in if command = NAND_CMD_RESET then do {
           (_, h) \<leftarrow> NanD_Command mm NAND_CMD_STATUS h;
           h \<leftarrow> nand_wait_ready mm h;
           Some (0, h) }
         else Some (0, h))"
  by pat_completeness auto
termination
  by (relation "measure (\<lambda>(mm, command, h). if command = 0xff then 1 else 0)") simp_all

definition NanD_Address :: "'h mmio \<Rightarrow> u32 \<Rightarrow> u32 \<Rightarrow> 'h \<Rightarrow> int \<times> 'h" where
  "NanD_Address mm numbytes ofs h =
     (let h =
        (if numbytes = ADDR_COLUMN \<or> numbytes = ADDR_COLUMN_PAGE \<or> numbytes = ADDR_OOB then
           let col = (ucast ofs :: u16);
               u = (ucast (col AND 0xff) :: u8);
               h = writew mm (ucast u) NAND_ADDRESS h;
               u = (ucast (drop_bit 8 col AND 0x07) :: u8);
               u = (if numbytes = ADDR_OOB then u OR (if bus_width = 16 then push_bit 2 1 else push_bit 3 1) else u)
           in writew mm (ucast u) NAND_ADDRESS h
         else h);
          h =
        (if numbytes = ADDR_PAGE \<or> numbytes = ADDR_COLUMN_PAGE \<or> numbytes = ADDR_OOB then
           let u = (ucast (drop_bit 11 ofs AND 0xff) :: u8);
               h = writew mm (ucast u) NAND_ADDRESS h;
               u = (ucast (drop_bit 19 ofs AND 0xff) :: u8);
               h = writew mm (ucast u) NAND_ADDRESS h
           in if chipsize > 128 * 2 ^ 20 then
                let u = (ucast (drop_bit 27 ofs AND 0xff) :: u8) in writew mm (ucast u) NAND_ADDRESS h
              else h
         else h)
      in (0, h))"

text \<open>The result, the new value of \<open>is_ddr_166M\<close> and the hardware. Chip select needs no access on this board.\<close>

definition nand_chip :: "'h mmio \<Rightarrow> 'h \<Rightarrow> (int \<times> u32 \<times> 'h) option" where
  "nand_chip mm h = do {
     (_, h) \<leftarrow> NanD_Command mm NAND_CMD_RESET h;
     (_, h) \<leftarrow> NanD_Command mm NAND_CMD_READID h;
     let (_, h) = NanD_Address mm ADDR_COLUMN 0 h;
     let (mfr, h) = readw mm NAND_DATA h;
     let (id, h) = readw mm NAND_DATA h;
     Some (if mfr = 0xAD then
        case is_cpu_family mm h of (f, h) \<Rightarrow>
          if f = CPU_OMAP36XX then (of_bool (id \<noteq> 0xBC), 0, h) else (of_bool (id \<noteq> 0xa1), 0, h)
      else if mfr = 0x2c then
        case is_cpu_family mm h of (f, h) \<Rightarrow>
          case (if f = CPU_OMAP34XX then (True, h)
                else case is_cpu_family mm h of (f, h) \<Rightarrow>
                  if f = CPU_AM35XX then (True, h)
                  else case is_cpu_family mm h of (f, h) \<Rightarrow> (f = CPU_OMAP36XX, h)) of (known, h) \<Rightarrow>
            if known then (of_bool (\<not> (id = 0xa1 \<or> id = 0xca \<or> id = 0xba \<or> id = 0xbc)), 1, h)
            else (of_bool (id \<noteq> 0xa1), 1, h)
      else (of_bool (id \<noteq> 0xa1), 1, h)) }"

section \<open>Pages and blocks\<close>

text \<open>
  Memory is a list of bytes, the first of them at \<open>CFG_LOADADDR\<close>; \<open>buf\<close> and \<open>p\<close> are offsets in it. A word of the chip
  goes to memory in little-endian order.
\<close>

fun read_words :: "'h mmio \<Rightarrow> nat \<Rightarrow> nat \<Rightarrow> u8 list \<Rightarrow> 'h \<Rightarrow> (u8 list \<times> 'h) option" where
  "read_words mm 0 p mem h = Some (mem, h)"
| "read_words mm (Suc n) p mem h =
     (case readw mm NAND_DATA h of (v, h) \<Rightarrow> do {
        mem \<leftarrow> arr_set mem p (ucast v);
        mem \<leftarrow> arr_set mem (p + 1) (ucast (drop_bit 8 v));
        read_words mm n (p + 2) mem h })"

definition ecc_at :: "u8 list \<Rightarrow> nat \<Rightarrow> ecc option" where
  "ecc_at es i = do { e0 \<leftarrow> arr_get es i; e1 \<leftarrow> arr_get es (i + 1); e2 \<leftarrow> arr_get es (i + 2); Some (e0, e1, e2) }"

text \<open>A page that cannot be corrected ends in the loop \<open>for (;;);\<close>, hence the \<^const>\<open>None\<close>.\<close>

function correct_loop :: "u8 list \<Rightarrow> u8 list \<Rightarrow> nat \<Rightarrow> nat \<Rightarrow> u8 list \<Rightarrow> u8 list option" where
  "correct_loop ecc_code ecc_calc count buf mem =
     (if count < ECC_BYTES then do {
        e \<leftarrow> ecc_at ecc_code count;
        e' \<leftarrow> ecc_at ecc_calc count;
        (r, d) \<leftarrow> omap_correct_data_hw_ecc (drop buf mem) e e';
        let mem = take buf mem @ d;
        if r = -1 then None
        else correct_loop ecc_code ecc_calc (count + ECC_BYTES div ECC_STEPS) (buf + ECC_SIZE) mem }
      else Some mem)"
  by pat_completeness auto
termination
  by (relation "measure (\<lambda>(ecc_code, ecc_calc, count, buf, mem). 12 - count)") simp_all

definition nand_read_page :: "'h mmio \<Rightarrow> nat \<Rightarrow> u32 \<Rightarrow> u8 list \<Rightarrow> 'h \<Rightarrow> (int \<times> u8 list \<times> 'h) option" where
  "nand_read_page mm buf page_addr mem h = do {
     let h = omap_enable_hw_ecc mm h;
     (_, h) \<leftarrow> NanD_Command mm NAND_CMD_READ0 h;
     let (_, h) = NanD_Address mm ADDR_COLUMN_PAGE page_addr h;
     (_, h) \<leftarrow> NanD_Command mm NAND_CMD_READSTART h;
     (mem, h) \<leftarrow> read_words mm (if bus_width = 16 then NPAGE_SIZE div 2 else NPAGE_SIZE) buf mem h;
     (oob_buf, h) \<leftarrow> read_words mm (if bus_width = 16 then OOB_SIZE div 2 else OOB_SIZE) 0 (replicate OOB_SIZE 0) h;
     let ecc_code = map (\<lambda>i. oob_buf ! i) ecc_pos;
     let (ecc_calc, h) = omap_calculate_hw_ecc mm ECC_STEPS h;
     mem \<leftarrow> correct_loop ecc_code ecc_calc 0 buf mem;
     Some (0, mem, h) }"

definition nand_read_oob :: "'h mmio \<Rightarrow> u32 \<Rightarrow> u8 list \<Rightarrow> 'h \<Rightarrow> (int \<times> u8 list \<times> 'h) option" where
  "nand_read_oob mm page_addr buf h = do {
     (_, h) \<leftarrow> NanD_Command mm NAND_CMD_READ0 h;
     let (_, h) = NanD_Address mm ADDR_OOB page_addr h;
     (_, h) \<leftarrow> NanD_Command mm NAND_CMD_READSTART h;
     (buf, h) \<leftarrow> read_words mm (if bus_width = 16 then OOB_SIZE div 2 else OOB_SIZE) 0 buf h;
     Some (0, buf, h) }"

fun read_pages :: "'h mmio \<Rightarrow> nat \<Rightarrow> nat \<Rightarrow> nat \<Rightarrow> u32 \<Rightarrow> u8 list \<Rightarrow> 'h \<Rightarrow> (int \<times> u8 list \<times> 'h) option" where
  "read_pages mm 0 offset buf block_addr mem h = Some (0, mem, h)"
| "read_pages mm (Suc n) offset buf block_addr mem h = do {
     (r, mem, h) \<leftarrow> nand_read_page mm (buf + offset) (block_addr + of_nat offset) mem h;
     if r \<noteq> 0 then Some (1, mem, h) else read_pages mm n (offset + NPAGE_SIZE) buf block_addr mem h }"

definition nand_read_block :: "'h mmio \<Rightarrow> nat \<Rightarrow> u32 \<Rightarrow> u8 list \<Rightarrow> 'h \<Rightarrow> (int \<times> u8 list \<times> 'h) option" where
  "nand_read_block mm buf block_addr mem h = do {
     (r, oob_buf, h) \<leftarrow> nand_read_oob mm block_addr (replicate OOB_SIZE 0) h;
     if r \<noteq> 0 \<or> oob_buf ! 0 \<noteq> 0xff then Some (1, mem, h)
     else read_pages mm MAX_NUM_PAGES 0 buf block_addr mem h }"

section \<open>Booting\<close>

text \<open>The loop over the blocks of the U-Boot partition; the result has the new \<open>buf\<close>.\<close>

function nand_boot_loop :: "'h mmio \<Rightarrow> nat \<Rightarrow> nat \<Rightarrow> u8 list \<Rightarrow> 'h \<Rightarrow> (nat \<times> u8 list \<times> 'h) option" where
  "nand_boot_loop mm i buf mem h =
     (if i < NAND_UBOOT_END then do {
        (r, mem, h) \<leftarrow> nand_read_block mm buf (of_nat i) mem h;
        nand_boot_loop mm (i + NAND_BLOCK_SIZE) (if r = 0 then buf + NAND_BLOCK_SIZE else buf) mem h }
      else Some (buf, mem, h))"
  by pat_completeness auto
termination
  by (relation "measure (\<lambda>(mm, i, buf, mem, h). NAND_UBOOT_END - i)") simp_all

text \<open>
  The other boot media, as far as the boot path calls them: \<open>mmc_boot\<close> gives the number of bytes it
  has loaded, the loop over the blocks of a OneNAND chip the new value of \<open>buf\<close>.
\<close>

record 'h boot_media =
  mmc_boot :: "u8 list \<Rightarrow> 'h \<Rightarrow> int \<times> u8 list \<times> 'h"
  onenand_chip :: "'h \<Rightarrow> int \<times> 'h"
  onenand_loop :: "u8 list \<Rightarrow> 'h \<Rightarrow> nat \<times> u8 list \<times> 'h"

text \<open>The writes of the configuration registers 1 to 6 of chip select 0, and of register 7, which maps it.\<close>

definition gpmc_config :: "'h mmio \<Rightarrow> u32 list \<Rightarrow> u32 \<Rightarrow> 'h \<Rightarrow> 'h" where
  "gpmc_config mm cs base h =
     (let h = fold (\<lambda>(v, r). writel mm v (r + GPMC_CONFIG_CS0)) (zip cs [0, 4, 8, 0xC, 0x10, 0x14]) h
      in writel mm (push_bit 8 (0x8 AND 0xF) OR (drop_bit 24 base AND 0x3F) OR push_bit 6 1) (0x18 + GPMC_CONFIG_CS0) h)"

definition nand_init :: "'h mmio \<Rightarrow> 'h boot_media \<Rightarrow> u32 \<Rightarrow> 'h \<Rightarrow> (int \<times> u32 \<times> 'h) option" where
  "nand_init mm md is_ddr_166M h = do {
     let h = writel mm 0x10 GPMC_SYSCONFIG h;
     let h = writel mm 0x0 GPMC_IRQENABLE h;
     let h = writel mm 0 GPMC_TIMEOUT_CONTROL h;
     let h = writel mm 0 (0x18 + GPMC_CONFIG_CS0) h;
     let (t, h) = get_mem_type mm h;
     let h = (if t = GPMC_NAND then writel mm ECC_SIZES ECC_SIZE_CONFIG (writel mm ECC_CLEAR_REG1 ECC_CONTROL h) else h);
     let (t, h) = get_mem_type mm h;
     let (nand, h) = (if t = GPMC_NAND then (True, h) else case get_mem_type mm h of (t, h) \<Rightarrow> (t = MMC_NAND, h));
     (r, is_ddr_166M, h) \<leftarrow>
       (if nand then nand_chip mm (gpmc_config mm [0x1800, 0x80800, 0x80800, 0x06000600, 0x70808, 0x3cf] 0x30000000 h)
        else Some (0, is_ddr_166M, h));
     if r \<noteq> 0 then Some (1, is_ddr_166M, h)
     else do {
       let (t, h) = get_mem_type mm h;
       let (onenand, h) = (if t = GPMC_ONENAND then (True, h) else case get_mem_type mm h of (t, h) \<Rightarrow> (t = MMC_ONENAND, h));
       let (r, h) =
         (if onenand
          then onenand_chip md (gpmc_config mm [0x1200, 0xF0F01, 0x30301, 0x0F040F04, 0x010F1010, 0x1F060000] 0x20000000 h)
          else (0, h));
       Some (of_bool (r \<noteq> 0), is_ddr_166M, h) } }"

text \<open>
  The end of \<open>start_armboot\<close>: the image is loaded at \<open>CFG_LOADADDR\<close> and entered there. The result is the memory
  at that moment; \<^const>\<open>None\<close> when the loader hangs.
\<close>

definition boot :: "'h mmio \<Rightarrow> 'h boot_media \<Rightarrow> u8 list \<Rightarrow> 'h \<Rightarrow> (u8 list \<times> 'h) option" where
  "boot mm md mem h = do {
     let (t, h) = get_mem_type mm h;
     let (mmc, h) = (if t = MMC_ONENAND then (True, h) else case get_mem_type mm h of (t, h) \<Rightarrow> (t = MMC_NAND, h));
     let (size, mem, h) = (if mmc then mmc_boot md mem h else (0, mem, h));
     if size \<noteq> 0 then Some (mem, h)
     else do {
       let (t, h) = get_mem_type mm h;
       (buf, mem, h) \<leftarrow> (if t = GPMC_NAND then nand_boot_loop mm NAND_UBOOT_START 0 mem h else Some (0, mem, h));
       let (t, h) = get_mem_type mm h;
       let (buf, mem, h) = (if t = GPMC_ONENAND then onenand_loop md mem h else (buf, mem, h));
       if buf = 0 then None else Some (mem, h) } }"

section \<open>The documented behaviour of the chip and of the engine\<close>

text \<open>
  What the accesses see of the hardware: the 2112 bytes that each page of the chip delivers (2048 of data
  and 64 of spare area), the address cycles since the last command \<open>READ0\<close>, the page and the word in
  it that the next read of data delivers, and the bytes the engine has taken in since it was last enabled.
\<close>

record 'h nand_view =
  raw :: "'h \<Rightarrow> nat \<Rightarrow> u8 list"
  cycles :: "'h \<Rightarrow> u16 list"
  cursor :: "'h \<Rightarrow> (nat \<times> nat) option"
  fed :: "'h \<Rightarrow> u8 list option"

definition command_law :: "'h mmio \<Rightarrow> 'h nand_view \<Rightarrow> bool" where
  "command_law mm v \<longleftrightarrow> (\<forall>c h. let h' = writew mm c NAND_COMMAND h in
     raw v h' = raw v h \<and> fed v h' = fed v h \<and> (c = ucast NAND_CMD_READ0 \<longrightarrow> cycles v h' = []) \<and>
     (\<forall>c0 c1 r0 r1 r2. c = ucast NAND_CMD_READSTART \<longrightarrow> cycles v h = map ucast [c0, c1, r0, r1, r2 :: u8] \<longrightarrow>
       cursor v h' = Some (unat r0 + 256 * unat r1 + 65536 * unat r2, unat c0 + 256 * unat c1)))"

definition address_law :: "'h mmio \<Rightarrow> 'h nand_view \<Rightarrow> bool" where
  "address_law mm v \<longleftrightarrow> (\<forall>u h. let h' = writew mm u NAND_ADDRESS h in
     raw v h' = raw v h \<and> fed v h' = fed v h \<and> cycles v h' = cycles v h @ [u])"

definition data_law :: "'h mmio \<Rightarrow> 'h nand_view \<Rightarrow> bool" where
  "data_law mm v \<longleftrightarrow> (\<forall>h p w. cursor v h = Some (p, w) \<longrightarrow> 2 * w + 1 < length (raw v h p) \<longrightarrow>
     (let (d, h') = readw mm NAND_DATA h in
       enc16 d = [raw v h p ! (2 * w), raw v h p ! (2 * w + 1)] \<and>
       raw v h' = raw v h \<and> cursor v h' = Some (p, w + 1) \<and> fed v h' = map_option (\<lambda>f. f @ enc16 d) (fed v h)))"

text \<open>
  Clearing the results, choosing chunks of 512 bytes and enabling the engine for a bus of 16 bits starts it; clearing
  the enable bit stops it. The result register of each chunk that has gone by has its parities.
\<close>

definition engine_law :: "'h mmio \<Rightarrow> 'h nand_view \<Rightarrow> bool" where
  "engine_law mm v \<longleftrightarrow>
     (\<forall>h. let h' = writel mm 0x81 ECC_CONFIG (writel mm ECC_SIZES ECC_SIZE_CONFIG (writel mm ECC_CLEAR_REG1 ECC_CONTROL h))
        in raw v h' = raw v h \<and> fed v h' = Some []) \<and>
     (\<forall>h. let h' = writel mm 0 ECC_CONFIG h in raw v h' = raw v h \<and> fed v h' = None) \<and>
     (\<forall>h f i. fed v h = Some f \<longrightarrow> i < 9 \<longrightarrow> 512 * i + 512 \<le> length f \<longrightarrow>
        (let (r, h') = readl mm (ECC1_RESULT + 4 * of_nat i) h in
          r = hw_parity (chunk (512 * i) 512 f) \<and> raw v h' = raw v h \<and> fed v h' = fed v h))"

definition nand_device :: "'h mmio \<Rightarrow> 'h nand_view \<Rightarrow> bool" where
  "nand_device mm v \<longleftrightarrow> command_law mm v \<and> address_law mm v \<and> data_law mm v \<and> engine_law mm v"

end
