(* ===== verification/XloadBoot.thy ===== *)
theory XloadBoot
  imports XloadNand
begin

text \<open>
  Correctness of the boot path of the first-stage loader: pages and blocks are read and corrected as the laws of
  the chip and of the engine promise, and the image that is entered is what the good blocks of the partition hold.
  The last sections have a chip on which the laws hold.
\<close>

declare NanD_Command.simps [simp del] correct_loop.simps [simp del] nand_boot_loop.simps [simp del]

lemma NanD_Command_plain: "c \<noteq> NAND_CMD_RESET \<Longrightarrow> NanD_Command mm c h = Some (0, writew mm (ucast c) NAND_COMMAND h)"
  by (subst NanD_Command.simps) (simp add: Let_def)

lemma get_mem_type_cases: "fst (get_mem_type mm h) = GPMC_NAND \<or> fst (get_mem_type mm h) = MMC_NAND"
  by (simp add: get_mem_type_def split: prod.split)

section \<open>Seeking a page\<close>

lemmas command_lawD = command_law_def [THEN iffD1, unfolded Let_def, rule_format]
lemmas address_lawD = address_law_def [THEN iffD1, unfolded Let_def, rule_format]

lemma take_unat_u32: "take_bit 32 (unat (w :: u32)) = unat w"
  by (rule take_bit_nat_eq_self) (rule unat_u32_bound)

lemma low_byte: "unat (ucast (x AND 0xff) :: u8) = unat (x :: u32) mod 256" "unat (ucast (y AND 0xff) :: u8) = unat (y :: u16) mod 256"
proof -
  have m: "(0xff :: u32) = mask 8" "(0xff :: u16) = mask 8" by (simp_all add: mask_eq_exp_minus_1)
  show "unat (ucast (x AND 0xff) :: u8) = unat x mod 256" "unat (ucast (y AND 0xff) :: u8) = unat y mod 256"
    unfolding m take_bit_eq_mask [symmetric] unsigned_ucast_eq unsigned_take_bit_eq by (simp_all add: take_bit_eq_mod)
qed

lemma row_address:
  "unat (ucast (drop_bit 11 ofs AND 0xff) :: u8) + 256 * unat (ucast (drop_bit 19 ofs AND 0xff) :: u8)
     + 65536 * unat (ucast (drop_bit 27 ofs AND 0xff) :: u8) = unat (ofs :: u32) div 2048"
proof -
  define m where "m = unat ofs div 2048"
  have "m div 256 div 256 < 256" using unat_u32_bound [of ofs] by (simp add: m_def flip: div_mult2_eq)
  then have "m mod 256 + 256 * (m div 256 mod 256 + 256 * (m div 256 div 256 mod 256)) = m"
    unfolding mod_less [OF \<open>m div 256 div 256 < 256\<close>] mod_mult_div_eq by simp
  moreover have "unat ofs div 524288 = m div 256" "unat ofs div 134217728 = m div 256 div 256" by (simp_all add: m_def flip: div_mult2_eq)
  ultimately have "unat ofs div 2048 mod 256 + 256 * (unat ofs div 524288 mod 256) + 65536 * (unat ofs div 134217728 mod 256) = unat ofs div 2048"
    by (simp add: m_def add_mult_distrib2 add.assoc)
  then show ?thesis unfolding low_byte unsigned_drop_bit_eq
    using \<open>m div 256 div 256 < 256\<close> by (simp add: drop_bit_eq_div take_unat_u32 m_def flip: div_mult2_eq)
qed

text \<open>The sequence that makes a page, or its spare area, the source of the next reads.\<close>

definition seek :: "'h mmio \<Rightarrow> u32 \<Rightarrow> u32 \<Rightarrow> 'h \<Rightarrow> 'h" where
  "seek mm numbytes ofs h =
     writew mm (ucast NAND_CMD_READSTART) NAND_COMMAND (snd (NanD_Address mm numbytes ofs (writew mm (ucast NAND_CMD_READ0) NAND_COMMAND h)))"

lemma NanD_Address_law:
  assumes "address_law mm v" and "numbytes = ADDR_COLUMN_PAGE \<or> numbytes = ADDR_OOB"
  shows "fst (NanD_Address mm numbytes ofs h) = 0"
    and "raw v (snd (NanD_Address mm numbytes ofs h)) = raw v h" and "fed v (snd (NanD_Address mm numbytes ofs h)) = fed v h"
    and "cycles v (snd (NanD_Address mm numbytes ofs h)) = cycles v h @ map ucast
      [ucast ((ucast ofs :: u16) AND 0xff),
       ucast (drop_bit 8 (ucast ofs :: u16) AND 0x07) OR (if numbytes = ADDR_OOB then 4 else 0),
       ucast (drop_bit 11 ofs AND 0xff), ucast (drop_bit 19 ofs AND 0xff), ucast (drop_bit 27 ofs AND 0xff) :: u8]"
  using assms(2) by (auto simp: NanD_Address_def Let_def chipsize_def bus_width_def address_lawD [OF assms(1)])

lemma seek_law:
  assumes dev: "command_law mm v" "address_law mm v" and n: "numbytes = ADDR_COLUMN_PAGE \<or> numbytes = ADDR_OOB"
    and al: "unat ofs mod 2048 = 0"
  shows "raw v (seek mm numbytes ofs h) = raw v h" and "fed v (seek mm numbytes ofs h) = fed v h"
    and "cursor v (seek mm numbytes ofs h) = Some (unat ofs div 2048, if numbytes = ADDR_OOB then 1024 else 0)"
proof -
  note laws = NanD_Address_law [OF dev(2) n] command_lawD [OF dev(1)]
  show "raw v (seek mm numbytes ofs h) = raw v h" "fed v (seek mm numbytes ofs h) = fed v h"
    by (simp_all add: seek_def laws)
  have b: "\<not> bit ofs i" if "i < 11" for i
  proof -
    have "take_bit 11 (unat ofs) = 0" using al by (simp add: take_bit_eq_mod)
    then have "\<not> bit (take_bit 11 (unat ofs)) i" by simp
    then show ?thesis using that by (simp add: bit_take_bit_iff bit_unsigned_iff)
  qed
  have m: "(0xff :: u16) = mask 8" "(0x07 :: u16) = mask 3" by (simp_all add: mask_eq_exp_minus_1)
  have z: "(ucast (ucast ofs AND 0xff :: u16) :: u8) = 0" "(ucast (drop_bit 8 (ucast ofs :: u16) AND 0x07) :: u8) = 0"
    unfolding m by (rule byte_eqI, use b in \<open>auto simp: bits_of_code\<close>)+
  have "cycles v (writew mm (ucast NAND_CMD_READ0) NAND_COMMAND h) = []" by (simp add: laws(5))
  then have "cycles v (snd (NanD_Address mm numbytes ofs (writew mm (ucast NAND_CMD_READ0) NAND_COMMAND h))) = map ucast
      [0, if numbytes = ADDR_OOB then 4 else 0, ucast (drop_bit 11 ofs AND 0xff), ucast (drop_bit 19 ofs AND 0xff), ucast (drop_bit 27 ofs AND 0xff) :: u8]"
    unfolding laws(4) z by simp
  from laws(5) [THEN conjunct2, THEN conjunct2, THEN conjunct2, rule_format, OF refl this]
  show "cursor v (seek mm numbytes ofs h) = Some (unat ofs div 2048, if numbytes = ADDR_OOB then 1024 else 0)"
    unfolding seek_def row_address by simp
qed

section \<open>Reading words\<close>

lemma chunk_2: "i + 1 < length xs \<Longrightarrow> chunk i 2 xs = [xs ! i, xs ! (i + 1)]"
  by (simp add: chunk_def take_Suc_conv_app_nth numeral_2_eq_2)

lemma data_lawD:
  assumes "data_law mm v" and "cursor v h = Some (p, w)" and "2 * w + 1 < length (raw v h p)"
  obtains d h' where "readw mm NAND_DATA h = (d, h')" "enc16 d = chunk (2 * w) 2 (raw v h p)" "raw v h' = raw v h"
    "cursor v h' = Some (p, w + 1)" "fed v h' = map_option (\<lambda>f. f @ enc16 d) (fed v h)"
proof -
  obtain d h' where r: "readw mm NAND_DATA h = (d, h')" by fastforce
  note chunk_2 [OF assms(3)]
  with assms(1) [unfolded data_law_def, rule_format, OF assms(2,3)] r show thesis by (intro that [of d h']) auto
qed

lemma two_updates: "q + 2 \<le> length xs \<Longrightarrow> xs[q := a, Suc q := b] = take q xs @ [a, b] @ drop (q + 2) xs"
proof -
  assume "q + 2 \<le> length xs"
  then have "xs = take q xs @ xs ! q # xs ! Suc q # drop (q + 2) xs" and "length (take q xs) = q"
    by (simp_all add: Cons_nth_drop_Suc)
  then obtain ys c d zs where "xs = ys @ c # d # zs" and "length ys = q" by metis
  then show ?thesis by (simp add: list_update_append)
qed

lemma read_words_law:
  assumes "data_law mm v" and "cursor v h = Some (p, w)" and "2 * (w + n) \<le> length (raw v h p)" and "q + 2 * n \<le> length mem"
  shows "\<exists>h'. read_words mm n q mem h = Some (take q mem @ chunk (2 * w) (2 * n) (raw v h p) @ drop (q + 2 * n) mem, h') \<and>
    raw v h' = raw v h \<and> cursor v h' = Some (p, w + n) \<and>
    fed v h' = map_option (\<lambda>f. f @ chunk (2 * w) (2 * n) (raw v h p)) (fed v h)"
  using assms(2-)
proof (induction n arbitrary: w q mem h)
  case 0
  then show ?case by (auto simp: chunk_def map_option.identity)
next
  case (Suc n)
  obtain d h1 where d: "readw mm NAND_DATA h = (d, h1)" "enc16 d = chunk (2 * w) 2 (raw v h p)" "raw v h1 = raw v h"
    "cursor v h1 = Some (p, w + 1)" "fed v h1 = map_option (\<lambda>f. f @ enc16 d) (fed v h)"
    by (rule data_lawD [OF assms(1) Suc.prems(1)]) (use Suc.prems(2) in auto)
  let ?mem = "mem[q := ucast d, q + 1 := ucast (drop_bit 8 d)]"
  have m: "?mem = take q mem @ enc16 d @ drop (q + 2) mem"
    using Suc.prems(3) by (simp add: enc16_def two_updates)
  obtain h' where h: "read_words mm n (q + 2) ?mem h1 = Some (take (q + 2) ?mem @ chunk (2 * (w + 1)) (2 * n) (raw v h1 p) @ drop (q + 2 + 2 * n) ?mem, h')"
    "raw v h' = raw v h1" "cursor v h' = Some (p, w + 1 + n)" "fed v h' = map_option (\<lambda>f. f @ chunk (2 * (w + 1)) (2 * n) (raw v h1 p)) (fed v h1)"
    using Suc.IH [OF d(4), of "q + 2" ?mem] Suc.prems d(3) by auto
  have j: "chunk (2 * w) (2 * Suc n) (raw v h p) = enc16 d @ chunk (2 * (w + 1)) (2 * n) (raw v h p)"
    unfolding d(2) using chunk_split [of "2 * w" 2 "2 * n"] by (simp add: algebra_simps)
  have "take (q + 2) ?mem = take q mem @ enc16 d" "drop (q + 2 + 2 * n) ?mem = drop (q + 2 * Suc n) mem"
    unfolding m using Suc.prems(3) length_enc16 [of d] by (simp_all add: algebra_simps)
  then show ?case using h Suc.prems(3) d unfolding j
    by (auto simp: arr_set_def option.map_comp comp_def)
qed

section \<open>The codes of a page\<close>

definition ecc_list :: "ecc \<Rightarrow> u8 list" where
  "ecc_list e = (case e of (e0, e1, e2) \<Rightarrow> [e0, e1, e2])"

lemma length_ecc_list [simp]: "length (ecc_list e) = 3"
  by (cases e) (simp add: ecc_list_def)

lemma engine_law_result:
  assumes "engine_law mm v" and "fed v h = Some f" and "i < 9" and "512 * i + 512 \<le> length f"
  obtains h' where "readl mm (ECC1_RESULT + 4 * of_nat i) h = (hw_parity (chunk (512 * i) 512 f), h')" "raw v h' = raw v h" "fed v h' = fed v h"
  using assms(1) [unfolded engine_law_def, THEN conjunct2, THEN conjunct2, rule_format, OF assms(2-4)] by (auto split: prod.splits)

lemma ecc_result_loop_law:
  assumes "engine_law mm v" and "fed v h = Some f" and "i + n \<le> 9" and "512 * (i + n) \<le> length f"
  shows "\<exists>h'. ecc_result_loop mm n (ECC1_RESULT + 4 * of_nat i) h =
    (concat (map (\<lambda>j. ecc_list (ecc_bytes (hw_parity (chunk (512 * j) 512 f)))) [i..<i + n]), h') \<and> raw v h' = raw v h \<and> fed v h' = fed v h"
  using assms(2-)
proof (induction n arbitrary: i h)
  case (Suc n)
  obtain h1 where r: "readl mm (ECC1_RESULT + 4 * of_nat i) h = (hw_parity (chunk (512 * i) 512 f), h1)" "raw v h1 = raw v h" "fed v h1 = fed v h"
    by (rule engine_law_result [OF assms(1) Suc.prems(1), of i]) (use Suc.prems in auto)
  obtain h' where "ecc_result_loop mm n (ECC1_RESULT + 4 * of_nat (Suc i)) h1 =
    (concat (map (\<lambda>j. ecc_list (ecc_bytes (hw_parity (chunk (512 * j) 512 f)))) [Suc i..<Suc i + n]), h')" "raw v h' = raw v h1" "fed v h' = fed v h1"
    using Suc.IH [of h1 "Suc i"] Suc.prems r(3) by auto
  moreover have "ECC1_RESULT + 4 * of_nat i + 4 = ECC1_RESULT + 4 * of_nat (Suc i)" by simp
  moreover have "[i..<i + Suc n] = i # [Suc i..<Suc i + n]" by (simp add: upt_conv_Cons)
  ultimately show ?case using r by (auto simp: ecc_list_def split: prod.split)
qed simp

definition page_codes :: "u8 list \<Rightarrow> u8 list" where
  "page_codes dat = concat (map (\<lambda>j. ecc_list (ecc_bytes (hw_parity (chunk (512 * j) 512 dat)))) [0..<4])"

lemma omap_calculate_hw_ecc_law:
  assumes "engine_law mm v" and "fed v h = Some f" and "2048 \<le> length f"
  shows "\<exists>h'. omap_calculate_hw_ecc mm ECC_STEPS h = (page_codes (take 2048 f), h') \<and> raw v h' = raw v h"
proof -
  have "page_codes (take 2048 f) = page_codes f" unfolding page_codes_def by (rule arg_cong [of _ _ concat]) (auto simp: chunk_def drop_take)
  then show ?thesis
    using ecc_result_loop_law [OF assms(1,2), of 0 4] assms(1) [unfolded engine_law_def, THEN conjunct2, THEN conjunct1] assms(3)
    by (auto simp: omap_calculate_hw_ecc_def page_codes_def Let_def)
qed

lemma length_page_codes: "length (page_codes dat) = 12"
  by (simp add: page_codes_def upt_rec ecc_list_def split: prod.split)

lemma less_4: "(i :: nat) < 4 \<longleftrightarrow> i = 0 \<or> i = 1 \<or> i = 2 \<or> i = 3"
  by linarith

lemma ecc_at_page_codes: "i < 4 \<Longrightarrow> ecc_at (page_codes dat) (3 * i) = Some (ecc_bytes (hw_parity (chunk (512 * i) 512 dat)))"
  unfolding less_4 by (elim disjE) (simp_all add: page_codes_def ecc_at_def ecc_list_def arr_get_def upt_rec split: prod.split)

section \<open>Correcting a page\<close>

text \<open>
  What the correction can bring back: a chunk read without an error or with one bit wrong, with the code that
  was stored for it, and a chunk read without an error whose code has one bit wrong.
\<close>

definition recoverable :: "u8 list \<Rightarrow> u8 list \<Rightarrow> ecc \<Rightarrow> bool" where
  "recoverable orig got e \<longleftrightarrow> length orig = 512 \<and>
     (e = ecc_bytes (hw_parity orig) \<and> (got = orig \<or> (\<exists>a<4096. got = flip_data_bit orig (a div 8) (a mod 8))) \<or>
      got = orig \<and> hweight32 (gen_true_ecc e XOR gen_true_ecc (ecc_bytes (hw_parity orig))) = 1)"

lemma correct_recoverable:
  assumes "recoverable orig got e"
  obtains r where "omap_correct_data_hw_ecc (got @ rest) e (ecc_bytes (hw_parity got)) = Some (r, orig @ rest)" "r \<noteq> - 1"
proof -
  have len: "length orig = 512" using assms by (simp add: recoverable_def)
  consider "e = ecc_bytes (hw_parity orig)" "got = orig" | a where "e = ecc_bytes (hw_parity orig)" "a < 4096" "got = flip_data_bit orig (a div 8) (a mod 8)"
    | "got = orig" "hweight32 (gen_true_ecc e XOR gen_true_ecc (ecc_bytes (hw_parity orig))) = 1"
    using assms by (auto simp: recoverable_def)
  then show thesis
  proof cases
    case 1
    then show ?thesis using that [of 0] by (simp add: omap_correct_data_hw_ecc_def)
  next
    case 2
    then show ?thesis using that [of 0] hw_correct_single [OF len 2(2), of rest] by simp
  next
    case 3
    then have "gen_true_ecc e XOR gen_true_ecc (ecc_bytes (hw_parity orig)) \<noteq> 0" by auto
    then show ?thesis using that [of 2] 3 by (simp add: omap_correct_data_hw_ecc_def)
  qed
qed

definition page_holds :: "u8 list \<Rightarrow> u8 list \<Rightarrow> bool" where
  "page_holds rp dat \<longleftrightarrow> length rp = 2112 \<and> length dat = 2048 \<and>
     (\<forall>i<4. recoverable (chunk (512 * i) 512 dat) (chunk (512 * i) 512 rp)
        (rp ! (2050 + 3 * i), rp ! (2051 + 3 * i), rp ! (2052 + 3 * i)))"

lemma ecc_at_stored:
  "i < 4 \<Longrightarrow> ecc_at (map ((!) (chunk 2048 64 rp)) ecc_pos) (3 * i) = Some (rp ! (2050 + 3 * i), rp ! (2051 + 3 * i), rp ! (2052 + 3 * i))"
  if "length rp = 2112" for rp :: "u8 list"
  unfolding less_4 using that by (elim disjE) (simp_all add: ecc_at_def arr_get_def ecc_pos_def chunk_def)

lemma correct_step:
  assumes "page_holds rp dat" and "i < 4" and "got = take 2048 rp"
  shows "correct_loop (map ((!) (chunk 2048 64 rp)) ecc_pos) (page_codes got) (3 * i) (length pre + 512 * i)
      (pre @ take (512 * i) dat @ drop (512 * i) got @ post)
    = correct_loop (map ((!) (chunk 2048 64 rp)) ecc_pos) (page_codes got) (3 * (i + 1)) (length pre + 512 * (i + 1))
      (pre @ take (512 * (i + 1)) dat @ drop (512 * (i + 1)) got @ post)"
proof -
  have len: "length rp = 2112" "length dat = 2048" and "recoverable (chunk (512 * i) 512 dat) (chunk (512 * i) 512 rp)
        (rp ! (2050 + 3 * i), rp ! (2051 + 3 * i), rp ! (2052 + 3 * i))" using assms by (auto simp: page_holds_def)
  moreover have "chunk (512 * i) 512 rp = chunk (512 * i) 512 got" using assms(2,3) by (simp add: chunk_def drop_take min_def)
  ultimately obtain r where r: "omap_correct_data_hw_ecc (chunk (512 * i) 512 got @ drop (512 * (i + 1)) got @ post)
      (rp ! (2050 + 3 * i), rp ! (2051 + 3 * i), rp ! (2052 + 3 * i)) (ecc_bytes (hw_parity (chunk (512 * i) 512 got)))
      = Some (r, chunk (512 * i) 512 dat @ drop (512 * (i + 1)) got @ post)" "r \<noteq> - 1"
    by (metis correct_recoverable)
  have "drop (512 * i) got = chunk (512 * i) 512 got @ drop (512 * (i + 1)) got"
    unfolding chunk_def by (metis append_take_drop_id drop_drop mult_Suc_right Suc_eq_plus1)
  moreover define M where "M = pre @ take (512 * i) dat @ drop (512 * i) got @ post"
  ultimately have M: "drop (length pre + 512 * i) M = chunk (512 * i) 512 got @ drop (512 * (i + 1)) got @ post"
    "take (length pre + 512 * i) M = pre @ take (512 * i) dat" using len assms(2) by simp_all
  have "take (512 * i) dat @ chunk (512 * i) 512 dat = take (512 * (i + 1)) dat"
    using take_add [of "512 * i" 512 dat] by (simp add: chunk_def add.commute)
  then have j: "take (512 * i) dat @ chunk (512 * i) 512 dat @ X = take (512 * (i + 1)) dat @ X" for X by (metis append_assoc)
  show ?thesis
    unfolding M_def [symmetric] using r ecc_at_stored [OF len(1) assms(2)] ecc_at_page_codes [OF assms(2)] assms(2)
    by (subst correct_loop.simps) (simp add: M j add.commute [of 3] add.assoc, simp add: add.commute)
qed

lemma correct_page:
  assumes "page_holds rp dat"
  shows "correct_loop (map ((!) (chunk 2048 64 rp)) ecc_pos) (page_codes (take 2048 rp)) 0 (length pre) (pre @ take 2048 rp @ post)
    = Some (pre @ dat @ post)"
proof -
  have len: "length rp = 2112" "length dat = 2048" using assms by (auto simp: page_holds_def)
  note step = correct_step [OF assms _ refl, of _ pre post]
  show ?thesis using step [of 0] step [of 1] step [of 2] step [of 3] len by (simp add: correct_loop.simps [of _ _ 12])
qed

section \<open>Reading a page and a block\<close>

lemma page_chunks: "length rp = 2112 \<Longrightarrow> chunk 0 2048 rp = take 2048 rp" "length rp = 2112 \<Longrightarrow> chunk 0 64 (chunk 2048 64 rp) = chunk 2048 64 rp"
  by (simp_all add: chunk_def)

lemma enable_law:
  assumes "engine_law mm v"
  shows "raw v (omap_enable_hw_ecc mm h) = raw v h" and "fed v (omap_enable_hw_ecc mm h) = Some []"
  using assms [unfolded engine_law_def, THEN conjunct1, rule_format, of h] by (simp_all add: omap_enable_hw_ecc_def Let_def)

lemma nand_device_laws: "nand_device mm v \<Longrightarrow> command_law mm v" "nand_device mm v \<Longrightarrow> address_law mm v"
  "nand_device mm v \<Longrightarrow> data_law mm v" "nand_device mm v \<Longrightarrow> engine_law mm v"
  by (simp_all add: nand_device_def)

text \<open>Up to the correction, a page read is this.\<close>

lemma nand_read_page_raw:
  assumes dev: "nand_device mm v" and al: "unat addr mod 2048 = 0" and len: "length (raw v h (unat addr div 2048)) = 2112"
    and room: "buf + 2048 \<le> length mem"
  defines "rp \<equiv> raw v h (unat addr div 2048)"
  obtains h' where "nand_read_page mm buf addr mem h =
      do { mem \<leftarrow> correct_loop (map ((!) (chunk 2048 64 rp)) ecc_pos) (page_codes (take 2048 rp)) 0 buf
             (take buf mem @ take 2048 rp @ drop (buf + 2048) mem);
           Some (0, mem, h') }"
    and "raw v h' = raw v h"
proof -
  note laws = nand_device_laws [OF dev]
  define h1 where "h1 = seek mm ADDR_COLUMN_PAGE addr (omap_enable_hw_ecc mm h)"
  have h1: "raw v h1 = raw v h" "fed v h1 = Some []" "cursor v h1 = Some (unat addr div 2048, 0)"
    using seek_law [OF laws(1,2) _ al, of ADDR_COLUMN_PAGE] by (simp_all add: h1_def enable_law [OF laws(4)])
  obtain h2 where r2: "read_words mm 1024 buf mem h1 = Some (take buf mem @ take 2048 rp @ drop (buf + 2048) mem, h2)"
    and h2: "raw v h2 = raw v h" "cursor v h2 = Some (unat addr div 2048, 1024)" "fed v h2 = Some (take 2048 rp)"
    using read_words_law [OF laws(3) h1(3), of 1024 buf mem] h1 len room by (auto simp: rp_def chunk_def)
  obtain h3 where r3: "read_words mm 32 0 (replicate 64 0) h2 = Some (chunk 2048 64 rp, h3)"
    and h3: "raw v h3 = raw v h" "fed v h3 = Some (take 2048 rp @ chunk 2048 64 rp)"
    using read_words_law [OF laws(3) h2(2), of 32 0 "replicate 64 0"] h2 len by (auto simp: rp_def)
  have lr: "length rp = 2112" using len by (simp add: rp_def)
  obtain h4 where r4: "omap_calculate_hw_ecc mm 4 h3 = (page_codes (take 2048 rp), h4)" and h4: "raw v h4 = raw v h"
    using omap_calculate_hw_ecc_law [OF laws(4) h3(2)] h3(1) lr by auto
  show thesis
  proof (rule that [OF _ h4])
    show "nand_read_page mm buf addr mem h =
      do { mem \<leftarrow> correct_loop (map ((!) (chunk 2048 64 rp)) ecc_pos) (page_codes (take 2048 rp)) 0 buf
             (take buf mem @ take 2048 rp @ drop (buf + 2048) mem);
           Some (0, mem, h4) }"
      using r2 r3 r4 by (simp add: nand_read_page_def NanD_Command_plain bus_width_def h1_def seek_def case_prod_beta Let_def)
  qed
qed

lemma nand_read_page_law:
  assumes dev: "nand_device mm v" and al: "unat addr mod 2048 = 0" and "page_holds (raw v h (unat addr div 2048)) dat"
    and room: "buf + 2048 \<le> length mem"
  obtains h' where "nand_read_page mm buf addr mem h = Some (0, take buf mem @ dat @ drop (buf + 2048) mem, h')" and "raw v h' = raw v h"
proof -
  have len: "length (raw v h (unat addr div 2048)) = 2112" using assms(3) by (simp add: page_holds_def)
  have b: "length (take buf mem) = buf" using room by simp
  obtain h' where "nand_read_page mm buf addr mem h = Some (0, take buf mem @ dat @ drop (buf + 2048) mem, h')" "raw v h' = raw v h"
    by (rule nand_read_page_raw [OF dev al len room]) (simp add: correct_page [OF assms(3), of "take buf mem", unfolded b])
  then show thesis by (rule that)
qed

lemma nand_read_oob_law:
  assumes dev: "nand_device mm v" and al: "unat addr mod 2048 = 0" and len: "length (raw v h (unat addr div 2048)) = 2112"
  obtains h' where "nand_read_oob mm addr (replicate 64 0) h = Some (0, chunk 2048 64 (raw v h (unat addr div 2048)), h')" and "raw v h' = raw v h"
proof -
  note laws = nand_device_laws [OF dev]
  define h1 where "h1 = seek mm ADDR_OOB addr h"
  have h1: "raw v h1 = raw v h" "cursor v h1 = Some (unat addr div 2048, 1024)"
    using seek_law [OF laws(1,2) _ al, of ADDR_OOB] by (simp_all add: h1_def)
  obtain h2 where "read_words mm 32 0 (replicate 64 0) h1 = Some (chunk 2048 64 (raw v h (unat addr div 2048)), h2)" "raw v h2 = raw v h"
    using read_words_law [OF laws(3) h1(2), of 32 0 "replicate 64 0"] h1 len by auto
  then show thesis
    by (intro that [of h2]) (simp_all add: nand_read_oob_def NanD_Command_plain bus_width_def h1_def seek_def case_prod_beta Let_def)
qed

text \<open>The pages of a block, from page \<open>k\<close> on.\<close>

lemma page_addr:
  assumes "b < 2048" and "k < 64"
  shows "unat (of_nat (131072 * b) + of_nat (2048 * k) :: u32) = 2048 * (64 * b + k)"
proof -
  have "131072 * b + 2048 * k < 2 ^ 32" using assms by simp
  from unat_of_nat_u32 [OF this] show ?thesis unfolding of_nat_add by simp
qed

lemma read_pages_law:
  assumes dev: "nand_device mm v" and b: "b < 2048" and "k + n \<le> 64"
    and "\<forall>j. k \<le> j \<and> j < k + n \<longrightarrow> page_holds (raw v h (64 * b + j)) (dat (64 * b + j))"
    and "buf + 2048 * (k + n) \<le> length mem"
  shows "\<exists>h'. read_pages mm n (2048 * k) buf (of_nat (131072 * b)) mem h =
      Some (0, take (buf + 2048 * k) mem @ concat (map dat [64 * b + k..<64 * b + k + n]) @ drop (buf + 2048 * (k + n)) mem, h') \<and>
    raw v h' = raw v h"
  using assms(3-)
proof (induction n arbitrary: k mem h)
  case (Suc n)
  let ?a = "of_nat (131072 * b) + of_nat (2048 * k) :: u32"
  have k: "k < 64" using Suc.prems(1) by simp
  have a: "unat ?a mod 2048 = 0" "unat ?a div 2048 = 64 * b + k" unfolding page_addr [OF b k] by simp_all
  have ph: "page_holds (raw v h (64 * b + k)) (dat (64 * b + k))" using Suc.prems(2) by simp
  then have d: "length (dat (64 * b + k)) = 2048" by (simp add: page_holds_def)
  let ?mem = "take (buf + 2048 * k) mem @ dat (64 * b + k) @ drop (buf + 2048 * k + 2048) mem"
  obtain h1 where r: "nand_read_page mm (buf + 2048 * k) ?a mem h = Some (0, ?mem, h1)" and h1: "raw v h1 = raw v h"
    by (rule nand_read_page_law [OF dev a(1), unfolded a(2), OF ph, of "buf + 2048 * k"]) (use Suc.prems(3) in auto)
  have ih: "k + 1 + n \<le> 64" "\<forall>j. k + 1 \<le> j \<and> j < k + 1 + n \<longrightarrow> page_holds (raw v h1 (64 * b + j)) (dat (64 * b + j))"
    "buf + 2048 * (k + 1 + n) \<le> length ?mem"
    using Suc.prems d by (simp_all add: h1)
  have tk: "take (buf + 2048 * (k + 1)) ?mem = take (buf + 2048 * k) mem @ dat (64 * b + k)"
    and dr: "drop (buf + 2048 * (k + 1 + n)) ?mem = drop (buf + 2048 * (k + Suc n)) mem"
    using Suc.prems(3) d by (simp_all add: add.commute add.left_commute)
  obtain h' where "read_pages mm n (2048 * (k + 1)) buf (of_nat (131072 * b)) ?mem h1 =
      Some (0, (take (buf + 2048 * k) mem @ dat (64 * b + k)) @ concat (map dat [64 * b + (k + 1)..<64 * b + (k + 1) + n]) @ drop (buf + 2048 * (k + Suc n)) mem, h')"
    and h': "raw v h' = raw v h1"
    using Suc.IH [OF ih, unfolded tk dr] by blast
  moreover have "read_pages mm (Suc n) (2048 * k) buf (of_nat (131072 * b)) mem h = read_pages mm n (2048 * (k + 1)) buf (of_nat (131072 * b)) ?mem h1"
    using r by (simp add: add.commute)
  moreover have "[64 * b + k..<64 * b + k + Suc n] = (64 * b + k) # [64 * b + (k + 1)..<64 * b + (k + 1) + n]" by (simp add: upt_conv_Cons)
  ultimately show ?case using h1 by (simp only: list.map concat.simps append_assoc) auto
qed simp

text \<open>A block is good when the first byte of the spare area of its first page is 0xff.\<close>

definition good_block :: "(nat \<Rightarrow> u8 list) \<Rightarrow> nat \<Rightarrow> bool" where
  "good_block r b \<longleftrightarrow> r (64 * b) ! 2048 = 0xff"

definition block_data :: "(nat \<Rightarrow> u8 list) \<Rightarrow> nat \<Rightarrow> u8 list" where
  "block_data dat b = concat (map dat [64 * b..<64 * b + 64])"

lemma nand_read_block_law:
  assumes dev: "nand_device mm v" and b: "b < 2048" and len: "length (raw v h (64 * b)) = 2112"
    and ph: "good_block (raw v h) b \<Longrightarrow> \<forall>j<64. page_holds (raw v h (64 * b + j)) (dat (64 * b + j))"
    and room: "buf + 131072 \<le> length mem"
  shows "\<exists>h'. nand_read_block mm buf (of_nat (131072 * b)) mem h =
      (if good_block (raw v h) b then Some (0, take buf mem @ block_data dat b @ drop (buf + 131072) mem, h') else Some (1, mem, h')) \<and>
    raw v h' = raw v h"
proof -
  have a: "unat (of_nat (131072 * b) :: u32) mod 2048 = 0" "unat (of_nat (131072 * b) :: u32) div 2048 = 64 * b"
    using page_addr [OF b, of 0] by simp_all
  obtain h1 where r: "nand_read_oob mm (of_nat (131072 * b)) (replicate 64 0) h = Some (0, chunk 2048 64 (raw v h (64 * b)), h1)"
    and h1: "raw v h1 = raw v h"
    by (rule nand_read_oob_law [OF dev a(1), unfolded a(2), OF len])
  have g: "chunk 2048 64 (raw v h (64 * b)) ! 0 = 0xff \<longleftrightarrow> good_block (raw v h) b"
    using len by (simp add: good_block_def chunk_def)
  show ?thesis
    using r h1 g read_pages_law [OF dev b, of 0 64 h1 dat buf mem] ph room
    by (auto simp: nand_read_block_def block_data_def)
qed

section \<open>The image in the chip\<close>

text \<open>
  The chip holds the data \<open>dat\<close>, page by page, in the good blocks of a range; the image is what these blocks hold, one
  after the other.
\<close>

definition chip_holds :: "(nat \<Rightarrow> u8 list) \<Rightarrow> (nat \<Rightarrow> u8 list) \<Rightarrow> nat list \<Rightarrow> bool" where
  "chip_holds r dat bs \<longleftrightarrow> (\<forall>b\<in>set bs. length (r (64 * b)) = 2112 \<and>
     (good_block r b \<longrightarrow> (\<forall>j<64. page_holds (r (64 * b + j)) (dat (64 * b + j)))))"

definition boot_image :: "(nat \<Rightarrow> u8 list) \<Rightarrow> (nat \<Rightarrow> u8 list) \<Rightarrow> nat list \<Rightarrow> u8 list" where
  "boot_image r dat bs = concat (map (block_data dat) (filter (good_block r) bs))"

lemma length_block_data:
  assumes "\<forall>j<64. page_holds (r (64 * b + j)) (dat (64 * b + j))"
  shows "length (block_data dat b) = 131072"
proof -
  have "n \<le> 64 \<Longrightarrow> length (concat (map dat [64 * b..<64 * b + n])) = 2048 * n" for n
    using assms by (induction n) (simp_all add: page_holds_def)
  from this [of 64] show ?thesis by (simp add: block_data_def)
qed

lemma nand_boot_loop_law:
  assumes dev: "nand_device mm v" and "b + n = 18" and "chip_holds (raw v h) dat [b..<18]" and "buf + 131072 * n \<le> length mem"
  shows "\<exists>h'. nand_boot_loop mm (131072 * b) buf mem h =
      Some (buf + length (boot_image (raw v h) dat [b..<18]),
        take buf mem @ boot_image (raw v h) dat [b..<18] @ drop (buf + length (boot_image (raw v h) dat [b..<18])) mem, h') \<and>
    raw v h' = raw v h"
  using assms(2-)
proof (induction n arbitrary: b buf mem h)
  case 0
  then show ?case by (simp add: nand_boot_loop.simps boot_image_def)
next
  case (Suc n)
  have b: "b < 2048" "b < 18" "[b..<18] = b # [b + 1..<18]" using Suc.prems(1) by (simp_all add: upt_conv_Cons)
  have ch: "length (raw v h (64 * b)) = 2112" "good_block (raw v h) b \<Longrightarrow> \<forall>j<64. page_holds (raw v h (64 * b + j)) (dat (64 * b + j))"
    "chip_holds (raw v h) dat [b + 1..<18]" using Suc.prems(2) unfolding chip_holds_def b(3) by simp_all
  obtain h1 where r: "nand_read_block mm buf (of_nat (131072 * b)) mem h =
      (if good_block (raw v h) b then Some (0, take buf mem @ block_data dat b @ drop (buf + 131072) mem, h1) else Some (1, mem, h1))"
    and h1: "raw v h1 = raw v h"
    using nand_read_block_law [OF dev b(1) ch(1,2), of buf mem] Suc.prems(3) by auto
  have step: "nand_boot_loop mm (131072 * b) buf mem h = do {
      (r, mem, h) \<leftarrow> nand_read_block mm buf (of_nat (131072 * b)) mem h;
      nand_boot_loop mm (131072 * (b + 1)) (if r = 0 then buf + 131072 else buf) mem h }"
    using b(2) by (subst nand_boot_loop.simps) (simp add: add.commute)
  show ?case
  proof (cases "good_block (raw v h) b")
    case True
    let ?mem = "take buf mem @ block_data dat b @ drop (buf + 131072) mem"
    have len: "length (block_data dat b) = 131072" using length_block_data ch(2) True by blast
    have img: "boot_image (raw v h) dat [b..<18] = block_data dat b @ boot_image (raw v h) dat [b + 1..<18]"
      using True by (simp add: boot_image_def b(3))
    have ih: "b + 1 + n = 18" "chip_holds (raw v h1) dat [b + 1..<18]" "buf + 131072 + 131072 * n \<le> length ?mem"
      using Suc.prems ch(3) h1 len by simp_all
    have "take (buf + 131072) ?mem = take buf mem @ block_data dat b"
      "drop (buf + 131072 + m) ?mem = drop (buf + (131072 + m)) mem" for m
      using Suc.prems(3) len by (simp_all add: add.commute add.left_commute)
    with Suc.IH [OF ih] show ?thesis unfolding step r img h1 using True len by (auto simp: h1 add.assoc)
  next
    case False
    then have "boot_image (raw v h) dat [b..<18] = boot_image (raw v h) dat [b + 1..<18]" by (simp add: boot_image_def b(3))
    moreover have "b + 1 + n = 18" "chip_holds (raw v h1) dat [b + 1..<18]" "buf + 131072 * n \<le> length mem"
      using Suc.prems ch(3) h1 by simp_all
    ultimately show ?thesis using Suc.IH [of "b + 1" h1 buf mem] False unfolding step r by (simp add: h1)
  qed
qed

text \<open>The boot pins keep their value; reading them leaves the chip as it is.\<close>

definition pins_law :: "'h mmio \<Rightarrow> 'h nand_view \<Rightarrow> u32 \<Rightarrow> bool" where
  "pins_law mm v s \<longleftrightarrow> (\<forall>h. case readl mm CONTROL_STATUS h of (x, h') \<Rightarrow> x AND 0x1F = s \<and> raw v h' = raw v h)"

lemma get_mem_type_law:
  assumes "pins_law mm v s"
  obtains h' where "get_mem_type mm h = (if s = 9 then MMC_NAND else GPMC_NAND, h')" and "raw v h' = raw v h"
  using assms [unfolded pins_law_def, rule_format, of h]
  by (auto simp: get_mem_type_def get_sysboot_value_def split: prod.splits)

text \<open>
  Booting from the NAND chip. When the boot pins select the chip and the chip holds an image in the good
  blocks of the U-Boot partition, with at most one wrong bit in each chunk of 512 bytes or in its code, the loader enters
  U-Boot with exactly that image at the load address: the data of the good blocks in order, without
  gaps for the bad ones; memory behind the image is as it was.
\<close>

theorem boot_nand_image:
  assumes "nand_device mm v" and "pins_law mm v s" and "s \<noteq> 9"
    and "chip_holds (raw v h) dat [4..<18]" and "14 * NAND_BLOCK_SIZE \<le> length mem" and "\<exists>b\<in>{4..<18}. good_block (raw v h) b"
  shows "\<exists>h'. boot mm md mem h =
    Some (boot_image (raw v h) dat [4..<18] @ drop (length (boot_image (raw v h) dat [4..<18])) mem, h')"
proof -
  obtain h1 where 1: "get_mem_type mm h = (GPMC_NAND, h1)" "raw v h1 = raw v h"
    by (rule get_mem_type_law [OF assms(2)]) (use assms(3) in simp)
  obtain h2 where 2: "get_mem_type mm h1 = (GPMC_NAND, h2)" "raw v h2 = raw v h1"
    by (rule get_mem_type_law [OF assms(2)]) (use assms(3) in simp)
  obtain h3 where 3: "get_mem_type mm h2 = (GPMC_NAND, h3)" "raw v h3 = raw v h2"
    by (rule get_mem_type_law [OF assms(2)]) (use assms(3) in simp)
  obtain h4 where 4: "nand_boot_loop mm NAND_UBOOT_START 0 mem h3 =
      Some (length (boot_image (raw v h) dat [4..<18]), boot_image (raw v h) dat [4..<18] @ drop (length (boot_image (raw v h) dat [4..<18])) mem, h4)"
    using nand_boot_loop_law [OF assms(1), of 4 14 h3 dat 0 mem] assms(4,5) 1 2 3 by auto
  obtain h5 where 5: "get_mem_type mm h4 = (GPMC_NAND, h5)" "raw v h5 = raw v h4"
    by (rule get_mem_type_law [OF assms(2)]) (use assms(3) in simp)
  obtain b where b: "b \<in> {4..<18}" "good_block (raw v h) b" using assms(6) by blast
  have "\<forall>j<64. page_holds (raw v h (64 * b + j)) (dat (64 * b + j))"
    using assms(4) b unfolding chip_holds_def set_upt by blast
  then have "block_data dat b \<noteq> []" using length_block_data by force
  moreover have "b \<in> set (filter (good_block (raw v h)) [4..<18])" unfolding set_filter set_upt using b by blast
  ultimately have "boot_image (raw v h) dat [4..<18] \<noteq> []" unfolding boot_image_def concat_eq_Nil_conv by (metis imageI set_map)
  then show ?thesis using 1 2 3 4 5 by (simp add: boot_def)
qed

text \<open>
  A page that cannot be corrected stops the loader. When the first chunk of a page is read with an error that
  \<open>omap_correct_data_hw_ecc\<close> reports, \<open>nand_read_page\<close> does not return: the loop that follows the messages has no end, so
  that \<open>nand_read_block\<close> never gives the result 1 that is documented for this case.
\<close>

theorem nand_read_page_uncorrectable:
  assumes "nand_device mm v" and "unat addr mod 2048 = 0" and "buf + 2048 \<le> length mem"
    and "rp = raw v h (unat addr div 2048)" and "length rp = 2112"
    and "omap_correct_data_hw_ecc (take 2048 rp @ drop (buf + 2048) mem) (rp ! 2050, rp ! 2051, rp ! 2052) (ecc_bytes (hw_parity (take 512 rp)))
      = Some (- 1, d)"
  shows "nand_read_page mm buf addr mem h = None"
proof -
  have len: "length (raw v h (unat addr div 2048)) = 2112" using assms(4,5) by simp
  have "ecc_at (map ((!) (chunk 2048 64 rp)) ecc_pos) 0 = Some (rp ! 2050, rp ! 2051, rp ! 2052)"
    using ecc_at_stored [OF assms(5), of 0] by simp
  moreover have "ecc_at (page_codes (take 2048 rp)) 0 = Some (ecc_bytes (hw_parity (take 512 rp)))"
    using ecc_at_page_codes [of 0 "take 2048 rp"] by (simp add: chunk_def)
  ultimately have "correct_loop (map ((!) (chunk 2048 64 rp)) ecc_pos) (page_codes (take 2048 rp)) 0 buf
      (take buf mem @ take 2048 rp @ drop (buf + 2048) mem) = None"
    using assms(3,6) by (subst correct_loop.simps) simp
  then show ?thesis
    by (rule_tac nand_read_page_raw [OF assms(1,2) len assms(3)]) (simp flip: assms(4))
qed

section \<open>A device\<close>

text \<open>
  A chip of erased spare areas and zero data. In page 256, the first of the partition, bit 9 is wrong;
  block 5 is marked bad; in page 0 two bits are wrong. The state has the address cycles, the read position and the
  bytes the engine has taken in.
\<close>

type_synonym ndemo_hw = "u16 list \<times> (nat \<times> nat) option \<times> u8 list option"

definition ndemo_spare :: "u8 list" where
  "ndemo_spare = [0xff, 0xff] @ replicate 12 0 @ replicate 50 0xff"

definition ndemo_raw :: "nat \<Rightarrow> u8 list" where
  "ndemo_raw p =
     (if p = 0 then [3] @ replicate 2047 0 @ ndemo_spare
      else if p = 256 then [0, 2] @ replicate 2046 0 @ ndemo_spare
      else if p = 320 then replicate 2112 0
      else replicate 2048 0 @ ndemo_spare)"

fun ndemo_writew :: "u16 \<Rightarrow> u32 \<Rightarrow> ndemo_hw \<Rightarrow> ndemo_hw" where
  "ndemo_writew x a (cy, cu, fd) =
     (if a = NAND_COMMAND \<and> x = 0 then ([], cu, fd)
      else if a = NAND_COMMAND \<and> x = 0x30 then
        (cy, case cy of [c0, c1, r0, r1, r2] \<Rightarrow> Some (unat r0 + 256 * unat r1 + 65536 * unat r2, unat c0 + 256 * unat c1) | _ \<Rightarrow> cu, fd)
      else if a = NAND_ADDRESS then (cy @ [x], cu, fd) else (cy, cu, fd))"

fun ndemo_readw :: "u32 \<Rightarrow> ndemo_hw \<Rightarrow> u16 \<times> ndemo_hw" where
  "ndemo_readw a (cy, cu, fd) =
     (case cu of None \<Rightarrow> (0, cy, cu, fd)
      | Some (p, w) \<Rightarrow> let d = dec16 (chunk (2 * w) 2 (ndemo_raw p)) in (d, cy, Some (p, w + 1), map_option (\<lambda>f. f @ enc16 d) fd))"

fun ndemo_writel :: "u32 \<Rightarrow> u32 \<Rightarrow> ndemo_hw \<Rightarrow> ndemo_hw" where
  "ndemo_writel x a (cy, cu, fd) = (cy, cu, if a = ECC_CONFIG then if x = 0 then None else Some [] else fd)"

definition ndemo_readl :: "u32 \<Rightarrow> ndemo_hw \<Rightarrow> u32 \<times> ndemo_hw" where
  "ndemo_readl a h =
     (if a = CONTROL_STATUS then 1
      else case snd (snd h) of None \<Rightarrow> 0 | Some f \<Rightarrow> hw_parity (chunk (128 * unat (a - ECC1_RESULT)) 512 f), h)"

definition ndemo_mmio :: "ndemo_hw mmio" where
  "ndemo_mmio = \<lparr>readb = \<lambda>_ h. (0, h), writeb = \<lambda>_ _ h. h, readw = ndemo_readw, writew = ndemo_writew, readl = ndemo_readl, writel = ndemo_writel\<rparr>"

definition ndemo_view :: "ndemo_hw nand_view" where
  "ndemo_view = \<lparr>raw = \<lambda>_. ndemo_raw, cycles = fst, cursor = \<lambda>h. fst (snd h), fed = \<lambda>h. snd (snd h)\<rparr>"

definition ndemo_media :: "ndemo_hw boot_media" where
  "ndemo_media = \<lparr>mmc_boot = \<lambda>mem h. (0, mem, h), onenand_chip = \<lambda>h. (1, h), onenand_loop = \<lambda>mem h. (0, mem, h)\<rparr>"

lemma ndemo_nand_device: "nand_device ndemo_mmio ndemo_view"
  unfolding nand_device_def
proof (intro conjI)
  have u: "unat (ucast (x :: u8) :: u16) = unat x" for x
    using unsigned_less [of x, where 'a = nat] by (simp add: unsigned_ucast_eq take_bit_nat_eq_self)
  show "command_law ndemo_mmio ndemo_view"
    by (auto simp: command_law_def ndemo_mmio_def ndemo_view_def Let_def u)
  show "address_law ndemo_mmio ndemo_view"
    by (auto simp: address_law_def ndemo_mmio_def ndemo_view_def Let_def)
  have "enc16 (dec16 (chunk (2 * w) 2 (ndemo_raw p))) = [ndemo_raw p ! (2 * w), ndemo_raw p ! (2 * w + 1)]" if "2 * w + 1 < length (ndemo_raw p)" for p w
    unfolding chunk_2 [OF that] by (rule enc16_dec16) simp
  then show "data_law ndemo_mmio ndemo_view"
    by (auto simp: data_law_def ndemo_mmio_def ndemo_view_def Let_def)
  have "128 * unat (4 * of_nat i :: u32) = 512 * i" if "i < 9" for i
    using unat_of_nat_u32 [of "4 * i"] that by simp
  moreover have "ECC1_RESULT + 4 * of_nat i \<noteq> CONTROL_STATUS" if "i < 9" for i
  proof
    assume e: "ECC1_RESULT + 4 * of_nat i = CONTROL_STATUS"
    have "of_nat (4 * i) = (ECC1_RESULT + 4 * of_nat i) - ECC1_RESULT" by simp
    then have "of_nat (4 * i) = CONTROL_STATUS - ECC1_RESULT" unfolding e .
    then have "unat (of_nat (4 * i) :: u32) = unat (CONTROL_STATUS - ECC1_RESULT)" by simp
    then show False using unat_of_nat_u32 [of "4 * i"] that by simp
  qed
  ultimately show "engine_law ndemo_mmio ndemo_view"
    by (auto simp: engine_law_def ndemo_mmio_def ndemo_view_def Let_def ndemo_readl_def)
qed

lemma ndemo_pins: "pins_law ndemo_mmio ndemo_view 1"
  by (simp add: pins_law_def ndemo_mmio_def ndemo_view_def ndemo_readl_def)

lemma bits_code_0 [simp]: "bits_code n j 0 = 0"
  by (induction n) simp_all

lemma hw_parity_zero [simp]: "hw_parity_from j (replicate n 0) = 0"
  by (induction n arbitrary: j) simp_all

lemma ecc_bytes_0 [simp]: "ecc_bytes 0 = (0, 0, 0)"
  by (simp add: ecc_bytes_def)

lemma recoverable_zero: "recoverable (replicate 512 0) (replicate 512 0) (0, 0, 0)"
  by (simp add: recoverable_def)

lemma recoverable_flipped: "recoverable (replicate 512 0) (0 # 2 # replicate 510 0) (0, 0, 0)"
proof -
  have "replicate 512 (0 :: u8) = 0 # 0 # replicate 510 0" using replicate_add [of 2 510 "0 :: u8"] by (simp add: numeral_2_eq_2)
  then have "0 # 2 # replicate 510 0 = flip_data_bit (replicate 512 0) (9 div 8) (9 mod 8 :: nat)"
    by (simp add: flip_data_bit_def)
  then show ?thesis unfolding recoverable_def by (intro conjI disjI1 disjI2 exI [of _ 9]) simp_all
qed

lemma ndemo_page_holds:
  assumes "p \<noteq> 0" and "p \<noteq> 320"
  shows "page_holds (ndemo_raw p) (replicate 2048 0)"
proof -
  have "recoverable (chunk (512 * i) 512 (replicate 2048 0)) (chunk (512 * i) 512 (ndemo_raw p))
        (ndemo_raw p ! (2050 + 3 * i), ndemo_raw p ! (2051 + 3 * i), ndemo_raw p ! (2052 + 3 * i))" if "i < 4" for i
    using that unfolding less_4
    by (elim disjE; cases "p = 256") (use assms in \<open>simp_all add: ndemo_raw_def ndemo_spare_def chunk_def nth_append nth_Cons' recoverable_zero recoverable_flipped\<close>)
  then show ?thesis using assms by (simp add: page_holds_def ndemo_raw_def ndemo_spare_def)
qed

lemma ndemo_good: "good_block ndemo_raw b \<longleftrightarrow> b \<noteq> 5"
  by (simp add: good_block_def ndemo_raw_def ndemo_spare_def nth_append nth_Cons')

lemma ndemo_chip_holds: "chip_holds ndemo_raw (\<lambda>_. replicate 2048 0) [4..<18]"
proof -
  have "length (ndemo_raw p) = 2112" for p by (simp add: ndemo_raw_def ndemo_spare_def)
  moreover have "64 * b + j \<noteq> 320" if "b \<noteq> 5" "j < 64" for b j :: nat using that by presburger
  ultimately show ?thesis unfolding chip_holds_def ndemo_good set_upt using ndemo_page_holds by force
qed

lemma concat_replicate_replicate: "concat (replicate n (replicate m x)) = replicate (n * m) x"
  by (induction n) (simp_all add: replicate_add)

lemma ndemo_image: "boot_image ndemo_raw (\<lambda>_. replicate 2048 0) [4..<18] = replicate (13 * 131072) 0"
proof -
  have "block_data (\<lambda>_. replicate 2048 0) = (\<lambda>b. replicate 131072 0)"
    by (rule ext) (simp add: block_data_def map_replicate_const concat_replicate_replicate)
  moreover have "length (filter (good_block ndemo_raw) [4..<18]) = 13" unfolding ndemo_good by code_simp
  ultimately show ?thesis by (simp only: boot_image_def map_replicate_const concat_replicate_replicate)
qed

theorem boot_nand_image_witness:
  "\<exists>h'. boot ndemo_mmio ndemo_media (replicate (14 * 131072) 7) ([], None, None) =
     Some (replicate (13 * 131072) 0 @ replicate 131072 7, h')"
proof -
  have r: "raw ndemo_view h = ndemo_raw" for h by (simp add: ndemo_view_def)
  have "\<exists>b\<in>{4..<18}. good_block ndemo_raw b" by (rule bexI [of _ 4]) (simp_all add: ndemo_good)
  with boot_nand_image [OF ndemo_nand_device ndemo_pins, of "([], None, None)" "\<lambda>_. replicate 2048 0" "replicate (14 * 131072) 7" ndemo_media]
  show ?thesis unfolding r ndemo_image using ndemo_chip_holds by simp
qed

lemma ndemo_double:
  "omap_correct_data_hw_ecc (take 2048 (ndemo_raw 0) @ rest) (0, 0, 0) (ecc_bytes (hw_parity (take 512 (ndemo_raw 0)))) =
     Some (- 1, take 2048 (ndemo_raw 0) @ rest)"
proof -
  have z: "replicate 512 (0 :: u8) = 0 # replicate 511 0" using replicate_add [of 1 511 "0 :: u8"] by simp
  have "flip_data_bit (flip_data_bit (replicate 512 0) 0 0) 0 1 = 3 # replicate 511 0" unfolding z by (simp add: flip_data_bit_def)
  moreover have "popcount 12 (0 XOR 1) \<noteq> 6" by code_simp
  moreover have "take 2048 (ndemo_raw 0) @ rest = (3 # replicate 511 0) @ replicate 1536 0 @ rest" "take 512 (ndemo_raw 0) = 3 # replicate 511 0"
    by (simp_all add: ndemo_raw_def replicate_add [symmetric])
  ultimately show ?thesis
    using hw_correct_double [of "replicate 512 0" 0 1 _ "replicate 1536 0 @ rest", OF _ _ _ _ refl]
    by (simp add: gen_true_ecc_def)
qed

theorem nand_read_page_uncorrectable_witness:
  "nand_read_page ndemo_mmio 0 0 (replicate 2048 7) ([], None, None) = None"
proof -
  have s: "ndemo_raw 0 ! 2050 = 0" "ndemo_raw 0 ! 2051 = 0" "ndemo_raw 0 ! 2052 = 0" "length (ndemo_raw 0) = 2112"
    by (simp_all add: ndemo_raw_def ndemo_spare_def nth_append nth_Cons')
  show ?thesis
    by (rule nand_read_page_uncorrectable [OF ndemo_nand_device, where rp = "ndemo_raw 0"])
      (use ndemo_double [of "[]"] in \<open>simp_all add: ndemo_view_def s\<close>)
qed

section \<open>Waiting for the chip and identifying it\<close>

text \<open>The chip is ready at one of the next \<open>n\<close> reads of its status.\<close>

fun ready_within :: "'h mmio \<Rightarrow> nat \<Rightarrow> 'h \<Rightarrow> bool" where
  "ready_within mm 0 h \<longleftrightarrow> False"
| "ready_within mm (Suc n) h \<longleftrightarrow>
     (case readw mm NAND_DATA h of (x, h) \<Rightarrow> (ucast x :: u8) AND 0x40 = 0x40 \<or> ready_within mm n h)"

lemma nand_wait_ready_returns: "ready_within mm n h \<Longrightarrow> \<exists>h'. nand_wait_ready mm h = Some h'"
proof (induction n arbitrary: h)
  case (Suc n)
  then show ?case by (subst nand_wait_ready.simps) (auto simp: Let_def split: prod.splits)
qed simp

text \<open>
  The start of the chip. When the chip becomes ready after a reset, \<open>nand_chip\<close> returns, and its result is 0 for
  exactly four chips of Micron and, for any other manufacturer, for the identity 0xa1. The case for
  Hynix, whose identity is 0xbc, is never taken, since the processor is always reported as an AM35xx.
\<close>

theorem nand_chip_accepts:
  assumes "ready_within mm n (writew mm (ucast NAND_CMD_STATUS) NAND_COMMAND (writew mm (ucast NAND_CMD_RESET) NAND_COMMAND h))"
  shows "\<exists>h1 mfr h2 i h3 ddr h4. nand_wait_ready mm (writew mm (ucast NAND_CMD_STATUS) NAND_COMMAND (writew mm (ucast NAND_CMD_RESET) NAND_COMMAND h)) = Some h1 \<and>
    readw mm NAND_DATA (snd (NanD_Address mm ADDR_COLUMN 0 (writew mm (ucast NAND_CMD_READID) NAND_COMMAND h1))) = (mfr, h2) \<and>
    readw mm NAND_DATA h2 = (i, h3) \<and>
    nand_chip mm h = Some (if mfr = 0x2c \<and> i \<in> {0xa1, 0xca, 0xba, 0xbc} \<or> mfr \<noteq> 0x2c \<and> i = 0xa1 then 0 else 1, ddr, h4)"
proof -
  obtain h1 where w: "nand_wait_ready mm (writew mm (ucast NAND_CMD_STATUS) NAND_COMMAND (writew mm (ucast NAND_CMD_RESET) NAND_COMMAND h)) = Some h1"
    using nand_wait_ready_returns [OF assms] by blast
  then have "NanD_Command mm NAND_CMD_RESET h = Some (0, h1)"
    by (subst NanD_Command.simps) (simp add: NanD_Command_plain Let_def)
  then show ?thesis using w
    by (auto simp: nand_chip_def NanD_Command_plain is_cpu_family_def case_prod_beta Let_def prod_eq_iff)
qed

text \<open>A chip that is busy at the first read of its status and then ready, of Micron; the state counts the reads.\<close>

definition id_readw :: "u32 \<Rightarrow> nat \<Rightarrow> u16 \<times> nat" where
  "id_readw a h = (if h = 0 then 0 else if h = 1 then 0x40 else if h = 2 then 0x2c else 0xba, h + 1)"

definition id_mmio :: "nat mmio" where
  "id_mmio = \<lparr>readb = \<lambda>_ h. (0, h), writeb = \<lambda>_ _ h. h, readw = id_readw, writew = \<lambda>_ _ h. h, readl = \<lambda>_ h. (0, h), writel = \<lambda>_ _ h. h\<rparr>"

theorem nand_chip_accepts_witness: "ready_within id_mmio (Suc (Suc 0)) 0 \<and> (\<exists>ddr h'. nand_chip id_mmio 0 = Some (0, ddr, h'))"
proof -
  have m: "readw id_mmio a h = id_readw a h" "writew id_mmio x a h = h" for x a h by (simp_all add: id_mmio_def)
  have r: "ready_within id_mmio (Suc (Suc 0)) 0" by (simp add: m id_readw_def)
  have "nand_wait_ready id_mmio 1 = Some 2" by (subst nand_wait_ready.simps) (simp add: m id_readw_def)
  then have w: "nand_wait_ready id_mmio 0 = Some 2" by (subst nand_wait_ready.simps) (simp add: m id_readw_def)
  have a: "snd (NanD_Address id_mmio 1 0 h) = h" for h by (simp add: NanD_Address_def m)
  show ?thesis using nand_chip_accepts [of id_mmio "Suc (Suc 0)" 0] r w a by (simp add: m id_readw_def)
qed

end
