(* ===== verification/XloadStart.thy ===== *)
theory XloadStart
  imports XloadSerial XloadBoot
begin

text \<open>
  The whole of \<open>start_armboot\<close> in \<open>src/x-loader/lib/board.c\<close>: the initialisation, the test of the memory, and the boot path of
  the theory on NAND memory behind it.
\<close>

section \<open>The whole of start_armboot\<close>

abbreviation (input) CFG_LOADADDR :: u32 where "CFG_LOADADDR \<equiv> 0x80008000"
abbreviation (input) TEST_SIZE :: nat where "TEST_SIZE \<equiv> 16777216"

definition dram_addr :: "nat \<Rightarrow> u32" where
  "dram_addr i = CFG_LOADADDR + 4 * of_nat i"

text \<open>The two loops of the memory test, over \<open>n\<close> words from word \<open>i\<close> on; the loader hangs at a word that is wrong.\<close>

fun dram_fill :: "'h mmio \<Rightarrow> nat \<Rightarrow> nat \<Rightarrow> 'h \<Rightarrow> 'h" where
  "dram_fill mm 0 i h = h"
| "dram_fill mm (Suc n) i h = dram_fill mm n (Suc i) (writel mm (of_nat i) (dram_addr i) h)"

fun dram_check :: "'h mmio \<Rightarrow> nat \<Rightarrow> nat \<Rightarrow> 'h \<Rightarrow> 'h option" where
  "dram_check mm 0 i h = Some h"
| "dram_check mm (Suc n) i h =
     (let (x, h) = readl mm (dram_addr i) h in if x \<noteq> of_nat i then None else dram_check mm n (Suc i) h)"

text \<open>
  \<open>cpu_init\<close>, \<open>board_init\<close>, \<open>print_info\<close> and \<open>misc_init_r\<close> only return 0. \<open>dram\<close> gives the bytes that the memory at
  \<open>CFG_LOADADDR\<close> holds when the image is loaded over them.
\<close>

definition start_armboot :: "'h mmio \<Rightarrow> 'h boot_media \<Rightarrow> ('h \<Rightarrow> u8 list) \<Rightarrow> u32 \<Rightarrow> 'h \<Rightarrow> (u8 list \<times> 'h) option" where
  "start_armboot mm md dram is_ddr_166M h = do {
     let (r, h) = serial_init mm h;
     if r \<noteq> 0 then None
     else do {
       (r, is_ddr_166M, h) \<leftarrow> nand_init mm md is_ddr_166M h;
       if r \<noteq> 0 then None
       else do {
         let h = dram_fill mm TEST_SIZE 0 h;
         h \<leftarrow> dram_check mm TEST_SIZE 0 h;
         boot mm md (dram h) h } } }"

section \<open>The memory test\<close>

definition dram_words :: "u32 set" where
  "dram_words = dram_addr ` {..<TEST_SIZE}"

lemma dram_addr_eq: "i < TEST_SIZE \<Longrightarrow> j < TEST_SIZE \<Longrightarrow> dram_addr i = dram_addr j \<longleftrightarrow> i = j"
  using of_nat_u32_eq [of "4 * i" "4 * j"] by (simp add: dram_addr_def)

lemma dram_fill_words:
  assumes "plain_regs mm ram dram_words"
  shows "i + n \<le> TEST_SIZE \<Longrightarrow> j < TEST_SIZE \<Longrightarrow>
    ram (dram_fill mm n i h) (dram_addr j) = (if i \<le> j \<and> j < i + n then of_nat j else ram h (dram_addr j))"
proof (induction n arbitrary: i h)
  case (Suc n)
  have "ram (writel mm (of_nat i) (dram_addr i) h) = (ram h)(dram_addr i := of_nat i)"
    using Suc.prems by (simp add: plain_regs_write [OF assms] dram_words_def)
  then show ?case
    using Suc.IH [of "Suc i" "writel mm (of_nat i) (dram_addr i) h"] Suc.prems dram_addr_eq [of j i] by (auto simp: le_Suc_eq)
qed auto

lemma dram_check_passes:
  assumes "plain_regs mm ram dram_words"
  shows "i + n \<le> TEST_SIZE \<Longrightarrow> (\<And>j. i \<le> j \<Longrightarrow> j < i + n \<Longrightarrow> ram h (dram_addr j) = of_nat j) \<Longrightarrow>
    \<exists>h'. dram_check mm n i h = Some h' \<and> ram h' = ram h"
proof (induction n arbitrary: i h)
  case (Suc n)
  have "fst (readl mm (dram_addr i) h) = of_nat i"
    using Suc.prems by (simp add: plain_regs_read [OF assms] dram_words_def)
  moreover have "\<exists>h'. dram_check mm n (Suc i) (snd (readl mm (dram_addr i) h)) = Some h' \<and> ram h' = ram (snd (readl mm (dram_addr i) h))"
    using Suc.prems by (intro Suc.IH) (simp_all add: plain_regs_keep [OF assms])
  ultimately show ?case by (simp add: case_prod_beta plain_regs_keep [OF assms])
qed simp

lemma dram_test_passes:
  assumes "plain_regs mm ram dram_words"
  obtains h' where "dram_check mm TEST_SIZE 0 (dram_fill mm TEST_SIZE 0 h) = Some h'" "\<And>j. j < TEST_SIZE \<Longrightarrow> ram h' (dram_addr j) = of_nat j"
proof -
  have f: "ram (dram_fill mm TEST_SIZE 0 h) (dram_addr j) = of_nat j" if "j < TEST_SIZE" for j
    using that by (simp add: dram_fill_words [OF assms])
  have "\<exists>h'. dram_check mm TEST_SIZE 0 (dram_fill mm TEST_SIZE 0 h) = Some h' \<and> ram h' = ram (dram_fill mm TEST_SIZE 0 h)"
    by (rule dram_check_passes [OF assms]) (use f in simp_all)
  then show ?thesis using that f by auto
qed

text \<open>A word that never gives back its number is found.\<close>

lemma dram_check_detects:
  assumes "\<And>h. fst (readl mm (dram_addr j) h) \<noteq> of_nat j"
  shows "i \<le> j \<Longrightarrow> j < i + n \<Longrightarrow> dram_check mm n i h = None"
proof (induction n arbitrary: i h)
  case (Suc n)
  then show ?case using assms [of h] Suc.IH [of "Suc i"] by (cases "i = j") (auto simp: case_prod_beta)
qed simp

section \<open>From reset to the entry of U-Boot\<close>

text \<open>
  The chip answers: it becomes ready after a reset, and after the command that reads its identity the first two reads
  give the numbers of a supported chip.
\<close>

definition nand_answers :: "'h mmio \<Rightarrow> bool" where
  "nand_answers mm \<longleftrightarrow>
     (\<forall>h. \<exists>n. ready_within mm n (writew mm (ucast NAND_CMD_STATUS) NAND_COMMAND h)) \<and>
     (\<forall>h. case readw mm NAND_DATA (snd (NanD_Address mm ADDR_COLUMN 0 (writew mm (ucast NAND_CMD_READID) NAND_COMMAND h))) of (mfr, h) \<Rightarrow>
        mfr = 0x2c \<and> fst (readw mm NAND_DATA h) \<in> {0xa1, 0xca, 0xba, 0xbc})"

lemma nand_chip_answers:
  assumes "nand_answers mm"
  obtains ddr h' where "nand_chip mm h = Some (0, ddr, h')"
proof -
  let ?h = "writew mm (ucast NAND_CMD_STATUS) NAND_COMMAND (writew mm (ucast NAND_CMD_RESET) NAND_COMMAND h)"
  obtain n where n: "ready_within mm n ?h" using assms by (auto simp: nand_answers_def)
  obtain h1 mfr h2 i h3 ddr h4 where
    1: "nand_wait_ready mm ?h = Some h1"
      "readw mm NAND_DATA (snd (NanD_Address mm ADDR_COLUMN 0 (writew mm (ucast NAND_CMD_READID) NAND_COMMAND h1))) = (mfr, h2)"
      "readw mm NAND_DATA h2 = (i, h3)"
      "nand_chip mm h = Some (if mfr = 0x2c \<and> i \<in> {0xa1, 0xca, 0xba, 0xbc} \<or> mfr \<noteq> 0x2c \<and> i = 0xa1 then 0 else 1, ddr, h4)"
    using nand_chip_accepts [OF n] by blast
  have "case readw mm NAND_DATA (snd (NanD_Address mm ADDR_COLUMN 0 (writew mm (ucast NAND_CMD_READID) NAND_COMMAND h1))) of (mfr, h) \<Rightarrow>
        mfr = 0x2c \<and> fst (readw mm NAND_DATA h) \<in> {0xa1, 0xca, 0xba, 0xbc}"
    by (rule spec [OF conjunct2 [OF assms [unfolded nand_answers_def]]])
  then have "mfr = 0x2c" "i \<in> {0xa1, 0xca, 0xba, 0xbc}" unfolding 1(2) by (simp_all add: 1(3))
  then have "nand_chip mm h = Some (0, ddr, h4)" using 1(4) by simp
  then show ?thesis by (rule that)
qed

lemma nand_init_answers:
  assumes a: "nand_answers mm" and p: "pins_law mm v s" and s: "s \<noteq> 9"
  obtains ddr' h' where "nand_init mm md ddr h = Some (0, ddr', h')"
proof -
  have t: "fst (get_mem_type mm h) = GPMC_NAND" for h
    by (rule get_mem_type_law [OF p, of h]) (use s in simp)
  then have g: "get_mem_type mm h = (GPMC_NAND, snd (get_mem_type mm h))" for h by (metis prod.collapse)
  define h1 where "h1 = writel mm 0 (0x18 + GPMC_CONFIG_CS0) (writel mm 0 GPMC_TIMEOUT_CONTROL (writel mm 0x0 GPMC_IRQENABLE (writel mm 0x10 GPMC_SYSCONFIG h)))"
  define h2 where "h2 = snd (get_mem_type mm (writel mm ECC_SIZES ECC_SIZE_CONFIG (writel mm ECC_CLEAR_REG1 ECC_CONTROL (snd (get_mem_type mm h1)))))"
  obtain ddr' h3 where h3: "nand_chip mm (gpmc_config mm [0x1800, 0x80800, 0x80800, 0x06000600, 0x70808, 0x3cf] 0x30000000 h2) = Some (0, ddr', h3)"
    by (rule nand_chip_answers [OF a])
  have n: "GPMC_NAND \<noteq> GPMC_ONENAND" "GPMC_NAND \<noteq> MMC_ONENAND" by simp_all
  have "\<exists>h'. nand_init mm md ddr h = Some (0, ddr', h')"
    using h3 unfolding nand_init_def Let_def h1_def [symmetric] by (simp add: t case_prod_beta h2_def)
  then show ?thesis using that by blast
qed


lemma start_armboot_bad_dram:
  assumes "nand_answers mm" "pins_law mm v s" "s \<noteq> 9" and "j < TEST_SIZE" "\<And>h. fst (readl mm (dram_addr j) h) \<noteq> of_nat j"
  shows "start_armboot mm md dram ddr h = None"
proof -
  obtain ddr' h' where "nand_init mm md ddr (snd (serial_init mm h)) = Some (0, ddr', h')" by (rule nand_init_answers [OF assms(1-3)])
  moreover have "dram_check mm TEST_SIZE 0 (dram_fill mm TEST_SIZE 0 h') = None"
    by (rule dram_check_detects [OF assms(5)]) (use assms(4) in simp_all)
  ultimately show ?thesis by (simp add: start_armboot_def case_prod_beta serial_init_def)
qed

text \<open>
  C5: from reset to the second-stage loader. On a board whose NAND chip answers and holds an image in the good blocks of
  the partition, whose boot pins do not ask for a memory card and whose DRAM keeps what is written to it,
  \<open>start_armboot\<close> sets up the serial port and the memory controller, accepts the chip, passes the test of 64 MiB of
  DRAM and enters the image at \<open>CFG_LOADADDR\<close>: the data of the good blocks in order, with the bad blocks left out and
  a single wrong bit in any chunk of 512 bytes corrected. Memory behind the image keeps what the test left there.
\<close>

theorem start_armboot_enters_uboot:
  assumes "nand_device mm v" "pins_law mm v s" "s \<noteq> 9" "nand_answers mm" and const: "\<And>h. raw v h = R"
    and holds: "chip_holds R dat [4..<18]" "\<exists>b\<in>{4..<18}. good_block R b"
    and ram: "plain_regs mm ram dram_words" and len: "\<And>h. 14 * NAND_BLOCK_SIZE \<le> length (dram h)"
  shows "\<exists>h' h''. (\<forall>j<TEST_SIZE. ram h' (dram_addr j) = of_nat j) \<and>
    start_armboot mm md dram ddr h = Some (boot_image R dat [4..<18] @ drop (length (boot_image R dat [4..<18])) (dram h'), h'')"
proof -
  obtain ddr' h1 where h1: "nand_init mm md ddr (snd (serial_init mm h)) = Some (0, ddr', h1)" by (rule nand_init_answers [OF assms(4,2,3)])
  obtain h2 where h2: "dram_check mm TEST_SIZE 0 (dram_fill mm TEST_SIZE 0 h1) = Some h2" "\<And>j. j < TEST_SIZE \<Longrightarrow> ram h2 (dram_addr j) = of_nat j"
    using dram_test_passes [OF ram, of h1] by blast
  obtain h3 where "boot mm md (dram h2) h2 = Some (boot_image R dat [4..<18] @ drop (length (boot_image R dat [4..<18])) (dram h2), h3)"
    using boot_nand_image [OF assms(1-3), of h2 dat "dram h2" md] holds len const by auto
  then have "start_armboot mm md dram ddr h = Some (boot_image R dat [4..<18] @ drop (length (boot_image R dat [4..<18])) (dram h2), h3)"
    using h1 h2(1) by (simp add: start_armboot_def case_prod_beta serial_init_def)
  then show ?thesis using h2(2) by blast
qed

section \<open>A board that boots\<close>

text \<open>
  The chip of the section on the boot path, with a status and an identity, and memory: \<open>m\<close> is the last command or the
  next byte of the identity, \<open>r\<close> the DRAM.
\<close>

type_synonym ademo_hw = "ndemo_hw \<times> u16 \<times> (u32 \<Rightarrow> u32)"

definition ademo_readw :: "u32 \<Rightarrow> ademo_hw \<Rightarrow> u16 \<times> ademo_hw" where
  "ademo_readw a = (\<lambda>(s, m, r).
     if m = 0x70 then (0x40, s, m, r) else if m = 0x90 then (0x2c, s, 0x91, r) else if m = 0x91 then (0xba, s, 0x92, r)
     else (fst (ndemo_readw a s), snd (ndemo_readw a s), m, r))"

definition ademo_writew :: "u16 \<Rightarrow> u32 \<Rightarrow> ademo_hw \<Rightarrow> ademo_hw" where
  "ademo_writew x a = (\<lambda>(s, m, r). (ndemo_writew x a s, if a = NAND_COMMAND then x else m, r))"

definition ademo_readl :: "u32 \<Rightarrow> ademo_hw \<Rightarrow> u32 \<times> ademo_hw" where
  "ademo_readl a = (\<lambda>(s, m, r). (if a \<in> dram_words then r a else fst (ndemo_readl a s), s, m, r))"

definition ademo_writel :: "u32 \<Rightarrow> u32 \<Rightarrow> ademo_hw \<Rightarrow> ademo_hw" where
  "ademo_writel x a = (\<lambda>(s, m, r). if a \<in> dram_words then (s, m, r(a := x)) else (ndemo_writel x a s, m, r))"

definition ademo_mmio :: "ademo_hw mmio" where
  "ademo_mmio = \<lparr>readb = \<lambda>_ h. (0, h), writeb = \<lambda>_ _ h. h, readw = ademo_readw, writew = ademo_writew, readl = ademo_readl, writel = ademo_writel\<rparr>"

definition ademo_view :: "ademo_hw nand_view" where
  "ademo_view = \<lparr>raw = \<lambda>_. ndemo_raw, cycles = \<lambda>(s, m, r). fst s,
     cursor = \<lambda>(s, m, r). if m = 0x70 \<or> m = 0x90 \<or> m = 0x91 then None else fst (snd s), fed = \<lambda>(s, m, r). snd (snd s)\<rparr>"

definition ademo_media :: "ademo_hw boot_media" where
  "ademo_media = \<lparr>mmc_boot = \<lambda>mem h. (0, mem, h), onenand_chip = \<lambda>h. (1, h), onenand_loop = \<lambda>mem h. (0, mem, h)\<rparr>"

lemma dram_words_high: "a \<in> dram_words \<Longrightarrow> 0x80000000 \<le> a"
proof -
  assume "a \<in> dram_words"
  then obtain i where i: "i < TEST_SIZE" "a = CFG_LOADADDR + 4 * of_nat i" by (auto simp: dram_words_def dram_addr_def)
  have "a = of_nat (0x80008000 + 4 * i)" by (simp add: i(2))
  then have "unat a = 0x80008000 + 4 * i" using unat_of_nat_u32 [of "0x80008000 + 4 * i"] i(1) by simp
  then show ?thesis by (simp add: word_le_nat_alt)
qed

lemma notin_dram_words: "a < 0x80000000 \<Longrightarrow> a \<notin> dram_words"
  using dram_words_high [of a] by (auto simp: not_le)

lemma ecc_result_notin_dram: "i < 9 \<Longrightarrow> ECC1_RESULT + 4 * of_nat i \<notin> dram_words"
proof -
  assume i: "i < 9"
  have "ECC1_RESULT + 4 * of_nat i = of_nat (0x6E000200 + 4 * i)" by simp
  then have "unat (ECC1_RESULT + 4 * of_nat i) = 0x6E000200 + 4 * i" using unat_of_nat_u32 [of "0x6E000200 + 4 * i"] i by simp
  then show ?thesis using i by (intro notin_dram_words) (simp add: word_less_nat_alt)
qed

lemma ademo_nand_device: "nand_device ademo_mmio ademo_view"
  unfolding nand_device_def
proof (intro conjI)
  note n = ndemo_nand_device [unfolded nand_device_def]
  note d = ademo_mmio_def ademo_view_def ndemo_mmio_def ndemo_view_def
  have u: "unat (ucast (x :: u8) :: u16) = unat x" for x
    using unsigned_less [of x, where 'a = nat] by (simp add: unsigned_ucast_eq take_bit_nat_eq_self)
  show "command_law ademo_mmio ademo_view"
    by (auto simp: command_law_def d ademo_writew_def Let_def u)
  show "address_law ademo_mmio ademo_view"
    using n by (auto simp: address_law_def d ademo_writew_def Let_def)
  show "data_law ademo_mmio ademo_view"
    using n by (fastforce simp: data_law_def d ademo_readw_def Let_def case_prod_beta split: if_splits)
  have "ECC_CONFIG \<notin> dram_words" "ECC_SIZE_CONFIG \<notin> dram_words" "ECC_CONTROL \<notin> dram_words" by (rule notin_dram_words; simp)+
  then show "engine_law ademo_mmio ademo_view"
    using n ecc_result_notin_dram by (auto simp: engine_law_def d ademo_readl_def ademo_writel_def Let_def case_prod_beta)
qed

lemma ademo_pins: "pins_law ademo_mmio ademo_view 1"
proof -
  have "CONTROL_STATUS \<notin> dram_words" by (rule notin_dram_words) simp
  then show ?thesis by (simp add: pins_law_def ademo_mmio_def ademo_view_def ademo_readl_def ndemo_readl_def case_prod_beta)
qed

lemma ademo_answers: "nand_answers ademo_mmio"
proof -
  have "ready_within ademo_mmio 1 (writew ademo_mmio (ucast NAND_CMD_STATUS) NAND_COMMAND h)" for h
    by (cases h) (simp add: ademo_mmio_def ademo_writew_def ademo_readw_def)
  then have "\<forall>h. \<exists>n. ready_within ademo_mmio n (writew ademo_mmio (ucast NAND_CMD_STATUS) NAND_COMMAND h)" by blast
  then show ?thesis unfolding nand_answers_def
    by (rule conjI) (simp add: ademo_mmio_def ademo_writew_def ademo_readw_def NanD_Address_def Let_def case_prod_beta)
qed

lemma ademo_ram: "plain_regs ademo_mmio (\<lambda>(s, m, r). r) dram_words"
  by (auto simp: plain_regs_def ademo_mmio_def ademo_readl_def ademo_writel_def)

theorem start_armboot_enters_uboot_witness:
  "\<exists>h''. start_armboot ademo_mmio ademo_media (\<lambda>_. replicate (14 * 131072) 7) 0 (([], None, None), 0, \<lambda>_. 0) =
     Some (replicate (13 * 131072) 0 @ replicate 131072 7, h'')"
proof -
  have r: "raw ademo_view h = ndemo_raw" for h by (simp add: ademo_view_def)
  have "\<exists>b\<in>{4..<18}. good_block ndemo_raw b" by (rule bexI [of _ 4]) (simp_all add: ndemo_good)
  from start_armboot_enters_uboot [OF ademo_nand_device ademo_pins _ ademo_answers r ndemo_chip_holds this ademo_ram,
      of "\<lambda>_. replicate (14 * 131072) 7" ademo_media 0 "(([], None, None), 0, \<lambda>_. 0)"]
  show ?thesis unfolding ndemo_image by auto
qed

end
