(* ===== verification/XloadClock.thy ===== *)
theory XloadClock
  imports Mmio
begin

text \<open>
  The clocks in the first-stage loader (\<open>src/x-loader/board/rhino/rhino.c\<close> with the tables of \<open>platform.S\<close>): setting a
  field of a register, waiting for a value, measuring the oscillator, and programming the clock loops. The last section
  shows which frequencies result. Delays are left out.
\<close>

section \<open>Register fields\<close>

text \<open>The bit shifts of \<open>sr32\<close>: the bits of a field are cleared, and a value is put there without being cut to the field.\<close>

definition sr32 :: "'h mmio \<Rightarrow> u32 \<Rightarrow> nat \<Rightarrow> nat \<Rightarrow> u32 \<Rightarrow> 'h \<Rightarrow> 'h" where
  "sr32 mm addr start_bit num_bits value h =
     (let msk = push_bit num_bits 1 - 1;
          (tmp, h) = readl mm addr h;
          tmp = tmp AND NOT (push_bit start_bit msk);
          tmp = tmp OR push_bit start_bit value
      in writel mm tmp addr h)"

lemma countdown:
  fixes b i :: u32
  assumes "i + 1 \<noteq> b"
  shows "unat (b - i - 2) < unat (b - i - 1)"
proof -
  define d where "d = b - i - 1"
  have "d \<noteq> 0"
  proof
    assume "d = 0"
    then have "b = i + 1" by (simp add: d_def diff_eq_eq add.commute)
    then show False using assms by simp
  qed
  then have "unat (d - 1) < unat d" by (simp add: unat_gt_0 unat_minus_one)
  then show ?thesis by (simp add: d_def)
qed

function wait_loop :: "'h mmio \<Rightarrow> u32 \<Rightarrow> u32 \<Rightarrow> u32 \<Rightarrow> u32 \<Rightarrow> u32 \<Rightarrow> 'h \<Rightarrow> u32 \<times> 'h" where
  "wait_loop mm read_bit_mask match_value read_addr bound i h =
     (let i = i + 1;
          (val, h) = readl mm read_addr h
      in if val AND read_bit_mask = match_value then (1, h)
         else if i = bound then (0, h)
         else wait_loop mm read_bit_mask match_value read_addr bound i h)"
  by pat_completeness auto

termination
  by (relation "measure (\<lambda>(mm, k, v, a, b, i, h). unat (b - i - 1))") (auto intro: countdown)

declare wait_loop.simps [simp del]

definition wait_on_value :: "'h mmio \<Rightarrow> u32 \<Rightarrow> u32 \<Rightarrow> u32 \<Rightarrow> u32 \<Rightarrow> 'h \<Rightarrow> u32 \<times> 'h" where
  "wait_on_value mm read_bit_mask match_value read_addr bound h = wait_loop mm read_bit_mask match_value read_addr bound 0 h"

section \<open>Clocks\<close>

abbreviation (input) CM_CLKEN_PLL_MPU :: u32 where "CM_CLKEN_PLL_MPU \<equiv> 0x48004904"
abbreviation (input) CM_IDLEST_PLL_MPU :: u32 where "CM_IDLEST_PLL_MPU \<equiv> 0x48004924"
abbreviation (input) CM_CLKSEL1_PLL_MPU :: u32 where "CM_CLKSEL1_PLL_MPU \<equiv> 0x48004940"
abbreviation (input) CM_CLKSEL2_PLL_MPU :: u32 where "CM_CLKSEL2_PLL_MPU \<equiv> 0x48004944"
abbreviation (input) CM_FCLKEN1_CORE :: u32 where "CM_FCLKEN1_CORE \<equiv> 0x48004a00"
abbreviation (input) CM_ICLKEN1_CORE :: u32 where "CM_ICLKEN1_CORE \<equiv> 0x48004a10"
abbreviation (input) CM_CLKSEL_CORE :: u32 where "CM_CLKSEL_CORE \<equiv> 0x48004a40"
abbreviation (input) CM_FCLKEN_WKUP :: u32 where "CM_FCLKEN_WKUP \<equiv> 0x48004c00"
abbreviation (input) CM_ICLKEN_WKUP :: u32 where "CM_ICLKEN_WKUP \<equiv> 0x48004c10"
abbreviation (input) CM_IDLEST_WKUP :: u32 where "CM_IDLEST_WKUP \<equiv> 0x48004c20"
abbreviation (input) CM_CLKSEL_WKUP :: u32 where "CM_CLKSEL_WKUP \<equiv> 0x48004c40"
abbreviation (input) CM_CLKEN_PLL :: u32 where "CM_CLKEN_PLL \<equiv> 0x48004d00"
abbreviation (input) CM_IDLEST_CKGEN :: u32 where "CM_IDLEST_CKGEN \<equiv> 0x48004d20"
abbreviation (input) CM_CLKSEL1_PLL :: u32 where "CM_CLKSEL1_PLL \<equiv> 0x48004d40"
abbreviation (input) CM_CLKSEL2_PLL :: u32 where "CM_CLKSEL2_PLL \<equiv> 0x48004d44"
abbreviation (input) CM_CLKSEL3_PLL :: u32 where "CM_CLKSEL3_PLL \<equiv> 0x48004d48"
abbreviation (input) CM_CLKSEL_DSS :: u32 where "CM_CLKSEL_DSS \<equiv> 0x48004e40"
abbreviation (input) CM_CLKSEL_CAM :: u32 where "CM_CLKSEL_CAM \<equiv> 0x48004F40"
abbreviation (input) CM_FCLKEN_PER :: u32 where "CM_FCLKEN_PER \<equiv> 0x48005000"
abbreviation (input) CM_ICLKEN_PER :: u32 where "CM_ICLKEN_PER \<equiv> 0x48005010"
abbreviation (input) CM_CLKSEL_PER :: u32 where "CM_CLKSEL_PER \<equiv> 0x48005040"
abbreviation (input) CM_CLKSEL1_EMU :: u32 where "CM_CLKSEL1_EMU \<equiv> 0x48005140"
abbreviation (input) PRM_CLKSEL :: u32 where "PRM_CLKSEL \<equiv> 0x48306d40"
abbreviation (input) PRM_CLKSRC_CTRL :: u32 where "PRM_CLKSRC_CTRL \<equiv> 0x48307270"
abbreviation (input) GPT1_TCLR :: u32 where "GPT1_TCLR \<equiv> 0x48318024"
abbreviation (input) GPT1_TCRR :: u32 where "GPT1_TCRR \<equiv> 0x48318028"
abbreviation (input) GPT1_TLDR :: u32 where "GPT1_TLDR \<equiv> 0x4831802C"
abbreviation (input) S32K_CR :: u32 where "S32K_CR \<equiv> 0x48320010"
abbreviation (input) LDELAY :: u32 where "LDELAY \<equiv> 12000000"
abbreviation (input) PLL_STOP :: u32 where "PLL_STOP \<equiv> 1"
abbreviation (input) PLL_LOW_POWER_BYPASS :: u32 where "PLL_LOW_POWER_BYPASS \<equiv> 5"
abbreviation (input) PLL_FAST_RELOCK_BYPASS :: u32 where "PLL_FAST_RELOCK_BYPASS \<equiv> 6"
abbreviation (input) PLL_LOCK :: u32 where "PLL_LOCK \<equiv> 7"
abbreviation (input) S12M :: u32 where "S12M \<equiv> 12000000"
abbreviation (input) S13M :: u32 where "S13M \<equiv> 13000000"
abbreviation (input) S19_2M :: u32 where "S19_2M \<equiv> 19200000"
abbreviation (input) S24M :: u32 where "S24M \<equiv> 24000000"
abbreviation (input) S26M :: u32 where "S26M \<equiv> 26000000"
abbreviation (input) S38_4M :: u32 where "S38_4M \<equiv> 38400000"

text \<open>Polling the counter of the 32 kHz clock until it has reached a value.\<close>

partial_function (option) s32k_until :: "'h mmio \<Rightarrow> u32 \<Rightarrow> 'h \<Rightarrow> 'h option" where
  "s32k_until mm t h = (let (v, h) = readl mm S32K_CR h in if v < t then s32k_until mm t h else Some h)"

text \<open>Switching the timer on, with the oscillator undivided as its clock.\<close>

definition osc_begin :: "'h mmio \<Rightarrow> 'h \<Rightarrow> 'h" where
  "osc_begin mm h =
     (let (val, h) = readl mm PRM_CLKSRC_CTRL h;
          h = writel mm ((val AND NOT (push_bit 7 1)) OR push_bit 6 1) PRM_CLKSRC_CTRL h;
          (val, h) = readl mm CM_CLKSEL_WKUP h;
          h = writel mm (val OR 1) CM_CLKSEL_WKUP h;
          (val, h) = readl mm CM_ICLKEN_WKUP h;
          h = writel mm (val OR 1 OR push_bit 2 1) CM_ICLKEN_WKUP h;
          (val, h) = readl mm CM_FCLKEN_WKUP h;
          h = writel mm (val OR 1) CM_FCLKEN_WKUP h;
          h = writel mm 0 GPT1_TLDR h
      in writel mm 3 GPT1_TCLR h)"

definition get_osc_clk_speed :: "'h mmio \<Rightarrow> 'h \<Rightarrow> (u32 \<times> 'h) option" where
  "get_osc_clk_speed mm h = do {
     let h = osc_begin mm h;
     let (v, h) = readl mm S32K_CR h;
     let start = 20 + v;
     h \<leftarrow> s32k_until mm start h;
     let (cstart, h) = readl mm GPT1_TCRR h;
     h \<leftarrow> s32k_until mm (start + 20) h;
     let (cend, h) = readl mm GPT1_TCRR h;
     let cdiff = cend - cstart;
     Some (if cdiff > 19000 then S38_4M
           else if cdiff > 15200 then S26M
           else if cdiff > 13000 then S24M
           else if cdiff > 9000 then S19_2M
           else if cdiff > 7600 then S13M
           else S12M, h) }"

text \<open>\<open>sel\<close> is what the variable held before: it is not set for an oscillator of 24 MHz.\<close>

definition get_sys_clkin_sel :: "u32 \<Rightarrow> u32 \<Rightarrow> u32" where
  "get_sys_clkin_sel osc_clk sel =
     (if osc_clk = S38_4M then 4
      else if osc_clk = S26M then 3
      else if osc_clk = S19_2M then 2
      else if osc_clk = S13M then 1
      else if osc_clk = S12M then 0
      else sel)"

text \<open>\<open>cpuid\<close> is the identification register of the processor.\<close>

definition get_cpu_rev :: "u32 \<Rightarrow> u32" where
  "get_cpu_rev cpuid = (if cpuid AND 0xf = 0 then 1 else 2)"

record dpll_param =
  dp_m :: u32
  dp_n :: u32
  dp_fsel :: u32
  dp_m2 :: u32

definition dpll :: "u32 \<times> u32 \<times> u32 \<times> u32 \<Rightarrow> dpll_param" where
  "dpll = (\<lambda>(m, n, fsel, m2). \<lparr>dp_m = m, dp_n = n, dp_fsel = fsel, dp_m2 = m2\<rparr>)"

definition mpu_dpll_param :: "dpll_param list" where
  "mpu_dpll_param = map dpll
     [(0x0FE, 0x07, 0x05, 0x01), (0x12C, 0x05, 0x07, 0x01),
      (0x17D, 0x0C, 0x03, 0x01), (0x258, 0x0C, 0x03, 0x01),
      (0x179, 0x12, 0x04, 0x01), (0x271, 0x13, 0x03, 0x01),
      (0x17D, 0x19, 0x03, 0x01), (0x12C, 0x0C, 0x07, 0x01),
      (0x1FA, 0x32, 0x03, 0x01), (0x271, 0x27, 0x03, 0x01)]"

definition core_dpll_param :: "dpll_param list" where
  "core_dpll_param = map dpll
     [(0x19F, 0x0E, 0x03, 0x01), (0x0A6, 0x05, 0x07, 0x01),
      (0x1B2, 0x10, 0x03, 0x01), (0x14C, 0x0C, 0x03, 0x01),
      (0x19F, 0x17, 0x03, 0x01), (0x19F, 0x17, 0x03, 0x01),
      (0x1B2, 0x21, 0x03, 0x01), (0x0A6, 0x0C, 0x07, 0x01),
      (0x19F, 0x2F, 0x03, 0x01), (0x19F, 0x2F, 0x03, 0x01)]"

definition per_dpll_param :: "dpll_param list" where
  "per_dpll_param = map dpll
     [(0xD8, 0x05, 0x07, 0x09), (0x1B0, 0x0C, 0x03, 0x09), (0xE1, 0x09, 0x07, 0x09),
      (0xD8, 0x0C, 0x07, 0x09), (0xE1, 0x13, 0x07, 0x09)]"

text \<open>The entry of a table; behind its end the code would read other memory.\<close>

definition dpll_entry :: "dpll_param list \<Rightarrow> u32 \<Rightarrow> dpll_param option" where
  "dpll_entry t i = (if unat i < length t then Some (t ! unat i) else None)"

definition core_dpll_init :: "'h mmio \<Rightarrow> dpll_param \<Rightarrow> 'h \<Rightarrow> 'h" where
  "core_dpll_init mm p h =
     (let h = sr32 mm CM_CLKEN_PLL 0 3 PLL_FAST_RELOCK_BYPASS h;
          h = snd (wait_on_value mm 1 0 CM_IDLEST_CKGEN LDELAY h);
          h = sr32 mm CM_CLKSEL1_EMU 16 5 2 h;
          h = sr32 mm CM_CLKSEL1_PLL 27 2 (dp_m2 p) h;
          h = sr32 mm CM_CLKSEL1_PLL 16 11 (dp_m p) h;
          h = sr32 mm CM_CLKSEL1_PLL 8 7 (dp_n p) h;
          h = sr32 mm CM_CLKSEL1_PLL 6 1 0 h;
          h = sr32 mm CM_CLKSEL_CORE 2 2 2 h;
          h = sr32 mm CM_CLKSEL_CORE 0 2 2 h;
          h = sr32 mm CM_CLKSEL_WKUP 1 2 2 h;
          h = sr32 mm CM_CLKEN_PLL 4 4 (dp_fsel p) h;
          h = sr32 mm CM_CLKEN_PLL 0 3 PLL_LOCK h
      in snd (wait_on_value mm 1 1 CM_IDLEST_CKGEN LDELAY h))"

definition per_dpll_init :: "'h mmio \<Rightarrow> dpll_param \<Rightarrow> 'h \<Rightarrow> 'h" where
  "per_dpll_init mm p h =
     (let h = sr32 mm CM_CLKEN_PLL 16 3 PLL_STOP h;
          h = snd (wait_on_value mm 2 0 CM_IDLEST_CKGEN LDELAY h);
          h = sr32 mm CM_CLKSEL1_EMU 24 5 3 h;
          h = sr32 mm CM_CLKSEL_CAM 0 5 4 h;
          h = sr32 mm CM_CLKSEL_DSS 0 5 9 h;
          h = sr32 mm CM_CLKSEL_DSS 8 5 16 h;
          h = sr32 mm CM_CLKSEL3_PLL 0 5 (dp_m2 p) h;
          h = sr32 mm CM_CLKSEL2_PLL 8 11 (dp_m p) h;
          h = sr32 mm CM_CLKSEL2_PLL 0 7 (dp_n p) h;
          h = sr32 mm CM_CLKEN_PLL 20 4 (dp_fsel p) h;
          h = sr32 mm CM_CLKEN_PLL 16 3 PLL_LOCK h
      in snd (wait_on_value mm 2 2 CM_IDLEST_CKGEN LDELAY h))"

definition mpu_dpll_init :: "'h mmio \<Rightarrow> dpll_param \<Rightarrow> 'h \<Rightarrow> 'h" where
  "mpu_dpll_init mm p h =
     (let h = sr32 mm CM_CLKSEL2_PLL_MPU 0 5 (dp_m2 p) h;
          h = sr32 mm CM_CLKSEL1_PLL_MPU 8 11 (dp_m p) h;
          h = sr32 mm CM_CLKSEL1_PLL_MPU 0 7 (dp_n p) h;
          h = sr32 mm CM_CLKEN_PLL_MPU 4 4 (dp_fsel p) h;
          h = sr32 mm CM_CLKEN_PLL_MPU 0 3 PLL_LOCK h
      in snd (wait_on_value mm 1 1 CM_IDLEST_PLL_MPU LDELAY h))"

definition prcm_init :: "'h mmio \<Rightarrow> u32 \<Rightarrow> u32 \<Rightarrow> 'h \<Rightarrow> 'h option" where
  "prcm_init mm cpuid sel h = do {
     (osc_clk, h) \<leftarrow> get_osc_clk_speed mm h;
     let sys_clkin_sel = get_sys_clkin_sel osc_clk sel;
     let h = sr32 mm PRM_CLKSEL 0 3 sys_clkin_sel h;
     let (clk_index, h) =
       (if sys_clkin_sel > 2 then (sys_clkin_sel div 2, sr32 mm PRM_CLKSRC_CTRL 6 2 2 h)
        else (sys_clkin_sel, sr32 mm PRM_CLKSRC_CTRL 6 2 1 h));
     let sil_index = get_cpu_rev cpuid - 1;
     let h = sr32 mm CM_CLKEN_PLL_MPU 0 3 PLL_LOW_POWER_BYPASS h;
     let h = snd (wait_on_value mm 1 0 CM_IDLEST_PLL_MPU LDELAY h);
     p \<leftarrow> dpll_entry core_dpll_param (2 * clk_index + sil_index);
     let h = core_dpll_init mm p h;
     p \<leftarrow> dpll_entry per_dpll_param clk_index;
     let h = per_dpll_init mm p h;
     p \<leftarrow> dpll_entry mpu_dpll_param (2 * clk_index + sil_index);
     let h = mpu_dpll_init mm p h;
     let h = sr32 mm CM_CLKSEL_PER 0 8 0xff h;
     Some (sr32 mm CM_CLKSEL_WKUP 0 1 1 h) }"

section \<open>Fields of plain registers\<close>

text \<open>What \<open>sr32\<close> makes of the contents of a register, and the value in a field.\<close>

definition setf :: "nat \<Rightarrow> nat \<Rightarrow> u32 \<Rightarrow> u32 \<Rightarrow> u32" where
  "setf s n v w = (w AND NOT (push_bit s (mask n))) OR push_bit s v"

definition field :: "nat \<Rightarrow> nat \<Rightarrow> u32 \<Rightarrow> u32" where
  "field s n w = drop_bit s w AND mask n"

lemma bit_setf: "bit (setf s n v w) i \<longleftrightarrow> i < 32 \<and> (bit w i \<and> \<not> (s \<le> i \<and> i - s < n) \<or> s \<le> i \<and> bit v (i - s))"
  by (auto simp: setf_def bit_simps dest: bit_imp_le_length)

lemma bit_field: "bit (field s n w) i \<longleftrightarrow> i < n \<and> bit w (s + i)"
  by (auto simp: field_def bit_simps dest: bit_imp_le_length)

lemma take_bit_bound: "take_bit n v = v \<Longrightarrow> bit (v :: u32) i \<Longrightarrow> i < n"
  by (metis bit_take_bit_iff)

lemma bit_u32: "bit (w :: u32) i \<Longrightarrow> i < 32"
  using bit_imp_le_length [of w i] by simp

lemma field_setf:
  assumes t: "take_bit n v = v"
  shows "s + n \<le> 32 \<Longrightarrow> field s n (setf s n v w) = v"
    and "s' + n' \<le> s \<or> s + n \<le> s' \<Longrightarrow> field s' n' (setf s n v w) = field s' n' w"
proof -
  have b: "\<not> bit v i" if "n \<le> i" for i using take_bit_bound [OF t, of i] that by auto
  show "s + n \<le> 32 \<Longrightarrow> field s n (setf s n v w) = v"
    by (rule bit_eqI) (auto simp: bit_field bit_setf dest: take_bit_bound [OF t] intro: less_le_trans)
  show "s' + n' \<le> s \<or> s + n \<le> s' \<Longrightarrow> field s' n' (setf s n v w) = field s' n' w"
  proof (rule bit_eqI)
    fix i assume "s' + n' \<le> s \<or> s + n \<le> s'"
    then show "bit (field s' n' (setf s n v w)) i \<longleftrightarrow> bit (field s' n' w) i"
      using b [of "s' + i - s"] bit_u32 [of w "s' + i"] by (cases "n \<le> s' + i - s") (auto simp: bit_field bit_setf)
  qed
qed

lemma bit_eq_field: "bit w i \<longleftrightarrow> field i 1 w = 1" if "i < 32" for w :: u32
proof -
  have "bit (field i 1 w) j \<longleftrightarrow> j = 0 \<and> bit w i" for j by (auto simp: bit_field)
  then show ?thesis by (metis bit_1_iff bit_eqI bit_imp_possible_bit possible_bit_word)
qed

lemma sr32_regs:
  assumes "plain_regs mm rf S" "a \<in> S"
  shows "rf (sr32 mm a s n v h) b = (if b = a then setf s n v (rf h a) else rf h b)"
  using assms
  by (simp add: sr32_def Let_def case_prod_beta plain_regs_write plain_regs_read plain_regs_keep setf_def mask_eq_exp_minus_1 push_bit_of_1)

lemma wait_loop_regs: "plain_regs mm rf S \<Longrightarrow> rf (snd (wait_loop mm k v a b i h)) = rf h"
proof (induction mm k v a b i h rule: wait_loop.induct)
  case (1 mm k v a b i h)
  obtain x y where r: "readl mm a h = (x, y)" by (cases "readl mm a h")
  have "rf y = rf h" using plain_regs_keep [OF "1.prems", of a h] by (simp add: r)
  then show ?case using "1.IH" [OF refl refl r [symmetric]] "1.prems"
    by (subst wait_loop.simps) (simp add: Let_def r)
qed

lemma wait_on_value_regs: "plain_regs mm rf S \<Longrightarrow> rf (snd (wait_on_value mm k v a b h)) = rf h"
  by (simp add: wait_on_value_def wait_loop_regs)

section \<open>Measuring the oscillator\<close>

text \<open>
  The clock hardware. \<open>ticks\<close> counts the periods of the oscillator since power-on; a register access takes at most a
  hundred of them. The 32 kHz counter follows it, and so does the timer while it is switched on, clocked by the undivided
  oscillator, from a value \<open>timer0\<close> that reads do not change.
\<close>

definition clock_regs :: "u32 set" where
  "clock_regs = {CM_CLKEN_PLL_MPU, CM_CLKSEL1_PLL_MPU, CM_CLKSEL2_PLL_MPU, CM_FCLKEN1_CORE, CM_ICLKEN1_CORE, CM_CLKSEL_CORE,
     CM_FCLKEN_WKUP, CM_ICLKEN_WKUP, CM_CLKSEL_WKUP, CM_CLKEN_PLL, CM_CLKSEL1_PLL, CM_CLKSEL2_PLL, CM_CLKSEL3_PLL,
     CM_CLKSEL_DSS, CM_CLKSEL_CAM, CM_FCLKEN_PER, CM_ICLKEN_PER, CM_CLKSEL_PER, CM_CLKSEL1_EMU, PRM_CLKSEL, PRM_CLKSRC_CTRL,
     GPT1_TCLR}"

lemma in_clock_regs:
  "CM_CLKEN_PLL_MPU \<in> clock_regs" "CM_CLKSEL1_PLL_MPU \<in> clock_regs" "CM_CLKSEL2_PLL_MPU \<in> clock_regs" "CM_FCLKEN1_CORE \<in> clock_regs"
  "CM_ICLKEN1_CORE \<in> clock_regs" "CM_CLKSEL_CORE \<in> clock_regs" "CM_FCLKEN_WKUP \<in> clock_regs" "CM_ICLKEN_WKUP \<in> clock_regs"
  "CM_CLKSEL_WKUP \<in> clock_regs" "CM_CLKEN_PLL \<in> clock_regs" "CM_CLKSEL1_PLL \<in> clock_regs" "CM_CLKSEL2_PLL \<in> clock_regs"
  "CM_CLKSEL3_PLL \<in> clock_regs" "CM_CLKSEL_DSS \<in> clock_regs" "CM_CLKSEL_CAM \<in> clock_regs" "CM_FCLKEN_PER \<in> clock_regs"
  "CM_ICLKEN_PER \<in> clock_regs" "CM_CLKSEL_PER \<in> clock_regs" "CM_CLKSEL1_EMU \<in> clock_regs" "PRM_CLKSEL \<in> clock_regs"
  "PRM_CLKSRC_CTRL \<in> clock_regs" "GPT1_TCLR \<in> clock_regs"
  unfolding clock_regs_def by blast+

lemma TLDR_notin_clock_regs: "GPT1_TLDR \<notin> clock_regs"
  by (simp add: clock_regs_def)

definition timer_on :: "(u32 \<Rightarrow> u32) \<Rightarrow> bool" where
  "timer_on r \<longleftrightarrow> bit (r PRM_CLKSRC_CTRL) 6 \<and> \<not> bit (r PRM_CLKSRC_CTRL) 7 \<and> bit (r CM_CLKSEL_WKUP) 0 \<and>
     bit (r CM_ICLKEN_WKUP) 0 \<and> bit (r CM_FCLKEN_WKUP) 0 \<and> bit (r GPT1_TCLR) 0"

record 'h clock_view =
  ticks :: "'h \<Rightarrow> nat"
  timer0 :: "'h \<Rightarrow> u32"

definition clock_law :: "'h mmio \<Rightarrow> ('h \<Rightarrow> u32 \<Rightarrow> u32) \<Rightarrow> 'h clock_view \<Rightarrow> nat \<Rightarrow> bool" where
  "clock_law mm rf cv f \<longleftrightarrow> plain_regs mm rf clock_regs \<and>
     (\<forall>a h. ticks cv h < ticks cv (snd (readl mm a h)) \<and> ticks cv (snd (readl mm a h)) \<le> ticks cv h + 100) \<and>
     (\<forall>v a h. ticks cv h \<le> ticks cv (writel mm v a h) \<and> ticks cv (writel mm v a h) \<le> ticks cv h + 100) \<and>
     (\<forall>h. fst (readl mm S32K_CR h) = of_nat (ticks cv h * 32768 div f)) \<and>
     (\<forall>h. timer_on (rf h) \<longrightarrow> fst (readl mm GPT1_TCRR h) = of_nat (ticks cv h) + timer0 cv h) \<and>
     (\<forall>a h. timer0 cv (snd (readl mm a h)) = timer0 cv h)"

lemma clock_law_regs: "clock_law mm rf cv f \<Longrightarrow> plain_regs mm rf clock_regs" by (simp add: clock_law_def)

lemma clock_law_read:
  assumes "clock_law mm rf cv f"
  shows "ticks cv h < ticks cv (snd (readl mm a h))" "ticks cv (snd (readl mm a h)) \<le> ticks cv h + 100"
    "rf (snd (readl mm a h)) = rf h" "timer0 cv (snd (readl mm a h)) = timer0 cv h"
    "fst (readl mm S32K_CR h) = of_nat (ticks cv h * 32768 div f)"
    "timer_on (rf h) \<Longrightarrow> fst (readl mm GPT1_TCRR h) = of_nat (ticks cv h) + timer0 cv h"
  using assms plain_regs_keep [OF clock_law_regs [OF assms]] by (simp_all add: clock_law_def)

lemma clock_law_write: "clock_law mm rf cv f \<Longrightarrow> ticks cv (writel mm v a h) \<le> ticks cv h + 100"
  by (simp add: clock_law_def)

lemma s32k_until_returns:
  assumes l: "clock_law mm rf cv f" and f: "0 < f" and s: "s < 2 ^ 32 - 2 ^ 16" and f2: "200 * 32768 < f"
  shows "ticks cv h * 32768 < s * f \<Longrightarrow> \<exists>h'. s32k_until mm (of_nat s) h = Some h' \<and> rf h' = rf h \<and> timer0 cv h' = timer0 cv h \<and>
    s * f \<le> 32768 * ticks cv h' \<and> 32768 * ticks cv h' < s * f + 200 * 32768"
proof (induction "s * f - ticks cv h * 32768" arbitrary: h rule: less_induct)
  case less
  let ?h = "snd (readl mm S32K_CR h)"
  note t = clock_law_read(1,2) [OF l] and k = clock_law_read(3,4) [OF l] and v = clock_law_read(5) [OF l]
  have lt: "of_nat (ticks cv x * 32768 div f) < (of_nat s :: u32) \<longleftrightarrow> ticks cv x * 32768 < s * f"
    if "ticks cv x * 32768 < s * f + 32768 * 100" for x
  proof -
    have "ticks cv x * 32768 div f < s + 1" using that f f2 by (simp add: less_mult_imp_div_less)
    then have "ticks cv x * 32768 div f < 2 ^ 32" using s by simp
    then show ?thesis using s f by (simp add: word_less_nat_alt unat_of_nat_u32 div_less_iff_less_mult)
  qed
  have step: "s32k_until mm (of_nat s) h = s32k_until mm (of_nat s) ?h"
    using less.prems lt [of h] by (subst s32k_until.simps) (simp add: case_prod_beta Let_def v)
  show ?case
  proof (cases "ticks cv ?h * 32768 < s * f")
    case True
    have "s * f - ticks cv ?h * 32768 < s * f - ticks cv h * 32768"
      using t(1) [where h = h and a = S32K_CR] less.prems by (intro diff_less_mono2) simp_all
    then obtain h' where "s32k_until mm (of_nat s) ?h = Some h' \<and> rf h' = rf ?h \<and> timer0 cv h' = timer0 cv ?h \<and>
        s * f \<le> 32768 * ticks cv h' \<and> 32768 * ticks cv h' < s * f + 200 * 32768"
      using less.hyps [of ?h] True by auto
    then show ?thesis using step k by auto
  next
    case False
    have "s32k_until mm (of_nat s) ?h = Some (snd (readl mm S32K_CR ?h))"
      using False lt [of ?h] t(2) [where h = h and a = S32K_CR] less.prems by (subst s32k_until.simps) (simp add: case_prod_beta Let_def v)
    moreover have "s * f \<le> 32768 * ticks cv (snd (readl mm S32K_CR ?h))"
        "32768 * ticks cv (snd (readl mm S32K_CR ?h)) < s * f + 200 * 32768"
      using False t [where h = ?h and a = S32K_CR] t(2) [where h = h and a = S32K_CR] less.prems by auto
    ultimately show ?thesis using step k by auto
  qed
qed

text \<open>The six speeds of the oscillator that the code tells apart.\<close>

definition osc_speeds :: "nat set" where
  "osc_speeds = {12000000, 13000000, 19200000, 24000000, 26000000, 38400000}"

lemma osc_speed_of_ticks:
  assumes "f \<in> osc_speeds" and "32768 * d < 20 * f + 200 * 32768" "20 * f < 32768 * d + 200 * 32768"
    and c: "(cdiff :: u32) = of_nat d"
  shows "(if cdiff > 19000 then S38_4M else if cdiff > 15200 then S26M else if cdiff > 13000 then S24M
      else if cdiff > 9000 then S19_2M else if cdiff > 7600 then S13M else S12M) = of_nat f"
proof -
  have "d < 2 ^ 32" using assms(1,2) by (auto simp: osc_speeds_def)
  then have "unat cdiff = d" by (simp add: c unat_of_nat_u32)
  then show ?thesis using assms(1-3) by (auto simp: osc_speeds_def word_less_nat_alt)
qed

text \<open>The registers as \<open>get_osc_clk_speed\<close> leaves them.\<close>

definition osc_regs :: "(u32 \<Rightarrow> u32) \<Rightarrow> u32 \<Rightarrow> u32" where
  "osc_regs r = r(PRM_CLKSRC_CTRL := (r PRM_CLKSRC_CTRL AND NOT (push_bit 7 1)) OR push_bit 6 1,
     CM_CLKSEL_WKUP := r CM_CLKSEL_WKUP OR 1, CM_ICLKEN_WKUP := r CM_ICLKEN_WKUP OR 1 OR push_bit 2 1,
     CM_FCLKEN_WKUP := r CM_FCLKEN_WKUP OR 1, GPT1_TCLR := 3)"

lemma timer_on_osc_regs: "timer_on (osc_regs r)"
  by (simp add: timer_on_def osc_regs_def bit_simps)

lemma osc_begin_regs:
  assumes l: "clock_law mm rf cv f"
  shows "rf (osc_begin mm h) = osc_regs (rf h)" "ticks cv (osc_begin mm h) \<le> ticks cv h + 1000"
proof -
  note p = clock_law_regs [OF l]
  show "rf (osc_begin mm h) = osc_regs (rf h)"
    by (simp add: osc_begin_def Let_def case_prod_beta plain_regs_write [OF p] plain_regs_read [OF p] plain_regs_keep [OF p]
        in_clock_regs TLDR_notin_clock_regs osc_regs_def)
  have s: "ticks cv (writel mm v a x) \<le> n + 100" "ticks cv (snd (readl mm a x)) \<le> n + 100" if "ticks cv x \<le> n" for v a x n
    using clock_law_write [OF l, of v a x] clock_law_read(2) [OF l, of a x] that by simp_all
  have "ticks cv (osc_begin mm h) \<le> ticks cv h + 100 + 100 + 100 + 100 + 100 + 100 + 100 + 100 + 100 + 100"
    unfolding osc_begin_def Let_def case_prod_beta by (intro s order_refl)
  then show "ticks cv (osc_begin mm h) \<le> ticks cv h + 1000" by simp
qed

lemma get_osc_clk_speed_measures:
  assumes l: "clock_law mm rf cv f" and f: "f \<in> osc_speeds" and t: "ticks cv h < 2 ^ 38"
  obtains h' where "get_osc_clk_speed mm h = Some (of_nat f, h')" "rf h' = osc_regs (rf h)"
proof -
  let ?k = "\<lambda>h. ticks cv h * 32768 div f"
  define h0 where "h0 = osc_begin mm h"
  define h1 where "h1 = snd (readl mm S32K_CR h0)"
  define s where "s = 20 + ?k h0"
  have f0: "0 < f" "200 * 32768 < f" "301 * 32768 < 20 * f" "2 ^ 39 * 32768 < 2 ^ 31 * f" using f by (auto simp: osc_speeds_def)
  note b = osc_begin_regs [OF l, of h, folded h0_def]
  have on: "timer_on (rf h0)" by (simp add: b timer_on_osc_regs)
  have "?k h0 < 2 ^ 31" using b(2) t f0 by (simp add: div_less_iff_less_mult)
  then have s: "s < 2 ^ 32 - 2 ^ 16" "s + 20 < 2 ^ 32 - 2 ^ 16" by (simp_all add: s_def)
  have start: "20 + fst (readl mm S32K_CR h0) = of_nat s" "40 + fst (readl mm S32K_CR h0) = of_nat s + 20"
    by (simp_all add: clock_law_read(5) [OF l] s_def)
  have "ticks cv h0 * 32768 < (?k h0 + 1) * f" using dividend_less_times_div [OF f0(1), of "ticks cv h0 * 32768"] by (simp add: algebra_simps)
  then have "ticks cv h1 * 32768 < s * f"
    using clock_law_read(2) [OF l, of S32K_CR h0] f0 by (simp add: h1_def s_def algebra_simps)
  then obtain h2 where h2: "s32k_until mm (of_nat s) h1 = Some h2" "rf h2 = rf h1" "timer0 cv h2 = timer0 cv h1"
      "s * f \<le> 32768 * ticks cv h2" "32768 * ticks cv h2 < s * f + 200 * 32768"
    using s32k_until_returns [OF l f0(1) s(1) f0(2)] by blast
  define h3 where "h3 = snd (readl mm GPT1_TCRR h2)"
  have "ticks cv h3 * 32768 < (s + 20) * f"
    using clock_law_read(2) [OF l, of GPT1_TCRR h2] h2(5) f0 by (simp add: h3_def algebra_simps)
  then obtain h4 where h4: "s32k_until mm (of_nat (s + 20)) h3 = Some h4" "rf h4 = rf h3" "timer0 cv h4 = timer0 cv h3"
      "(s + 20) * f \<le> 32768 * ticks cv h4" "32768 * ticks cv h4 < (s + 20) * f + 200 * 32768"
    using s32k_until_returns [OF l f0(1) s(2) f0(2)] by blast
  have rf: "rf h1 = rf h0" "rf h2 = rf h0" "rf h3 = rf h0" "rf h4 = rf h0" and t0: "timer0 cv h4 = timer0 cv h2"
    using h2 h4 by (simp_all add: h1_def h3_def clock_law_read [OF l])
  define d where "d = ticks cv h4 - ticks cv h2"
  have le: "ticks cv h2 \<le> ticks cv h4" using h2(5) h4(4) f0(3) by (simp add: algebra_simps)
  have d: "32768 * d < 20 * f + 200 * 32768" "20 * f < 32768 * d + 200 * 32768"
    using h2(4,5) h4(4,5) le by (simp_all add: d_def algebra_simps)
  have "fst (readl mm GPT1_TCRR h4) - fst (readl mm GPT1_TCRR h2) = of_nat d"
    using on le by (simp add: rf clock_law_read(6) [OF l] t0 d_def of_nat_diff)
  note speed = osc_speed_of_ticks [OF f d this]
  have "get_osc_clk_speed mm h = Some (of_nat f, snd (readl mm GPT1_TCRR h4))"
    unfolding get_osc_clk_speed_def using h2(1) h4(1) speed
    by (simp add: Let_def case_prod_beta start h1_def h3_def flip: h0_def)
  then show ?thesis by (rule that) (simp add: clock_law_read(3) [OF l] rf b(1))
qed

section \<open>The clocks that result\<close>

text \<open>
  The frequencies that the registers give for an oscillator of \<open>f\<close> Hz: the system clock behind its divider, the processor,
  the core, its two interconnects, and the 96 MHz clock of the peripherals.
\<close>

definition sys_clock :: "nat \<Rightarrow> (u32 \<Rightarrow> u32) \<Rightarrow> nat" where
  "sys_clock f r = f div unat (field 6 2 (r PRM_CLKSRC_CTRL))"

definition mpu_clock :: "nat \<Rightarrow> (u32 \<Rightarrow> u32) \<Rightarrow> nat" where
  "mpu_clock f r = sys_clock f r * unat (field 8 11 (r CM_CLKSEL1_PLL_MPU)) div (unat (field 0 7 (r CM_CLKSEL1_PLL_MPU)) + 1)
     div unat (field 0 5 (r CM_CLKSEL2_PLL_MPU))"

definition core_clock :: "nat \<Rightarrow> (u32 \<Rightarrow> u32) \<Rightarrow> nat" where
  "core_clock f r = sys_clock f r * unat (field 16 11 (r CM_CLKSEL1_PLL)) div (unat (field 8 7 (r CM_CLKSEL1_PLL)) + 1)
     div unat (field 27 2 (r CM_CLKSEL1_PLL))"

definition l3_clock :: "nat \<Rightarrow> (u32 \<Rightarrow> u32) \<Rightarrow> nat" where
  "l3_clock f r = core_clock f r div unat (field 0 2 (r CM_CLKSEL_CORE))"

definition l4_clock :: "nat \<Rightarrow> (u32 \<Rightarrow> u32) \<Rightarrow> nat" where
  "l4_clock f r = l3_clock f r div unat (field 2 2 (r CM_CLKSEL_CORE))"

definition per_clock :: "nat \<Rightarrow> (u32 \<Rightarrow> u32) \<Rightarrow> nat" where
  "per_clock f r = 2 * (sys_clock f r * unat (field 8 11 (r CM_CLKSEL2_PLL)) div (unat (field 0 7 (r CM_CLKSEL2_PLL)) + 1))
     div unat (field 0 5 (r CM_CLKSEL3_PLL))"

definition plls_locked :: "(u32 \<Rightarrow> u32) \<Rightarrow> bool" where
  "plls_locked r \<longleftrightarrow> field 0 3 (r CM_CLKEN_PLL_MPU) = PLL_LOCK \<and> field 0 3 (r CM_CLKEN_PLL) = PLL_LOCK \<and> field 16 3 (r CM_CLKEN_PLL) = PLL_LOCK"

text \<open>A table entry fits into the fields of the registers.\<close>

definition dpll_fits :: "dpll_param \<Rightarrow> bool" where
  "dpll_fits p \<longleftrightarrow> take_bit 11 (dp_m p) = dp_m p \<and> take_bit 7 (dp_n p) = dp_n p \<and> take_bit 4 (dp_fsel p) = dp_fsel p \<and> take_bit 2 (dp_m2 p) = dp_m2 p"

text \<open>The fields that the clocks depend on, after all of \<open>prcm_init\<close> behind the measurement.\<close>

definition prcm_rest :: "'h mmio \<Rightarrow> u32 \<Rightarrow> u32 \<Rightarrow> dpll_param \<Rightarrow> dpll_param \<Rightarrow> dpll_param \<Rightarrow> 'h \<Rightarrow> 'h" where
  "prcm_rest mm sel dv c p m h =
     (let h = sr32 mm PRM_CLKSEL 0 3 sel h;
          h = sr32 mm PRM_CLKSRC_CTRL 6 2 dv h;
          h = sr32 mm CM_CLKEN_PLL_MPU 0 3 PLL_LOW_POWER_BYPASS h;
          h = snd (wait_on_value mm 1 0 CM_IDLEST_PLL_MPU LDELAY h);
          h = mpu_dpll_init mm m (per_dpll_init mm p (core_dpll_init mm c h));
          h = sr32 mm CM_CLKSEL_PER 0 8 0xff h
      in sr32 mm CM_CLKSEL_WKUP 0 1 1 h)"

lemma prcm_rest_regs:
  assumes l: "plain_regs mm rf clock_regs"
    and r: "r = rf (prcm_rest mm sel dv c p m h)"
  shows "r PRM_CLKSRC_CTRL = setf 6 2 dv (rf h PRM_CLKSRC_CTRL)"
    "r CM_CLKSEL1_PLL_MPU = setf 0 7 (dp_n m) (setf 8 11 (dp_m m) (rf h CM_CLKSEL1_PLL_MPU))"
    "r CM_CLKSEL2_PLL_MPU = setf 0 5 (dp_m2 m) (rf h CM_CLKSEL2_PLL_MPU)"
    "r CM_CLKSEL1_PLL = setf 6 1 0 (setf 8 7 (dp_n c) (setf 16 11 (dp_m c) (setf 27 2 (dp_m2 c) (rf h CM_CLKSEL1_PLL))))"
    "r CM_CLKSEL_CORE = setf 0 2 2 (setf 2 2 2 (rf h CM_CLKSEL_CORE))"
    "r CM_CLKSEL2_PLL = setf 0 7 (dp_n p) (setf 8 11 (dp_m p) (rf h CM_CLKSEL2_PLL))"
    "r CM_CLKSEL3_PLL = setf 0 5 (dp_m2 p) (rf h CM_CLKSEL3_PLL)"
    "r CM_CLKEN_PLL_MPU = setf 0 3 PLL_LOCK (setf 4 4 (dp_fsel m) (setf 0 3 PLL_LOW_POWER_BYPASS (rf h CM_CLKEN_PLL_MPU)))"
    "r CM_CLKEN_PLL = setf 16 3 PLL_LOCK (setf 20 4 (dp_fsel p) (setf 16 3 PLL_STOP
       (setf 0 3 PLL_LOCK (setf 4 4 (dp_fsel c) (setf 0 3 PLL_FAST_RELOCK_BYPASS (rf h CM_CLKEN_PLL))))))"
  unfolding r
  by (simp_all add: prcm_rest_def Let_def sr32_regs [OF l] wait_on_value_regs [OF l] in_clock_regs
      core_dpll_init_def per_dpll_init_def mpu_dpll_init_def)

lemma prcm_rest_fields:
  assumes l: "plain_regs mm rf clock_regs" and "dv = 1 \<or> dv = 2" and c: "dpll_fits c" and m: "dpll_fits m"
    and p: "take_bit 11 (dp_m p) = dp_m p" "take_bit 7 (dp_n p) = dp_n p" "take_bit 4 (dp_fsel p) = dp_fsel p" "take_bit 5 (dp_m2 p) = dp_m2 p"
    and r: "r = rf (prcm_rest mm sel dv c p m h)"
  shows "field 6 2 (r PRM_CLKSRC_CTRL) = dv"
    "field 8 11 (r CM_CLKSEL1_PLL_MPU) = dp_m m" "field 0 7 (r CM_CLKSEL1_PLL_MPU) = dp_n m" "field 0 5 (r CM_CLKSEL2_PLL_MPU) = dp_m2 m"
    "field 16 11 (r CM_CLKSEL1_PLL) = dp_m c" "field 8 7 (r CM_CLKSEL1_PLL) = dp_n c" "field 27 2 (r CM_CLKSEL1_PLL) = dp_m2 c"
    "field 0 2 (r CM_CLKSEL_CORE) = 2" "field 2 2 (r CM_CLKSEL_CORE) = 2"
    "field 8 11 (r CM_CLKSEL2_PLL) = dp_m p" "field 0 7 (r CM_CLKSEL2_PLL) = dp_n p" "field 0 5 (r CM_CLKSEL3_PLL) = dp_m2 p"
    "plls_locked r"
proof -
  have t: "take_bit 5 (dp_m2 m) = dp_m2 m"
  proof -
    have "take_bit 5 (take_bit 2 (dp_m2 m)) = take_bit 2 (dp_m2 m)" by (simp add: take_bit_take_bit)
    then show ?thesis using m unfolding dpll_fits_def by metis
  qed
  have d: "take_bit 2 dv = dv" using assms(2) by auto
  note f = c [unfolded dpll_fits_def] m [unfolded dpll_fits_def] p t d
  show "field 6 2 (r PRM_CLKSRC_CTRL) = dv"
    "field 8 11 (r CM_CLKSEL1_PLL_MPU) = dp_m m" "field 0 7 (r CM_CLKSEL1_PLL_MPU) = dp_n m" "field 0 5 (r CM_CLKSEL2_PLL_MPU) = dp_m2 m"
    "field 16 11 (r CM_CLKSEL1_PLL) = dp_m c" "field 8 7 (r CM_CLKSEL1_PLL) = dp_n c" "field 27 2 (r CM_CLKSEL1_PLL) = dp_m2 c"
    "field 0 2 (r CM_CLKSEL_CORE) = 2" "field 2 2 (r CM_CLKSEL_CORE) = 2"
    "field 8 11 (r CM_CLKSEL2_PLL) = dp_m p" "field 0 7 (r CM_CLKSEL2_PLL) = dp_n p" "field 0 5 (r CM_CLKSEL3_PLL) = dp_m2 p"
    "plls_locked r"
    using f by (simp_all add: prcm_rest_regs [OF l r] field_setf plls_locked_def)
qed


lemma dpll_tables_fit: "list_all dpll_fits core_dpll_param" "list_all dpll_fits mpu_dpll_param"
  by (simp_all add: core_dpll_param_def mpu_dpll_param_def dpll_def dpll_fits_def)

text \<open>
  The parts of \<open>prcm_init\<close>: for an oscillator of \<open>f\<close> Hz other than 24 MHz, the tables are read at \<open>clk_index f\<close>, and the
  oscillator is divided by \<open>clk_div f\<close>.
\<close>

definition clk_index :: "nat \<Rightarrow> nat" where
  "clk_index f = (if f \<in> {38400000, 19200000} then 2 else if f \<in> {26000000, 13000000} then 1 else 0)"

definition clk_div :: "nat \<Rightarrow> u32" where
  "clk_div f = (if f \<in> {38400000, 26000000} then 2 else 1)"

lemma prcm_init_rest:
  assumes f: "f \<in> osc_speeds" "f \<noteq> 24000000" and c: "cpuid AND 0xf \<noteq> 0" and g: "get_osc_clk_speed mm h = Some (of_nat f, h1)"
  shows "prcm_init mm cpuid sel h =
    Some (prcm_rest mm (get_sys_clkin_sel (of_nat f) sel) (clk_div f) (core_dpll_param ! (2 * clk_index f + 1)) (per_dpll_param ! clk_index f)
      (mpu_dpll_param ! (2 * clk_index f + 1)) h1)"
proof -
  have n: "length core_dpll_param = 10" "length per_dpll_param = 5" "length mpu_dpll_param = 10"
    by (simp_all add: core_dpll_param_def per_dpll_param_def mpu_dpll_param_def)
  let ?sel = "get_sys_clkin_sel (of_nat f) sel"
  have s: "(?sel > 2) = (clk_div f = 2)" "(if ?sel > 2 then ?sel div 2 else ?sel) = of_nat (clk_index f)" "clk_index f < 3"
    "clk_div f = 1 \<or> clk_div f = 2"
    using f by (auto simp: get_sys_clkin_sel_def osc_speeds_def clk_index_def clk_div_def)
  have u: "unat (of_nat (clk_index f) :: u32) = clk_index f" "unat (2 * of_nat (clk_index f) + 1 :: u32) = 2 * clk_index f + 1"
    using s(3) by (auto simp: clk_index_def)
  show ?thesis
    using s c
    by (cases "?sel > 2") (simp_all add: prcm_init_def g get_cpu_rev_def dpll_entry_def n u prcm_rest_def Let_def)
qed

lemma prcm_init_sets_clocks:
  assumes l: "clock_law mm rf cv f" and f: "f \<in> osc_speeds" "f \<noteq> 24000000" and c: "cpuid AND 0xf \<noteq> 0" and t: "ticks cv h < 2 ^ 38"
  obtains h' where "prcm_init mm cpuid sel h = Some h'" "mpu_clock f (rf h') = 600000000" "core_clock f (rf h') = 332000000"
    "l3_clock f (rf h') = 166000000" "l4_clock f (rf h') = 83000000" "per_clock f (rf h') = 96000000" "plls_locked (rf h')"
proof -
  let ?i = "clk_index f"
  let ?c = "core_dpll_param ! (2 * ?i + 1)" and ?p = "per_dpll_param ! ?i" and ?m = "mpu_dpll_param ! (2 * ?i + 1)"
  obtain h1 where h1: "get_osc_clk_speed mm h = Some (of_nat f, h1)" by (rule get_osc_clk_speed_measures [OF l f(1) t])
  define h' where "h' = prcm_rest mm (get_sys_clkin_sel (of_nat f) sel) (clk_div f) ?c ?p ?m h1"
  have i: "?i < 3" by (simp add: clk_index_def)
  have "length core_dpll_param = 10" "length mpu_dpll_param = 10" by (simp_all add: core_dpll_param_def mpu_dpll_param_def)
  then have fit: "dpll_fits ?c" "dpll_fits ?m" using dpll_tables_fit i by (simp_all add: list_all_length)
  have p: "take_bit 11 (dp_m ?p) = dp_m ?p" "take_bit 7 (dp_n ?p) = dp_n ?p" "take_bit 4 (dp_fsel ?p) = dp_fsel ?p" "take_bit 5 (dp_m2 ?p) = dp_m2 ?p"
    by (simp_all add: clk_index_def per_dpll_param_def dpll_def)
  have dv: "clk_div f = 1 \<or> clk_div f = 2" by (simp add: clk_div_def)
  note fields = prcm_rest_fields [OF clock_law_regs [OF l] dv fit p refl, where sel = "get_sys_clkin_sel (of_nat f) sel" and h = h1, folded h'_def]
  have cases: "f = 12000000 \<or> f = 13000000 \<or> f = 19200000 \<or> f = 26000000 \<or> f = 38400000" using f by (auto simp: osc_speeds_def)
  show ?thesis
  proof (rule that)
    show "prcm_init mm cpuid sel h = Some h'" unfolding h'_def by (rule prcm_init_rest [OF f c h1])
    show "mpu_clock f (rf h') = 600000000" "core_clock f (rf h') = 332000000" "l3_clock f (rf h') = 166000000"
      "l4_clock f (rf h') = 83000000" "per_clock f (rf h') = 96000000"
      using cases unfolding l4_clock_def l3_clock_def mpu_clock_def core_clock_def per_clock_def sys_clock_def fields
      by (elim disjE; simp add: clk_index_def clk_div_def core_dpll_param_def per_dpll_param_def mpu_dpll_param_def dpll_def)+
    show "plls_locked (rf h')" by (rule fields(13))
  qed
qed


end
