(* ===== verification/UbootMux.thy ===== *)
theory UbootMux
  imports Mmio
begin

text \<open>
  The functions of the pads (\<open>set_muxconf_regs\<close> of \<open>src/u-boot/board/rhino/rhino.c\<close> and the table \<open>MUX_RHINO\<close> of
  \<open>rhino.h\<close>), against the pins and the chip selects that the loader uses.
\<close>

section \<open>The pads\<close>

text \<open>
  Every pad of the processor has a 16-bit register: the input buffer, the direction of the pull resistor, whether
  it pulls, and which of its functions the pad has. The table has the offsets of the registers and their values for
  boards after revision 1.0, in the groups of the source.
\<close>

abbreviation (input) IEN :: u16 where "IEN \<equiv> 0x100"
abbreviation (input) IDIS :: u16 where "IDIS \<equiv> 0"
abbreviation (input) PTU :: u16 where "PTU \<equiv> 0x10"
abbreviation (input) PTD :: u16 where "PTD \<equiv> 0"
abbreviation (input) EN :: u16 where "EN \<equiv> 8"
abbreviation (input) DIS :: u16 where "DIS \<equiv> 0"
abbreviation (input) M0 :: u16 where "M0 \<equiv> 0"
abbreviation (input) M1 :: u16 where "M1 \<equiv> 1"
abbreviation (input) M3 :: u16 where "M3 \<equiv> 3"
abbreviation (input) M4 :: u16 where "M4 \<equiv> 4"

definition mux_sdrc :: "(nat \<times> u16) list" where
  "mux_sdrc =
     [(0x0030, IEN OR PTD OR DIS OR M0), (0x0032, IEN OR PTD OR DIS OR M0), (0x0034, IEN OR PTD OR DIS OR M0),
      (0x0036, IEN OR PTD OR DIS OR M0), (0x0038, IEN OR PTD OR DIS OR M0), (0x003A, IEN OR PTD OR DIS OR M0),
      (0x003C, IEN OR PTD OR DIS OR M0), (0x003E, IEN OR PTD OR DIS OR M0), (0x0040, IEN OR PTD OR DIS OR M0),
      (0x0042, IEN OR PTD OR DIS OR M0), (0x0044, IEN OR PTD OR DIS OR M0), (0x0046, IEN OR PTD OR DIS OR M0),
      (0x0048, IEN OR PTD OR DIS OR M0), (0x004A, IEN OR PTD OR DIS OR M0), (0x004C, IEN OR PTD OR DIS OR M0),
      (0x004E, IEN OR PTD OR DIS OR M0), (0x0050, IEN OR PTD OR DIS OR M0), (0x0052, IEN OR PTD OR DIS OR M0),
      (0x0054, IEN OR PTD OR DIS OR M0), (0x0056, IEN OR PTD OR DIS OR M0), (0x0058, IEN OR PTD OR DIS OR M0),
      (0x005A, IEN OR PTD OR DIS OR M0), (0x005C, IEN OR PTD OR DIS OR M0), (0x005E, IEN OR PTD OR DIS OR M0),
      (0x0060, IEN OR PTD OR DIS OR M0), (0x0062, IEN OR PTD OR DIS OR M0), (0x0064, IEN OR PTD OR DIS OR M0),
      (0x0066, IEN OR PTD OR DIS OR M0), (0x0068, IEN OR PTD OR DIS OR M0), (0x006A, IEN OR PTD OR DIS OR M0),
      (0x006C, IEN OR PTD OR DIS OR M0), (0x006E, IEN OR PTD OR DIS OR M0), (0x0070, IEN OR PTD OR DIS OR M0),
      (0x0072, IEN OR PTD OR DIS OR M0), (0x0074, IEN OR PTD OR DIS OR M0), (0x0076, IEN OR PTD OR DIS OR M0),
      (0x0078, IEN OR PTD OR DIS OR M0), (0x021A, IEN OR PTD OR EN OR M0), (0x021C, IEN OR PTD OR EN OR M0),
      (0x021E, IEN OR PTD OR EN OR M0), (0x0220, IEN OR PTD OR EN OR M0), (0x0262, M0),
      (0x0222, IEN OR PTD OR EN OR M0), (0x0224, IEN OR PTD OR EN OR M0)]"

definition mux_gpmc :: "(nat \<times> u16) list" where
  "mux_gpmc =
     [(0x007A, IDIS OR PTU OR EN OR M0), (0x007C, IDIS OR PTU OR EN OR M0), (0x007E, IDIS OR PTU OR EN OR M0),
      (0x0080, IDIS OR PTU OR EN OR M0), (0x0082, IDIS OR PTU OR EN OR M0), (0x0084, IDIS OR PTU OR EN OR M0),
      (0x0086, IDIS OR PTU OR EN OR M0), (0x0088, IDIS OR PTU OR EN OR M0), (0x008A, IDIS OR PTU OR EN OR M0),
      (0x008C, IDIS OR PTU OR EN OR M0), (0x008E, IEN OR PTU OR EN OR M0), (0x0090, IEN OR PTU OR EN OR M0),
      (0x0092, IEN OR PTU OR EN OR M0), (0x0094, IEN OR PTU OR EN OR M0), (0x0096, IEN OR PTU OR EN OR M0),
      (0x0098, IEN OR PTU OR EN OR M0), (0x009A, IEN OR PTU OR EN OR M0), (0x009C, IEN OR PTU OR EN OR M0),
      (0x009E, IEN OR PTU OR EN OR M0), (0x00A0, IEN OR PTU OR EN OR M0), (0x00A2, IEN OR PTU OR EN OR M0),
      (0x00A4, IEN OR PTU OR EN OR M0), (0x00A6, IEN OR PTU OR EN OR M0), (0x00A8, IEN OR PTU OR EN OR M0),
      (0x00AA, IEN OR PTU OR EN OR M0), (0x00AC, IEN OR PTU OR EN OR M0), (0x00AE, IDIS OR PTU OR EN OR M0),
      (0x00B0, IDIS OR PTU OR EN OR M0), (0x00B2, IDIS OR PTU OR EN OR M0), (0x00B4, IEN OR PTU OR EN OR M1),
      (0x00B6, IEN OR PTU OR EN OR M1), (0x00B8, IEN OR PTU OR EN OR M1), (0x00BA, IEN OR PTU OR EN OR M1),
      (0x00BC, IDIS OR PTU OR EN OR M0), (0x00BE, IEN OR PTD OR EN OR M0), (0x00C0, IDIS OR PTD OR DIS OR M0),
      (0x00C2, IDIS OR PTD OR DIS OR M0), (0x00C4, IDIS OR PTD OR DIS OR M0), (0x00C6, IDIS OR PTU OR DIS OR M0),
      (0x00C8, IDIS OR PTU OR DIS OR M4), (0x00CA, IEN OR PTD OR DIS OR M0), (0x00CC, IEN OR PTU OR EN OR M0),
      (0x00CE, IEN OR PTU OR EN OR M0), (0x00D0, IEN OR PTU OR EN OR M0), (0x00D2, IDIS OR PTU OR DIS OR M4)]"

definition mux_dss :: "(nat \<times> u16) list" where
  "mux_dss =
     [(0x00D4, IDIS OR PTD OR DIS OR M0), (0x00D6, IDIS OR PTD OR DIS OR M0), (0x00D8, IDIS OR PTD OR DIS OR M0),
      (0x00DA, IDIS OR PTD OR DIS OR M0), (0x00DC, IDIS OR PTD OR DIS OR M0), (0x00DE, IDIS OR PTD OR DIS OR M0),
      (0x00E0, IDIS OR PTD OR DIS OR M0), (0x00E2, IDIS OR PTD OR DIS OR M0), (0x00E4, IDIS OR PTD OR DIS OR M0),
      (0x00E6, IDIS OR PTD OR DIS OR M0), (0x00E8, IDIS OR PTD OR DIS OR M0), (0x00EA, IDIS OR PTD OR DIS OR M0),
      (0x00EC, IDIS OR PTD OR DIS OR M0), (0x00EE, IDIS OR PTD OR DIS OR M0), (0x00F0, IDIS OR PTD OR DIS OR M0),
      (0x00F2, IDIS OR PTD OR DIS OR M0), (0x00F4, IDIS OR PTD OR DIS OR M0), (0x00F6, IDIS OR PTD OR DIS OR M0),
      (0x00F8, IDIS OR PTD OR DIS OR M0), (0x00FA, IDIS OR PTD OR DIS OR M0), (0x00FC, IDIS OR PTD OR DIS OR M0),
      (0x00FE, IDIS OR PTD OR DIS OR M0), (0x0100, IDIS OR PTD OR DIS OR M0), (0x0102, IDIS OR PTD OR DIS OR M0),
      (0x0104, IDIS OR PTD OR DIS OR M0), (0x0106, IDIS OR PTD OR DIS OR M0), (0x0108, IDIS OR PTD OR DIS OR M0),
      (0x010A, IDIS OR PTD OR DIS OR M0)]"

definition mux_mmc1 :: "(nat \<times> u16) list" where
  "mux_mmc1 =
     [(0x0144, IEN OR PTU OR DIS OR M4), (0x0146, IEN OR PTU OR DIS OR M4), (0x0148, IDIS OR PTU OR DIS OR M1),
      (0x014A, IDIS OR PTU OR DIS OR M1), (0x014C, IEN OR PTU OR DIS OR M1), (0x014E, IDIS OR PTU OR DIS OR M1),
      (0x0150, IDIS OR PTU OR DIS OR M4), (0x0152, IEN OR PTU OR DIS OR M4), (0x0154, IEN OR PTU OR DIS OR M4),
      (0x0156, IDIS OR PTU OR DIS OR M4)]"

definition mux_mmc2 :: "(nat \<times> u16) list" where
  "mux_mmc2 =
     [(0x0158, IDIS OR PTD OR DIS OR M0), (0x015A, IEN OR PTD OR DIS OR M0), (0x015C, IEN OR PTD OR DIS OR M0),
      (0x015E, IEN OR PTD OR DIS OR M0), (0x0160, IEN OR PTD OR DIS OR M0), (0x0162, IEN OR PTD OR DIS OR M0),
      (0x0164, IEN OR PTD OR DIS OR M4), (0x0166, IEN OR PTD OR DIS OR M4), (0x0168, IEN OR PTD OR DIS OR M4),
      (0x016A, IEN OR PTD OR DIS OR M1)]"

definition mux_mcbsp1 :: "(nat \<times> u16) list" where
  "mux_mcbsp1 =
     [(0x0194, IEN OR PTU OR DIS OR M4), (0x018C, IDIS OR PTU OR DIS OR M4), (0x018E, IDIS OR PTU OR DIS OR M4),
      (0x0190, IDIS OR PTD OR DIS OR M4), (0x0192, IEN OR PTD OR DIS OR M4), (0x0196, IEN OR PTD OR DIS OR M4),
      (0x0198, IEN OR PTD OR DIS OR M4)]"

definition mux_mcbsp2 :: "(nat \<times> u16) list" where
  "mux_mcbsp2 =
     [(0x013C, IEN OR PTD OR DIS OR M0), (0x013E, IEN OR PTD OR DIS OR M0), (0x0140, IEN OR PTD OR DIS OR M0),
      (0x0142, IDIS OR PTD OR DIS OR M0)]"

definition mux_mcbsp3 :: "(nat \<times> u16) list" where
  "mux_mcbsp3 =
     [(0x016C, IEN OR PTD OR DIS OR M4), (0x016E, IEN OR PTD OR DIS OR M4), (0x0170, IEN OR PTD OR DIS OR M4),
      (0x0172, IDIS OR PTD OR DIS OR M4)]"

definition mux_mcbsp4 :: "(nat \<times> u16) list" where
  "mux_mcbsp4 =
     [(0x0184, IEN OR PTD OR DIS OR M4), (0x0186, IEN OR PTD OR DIS OR M4), (0x0188, IEN OR PTD OR DIS OR M4),
      (0x018A, IEN OR PTD OR DIS OR M4)]"

definition mux_uart :: "(nat \<times> u16) list" where
  "mux_uart =
     [(0x017C, IDIS OR PTD OR DIS OR M0), (0x017E, IDIS OR PTD OR DIS OR M0), (0x0180, IEN OR PTU OR DIS OR M0),
      (0x0182, IEN OR PTD OR DIS OR M0), (0x0174, IEN OR PTU OR EN OR M0), (0x0176, IDIS OR PTD OR DIS OR M0),
      (0x0178, IDIS OR PTD OR DIS OR M0), (0x017A, IEN OR PTD OR DIS OR M0), (0x019A, IEN OR PTU OR DIS OR M0),
      (0x019C, IDIS OR PTD OR DIS OR M0), (0x019E, IEN OR PTD OR DIS OR M0), (0x01A0, IDIS OR PTD OR DIS OR M0)]"

definition mux_i2c :: "(nat \<times> u16) list" where
  "mux_i2c =
     [(0x01BA, IEN OR PTU OR DIS OR M0), (0x01BC, IEN OR PTU OR DIS OR M0), (0x01BE, IEN OR PTU OR DIS OR M0),
      (0x01C0, IEN OR PTU OR DIS OR M0), (0x01C2, IEN OR PTU OR DIS OR M0), (0x01C4, IEN OR PTU OR DIS OR M0)]"

definition mux_mcspi1 :: "(nat \<times> u16) list" where
  "mux_mcspi1 =
     [(0x01C8, IEN OR PTD OR DIS OR M0), (0x01CA, IEN OR PTD OR DIS OR M0), (0x01CC, IEN OR PTD OR DIS OR M0),
      (0x01CE, IEN OR PTD OR EN OR M0), (0x01D0, IEN OR PTD OR EN OR M0), (0x01D2, IEN OR PTU OR DIS OR M0),
      (0x01D4, IEN OR PTD OR DIS OR M3)]"

definition mux_mcspi2 :: "(nat \<times> u16) list" where
  "mux_mcspi2 =
     [(0x01D6, IEN OR PTD OR DIS OR M3), (0x01D8, IEN OR PTD OR DIS OR M3), (0x01DA, IEN OR PTD OR DIS OR M3),
      (0x01DC, IEN OR PTD OR DIS OR M3), (0x01DE, IEN OR PTD OR DIS OR M3)]"

definition mux_ccdc :: "(nat \<times> u16) list" where
  "mux_ccdc =
     [(0x01E4, IEN OR PTU OR DIS OR M4), (0x01E6, IDIS OR PTD OR DIS OR M4), (0x01E8, IEN OR PTU OR DIS OR M4),
      (0x01EA, IEN OR PTU OR DIS OR M4), (0x01EC, IEN OR PTD OR DIS OR M4), (0x01EE, IDIS OR PTD OR DIS OR M4),
      (0x01F0, IDIS OR PTD OR DIS OR M4), (0x01F2, IDIS OR PTD OR DIS OR M4), (0x01F4, IDIS OR PTD OR DIS OR M4),
      (0x01F6, IDIS OR PTD OR DIS OR M4), (0x01F8, IDIS OR PTD OR DIS OR M4), (0x01FA, IDIS OR PTD OR DIS OR M4),
      (0x01FC, IDIS OR PTD OR DIS OR M4)]"

definition mux_rmii :: "(nat \<times> u16) list" where
  "mux_rmii =
     [(0x01FE, IEN OR PTD OR DIS OR M0), (0x0200, IDIS OR PTD OR DIS OR M0), (0x0202, IEN OR PTD OR DIS OR M0),
      (0x0204, IEN OR PTD OR DIS OR M0), (0x0206, IEN OR PTD OR DIS OR M0), (0x0208, IEN OR PTD OR DIS OR M0),
      (0x020A, IDIS OR PTD OR DIS OR M0), (0x020C, IDIS OR PTD OR DIS OR M0), (0x020E, IDIS OR PTD OR DIS OR M0),
      (0x0210, IEN OR PTD OR EN OR M0)]"

definition mux_hecc :: "(nat \<times> u16) list" where
  "mux_hecc =
     [(0x0214, IDIS OR PTD OR DIS OR M4), (0x0216, IDIS OR PTD OR DIS OR M4)]"

definition mux_usb0 :: "(nat \<times> u16) list" where
  "mux_usb0 =
     [(0x0212, IDIS OR PTD OR DIS OR M0)]"

definition mux_hdq :: "(nat \<times> u16) list" where
  "mux_hdq =
     [(0x01C6, IEN OR PTU OR DIS OR M1)]"

definition mux_sys :: "(nat \<times> u16) list" where
  "mux_sys =
     [(0x0A04, IEN OR PTD OR DIS OR M0), (0x0A06, IEN OR PTD OR DIS OR M0), (0x01E0, IEN OR PTU OR EN OR M0),
      (0x0A08, IDIS OR PTU OR DIS OR M4), (0x0A0A, IEN OR PTD OR DIS OR M4), (0x0A0C, IEN OR PTD OR DIS OR M4),
      (0x0A0E, IEN OR PTD OR DIS OR M4), (0x0A10, IEN OR PTD OR DIS OR M0), (0x0A12, IEN OR PTD OR DIS OR M4),
      (0x0A14, IEN OR PTD OR DIS OR M0), (0x0A16, IEN OR PTD OR DIS OR M4), (0x0218, IEN OR PTD OR DIS OR M0),
      (0x0226, IEN OR PTD OR DIS OR M0), (0x0A1A, IEN OR PTU OR DIS OR M4), (0x01E2, IEN OR PTU OR DIS OR M4)]"

definition mux_jtag :: "(nat \<times> u16) list" where
  "mux_jtag =
     [(0x0A1C, IEN OR PTD OR DIS OR M0), (0x0A1E, IEN OR PTD OR DIS OR M0), (0x0A20, IEN OR PTD OR DIS OR M0),
      (0x0A22, IEN OR PTD OR DIS OR M0), (0x0A24, IDIS OR PTD OR DIS OR M4), (0x0A26, IEN OR PTD OR DIS OR M4)]"

definition mux_etk :: "(nat \<times> u16) list" where
  "mux_etk =
     [(0x05D8, IDIS OR PTU OR EN OR M3), (0x05DA, IDIS OR PTD OR DIS OR M3), (0x05DC, IEN OR PTD OR DIS OR M3),
      (0x05DE, IEN OR PTD OR DIS OR M3), (0x05E0, IEN OR PTD OR DIS OR M3), (0x05E2, IEN OR PTD OR DIS OR M3),
      (0x05E4, IEN OR PTD OR DIS OR M3), (0x05E6, IEN OR PTD OR DIS OR M3), (0x05E8, IEN OR PTD OR DIS OR M3),
      (0x05EA, IEN OR PTD OR DIS OR M3), (0x05EC, IEN OR PTD OR DIS OR M3), (0x05EE, IEN OR PTD OR DIS OR M3),
      (0x05F0, IDIS OR PTD OR DIS OR M3), (0x05F2, IDIS OR PTU OR EN OR M3), (0x05F4, IEN OR PTD OR DIS OR M3),
      (0x05F6, IEN OR PTD OR DIS OR M3), (0x05F8, IEN OR PTD OR DIS OR M3), (0x05FA, IEN OR PTD OR DIS OR M3)]"

definition MUX_RHINO :: "(nat \<times> u16) list" where
  "MUX_RHINO = mux_sdrc @ mux_gpmc @ mux_dss @ mux_mmc1 @ mux_mmc2 @ mux_mcbsp1 @ mux_mcbsp2 @
     mux_mcbsp3 @ mux_mcbsp4 @ mux_uart @ mux_i2c @ mux_mcspi1 @ mux_mcspi2 @ mux_ccdc @
     mux_rmii @ mux_hecc @ mux_usb0 @ mux_hdq @ mux_sys @ mux_jtag @ mux_etk"

abbreviation (input) OMAP34XX_CTRL_BASE :: u32 where "OMAP34XX_CTRL_BASE \<equiv> 0x48002000"

definition MUX_VAL :: "'h mmio \<Rightarrow> nat \<Rightarrow> u16 \<Rightarrow> 'h \<Rightarrow> 'h" where
  "MUX_VAL mm off v h = writew mm v (OMAP34XX_CTRL_BASE + of_nat off) h"

definition set_muxconf_regs :: "'h mmio \<Rightarrow> 'h \<Rightarrow> 'h" where
  "set_muxconf_regs mm h = fold (\<lambda>(off, v). MUX_VAL mm off v) MUX_RHINO h"

text \<open>A pad register holds what was written to it last.\<close>

definition plain_pads :: "'h mmio \<Rightarrow> ('h \<Rightarrow> nat \<Rightarrow> u16) \<Rightarrow> bool" where
  "plain_pads mm pf \<longleftrightarrow> (\<forall>off v h. off < 0x1000 \<longrightarrow>
     pf (writew mm v (OMAP34XX_CTRL_BASE + of_nat off) h) = (pf h)(off := v))"

text \<open>What is written last to a register is what it holds.\<close>

lemma fold_MUX_VAL:
  assumes "plain_pads mm pf" "distinct (map fst t)" "\<forall>x \<in> set t. fst x < 0x1000"
  shows "pf (fold (\<lambda>(off, v). MUX_VAL mm off v) t h) p = (case map_of t p of Some v \<Rightarrow> v | None \<Rightarrow> pf h p)"
  using assms(2,3)
proof (induction t arbitrary: h)
  case (Cons x t)
  obtain off v where x: "x = (off, v)" by (cases x)
  have "pf (MUX_VAL mm off v h) = (pf h)(off := v)"
    using assms(1) Cons.prems x by (simp add: plain_pads_def MUX_VAL_def)
  moreover have "map_of t off = None" using Cons.prems x by (simp add: map_of_eq_None_iff)
  ultimately show ?case using Cons x by (auto split: option.splits)
qed simp

lemmas mux_tables = mux_sdrc_def mux_gpmc_def mux_dss_def mux_mmc1_def mux_mmc2_def mux_mcbsp1_def mux_mcbsp2_def mux_mcbsp3_def mux_mcbsp4_def mux_uart_def mux_i2c_def mux_mcspi1_def mux_mcspi2_def mux_ccdc_def mux_rmii_def mux_hecc_def mux_usb0_def mux_hdq_def mux_sys_def mux_jtag_def mux_etk_def
  MUX_RHINO_def

lemma MUX_RHINO_offsets:
  "map fst MUX_RHINO =
     [0x30, 0x32, 0x34, 0x36, 0x38, 0x3A, 0x3C, 0x3E, 0x40, 0x42, 0x44, 0x46, 0x48, 0x4A, 0x4C, 0x4E, 0x50, 0x52,
      0x54, 0x56, 0x58, 0x5A, 0x5C, 0x5E, 0x60, 0x62, 0x64, 0x66, 0x68, 0x6A, 0x6C, 0x6E, 0x70, 0x72, 0x74, 0x76,
      0x78, 0x21A, 0x21C, 0x21E, 0x220, 0x262, 0x222, 0x224, 0x7A, 0x7C, 0x7E, 0x80, 0x82, 0x84, 0x86, 0x88, 0x8A,
      0x8C, 0x8E, 0x90, 0x92, 0x94, 0x96, 0x98, 0x9A, 0x9C, 0x9E, 0xA0, 0xA2, 0xA4, 0xA6, 0xA8, 0xAA, 0xAC, 0xAE,
      0xB0, 0xB2, 0xB4, 0xB6, 0xB8, 0xBA, 0xBC, 0xBE, 0xC0, 0xC2, 0xC4, 0xC6, 0xC8, 0xCA, 0xCC, 0xCE, 0xD0, 0xD2,
      0xD4, 0xD6, 0xD8, 0xDA, 0xDC, 0xDE, 0xE0, 0xE2, 0xE4, 0xE6, 0xE8, 0xEA, 0xEC, 0xEE, 0xF0, 0xF2, 0xF4, 0xF6,
      0xF8, 0xFA, 0xFC, 0xFE, 0x100, 0x102, 0x104, 0x106, 0x108, 0x10A, 0x144, 0x146, 0x148, 0x14A, 0x14C, 0x14E,
      0x150, 0x152, 0x154, 0x156, 0x158, 0x15A, 0x15C, 0x15E, 0x160, 0x162, 0x164, 0x166, 0x168, 0x16A, 0x194,
      0x18C, 0x18E, 0x190, 0x192, 0x196, 0x198, 0x13C, 0x13E, 0x140, 0x142, 0x16C, 0x16E, 0x170, 0x172, 0x184,
      0x186, 0x188, 0x18A, 0x17C, 0x17E, 0x180, 0x182, 0x174, 0x176, 0x178, 0x17A, 0x19A, 0x19C, 0x19E, 0x1A0,
      0x1BA, 0x1BC, 0x1BE, 0x1C0, 0x1C2, 0x1C4, 0x1C8, 0x1CA, 0x1CC, 0x1CE, 0x1D0, 0x1D2, 0x1D4, 0x1D6, 0x1D8,
      0x1DA, 0x1DC, 0x1DE, 0x1E4, 0x1E6, 0x1E8, 0x1EA, 0x1EC, 0x1EE, 0x1F0, 0x1F2, 0x1F4, 0x1F6, 0x1F8, 0x1FA,
      0x1FC, 0x1FE, 0x200, 0x202, 0x204, 0x206, 0x208, 0x20A, 0x20C, 0x20E, 0x210, 0x214, 0x216, 0x212, 0x1C6,
      0xA04, 0xA06, 0x1E0, 0xA08, 0xA0A, 0xA0C, 0xA0E, 0xA10, 0xA12, 0xA14, 0xA16, 0x218, 0x226, 0xA1A, 0x1E2,
      0xA1C, 0xA1E, 0xA20, 0xA22, 0xA24, 0xA26, 0x5D8, 0x5DA, 0x5DC, 0x5DE, 0x5E0, 0x5E2, 0x5E4, 0x5E6, 0x5E8,
      0x5EA, 0x5EC, 0x5EE, 0x5F0, 0x5F2, 0x5F4, 0x5F6, 0x5F8, 0x5FA]"
  unfolding mux_tables by simp

lemma MUX_RHINO_distinct: "distinct (map fst MUX_RHINO)"
  unfolding MUX_RHINO_offsets by simp

lemma MUX_RHINO_small: "\<forall>x \<in> set MUX_RHINO. fst x < 0x1000"
proof -
  have "list_all (\<lambda>q. q < 0x1000) (map fst MUX_RHINO)" unfolding MUX_RHINO_offsets by simp
  then show ?thesis by (simp add: list_all_iff)
qed

lemma set_muxconf_value:
  assumes "plain_pads mm pf" "(p, v) \<in> set MUX_RHINO"
  shows "pf (set_muxconf_regs mm h) p = v"
  using fold_MUX_VAL [OF assms(1) MUX_RHINO_distinct MUX_RHINO_small] map_of_is_SomeI [OF MUX_RHINO_distinct assms(2)]
  by (simp add: set_muxconf_regs_def)

lemma set_muxconf_other:
  assumes "plain_pads mm pf" "p \<notin> fst ` set MUX_RHINO"
  shows "pf (set_muxconf_regs mm h) p = pf h p"
  using fold_MUX_VAL [OF assms(1) MUX_RHINO_distinct MUX_RHINO_small, where p = p] map_of_eq_None_iff [THEN iffD2, OF assms(2)]
  by (simp add: set_muxconf_regs_def)

text \<open>
  The pins that the board code and the programs of \<open>examples/standalone\<close> drive or sense, with the pad each of them
  is on, and the pads of the chip selects of the memory controller.
\<close>

definition gpio_pads :: "(nat \<times> nat) list" where
  "gpio_pads = [(11, 0xA24), (30, 0xA08), (61, 0xC8), (65, 0xD2), (99, 0x1EE), (100, 0x1F0), (101, 0x1F2), (102, 0x1F4),
     (103, 0x1F6), (104, 0x1F8), (105, 0x1FA), (106, 0x1FC), (126, 0x150), (127, 0x152), (128, 0x154), (129, 0x156),
     (130, 0x214), (131, 0x216), (140, 0x16C), (141, 0x16E), (142, 0x170), (143, 0x172), (152, 0x184), (153, 0x186), (155, 0x18A)]"

definition ncs_pad :: "nat \<Rightarrow> nat" where
  "ncs_pad k = 0xAE + 2 * k"

definition pad_mode :: "u16 \<Rightarrow> u16" where
  "pad_mode v = v AND 7"

lemma mode_of_pad:
  assumes "plain_pads mm pf" "list_ex (\<lambda>(q, v). q = p \<and> pad_mode v = m) t" "set t \<subseteq> set MUX_RHINO"
  shows "pad_mode (pf (set_muxconf_regs mm h) p) = m"
proof -
  obtain v where "(p, v) \<in> set MUX_RHINO" "pad_mode v = m" using assms(2,3) by (auto simp: list_ex_iff)
  then show ?thesis using set_muxconf_value [OF assms(1)] by simp
qed

lemma gpio_pads_modes:
  "list_all (\<lambda>(g, p). list_ex (\<lambda>(q, v). q = p \<and> pad_mode v = M4)
     (mux_gpmc @ mux_mmc1 @ mux_mcbsp3 @ mux_mcbsp4 @ mux_ccdc @ mux_hecc @ mux_sys @ mux_jtag)) gpio_pads"
  by (simp add: gpio_pads_def pad_mode_def mux_tables)

lemma ncs_pads_modes:
  "list_all (\<lambda>k. list_ex (\<lambda>(q, v). q = ncs_pad k \<and> pad_mode v = M0) mux_gpmc) [0, 1, 2, 7]"
  "list_all (\<lambda>k. list_ex (\<lambda>(q, v). q = ncs_pad k \<and> pad_mode v = M1) mux_gpmc) [3, 4, 5, 6]"
  by (simp_all add: ncs_pad_def pad_mode_def mux_tables)

text \<open>
  C28: after \<open>set_muxconf_regs\<close> every pin that the board code and the standalone programs use as a general-purpose
  pin is on a pad in mode 4, its general-purpose function. Of the seven chip selects that \<open>board_init\<close> configures, only
  the NAND memory's and those of the first two FPGA windows are on their pads: the pads of chip selects 3 to 6 are in
  mode 1, the request lines of the DMA controller, so the windows from \<open>0x18000000\<close> up do not reach the FPGA. Pads that
  are not in the table keep their setting.
\<close>

theorem set_muxconf_pads:
  assumes "plain_pads mm pf"
  shows "list_all (\<lambda>(g, p). pad_mode (pf (set_muxconf_regs mm h) p) = M4) gpio_pads \<and>
    list_all (\<lambda>k. pad_mode (pf (set_muxconf_regs mm h) (ncs_pad k)) = M0) [0, 1, 2, 7] \<and>
    list_all (\<lambda>k. pad_mode (pf (set_muxconf_regs mm h) (ncs_pad k)) = M1) [3, 4, 5, 6] \<and>
    (p \<notin> fst ` set MUX_RHINO \<longrightarrow> pf (set_muxconf_regs mm h) p = pf h p)"
proof (intro conjI)
  let ?t = "mux_gpmc @ mux_mmc1 @ mux_mcbsp3 @ mux_mcbsp4 @ mux_ccdc @ mux_hecc @ mux_sys @ mux_jtag"
  have s: "set ?t \<subseteq> set MUX_RHINO" "set mux_gpmc \<subseteq> set MUX_RHINO" by (auto simp: MUX_RHINO_def)
  show "list_all (\<lambda>(g, p). pad_mode (pf (set_muxconf_regs mm h) p) = M4) gpio_pads"
    by (rule list.pred_mono_strong [OF gpio_pads_modes]) (auto intro!: mode_of_pad [OF assms _ s(1)])
  show "list_all (\<lambda>k. pad_mode (pf (set_muxconf_regs mm h) (ncs_pad k)) = M0) [0, 1, 2, 7]"
    by (rule list.pred_mono_strong [OF ncs_pads_modes(1)]) (auto intro!: mode_of_pad [OF assms _ s(2)])
  show "list_all (\<lambda>k. pad_mode (pf (set_muxconf_regs mm h) (ncs_pad k)) = M1) [3, 4, 5, 6]"
    by (rule list.pred_mono_strong [OF ncs_pads_modes(2)]) (auto intro!: mode_of_pad [OF assms _ s(2)])
qed (simp add: set_muxconf_other [OF assms])

text \<open>The registers of the pads alone, by offset.\<close>

definition pads_mmio :: "(nat \<Rightarrow> u16) mmio" where
  "pads_mmio = \<lparr>readb = \<lambda>_ h. (0, h), writeb = \<lambda>_ _ h. h, readw = \<lambda>a h. (h (unat (a - OMAP34XX_CTRL_BASE)), h),
     writew = \<lambda>v a h. h(unat (a - OMAP34XX_CTRL_BASE) := v), readl = \<lambda>_ h. (0, h), writel = \<lambda>_ _ h. h\<rparr>"

lemma pads_plain: "plain_pads pads_mmio (\<lambda>h. h)"
  by (simp add: plain_pads_def pads_mmio_def unat_of_nat)

theorem set_muxconf_pads_witness:
  "plain_pads pads_mmio (\<lambda>h. h) \<and> pad_mode (set_muxconf_regs pads_mmio (\<lambda>_. 7) (ncs_pad 3)) = 1 \<and>
   pad_mode (set_muxconf_regs pads_mmio (\<lambda>_. 7) 0x150) = 4"
  using pads_plain set_muxconf_pads [OF pads_plain, of "\<lambda>_. 7" 0] by (simp add: gpio_pads_def)

end
