(* ===== verification/XloadBoard.thy ===== *)
theory XloadBoard
  imports XloadClock UbootMux
begin

text \<open>
  Bringing the board up in the first-stage loader (\<open>s_init\<close> of \<open>src/x-loader/board/rhino/rhino.c\<close> and what it calls):
  watchdog, protection, pads, clocks and the controller of the DRAM. The table of pads uses the vocabulary of the one in
  the second-stage loader. The last section has a board on which the laws hold.
\<close>

section \<open>Pads\<close>

definition xmux_sdrc :: "(nat \<times> u16) list" where
  "xmux_sdrc =
     [(0x0030, IEN OR PTD OR DIS OR M0), (0x0032, IEN OR PTD OR DIS OR M0), (0x0034, IEN OR PTD OR DIS OR M0),
      (0x0036, IEN OR PTD OR DIS OR M0), (0x0038, IEN OR PTD OR DIS OR M0), (0x003A, IEN OR PTD OR DIS OR M0),
      (0x003C, IEN OR PTD OR DIS OR M0), (0x003E, IEN OR PTD OR DIS OR M0), (0x0040, IEN OR PTD OR DIS OR M0),
      (0x0042, IEN OR PTD OR DIS OR M0), (0x0044, IEN OR PTD OR DIS OR M0), (0x0046, IEN OR PTD OR DIS OR M0),
      (0x0048, IEN OR PTD OR DIS OR M0), (0x004A, IEN OR PTD OR DIS OR M0), (0x004C, IEN OR PTD OR DIS OR M0),
      (0x004E, IEN OR PTD OR DIS OR M0), (0x0050, IEN OR PTD OR DIS OR M0), (0x0052, IEN OR PTD OR DIS OR M0),
      (0x0054, IEN OR PTD OR DIS OR M0), (0x0056, IEN OR PTD OR DIS OR M0), (0x0058, IEN OR PTD OR DIS OR M0),
      (0x005A, IEN OR PTD OR DIS OR M0), (0x005C, IEN OR PTD OR DIS OR M0), (0x005E, IEN OR PTD OR DIS OR M0),
      (0x0060, IEN OR PTD OR DIS OR M0), (0x0062, IEN OR PTD OR DIS OR M0), (0x0064, IEN OR PTD OR DIS OR M0),
      (0x0066, IEN OR PTD OR DIS OR M0), (0x0068, IEN OR PTD OR DIS OR M0), (0x006A, IEN OR PTD OR DIS OR M0),
      (0x006C, IEN OR PTD OR DIS OR M0), (0x006E, IEN OR PTD OR DIS OR M0), (0x0070, IEN OR PTD OR DIS OR M0),
      (0x0072, IEN OR PTD OR DIS OR M0), (0x0074, IEN OR PTD OR DIS OR M0), (0x0076, IEN OR PTD OR DIS OR M0),
      (0x0078, IEN OR PTD OR DIS OR M0), (0x0262, M0), (0x0264, M0)]"

definition xmux_gpmc :: "(nat \<times> u16) list" where
  "xmux_gpmc =
     [(0x007A, IDIS OR PTD OR DIS OR M0), (0x007C, IDIS OR PTD OR DIS OR M0), (0x007E, IDIS OR PTD OR DIS OR M0),
      (0x0080, IDIS OR PTD OR DIS OR M0), (0x0082, IDIS OR PTD OR DIS OR M0), (0x0084, IDIS OR PTD OR DIS OR M0),
      (0x0086, IDIS OR PTD OR DIS OR M0), (0x0088, IDIS OR PTD OR DIS OR M0), (0x008A, IDIS OR PTD OR DIS OR M0),
      (0x008C, IDIS OR PTD OR DIS OR M0), (0x008E, IEN OR PTD OR DIS OR M0), (0x0090, IEN OR PTD OR DIS OR M0),
      (0x0092, IEN OR PTD OR DIS OR M0), (0x0094, IEN OR PTD OR DIS OR M0), (0x0096, IEN OR PTD OR DIS OR M0),
      (0x0098, IEN OR PTD OR DIS OR M0), (0x009A, IEN OR PTD OR DIS OR M0), (0x009C, IEN OR PTD OR DIS OR M0),
      (0x009E, IEN OR PTD OR DIS OR M0), (0x00A0, IEN OR PTD OR DIS OR M0), (0x00A2, IEN OR PTD OR DIS OR M0),
      (0x00A4, IEN OR PTD OR DIS OR M0), (0x00A6, IEN OR PTD OR DIS OR M0), (0x00A8, IEN OR PTD OR DIS OR M0),
      (0x00AA, IEN OR PTD OR DIS OR M0), (0x00AC, IEN OR PTD OR DIS OR M0), (0x00AE, IDIS OR PTU OR EN OR M0),
      (0x00B0, IDIS OR PTU OR EN OR M0), (0x00B2, IDIS OR PTU OR EN OR M0), (0x00B4, IDIS OR PTU OR EN OR M0),
      (0x00B6, IDIS OR PTU OR EN OR M0), (0x00B8, IDIS OR PTU OR EN OR M0), (0x00BA, IDIS OR PTU OR EN OR M0),
      (0x00BC, IDIS OR PTU OR EN OR M0), (0x00BE, IDIS OR PTD OR DIS OR M0), (0x00C0, IDIS OR PTD OR DIS OR M0),
      (0x00C2, IDIS OR PTD OR DIS OR M0), (0x00C4, IDIS OR PTD OR DIS OR M0), (0x00C6, IDIS OR PTD OR DIS OR M0),
      (0x00C8, IDIS OR PTD OR DIS OR M4), (0x00CA, IEN OR PTD OR DIS OR M0), (0x00CC, IEN OR PTU OR EN OR M0),
      (0x00CE, IEN OR PTU OR EN OR M0), (0x00D0, IEN OR PTU OR EN OR M0), (0x00D2, IDIS OR PTU OR DIS OR M4)]"

definition xmux_uart :: "(nat \<times> u16) list" where
  "xmux_uart =
     [(0x017C, IDIS OR PTD OR DIS OR M0), (0x017E, IDIS OR PTD OR DIS OR M0), (0x0180, IEN OR PTU OR DIS OR M0),
      (0x0182, IEN OR PTD OR DIS OR M0), (0x0178, IDIS OR PTD OR DIS OR M0), (0x0176, IDIS OR PTD OR DIS OR M0),
      (0x0174, IEN OR PTU OR DIS OR M0), (0x017A, IEN OR PTD OR DIS OR M0)]"

definition xmux_mmc2 :: "(nat \<times> u16) list" where
  "xmux_mmc2 =
     [(0x0158, IEN OR PTU OR EN OR M0), (0x015A, IEN OR PTU OR DIS OR M0), (0x015C, IEN OR PTU OR DIS OR M0),
      (0x015E, IEN OR PTU OR DIS OR M0), (0x0160, IEN OR PTU OR DIS OR M0), (0x0162, IEN OR PTU OR DIS OR M0),
      (0x0164, IEN OR PTU OR DIS OR M4), (0x0166, IEN OR PTU OR DIS OR M4), (0x0168, IEN OR PTD OR EN OR M4),
      (0x016A, IEN OR PTU OR DIS OR M4)]"

definition xmux_sys :: "(nat \<times> u16) list" where
  "xmux_sys =
     [(0x0A0A, IEN OR PTD OR DIS OR M4), (0x0A0C, IEN OR PTD OR DIS OR M4), (0x0A0E, IEN OR PTD OR DIS OR M4),
      (0x0A12, IEN OR PTD OR DIS OR M4), (0x0A16, IEN OR PTD OR DIS OR M4), (0x01C6, IEN OR PTD OR DIS OR M1),
      (0x0A06, IEN OR PTD OR DIS OR M0), (0x0A04, IEN OR PTD OR DIS OR M0), (0x01E0, IEN OR PTD OR DIS OR M0),
      (0x01FC, IEN OR PTU OR EN OR M4), (0x01E2, IEN OR PTD OR DIS OR M4)]"

definition xmux_jtag :: "(nat \<times> u16) list" where
  "xmux_jtag =
     [(0x0A1C, IEN OR PTD OR DIS OR M0), (0x0A1E, IEN OR PTD OR DIS OR M0), (0x0A20, IEN OR PTD OR DIS OR M0),
      (0x0A22, IEN OR PTD OR EN OR M0), (0x0A24, IEN OR PTD OR DIS OR M0), (0x0A26, IEN OR PTD OR DIS OR M0)]"

definition MUX_DEFAULT :: "(nat \<times> u16) list" where
  "MUX_DEFAULT = xmux_sdrc @ xmux_gpmc @ xmux_uart @ xmux_mmc2 @ xmux_sys @ xmux_jtag"

definition x_set_muxconf_regs :: "'h mmio \<Rightarrow> 'h \<Rightarrow> 'h" where
  "x_set_muxconf_regs mm h = fold (\<lambda>(off, v). writew mm v (OMAP34XX_CTRL_BASE + of_nat off)) MUX_DEFAULT h"

section \<open>Protection and watchdog\<close>

abbreviation (input) CONTROL_STATUS :: u32 where "CONTROL_STATUS \<equiv> 0x480022F0"
abbreviation (input) UNLOCK_1 :: u32 where "UNLOCK_1 \<equiv> 0xFFFFFFFF"
abbreviation (input) UNLOCK_2 :: u32 where "UNLOCK_2 \<equiv> 0"
abbreviation (input) UNLOCK_3 :: u32 where "UNLOCK_3 \<equiv> 0x0000FFFF"
abbreviation (input) PM_RT_APE_BASE_ADDR_ARM :: u32 where "PM_RT_APE_BASE_ADDR_ARM \<equiv> 0x68010000"
abbreviation (input) PM_GPMC_BASE_ADDR_ARM :: u32 where "PM_GPMC_BASE_ADDR_ARM \<equiv> 0x68012400"
abbreviation (input) PM_OCM_RAM_BASE_ADDR_ARM :: u32 where "PM_OCM_RAM_BASE_ADDR_ARM \<equiv> 0x68012800"
abbreviation (input) SMS_RG_ATT0 :: u32 where "SMS_RG_ATT0 \<equiv> 0x6C000048"
abbreviation (input) WD2_BASE :: u32 where "WD2_BASE \<equiv> 0x48314000"

definition get_device_type :: "'h mmio \<Rightarrow> 'h \<Rightarrow> u32 \<times> 'h" where
  "get_device_type mm h = (let (mode, h) = readl mm CONTROL_STATUS h in (drop_bit 8 (mode AND 0x700), h))"

definition secure_unlock :: "'h mmio \<Rightarrow> 'h \<Rightarrow> 'h" where
  "secure_unlock mm h =
     (let h = writel mm UNLOCK_1 (PM_RT_APE_BASE_ADDR_ARM + 0x68) h;
          h = writel mm UNLOCK_1 (PM_RT_APE_BASE_ADDR_ARM + 0x50) h;
          h = writel mm UNLOCK_1 (PM_RT_APE_BASE_ADDR_ARM + 0x58) h;
          h = writel mm UNLOCK_2 (PM_RT_APE_BASE_ADDR_ARM + 0x60) h;
          h = writel mm UNLOCK_3 (PM_GPMC_BASE_ADDR_ARM + 0x48) h;
          h = writel mm UNLOCK_3 (PM_GPMC_BASE_ADDR_ARM + 0x50) h;
          h = writel mm UNLOCK_3 (PM_GPMC_BASE_ADDR_ARM + 0x58) h;
          h = writel mm UNLOCK_3 (PM_OCM_RAM_BASE_ADDR_ARM + 0x48) h;
          h = writel mm UNLOCK_3 (PM_OCM_RAM_BASE_ADDR_ARM + 0x50) h;
          h = writel mm UNLOCK_3 (PM_OCM_RAM_BASE_ADDR_ARM + 0x58) h;
          h = writel mm UNLOCK_2 (PM_OCM_RAM_BASE_ADDR_ARM + 0x80) h
      in writel mm UNLOCK_1 SMS_RG_ATT0 h)"

definition try_unlock_memory :: "'h mmio \<Rightarrow> 'h \<Rightarrow> 'h" where
  "try_unlock_memory mm h =
     (let (mode, h) = get_device_type mm h in if mode = 3 then secure_unlock mm h else h)"

partial_function (option) wait_for_command_complete :: "'h mmio \<Rightarrow> u32 \<Rightarrow> 'h \<Rightarrow> 'h option" where
  "wait_for_command_complete mm wd_base h =
     (let (pending, h) = readl mm (wd_base + 0x34) h
      in if pending \<noteq> 0 then wait_for_command_complete mm wd_base h else Some h)"

definition watchdog_init :: "'h mmio \<Rightarrow> 'h \<Rightarrow> 'h option" where
  "watchdog_init mm h = do {
     let h = sr32 mm CM_FCLKEN_WKUP 5 1 1 h;
     let h = sr32 mm CM_ICLKEN_WKUP 5 1 1 h;
     let h = snd (wait_on_value mm 0x20 0x20 CM_IDLEST_WKUP 5 h);
     let h = writel mm 0xAAAA (WD2_BASE + 0x48) h;
     h \<leftarrow> wait_for_command_complete mm WD2_BASE h;
     Some (writel mm 0x5555 (WD2_BASE + 0x48) h) }"

definition per_clocks_enable :: "'h mmio \<Rightarrow> 'h \<Rightarrow> 'h" where
  "per_clocks_enable mm h =
     (let h = sr32 mm CM_CLKSEL_PER 0 1 1 h;
          h = sr32 mm CM_ICLKEN_PER 3 1 1 h;
          h = sr32 mm CM_FCLKEN_PER 3 1 1 h;
          h = sr32 mm CM_FCLKEN1_CORE 13 1 1 h;
          h = sr32 mm CM_ICLKEN1_CORE 13 1 1 h;
          h = sr32 mm CM_FCLKEN1_CORE 14 1 1 h;
          h = sr32 mm CM_ICLKEN1_CORE 14 1 1 h;
          h = sr32 mm CM_FCLKEN_PER 11 1 1 h;
          h = sr32 mm CM_ICLKEN_PER 11 1 1 h;
          h = sr32 mm CM_FCLKEN1_CORE 24 1 1 h;
          h = sr32 mm CM_ICLKEN1_CORE 24 1 1 h;
          h = sr32 mm CM_FCLKEN1_CORE 25 1 1 h
      in sr32 mm CM_ICLKEN1_CORE 25 1 1 h)"

section \<open>The memory controller of the DRAM\<close>

abbreviation (input) EMIF4_SDRAM_STS :: u32 where "EMIF4_SDRAM_STS \<equiv> 0x6D000004"
abbreviation (input) EMIF4_SDRAM_CFG :: u32 where "EMIF4_SDRAM_CFG \<equiv> 0x6D000008"
abbreviation (input) EMIF4_SDRAM_RFCR :: u32 where "EMIF4_SDRAM_RFCR \<equiv> 0x6D000010"
abbreviation (input) EMIF4_SDRAM_RFCR_SHDW :: u32 where "EMIF4_SDRAM_RFCR_SHDW \<equiv> 0x6D000014"
abbreviation (input) EMIF4_SDRAM_TIM1 :: u32 where "EMIF4_SDRAM_TIM1 \<equiv> 0x6D000018"
abbreviation (input) EMIF4_SDRAM_TIM1_SHDW :: u32 where "EMIF4_SDRAM_TIM1_SHDW \<equiv> 0x6D00001C"
abbreviation (input) EMIF4_SDRAM_TIM2 :: u32 where "EMIF4_SDRAM_TIM2 \<equiv> 0x6D000020"
abbreviation (input) EMIF4_SDRAM_TIM2_SHDW :: u32 where "EMIF4_SDRAM_TIM2_SHDW \<equiv> 0x6D000024"
abbreviation (input) EMIF4_SDRAM_TIM3 :: u32 where "EMIF4_SDRAM_TIM3 \<equiv> 0x6D000028"
abbreviation (input) EMIF4_SDRAM_TIM3_SHDW :: u32 where "EMIF4_SDRAM_TIM3_SHDW \<equiv> 0x6D00002C"
abbreviation (input) EMIF4_PWR_MGT_CTRL :: u32 where "EMIF4_PWR_MGT_CTRL \<equiv> 0x6D000038"
abbreviation (input) EMIF4_PWR_MGT_CTRL_SHDW :: u32 where "EMIF4_PWR_MGT_CTRL_SHDW \<equiv> 0x6D00003C"
abbreviation (input) EMIF4_IODFT_TLGC :: u32 where "EMIF4_IODFT_TLGC \<equiv> 0x6D000060"
abbreviation (input) EMIF4_DDR_PHYCTL1 :: u32 where "EMIF4_DDR_PHYCTL1 \<equiv> 0x6D0000E4"
abbreviation (input) EMIF4_DDR_PHYCTL1_SHDW :: u32 where "EMIF4_DDR_PHYCTL1_SHDW \<equiv> 0x6D0000E8"
abbreviation (input) EMIF4_DDR_PHYCTL2 :: u32 where "EMIF4_DDR_PHYCTL2 \<equiv> 0x6D0000EC"

text \<open>Polling a register while its bits \<open>k\<close> have the value \<open>v\<close>.\<close>

partial_function (option) wait_while :: "'h mmio \<Rightarrow> u32 \<Rightarrow> u32 \<Rightarrow> u32 \<Rightarrow> 'h \<Rightarrow> 'h option" where
  "wait_while mm a k v h = (let (x, h) = readl mm a h in if x AND k = v then wait_while mm a k v h else Some h)"

text \<open>The fields of a register, given as values and positions.\<close>

definition or_fields :: "(u32 \<times> nat) list \<Rightarrow> u32" where
  "or_fields fs = foldr (\<lambda>(v, s) w. push_bit s v OR w) fs 0"

definition emif4_phy1 :: u32 where
  "emif4_phy1 = or_fields [(0x6, 0), (0x0, 6), (0x0, 7), (0x0, 12), (0x0, 15), (0x0, 23)]"

definition emif4_phy2 :: u32 where
  "emif4_phy2 = or_fields [(0x0, 0), (0x0, 1)]"

definition emif4_tim1 :: u32 where
  "emif4_tim1 = or_fields [(0x2, 0), (0x2, 3), (0xA, 6), (0x8, 12), (0x3, 17), (0x3, 21), (0x3, 25)]"

definition emif4_tim2 :: u32 where
  "emif4_tim2 = or_fields [(0x2, 0), (0x1, 3), (0xC8, 6), (0x1C, 16), (0x1, 25), (0x2, 28)]"

definition emif4_tim3 :: u32 where
  "emif4_tim3 = or_fields [(0x7, 0), (0x25, 4), (0x0, 13)]"

definition emif4_pwr :: u32 where
  "emif4_pwr = or_fields [(0x0, 0), (0x0, 8), (0x0, 10), (0x2, 30)]"

definition emif4_rfcr :: u32 where
  "emif4_rfcr = or_fields [(0x50F, 0), (0x0, 24), (0x0, 31)]"

definition emif4_cfg :: u32 where
  "emif4_cfg = or_fields [(0x2, 0), (0x0, 3), (0x3, 4), (0x4, 7), (0x5, 10), (0x0, 14), (0x0, 16), (0x0, 18),
     (0x0, 20), (0x0, 21), (0x1, 23), (0x0, 24), (0x0, 27), (0x2, 29)]"

definition config_emif4_ddr :: "'h mmio \<Rightarrow> 'h \<Rightarrow> 'h option" where
  "config_emif4_ddr mm h = do {
     let h = writel mm emif4_phy1 EMIF4_DDR_PHYCTL1 h;
     let h = writel mm emif4_phy1 EMIF4_DDR_PHYCTL1_SHDW h;
     let h = writel mm emif4_phy2 EMIF4_DDR_PHYCTL2 h;
     let h = sr32 mm EMIF4_IODFT_TLGC 10 1 1 h;
     h \<leftarrow> wait_while mm EMIF4_IODFT_TLGC (push_bit 10 1) 1 h;
     h \<leftarrow> wait_while mm EMIF4_SDRAM_STS (push_bit 2 1) 0 h;
     let h = sr32 mm EMIF4_IODFT_TLGC 0 1 1 h;
     let h = writel mm emif4_tim1 EMIF4_SDRAM_TIM1 h;
     let h = writel mm emif4_tim1 EMIF4_SDRAM_TIM1_SHDW h;
     let h = writel mm emif4_tim2 EMIF4_SDRAM_TIM2 h;
     let h = writel mm emif4_tim2 EMIF4_SDRAM_TIM2_SHDW h;
     let h = writel mm emif4_tim3 EMIF4_SDRAM_TIM3 h;
     let h = writel mm emif4_tim3 EMIF4_SDRAM_TIM3_SHDW h;
     let h = writel mm emif4_pwr EMIF4_PWR_MGT_CTRL h;
     let h = writel mm emif4_pwr EMIF4_PWR_MGT_CTRL_SHDW h;
     let h = writel mm emif4_rfcr EMIF4_SDRAM_RFCR h;
     let h = writel mm emif4_rfcr EMIF4_SDRAM_RFCR_SHDW h;
     Some (writel mm emif4_cfg EMIF4_SDRAM_CFG h) }"

definition s_init :: "'h mmio \<Rightarrow> u32 \<Rightarrow> u32 \<Rightarrow> 'h \<Rightarrow> 'h option" where
  "s_init mm cpuid sel h = do {
     h \<leftarrow> watchdog_init mm h;
     let h = try_unlock_memory mm h;
     let h = x_set_muxconf_regs mm h;
     h \<leftarrow> prcm_init mm cpuid sel h;
     let h = per_clocks_enable mm h;
     let h = sr32 mm (OMAP34XX_CTRL_BASE + 0x588) 15 15 1 h;
     let h = sr32 mm (OMAP34XX_CTRL_BASE + 0x588) 14 14 1 h;
     let h = sr32 mm (OMAP34XX_CTRL_BASE + 0x59C) 0 4 0xF h;
     let h = sr32 mm (OMAP34XX_CTRL_BASE + 0x59C) 8 10 7 h;
     let h = sr32 mm (OMAP34XX_CTRL_BASE + 0x598) 1 1 1 h;
     config_emif4_ddr mm h }"

section \<open>Bringing the board up\<close>

text \<open>
  The rest of the hardware that \<open>s_init\<close> uses: the registers of the DRAM controller and three control registers hold what
  was written last; the watchdog has a command pending for at most a thousand reads, and the DRAM controller becomes ready
  after some reads of its status. Writing a pad takes no longer than other accesses.
\<close>

definition DEVCONF :: u32 where "DEVCONF = 0x48002588"
definition IPCLK :: u32 where "IPCLK = 0x4800259C"
definition IP_SW_RESET :: u32 where "IP_SW_RESET = 0x48002598"

definition board_regs :: "u32 set" where
  "board_regs = {DEVCONF, IPCLK, IP_SW_RESET, EMIF4_DDR_PHYCTL1, EMIF4_DDR_PHYCTL1_SHDW, EMIF4_DDR_PHYCTL2,
     EMIF4_SDRAM_TIM1, EMIF4_SDRAM_TIM1_SHDW, EMIF4_SDRAM_TIM2, EMIF4_SDRAM_TIM2_SHDW, EMIF4_SDRAM_TIM3, EMIF4_SDRAM_TIM3_SHDW,
     EMIF4_PWR_MGT_CTRL, EMIF4_PWR_MGT_CTRL_SHDW, EMIF4_SDRAM_RFCR, EMIF4_SDRAM_RFCR_SHDW, EMIF4_SDRAM_CFG}"

record 'h board_view =
  wd_pending :: "'h \<Rightarrow> nat"
  phy_late :: "'h \<Rightarrow> nat"

definition board_law :: "'h mmio \<Rightarrow> ('h \<Rightarrow> u32 \<Rightarrow> u32) \<Rightarrow> ('h \<Rightarrow> u32 \<Rightarrow> u32) \<Rightarrow> 'h clock_view \<Rightarrow> 'h board_view \<Rightarrow> bool" where
  "board_law mm rf rg cv bv \<longleftrightarrow> plain_regs mm rg board_regs \<and>
     (\<forall>h. (fst (readl mm (WD2_BASE + 0x34) h) = 0 \<longleftrightarrow> wd_pending bv h = 0) \<and> wd_pending bv (snd (readl mm (WD2_BASE + 0x34) h)) = wd_pending bv h - 1 \<and>
        wd_pending bv h \<le> 1000) \<and>
     (\<forall>h. (fst (readl mm EMIF4_SDRAM_STS h) AND push_bit 2 1 = 0 \<longleftrightarrow> phy_late bv h \<noteq> 0) \<and>
        phy_late bv (snd (readl mm EMIF4_SDRAM_STS h)) = phy_late bv h - 1) \<and>
     (\<forall>v a h. rf (writew mm v a h) = rf h \<and> ticks cv (writew mm v a h) \<le> ticks cv h + 100)"

lemma board_law_regs: "board_law mm rf rg cv bv \<Longrightarrow> plain_regs mm rg board_regs" by (simp add: board_law_def)

lemma in_board_regs:
  "DEVCONF \<in> board_regs" "IPCLK \<in> board_regs" "IP_SW_RESET \<in> board_regs"
  "EMIF4_DDR_PHYCTL1 \<in> board_regs" "EMIF4_DDR_PHYCTL1_SHDW \<in> board_regs" "EMIF4_DDR_PHYCTL2 \<in> board_regs"
  "EMIF4_SDRAM_TIM1 \<in> board_regs" "EMIF4_SDRAM_TIM1_SHDW \<in> board_regs" "EMIF4_SDRAM_TIM2 \<in> board_regs" "EMIF4_SDRAM_TIM2_SHDW \<in> board_regs"
  "EMIF4_SDRAM_TIM3 \<in> board_regs" "EMIF4_SDRAM_TIM3_SHDW \<in> board_regs" "EMIF4_PWR_MGT_CTRL \<in> board_regs" "EMIF4_PWR_MGT_CTRL_SHDW \<in> board_regs"
  "EMIF4_SDRAM_RFCR \<in> board_regs" "EMIF4_SDRAM_RFCR_SHDW \<in> board_regs" "EMIF4_SDRAM_CFG \<in> board_regs"
  unfolding board_regs_def by blast+

lemma TLGC_notin_board_regs: "EMIF4_IODFT_TLGC \<notin> board_regs"
  by (simp add: board_regs_def DEVCONF_def IPCLK_def IP_SW_RESET_def)

lemma clock_regs_range: "a \<in> clock_regs \<Longrightarrow> 0x48004000 \<le> a \<and> a < 0x49000000"
  unfolding clock_regs_def by (elim insertE; simp)

lemma notin_clock_regs: "a < 0x48004000 \<or> 0x49000000 \<le> a \<Longrightarrow> a \<notin> clock_regs"
  using clock_regs_range [of a] by auto

lemma wait_while_one: "wait_while mm a (push_bit 10 1) 1 h = Some (snd (readl mm a h))"
proof -
  have "fst (readl mm a h) AND push_bit 10 1 \<noteq> 1"
    by (metis (no_types) bit_and_iff bit_push_bit_iff bit_1_0 le_zero_eq zero_neq_numeral)
  then show ?thesis by (subst wait_while.simps) (simp add: case_prod_beta)
qed

lemma wait_sts_ready:
  assumes l: "board_law mm rf rg cv bv" and p: "plain_regs mm r S"
  shows "\<exists>h'. wait_while mm EMIF4_SDRAM_STS (push_bit 2 1) 0 h = Some h' \<and> r h' = r h"
proof (induction "phy_late bv h" arbitrary: h)
  case 0
  then show ?case using l by (subst wait_while.simps) (auto simp: board_law_def case_prod_beta plain_regs_keep [OF p])
next
  case (Suc n)
  let ?h = "snd (readl mm EMIF4_SDRAM_STS h)"
  have x: "phy_late bv ?h = n" "fst (readl mm EMIF4_SDRAM_STS h) AND push_bit 2 1 = 0"
    using l Suc.hyps(2) by (simp_all add: board_law_def flip: Suc.hyps(2))
  then show ?case using Suc.hyps(1) [of ?h] by (subst wait_while.simps) (simp add: case_prod_beta plain_regs_keep [OF p])
qed

lemma wait_wd_ready:
  assumes l: "board_law mm rf rg cv bv" and c: "clock_law mm rf cv f"
  shows "\<exists>h'. wait_for_command_complete mm WD2_BASE h = Some h' \<and> ticks cv h' \<le> ticks cv h + 100 * (wd_pending bv h + 1)"
proof (induction "wd_pending bv h" arbitrary: h)
  case 0
  then show ?case using l clock_law_read(2) [OF c, of "WD2_BASE + 0x34" h]
    by (subst wait_for_command_complete.simps) (auto simp: board_law_def case_prod_beta)
next
  case (Suc n)
  let ?h = "snd (readl mm (WD2_BASE + 0x34) h)"
  have x: "wd_pending bv ?h = n" "fst (readl mm (WD2_BASE + 0x34) h) \<noteq> 0"
    using l Suc.hyps(2) by (simp_all add: board_law_def flip: Suc.hyps(2))
  then obtain h' where "wait_for_command_complete mm WD2_BASE ?h = Some h'" "ticks cv h' \<le> ticks cv ?h + 100 * (n + 1)"
    using Suc.hyps(1) [of ?h] by auto
  then show ?case using x Suc.hyps(2) clock_law_read(2) [OF c, of "WD2_BASE + 0x34" h]
    by (subst wait_for_command_complete.simps) (auto simp: case_prod_beta)
qed

lemma ticks_sr32: "clock_law mm rf cv f \<Longrightarrow> ticks cv (sr32 mm a s n v h) \<le> ticks cv h + 200"
  using clock_law_write [of mm rf cv f "_" a "snd (readl mm a h)"] clock_law_read(2) [of mm rf cv f a h]
  by (fastforce simp: sr32_def Let_def case_prod_beta intro: order_trans)

lemma ticks_wait_loop:
  "clock_law mm rf cv f \<Longrightarrow> ticks cv (snd (wait_loop mm k v a b i h)) \<le> ticks cv h + 100 * (unat (b - i - 1) + 1)"
proof (induction mm k v a b i h rule: wait_loop.induct)
  case (1 mm k v a b i h)
  obtain x y where r: "readl mm a h = (x, y)" by (cases "readl mm a h")
  have y: "ticks cv y \<le> ticks cv h + 100" using clock_law_read(2) [OF "1.prems", of a h] by (simp add: r)
  show ?case
  proof (cases "x AND k = v \<or> i + 1 = b")
    case True
    then show ?thesis using y by (subst wait_loop.simps) (auto simp: Let_def r)
  next
    case False
    have "ticks cv (snd (wait_loop mm k v a b (i + 1) y)) \<le> ticks cv y + 100 * (unat (b - i - 2) + 1)"
      using "1.IH" [OF refl refl r [symmetric]] "1.prems" False by simp
    moreover have "unat (b - i - 2) < unat (b - i - 1)" using countdown False by blast
    moreover have "w \<le> t + 100 * (n + 1)" if "w \<le> u + 100 * (m + 1)" "m < n" "u \<le> t + 100" for m n t u w :: nat
      using that by simp
    ultimately have "ticks cv (snd (wait_loop mm k v a b (i + 1) y)) \<le> ticks cv h + 100 * (unat (b - i - 1) + 1)"
      using y by blast
    then show ?thesis using False by (subst wait_loop.simps) (simp add: Let_def r)
  qed
qed

lemma ticks_mux:
  assumes "board_law mm rf rg cv bv"
  shows "ticks cv (fold (\<lambda>(off, v). writew mm v (b + of_nat off)) t h) \<le> ticks cv h + 100 * length t"
proof (induction t arbitrary: h)
  case (Cons x t)
  obtain off v where x: "x = (off, v)" by (cases x)
  have "ticks cv (writew mm v (b + of_nat off) h) \<le> ticks cv h + 100" using assms by (simp add: board_law_def)
  then show ?case using Cons.IH [of "writew mm v (b + of_nat off) h"] by (simp add: x)
qed simp

lemma watchdog_init_returns:
  assumes l: "board_law mm rf rg cv bv" and c: "clock_law mm rf cv f"
  obtains h' where "watchdog_init mm h = Some h'" "ticks cv h' \<le> ticks cv h + 2 ^ 20"
proof -
  define h1 where "h1 = sr32 mm CM_ICLKEN_WKUP 5 1 1 (sr32 mm CM_FCLKEN_WKUP 5 1 1 h)"
  define h2 where "h2 = writel mm 0xAAAA (WD2_BASE + 0x48) (snd (wait_on_value mm 0x20 0x20 CM_IDLEST_WKUP 5 h1))"
  have "ticks cv h1 \<le> ticks cv h + 400"
    using ticks_sr32 [OF c, of CM_FCLKEN_WKUP 5 1 1 h] ticks_sr32 [OF c, of CM_ICLKEN_WKUP 5 1 1 "sr32 mm CM_FCLKEN_WKUP 5 1 1 h"]
    by (simp add: h1_def)
  then have t2: "ticks cv h2 \<le> ticks cv h + 1000"
    using ticks_wait_loop [OF c, of "0x20" "0x20" CM_IDLEST_WKUP 5 0 h1]
      clock_law_write [OF c, of "0xAAAA" "WD2_BASE + 0x48" "snd (wait_on_value mm 0x20 0x20 CM_IDLEST_WKUP 5 h1)"]
    by (simp add: h2_def wait_on_value_def)
  obtain h3 where h3: "wait_for_command_complete mm WD2_BASE h2 = Some h3" "ticks cv h3 \<le> ticks cv h2 + 100 * (wd_pending bv h2 + 1)"
    using wait_wd_ready [OF l c] by blast
  have "wd_pending bv h2 \<le> 1000" using l by (simp add: board_law_def)
  then have "ticks cv (writel mm 0x5555 (WD2_BASE + 0x48) h3) \<le> ticks cv h + 2 ^ 20"
    using t2 h3(2) clock_law_write [OF c, of "0x5555" "WD2_BASE + 0x48" h3] by simp
  then show ?thesis
    by (rule that [rotated]) (use h3(1) in \<open>simp add: watchdog_init_def Let_def h1_def h2_def\<close>)
qed

lemma unlock_mux_ticks:
  assumes l: "board_law mm rf rg cv bv" and c: "clock_law mm rf cv f"
  shows "ticks cv (x_set_muxconf_regs mm (try_unlock_memory mm h)) \<le> ticks cv h + 2 ^ 20"
proof -
  have s: "ticks cv (writel mm v a x) \<le> n + 100" if "ticks cv x \<le> n" for v a x n
    using clock_law_write [OF c, of v a x] that by simp
  have u: "ticks cv (secure_unlock mm x) \<le> ticks cv x + 1200" for x
  proof -
    have "ticks cv (secure_unlock mm x) \<le> ticks cv x + 100 + 100 + 100 + 100 + 100 + 100 + 100 + 100 + 100 + 100 + 100 + 100"
      unfolding secure_unlock_def Let_def by (intro s order_refl)
    then show ?thesis by simp
  qed
  have "ticks cv (try_unlock_memory mm h) \<le> ticks cv h + 1300"
    using clock_law_read(2) [OF c, of CONTROL_STATUS h] u [of "snd (readl mm CONTROL_STATUS h)"]
    by (simp add: try_unlock_memory_def get_device_type_def case_prod_beta Let_def)
  moreover have "length MUX_DEFAULT = 119" by (simp add: MUX_DEFAULT_def xmux_sdrc_def xmux_gpmc_def xmux_uart_def xmux_mmc2_def xmux_sys_def xmux_jtag_def)
  ultimately show ?thesis using ticks_mux [OF l, of OMAP34XX_CTRL_BASE MUX_DEFAULT "try_unlock_memory mm h"] by (simp add: x_set_muxconf_regs_def)
qed

lemma sr32_other:
  assumes "plain_regs mm rf S" "a \<notin> S"
  shows "rf (sr32 mm a s n v h) = rf h"
  using assms by (simp add: sr32_def Let_def case_prod_beta plain_regs_write plain_regs_keep)

text \<open>The registers of the DRAM controller as \<open>config_emif4_ddr\<close> sets them.\<close>

definition emif4_ready :: "(u32 \<Rightarrow> u32) \<Rightarrow> bool" where
  "emif4_ready r \<longleftrightarrow> r EMIF4_DDR_PHYCTL1 = emif4_phy1 \<and> r EMIF4_DDR_PHYCTL2 = emif4_phy2 \<and>
     r EMIF4_SDRAM_TIM1 = emif4_tim1 \<and> r EMIF4_SDRAM_TIM2 = emif4_tim2 \<and> r EMIF4_SDRAM_TIM3 = emif4_tim3 \<and>
     r EMIF4_PWR_MGT_CTRL = emif4_pwr \<and> r EMIF4_SDRAM_RFCR = emif4_rfcr \<and> r EMIF4_SDRAM_CFG = emif4_cfg \<and>
     r EMIF4_DDR_PHYCTL1_SHDW = r EMIF4_DDR_PHYCTL1 \<and> r EMIF4_SDRAM_TIM1_SHDW = r EMIF4_SDRAM_TIM1 \<and>
     r EMIF4_SDRAM_TIM2_SHDW = r EMIF4_SDRAM_TIM2 \<and> r EMIF4_SDRAM_TIM3_SHDW = r EMIF4_SDRAM_TIM3 \<and>
     r EMIF4_PWR_MGT_CTRL_SHDW = r EMIF4_PWR_MGT_CTRL \<and> r EMIF4_SDRAM_RFCR_SHDW = r EMIF4_SDRAM_RFCR"

lemma config_emif4_ddr_returns:
  assumes l: "board_law mm rf rg cv bv" and c: "plain_regs mm rf clock_regs"
  obtains h' where "config_emif4_ddr mm h = Some h'" "emif4_ready (rg h')" "rf h' = rf h"
    "rg h' DEVCONF = rg h DEVCONF" "rg h' IPCLK = rg h IPCLK" "rg h' IP_SW_RESET = rg h IP_SW_RESET"
proof -
  note g = board_law_regs [OF l]
  define h1 where "h1 = snd (readl mm EMIF4_IODFT_TLGC (sr32 mm EMIF4_IODFT_TLGC 10 1 1 (writel mm emif4_phy2 EMIF4_DDR_PHYCTL2
    (writel mm emif4_phy1 EMIF4_DDR_PHYCTL1_SHDW (writel mm emif4_phy1 EMIF4_DDR_PHYCTL1 h)))))"
  obtain h2 where h2: "wait_while mm EMIF4_SDRAM_STS (push_bit 2 1) 0 h1 = Some h2" "rg h2 = rg h1"
    using wait_sts_ready [OF l g] by blast
  have f2: "rf h2 = rf h1" using wait_sts_ready [OF l c, of h1] h2(1) by simp
  let ?h' = "writel mm emif4_cfg EMIF4_SDRAM_CFG (writel mm emif4_rfcr EMIF4_SDRAM_RFCR_SHDW (writel mm emif4_rfcr EMIF4_SDRAM_RFCR
    (writel mm emif4_pwr EMIF4_PWR_MGT_CTRL_SHDW (writel mm emif4_pwr EMIF4_PWR_MGT_CTRL (writel mm emif4_tim3 EMIF4_SDRAM_TIM3_SHDW
    (writel mm emif4_tim3 EMIF4_SDRAM_TIM3 (writel mm emif4_tim2 EMIF4_SDRAM_TIM2_SHDW (writel mm emif4_tim2 EMIF4_SDRAM_TIM2
    (writel mm emif4_tim1 EMIF4_SDRAM_TIM1_SHDW (writel mm emif4_tim1 EMIF4_SDRAM_TIM1 (sr32 mm EMIF4_IODFT_TLGC 0 1 1 h2)))))))))))"
  note w = plain_regs_write [OF g] plain_regs_keep [OF g] sr32_other [OF g TLGC_notin_board_regs] in_board_regs h2(2) h1_def
  show ?thesis
  proof (rule that)
    show "config_emif4_ddr mm h = Some ?h'"
      using h2(1) by (simp add: config_emif4_ddr_def wait_while_one [simplified] Let_def h1_def)
    show "emif4_ready (rg ?h')" by (simp add: emif4_ready_def w)
    show "rf ?h' = rf h"
      using notin_clock_regs by (simp add: plain_regs_write [OF c] plain_regs_keep [OF c] sr32_other [OF c] f2 h1_def)
    show "rg ?h' DEVCONF = rg h DEVCONF" "rg ?h' IPCLK = rg h IPCLK" "rg ?h' IP_SW_RESET = rg h IP_SW_RESET"
      by (simp_all add: w DEVCONF_def IPCLK_def IP_SW_RESET_def)
  qed
qed

lemma per_clocks_enable_regs:
  assumes c: "plain_regs mm rf clock_regs"
  shows "mpu_clock f (rf (per_clocks_enable mm h)) = mpu_clock f (rf h)" "l3_clock f (rf (per_clocks_enable mm h)) = l3_clock f (rf h)"
    "per_clock f (rf (per_clocks_enable mm h)) = per_clock f (rf h)"
    "list_all (\<lambda>i. bit (rf (per_clocks_enable mm h) CM_FCLKEN1_CORE) i \<and> bit (rf (per_clocks_enable mm h) CM_ICLKEN1_CORE) i) [13, 14, 24, 25]"
proof -
  note s = per_clocks_enable_def Let_def sr32_regs [OF c] in_clock_regs
  show "mpu_clock f (rf (per_clocks_enable mm h)) = mpu_clock f (rf h)" by (simp add: mpu_clock_def sys_clock_def s)
  show "l3_clock f (rf (per_clocks_enable mm h)) = l3_clock f (rf h)" by (simp add: l3_clock_def core_clock_def sys_clock_def s)
  show "per_clock f (rf (per_clocks_enable mm h)) = per_clock f (rf h)" by (simp add: per_clock_def sys_clock_def s)
  have "rf (per_clocks_enable mm h) CM_FCLKEN1_CORE = setf 25 1 1 (setf 24 1 1 (setf 14 1 1 (setf 13 1 1 (rf h CM_FCLKEN1_CORE))))"
    "rf (per_clocks_enable mm h) CM_ICLKEN1_CORE = setf 25 1 1 (setf 24 1 1 (setf 14 1 1 (setf 13 1 1 (rf h CM_ICLKEN1_CORE))))"
    by (simp_all add: s)
  then show "list_all (\<lambda>i. bit (rf (per_clocks_enable mm h) CM_FCLKEN1_CORE) i \<and> bit (rf (per_clocks_enable mm h) CM_ICLKEN1_CORE) i) [13, 14, 24, 25]"
    by (simp add: bit_setf)
qed

text \<open>The three control registers that \<open>s_init\<close> sets between the clocks and the DRAM controller.\<close>

definition ctrl_init :: "'h mmio \<Rightarrow> 'h \<Rightarrow> 'h" where
  "ctrl_init mm h = sr32 mm IP_SW_RESET 1 1 1 (sr32 mm IPCLK 8 10 7 (sr32 mm IPCLK 0 4 0xF (sr32 mm DEVCONF 14 14 1 (sr32 mm DEVCONF 15 15 1 h))))"

lemma ctrl_init_regs:
  assumes g: "plain_regs mm rg board_regs" and c: "plain_regs mm rf clock_regs"
  shows "rf (ctrl_init mm h) = rf h" "bit (rg (ctrl_init mm h) DEVCONF) 14" "\<not> bit (rg (ctrl_init mm h) DEVCONF) 15"
    "bit (rg (ctrl_init mm h) IP_SW_RESET) 1"
proof -
  have n: "DEVCONF \<notin> clock_regs" "IPCLK \<notin> clock_regs" "IP_SW_RESET \<notin> clock_regs"
    by (rule notin_clock_regs; simp add: DEVCONF_def IPCLK_def IP_SW_RESET_def)+
  show "rf (ctrl_init mm h) = rf h" by (simp add: ctrl_init_def sr32_other [OF c] n)
  have d: "DEVCONF \<noteq> IPCLK" "DEVCONF \<noteq> IP_SW_RESET" "IP_SW_RESET \<noteq> IPCLK" by (simp_all add: DEVCONF_def IPCLK_def IP_SW_RESET_def)
  have "rg (ctrl_init mm h) DEVCONF = setf 14 14 1 (setf 15 15 1 (rg h DEVCONF))"
    "\<exists>w. rg (ctrl_init mm h) IP_SW_RESET = setf 1 1 1 w"
    using d by (auto simp: ctrl_init_def sr32_regs [OF g] in_board_regs)
  then show "bit (rg (ctrl_init mm h) DEVCONF) 14" "\<not> bit (rg (ctrl_init mm h) DEVCONF) 15" "bit (rg (ctrl_init mm h) IP_SW_RESET) 1"
    by (auto simp: bit_setf bit_1_iff)
qed


section \<open>A board\<close>

text \<open>A board with an oscillator of 26 MHz, on which a register access takes eight periods, and whose devices are ready at once.\<close>

record brd_demo =
  bd_ticks :: nat
  bd_clk :: "u32 \<Rightarrow> u32"
  bd_brd :: "u32 \<Rightarrow> u32"

definition brd_readl :: "u32 \<Rightarrow> brd_demo \<Rightarrow> u32 \<times> brd_demo" where
  "brd_readl a h = (if a = S32K_CR then of_nat (bd_ticks h * 32768 div 26000000)
     else if a = GPT1_TCRR then of_nat (bd_ticks h) else if a = WD2_BASE + 0x34 then 0 else if a = EMIF4_SDRAM_STS then 4
     else if a \<in> clock_regs then bd_clk h a else bd_brd h a, h\<lparr>bd_ticks := bd_ticks h + 8\<rparr>)"

definition brd_writel :: "u32 \<Rightarrow> u32 \<Rightarrow> brd_demo \<Rightarrow> brd_demo" where
  "brd_writel v a h = h\<lparr>bd_ticks := bd_ticks h + 8, bd_clk := (if a \<in> clock_regs then (bd_clk h)(a := v) else bd_clk h),
     bd_brd := (if a \<in> board_regs then (bd_brd h)(a := v) else bd_brd h)\<rparr>"

definition brd_mmio :: "brd_demo mmio" where
  "brd_mmio = \<lparr>readb = \<lambda>_ h. (0, h), writeb = \<lambda>_ _ h. h, readw = \<lambda>_ h. (0, h), writew = \<lambda>_ _ h. h, readl = brd_readl, writel = brd_writel\<rparr>"

definition brd_clocks :: "brd_demo clock_view" where
  "brd_clocks = \<lparr>ticks = bd_ticks, timer0 = \<lambda>_. 0\<rparr>"

definition brd_start :: brd_demo where
  "brd_start = \<lparr>bd_ticks = 0, bd_clk = \<lambda>_. 0, bd_brd = \<lambda>_. 0\<rparr>"

lemma not_plain:
  "S32K_CR \<notin> clock_regs" "GPT1_TCRR \<notin> clock_regs" "WD2_BASE + 0x34 \<notin> clock_regs" "EMIF4_SDRAM_STS \<notin> clock_regs"
  "S32K_CR \<notin> board_regs" "GPT1_TCRR \<notin> board_regs" "WD2_BASE + 0x34 \<notin> board_regs" "EMIF4_SDRAM_STS \<notin> board_regs"
  by (simp_all add: clock_regs_def board_regs_def DEVCONF_def IPCLK_def IP_SW_RESET_def)

lemma board_regs_range: "a \<in> board_regs \<Longrightarrow> a < 0x48004000 \<or> 0x49000000 \<le> a"
  unfolding board_regs_def DEVCONF_def IPCLK_def IP_SW_RESET_def by (elim insertE; simp)

lemma brd_mmio_clock_law: "clock_law brd_mmio bd_clk brd_clocks 26000000"
  using not_plain by (auto simp: clock_law_def plain_regs_def brd_mmio_def brd_clocks_def brd_readl_def brd_writel_def)

lemma brd_mmio_board_law: "board_law brd_mmio bd_clk bd_brd brd_clocks \<lparr>wd_pending = \<lambda>_. 0, phy_late = \<lambda>_. 0\<rparr>"
  using not_plain board_regs_range [THEN notin_clock_regs]
  by (auto simp: board_law_def plain_regs_def brd_mmio_def brd_clocks_def brd_readl_def brd_writel_def)

lemma brd_start_ticks: "ticks brd_clocks brd_start = 0"
  by (simp add: brd_clocks_def brd_start_def)



end
