(* ===== verification/UbootGpio.thy ===== *)
theory UbootGpio
  imports Mmio
begin

text \<open>
  The general-purpose pins, as the second-stage loader drives them (\<open>src/u-boot/arch/arm/cpu/arm_cortexa8/omap3/gpio.c\<close>):
  the driver, the laws of the controller, and that the driver does with the registers of six banks what the
  controller promises pin by pin. The messages of the driver are left out.
\<close>

section \<open>The driver\<close>

record gpio_bank =
  gb_base :: u32
  gb_method :: int

abbreviation (input) METHOD_GPIO_24XX :: int where "METHOD_GPIO_24XX \<equiv> 4"
abbreviation (input) OMAP24XX_GPIO_OE :: u32 where "OMAP24XX_GPIO_OE \<equiv> 0x34"
abbreviation (input) OMAP24XX_GPIO_DATAIN :: u32 where "OMAP24XX_GPIO_DATAIN \<equiv> 0x38"
abbreviation (input) OMAP24XX_GPIO_DATAOUT :: u32 where "OMAP24XX_GPIO_DATAOUT \<equiv> 0x3c"
abbreviation (input) OMAP24XX_GPIO_CLEARDATAOUT :: u32 where "OMAP24XX_GPIO_CLEARDATAOUT \<equiv> 0x90"
abbreviation (input) OMAP24XX_GPIO_SETDATAOUT :: u32 where "OMAP24XX_GPIO_SETDATAOUT \<equiv> 0x94"

definition gpio_bank_34xx :: "gpio_bank list" where
  "gpio_bank_34xx =
     [\<lparr>gb_base = 0x48310000, gb_method = METHOD_GPIO_24XX\<rparr>,
      \<lparr>gb_base = 0x49050000, gb_method = METHOD_GPIO_24XX\<rparr>,
      \<lparr>gb_base = 0x49052000, gb_method = METHOD_GPIO_24XX\<rparr>,
      \<lparr>gb_base = 0x49054000, gb_method = METHOD_GPIO_24XX\<rparr>,
      \<lparr>gb_base = 0x49056000, gb_method = METHOD_GPIO_24XX\<rparr>,
      \<lparr>gb_base = 0x49058000, gb_method = METHOD_GPIO_24XX\<rparr>]"

definition get_gpio_bank :: "int \<Rightarrow> gpio_bank" where
  "get_gpio_bank gpio = gpio_bank_34xx ! nat (drop_bit 5 gpio)"

definition get_gpio_index :: "int \<Rightarrow> int" where
  "get_gpio_index gpio = gpio AND 0x1f"

definition gpio_valid :: "int \<Rightarrow> int" where
  "gpio_valid gpio = (if gpio < 0 then -1 else if gpio < 192 then 0 else -1)"

definition check_gpio :: "int \<Rightarrow> int" where
  "check_gpio gpio = (if gpio_valid gpio < 0 then -1 else 0)"

definition set_gpio_direction :: "'h mmio \<Rightarrow> gpio_bank \<Rightarrow> int \<Rightarrow> int \<Rightarrow> 'h \<Rightarrow> 'h" where
  "set_gpio_direction mm bank gpio is_input h =
     (if gb_method bank = METHOD_GPIO_24XX
      then let reg = gb_base bank + OMAP24XX_GPIO_OE;
               (l, h) = readl mm reg h;
               l = (if is_input \<noteq> 0 then l OR push_bit (nat gpio) 1 else l AND NOT (push_bit (nat gpio) 1))
           in writel mm l reg h
      else h)"

definition omap_set_gpio_direction :: "'h mmio \<Rightarrow> int \<Rightarrow> int \<Rightarrow> 'h \<Rightarrow> 'h" where
  "omap_set_gpio_direction mm gpio is_input h =
     (if check_gpio gpio < 0 then h
      else set_gpio_direction mm (get_gpio_bank gpio) (get_gpio_index gpio) is_input h)"

definition set_gpio_dataout :: "'h mmio \<Rightarrow> gpio_bank \<Rightarrow> int \<Rightarrow> int \<Rightarrow> 'h \<Rightarrow> 'h" where
  "set_gpio_dataout mm bank gpio enable h =
     (if gb_method bank = METHOD_GPIO_24XX
      then let reg = gb_base bank + (if enable \<noteq> 0 then OMAP24XX_GPIO_SETDATAOUT else OMAP24XX_GPIO_CLEARDATAOUT);
               l = push_bit (nat gpio) 1
           in writel mm l reg h
      else h)"

definition omap_set_gpio_dataout :: "'h mmio \<Rightarrow> int \<Rightarrow> int \<Rightarrow> 'h \<Rightarrow> 'h" where
  "omap_set_gpio_dataout mm gpio enable h =
     (if check_gpio gpio < 0 then h
      else set_gpio_dataout mm (get_gpio_bank gpio) (get_gpio_index gpio) enable h)"

definition omap_get_gpio_datain :: "'h mmio \<Rightarrow> int \<Rightarrow> 'h \<Rightarrow> int \<times> 'h" where
  "omap_get_gpio_datain mm gpio h =
     (if check_gpio gpio < 0 then (- EINVAL, h)
      else let bank = get_gpio_bank gpio
           in if gb_method bank = METHOD_GPIO_24XX
              then let (l, h) = readl mm (gb_base bank + OMAP24XX_GPIO_DATAIN) h
                   in (of_bool (l AND push_bit (nat (get_gpio_index gpio)) 1 \<noteq> 0), h)
              else (- EINVAL, h))"

definition reset_gpio :: "'h mmio \<Rightarrow> gpio_bank \<Rightarrow> int \<Rightarrow> 'h \<Rightarrow> 'h" where
  "reset_gpio mm bank gpio h = set_gpio_direction mm bank (get_gpio_index gpio) 1 h"

definition omap_request_gpio :: "int \<Rightarrow> int" where
  "omap_request_gpio gpio = (if check_gpio gpio < 0 then - EINVAL else 0)"

definition omap_free_gpio :: "'h mmio \<Rightarrow> int \<Rightarrow> 'h \<Rightarrow> 'h" where
  "omap_free_gpio mm gpio h =
     (if check_gpio gpio < 0 then h else reset_gpio mm (get_gpio_bank gpio) gpio h)"

section \<open>The controller\<close>

text \<open>
  Six banks of 32 pins. A bank has a direction register (a set bit makes the pin an input), the levels driven on
  its outputs, which are written as a whole or by setting and clearing the bits of a mask, and the levels sensed on
  its pins.
\<close>

record 'h gpio_view =
  oe :: "'h \<Rightarrow> nat \<Rightarrow> u32"
  dataout :: "'h \<Rightarrow> nat \<Rightarrow> u32"
  datain :: "'h \<Rightarrow> nat \<Rightarrow> u32"

definition bank_at :: "u32 \<Rightarrow> u32 \<Rightarrow> nat option" where
  "bank_at off a = find (\<lambda>b. gb_base (gpio_bank_34xx ! b) + off = a) [0..<6]"

definition written_dataout :: "u32 \<Rightarrow> u32 \<Rightarrow> (nat \<Rightarrow> u32) \<Rightarrow> nat \<Rightarrow> u32" where
  "written_dataout v a d =
     (case bank_at OMAP24XX_GPIO_SETDATAOUT a of Some b \<Rightarrow> d(b := d b OR v) | None \<Rightarrow>
      case bank_at OMAP24XX_GPIO_CLEARDATAOUT a of Some b \<Rightarrow> d(b := d b AND NOT v) | None \<Rightarrow>
      case bank_at OMAP24XX_GPIO_DATAOUT a of Some b \<Rightarrow> d(b := v) | None \<Rightarrow> d)"

definition gpio_law :: "'h mmio \<Rightarrow> 'h gpio_view \<Rightarrow> bool" where
  "gpio_law mm gv \<longleftrightarrow>
     (\<forall>v a h. oe gv (writel mm v a h) = (case bank_at OMAP24XX_GPIO_OE a of None \<Rightarrow> oe gv h | Some b \<Rightarrow> (oe gv h)(b := v))) \<and>
     (\<forall>v a h. dataout gv (writel mm v a h) = written_dataout v a (dataout gv h)) \<and>
     (\<forall>a h b. bank_at OMAP24XX_GPIO_OE a = Some b \<longrightarrow> fst (readl mm a h) = oe gv h b) \<and>
     (\<forall>a h b. bank_at OMAP24XX_GPIO_DATAIN a = Some b \<longrightarrow> fst (readl mm a h) = datain gv h b) \<and>
     (\<forall>a h. oe gv (snd (readl mm a h)) = oe gv h \<and> dataout gv (snd (readl mm a h)) = dataout gv h)"

section \<open>Pins\<close>

text \<open>What the controller does, pin by pin: the pins that are inputs, the level each pin drives, the level it senses.\<close>

definition pin_inputs :: "'h gpio_view \<Rightarrow> 'h \<Rightarrow> nat \<Rightarrow> bool" where
  "pin_inputs gv h p = (p < 192 \<and> bit (oe gv h (p div 32)) (p mod 32))"

definition pin_levels :: "'h gpio_view \<Rightarrow> 'h \<Rightarrow> nat \<Rightarrow> bool" where
  "pin_levels gv h p = (p < 192 \<and> bit (dataout gv h (p div 32)) (p mod 32))"

definition pin_sensed :: "'h gpio_view \<Rightarrow> 'h \<Rightarrow> nat \<Rightarrow> bool" where
  "pin_sensed gv h p = (p < 192 \<and> bit (datain gv h (p div 32)) (p mod 32))"

lemma bank_at_reg:
  assumes "b < 6" "off \<in> {0x34, 0x38, 0x3c, 0x90, 0x94}" "off' \<in> {0x34, 0x38, 0x3c, 0x90, 0x94}"
  shows "bank_at off (gb_base (gpio_bank_34xx ! b) + off') = (if off = off' then Some b else None)"
  using assms unfolding less_6 by (elim disjE insertE emptyE) (simp_all add: bank_at_def gpio_bank_34xx_def upt_rec)

lemma gb_method_24xx: "b < 6 \<Longrightarrow> gb_method (gpio_bank_34xx ! b) = METHOD_GPIO_24XX"
  unfolding less_6 by (elim disjE) (simp_all add: gpio_bank_34xx_def)

section \<open>The driver is correct pin by pin\<close>

lemma gpio_pin_of:
  assumes "0 \<le> g" "g < 192"
  obtains p where "g = int p" "p < 192" "p div 32 < 6" "get_gpio_bank g = gpio_bank_34xx ! (p div 32)"
    "nat (get_gpio_index g) = p mod 32" "get_gpio_index (get_gpio_index g) = get_gpio_index g" "\<not> check_gpio g < 0"
proof -
  obtain p where p: "g = int p" "p < 192" using assms by (metis nat_less_iff nat_0_le nat_int numeral_less_iff of_nat_less_numeral_iff)
  have "drop_bit 5 g = int (p div 32)" by (simp add: p drop_bit_eq_div zdiv_int)
  moreover have i: "get_gpio_index x = x mod 32" for x
    using take_bit_eq_mask [of 5 x] by (simp add: get_gpio_index_def take_bit_eq_mod mask_eq_exp_minus_1)
  moreover have "nat (int p mod 32) = p mod 32" by (simp add: nat_mod_as_int)
  ultimately show ?thesis
    using p that [of p] by (simp add: get_gpio_bank_def check_gpio_def gpio_valid_def less_mult_imp_div_less)
qed

lemma gpio_law_oe:
  assumes "gpio_law mm gv" "b < 6"
  shows "oe gv (writel mm v (gb_base (gpio_bank_34xx ! b) + 0x34) h) = (oe gv h)(b := v)"
    "oe gv (writel mm v (gb_base (gpio_bank_34xx ! b) + 0x94) h) = oe gv h"
    "oe gv (writel mm v (gb_base (gpio_bank_34xx ! b) + 0x90) h) = oe gv h"
    "fst (readl mm (gb_base (gpio_bank_34xx ! b) + 0x34) h) = oe gv h b"
    "fst (readl mm (gb_base (gpio_bank_34xx ! b) + 0x38) h) = datain gv h b"
    "oe gv (snd (readl mm a h)) = oe gv h"
  using assms by (simp_all add: gpio_law_def bank_at_reg)

lemma gpio_law_dataout:
  assumes "gpio_law mm gv" "b < 6"
  shows "dataout gv (writel mm v (gb_base (gpio_bank_34xx ! b) + 0x34) h) = dataout gv h"
    "dataout gv (writel mm v (gb_base (gpio_bank_34xx ! b) + 0x94) h) = (dataout gv h)(b := dataout gv h b OR v)"
    "dataout gv (writel mm v (gb_base (gpio_bank_34xx ! b) + 0x90) h) = (dataout gv h)(b := dataout gv h b AND NOT v)"
    "dataout gv (snd (readl mm a h)) = dataout gv h"
  using assms by (simp_all add: gpio_law_def bank_at_reg written_dataout_def)

lemma same_pin: "q div 32 = p div 32 \<Longrightarrow> q mod 32 = p mod 32 \<Longrightarrow> q = (p::nat)"
  by (metis div_mult_mod_eq)

lemma bit_one_pin: "i < 32 \<Longrightarrow> bit (2 ^ k :: u32) i \<longleftrightarrow> i = k"
  by (auto simp: bit_exp_iff)

lemma set_gpio_direction_regs:
  assumes "gpio_law mm gv" "b < 6"
  shows "oe gv (set_gpio_direction mm (gpio_bank_34xx ! b) i d h) = (oe gv h)(b :=
           if d \<noteq> 0 then oe gv h b OR push_bit (nat i) 1 else oe gv h b AND NOT (push_bit (nat i) 1))"
    "dataout gv (set_gpio_direction mm (gpio_bank_34xx ! b) i d h) = dataout gv h"
  using assms by (simp_all add: set_gpio_direction_def gb_method_24xx gpio_law_oe gpio_law_dataout Let_def case_prod_beta)

lemma set_gpio_dataout_regs:
  assumes "gpio_law mm gv" "b < 6"
  shows "oe gv (set_gpio_dataout mm (gpio_bank_34xx ! b) i d h) = oe gv h"
    "dataout gv (set_gpio_dataout mm (gpio_bank_34xx ! b) i d h) = (dataout gv h)(b :=
       if d \<noteq> 0 then dataout gv h b OR push_bit (nat i) 1 else dataout gv h b AND NOT (push_bit (nat i) 1))"
  using assms by (simp_all add: set_gpio_dataout_def gb_method_24xx gpio_law_oe gpio_law_dataout Let_def)

lemma bit_of_pin:
  fixes r :: "nat \<Rightarrow> u32"
  shows "bit ((r(p div 32 := if d then r (p div 32) OR push_bit (p mod 32) 1
              else r (p div 32) AND NOT (push_bit (p mod 32) 1))) (q div 32)) (q mod 32) \<longleftrightarrow>
    (if q = p then d else bit (r (q div 32)) (q mod 32))"
  using same_pin [of q p] by (auto simp: bit_or_iff bit_and_iff bit_not_iff bit_one_pin)

lemma pin_inputs_upd:
  assumes "oe gv h' = (oe gv h)(p div 32 := if d then oe gv h (p div 32) OR push_bit (p mod 32) 1
    else oe gv h (p div 32) AND NOT (push_bit (p mod 32) 1))" "p < 192"
  shows "pin_inputs gv h' = (pin_inputs gv h)(p := d)"
  unfolding pin_inputs_def assms(1) bit_of_pin fun_eq_iff using assms(2) by simp

lemma pin_levels_upd:
  assumes "dataout gv h' = (dataout gv h)(p div 32 := if d then dataout gv h (p div 32) OR push_bit (p mod 32) 1
    else dataout gv h (p div 32) AND NOT (push_bit (p mod 32) 1))" "p < 192"
  shows "pin_levels gv h' = (pin_levels gv h)(p := d)"
  unfolding pin_levels_def assms(1) bit_of_pin fun_eq_iff using assms(2) by simp

lemma pin_inputs_same: "oe gv h' = oe gv h \<Longrightarrow> pin_inputs gv h' = pin_inputs gv h"
  by (simp add: pin_inputs_def fun_eq_iff)

lemma pin_levels_same: "dataout gv h' = dataout gv h \<Longrightarrow> pin_levels gv h' = pin_levels gv h"
  by (simp add: pin_levels_def fun_eq_iff)

lemma gpio_direction:
  assumes l: "gpio_law mm gv" and g: "0 \<le> g" "g < 192"
  shows "pin_inputs gv (omap_set_gpio_direction mm g d h) = (pin_inputs gv h)(nat g := d \<noteq> 0)"
    "pin_levels gv (omap_set_gpio_direction mm g d h) = pin_levels gv h"
proof -
  obtain p where p: "g = int p" "p < 192" "p div 32 < 6" "get_gpio_bank g = gpio_bank_34xx ! (p div 32)"
    "nat (get_gpio_index g) = p mod 32" "\<not> check_gpio g < 0" using gpio_pin_of [OF g] .
  have n: "nat g = p" using p(1) by simp
  note regs = set_gpio_direction_regs [OF l p(3), of "get_gpio_index g" d h, unfolded p(5)]
  have e: "omap_set_gpio_direction mm g d h = set_gpio_direction mm (gpio_bank_34xx ! (p div 32)) (get_gpio_index g) d h"
    using p by (simp add: omap_set_gpio_direction_def)
  show "pin_inputs gv (omap_set_gpio_direction mm g d h) = (pin_inputs gv h)(nat g := d \<noteq> 0)"
    unfolding e n by (rule pin_inputs_upd [OF regs(1) p(2)])
  show "pin_levels gv (omap_set_gpio_direction mm g d h) = pin_levels gv h"
    unfolding e by (rule pin_levels_same [OF regs(2)])
qed

lemma gpio_dataout:
  assumes l: "gpio_law mm gv" and g: "0 \<le> g" "g < 192"
  shows "pin_inputs gv (omap_set_gpio_dataout mm g d h) = pin_inputs gv h"
    "pin_levels gv (omap_set_gpio_dataout mm g d h) = (pin_levels gv h)(nat g := d \<noteq> 0)"
proof -
  obtain p where p: "g = int p" "p < 192" "p div 32 < 6" "get_gpio_bank g = gpio_bank_34xx ! (p div 32)"
    "nat (get_gpio_index g) = p mod 32" "\<not> check_gpio g < 0" using gpio_pin_of [OF g] .
  have n: "nat g = p" using p(1) by simp
  note regs = set_gpio_dataout_regs [OF l p(3), of "get_gpio_index g" d h, unfolded p(5)]
  have e: "omap_set_gpio_dataout mm g d h = set_gpio_dataout mm (gpio_bank_34xx ! (p div 32)) (get_gpio_index g) d h"
    using p by (simp add: omap_set_gpio_dataout_def)
  show "pin_levels gv (omap_set_gpio_dataout mm g d h) = (pin_levels gv h)(nat g := d \<noteq> 0)"
    unfolding e n by (rule pin_levels_upd [OF regs(2) p(2)])
  show "pin_inputs gv (omap_set_gpio_dataout mm g d h) = pin_inputs gv h"
    unfolding e by (rule pin_inputs_same [OF regs(1)])
qed

lemma gpio_datain:
  assumes l: "gpio_law mm gv" and g: "0 \<le> g" "g < 192"
  shows "fst (omap_get_gpio_datain mm g h) = of_bool (pin_sensed gv h (nat g))"
    "pin_inputs gv (snd (omap_get_gpio_datain mm g h)) = pin_inputs gv h"
    "pin_levels gv (snd (omap_get_gpio_datain mm g h)) = pin_levels gv h"
proof -
  obtain p where p: "g = int p" "p < 192" "p div 32 < 6" "get_gpio_bank g = gpio_bank_34xx ! (p div 32)"
    "nat (get_gpio_index g) = p mod 32" "\<not> check_gpio g < 0" using gpio_pin_of [OF g] .
  have n: "nat g = p" using p(1) by simp
  let ?r = "readl mm (gb_base (gpio_bank_34xx ! (p div 32)) + 0x38) h"
  have e: "omap_get_gpio_datain mm g h = (of_bool (bit (fst ?r) (p mod 32)), snd ?r)"
    using p by (simp add: omap_get_gpio_datain_def gb_method_24xx case_prod_beta and_exp_eq_0_iff_not_bit)
  show "fst (omap_get_gpio_datain mm g h) = of_bool (pin_sensed gv h (nat g))"
    unfolding e n by (simp add: pin_sensed_def p(2) gpio_law_oe [OF l p(3)])
  show "pin_inputs gv (snd (omap_get_gpio_datain mm g h)) = pin_inputs gv h"
    unfolding e snd_conv by (rule pin_inputs_same [OF gpio_law_oe(6) [OF l p(3)]])
  show "pin_levels gv (snd (omap_get_gpio_datain mm g h)) = pin_levels gv h"
    unfolding e snd_conv by (rule pin_levels_same [OF gpio_law_dataout(4) [OF l p(3)]])
qed

lemma omap_free_gpio_eq: "omap_free_gpio mm g h = omap_set_gpio_direction mm g 1 h"
proof (cases "0 \<le> g \<and> g < 192")
  case True
  then obtain p where "g = int p" "get_gpio_index (get_gpio_index g) = get_gpio_index g" using gpio_pin_of by metis
  then show ?thesis by (simp add: omap_free_gpio_def reset_gpio_def omap_set_gpio_direction_def)
next
  case False
  then show ?thesis by (auto simp: omap_free_gpio_def omap_set_gpio_direction_def check_gpio_def gpio_valid_def)
qed

lemma gpio_invalid:
  assumes "g < 0 \<or> 192 \<le> g"
  shows "omap_set_gpio_direction mm g d h = h" "omap_set_gpio_dataout mm g d h = h"
    "omap_get_gpio_datain mm g h = (- EINVAL, h)" "omap_request_gpio g = - EINVAL" "omap_free_gpio mm g h = h"
proof -
  have "check_gpio g < 0" using assms by (auto simp: check_gpio_def gpio_valid_def)
  then show "omap_set_gpio_direction mm g d h = h" "omap_set_gpio_dataout mm g d h = h"
    "omap_get_gpio_datain mm g h = (- EINVAL, h)" "omap_request_gpio g = - EINVAL" "omap_free_gpio mm g h = h"
    by (simp_all add: omap_set_gpio_direction_def omap_set_gpio_dataout_def omap_get_gpio_datain_def
        omap_request_gpio_def omap_free_gpio_def)
qed

text \<open>The driver accesses no register outside the banks.\<close>

definition gpio_untouched :: "'h mmio \<Rightarrow> ('h \<Rightarrow> 'a) \<Rightarrow> bool" where
  "gpio_untouched mm f \<longleftrightarrow> (\<forall>b < 6. \<forall>off \<in> {0x34, 0x38, 0x90, 0x94}. \<forall>h.
     (\<forall>v. f (writel mm v (gb_base (gpio_bank_34xx ! b) + off) h) = f h) \<and>
     f (snd (readl mm (gb_base (gpio_bank_34xx ! b) + off) h)) = f h)"

lemma gpio_keeps:
  assumes "gpio_untouched mm f"
  shows "f (omap_set_gpio_direction mm g d h) = f h" "f (omap_set_gpio_dataout mm g d h) = f h"
    "f (snd (omap_get_gpio_datain mm g h)) = f h"
proof -
  have s: "f (writel mm v (gb_base (get_gpio_bank g) + off) h) = f h" "f (snd (readl mm (gb_base (get_gpio_bank g) + off) h)) = f h"
    if "\<not> check_gpio g < 0" "off \<in> {0x34, 0x38, 0x90, 0x94}" for off v h
  proof -
    have "0 \<le> g" "g < 192" using that by (auto simp: check_gpio_def gpio_valid_def split: if_splits)
    then obtain p where "p div 32 < 6" "get_gpio_bank g = gpio_bank_34xx ! (p div 32)" using gpio_pin_of by metis
    then show "f (writel mm v (gb_base (get_gpio_bank g) + off) h) = f h" "f (snd (readl mm (gb_base (get_gpio_bank g) + off) h)) = f h"
      using assms that(2) by (simp_all only: gpio_untouched_def)
  qed
  show "f (omap_set_gpio_direction mm g d h) = f h" "f (omap_set_gpio_dataout mm g d h) = f h"
    "f (snd (omap_get_gpio_datain mm g h)) = f h"
    using s [of "0x34"] s [of "0x38"] s [of "0x90"] s [of "0x94"]
    by (cases "check_gpio g < 0"; simp add: omap_set_gpio_direction_def set_gpio_direction_def omap_set_gpio_dataout_def
        set_gpio_dataout_def omap_get_gpio_datain_def Let_def case_prod_beta)+
qed

lemmas gpio_pins = gpio_direction gpio_dataout gpio_datain

text \<open>
  C14: on hardware that keeps the laws of the controller, the driver changes exactly the pin it is called for:
  \<open>omap_set_gpio_direction\<close> makes that pin an input or an output and leaves every other direction and every level
  alone, \<open>omap_set_gpio_dataout\<close> does the same for the level it drives, \<open>omap_get_gpio_datain\<close> gives the level
  sensed on the pin, and \<open>omap_free_gpio\<close> makes the pin an input. This holds for the pins 0 to 191, which are spread
  over six banks; outside them nothing is accessed and the calls that return a value return \<open>-EINVAL\<close>.
\<close>

theorem omap_gpio_refines:
  assumes "gpio_law mm gv"
  shows "if 0 \<le> g \<and> g < 192
    then pin_inputs gv (omap_set_gpio_direction mm g d h) = (pin_inputs gv h)(nat g := d \<noteq> 0) \<and>
      pin_levels gv (omap_set_gpio_direction mm g d h) = pin_levels gv h \<and>
      pin_levels gv (omap_set_gpio_dataout mm g d h) = (pin_levels gv h)(nat g := d \<noteq> 0) \<and>
      pin_inputs gv (omap_set_gpio_dataout mm g d h) = pin_inputs gv h \<and>
      fst (omap_get_gpio_datain mm g h) = of_bool (pin_sensed gv h (nat g)) \<and>
      pin_inputs gv (omap_free_gpio mm g h) = (pin_inputs gv h)(nat g := True) \<and>
      pin_levels gv (omap_free_gpio mm g h) = pin_levels gv h
    else omap_set_gpio_direction mm g d h = h \<and> omap_set_gpio_dataout mm g d h = h \<and> omap_free_gpio mm g h = h \<and>
      omap_get_gpio_datain mm g h = (- EINVAL, h) \<and> omap_request_gpio g = - EINVAL"
proof (cases "0 \<le> g \<and> g < 192")
  case True
  then show ?thesis using gpio_pins [OF assms, of g] by (simp add: omap_free_gpio_eq)
next
  case False
  then have "g < 0 \<or> 192 \<le> g" by auto
  then show ?thesis unfolding if_not_P [OF False] by (simp add: gpio_invalid)
qed

text \<open>A controller whose pins sense the levels they drive.\<close>

type_synonym gdemo = "(nat \<Rightarrow> u32) \<times> (nat \<Rightarrow> u32)"

definition gdemo_mmio :: "gdemo mmio" where
  "gdemo_mmio = \<lparr>readb = \<lambda>_ h. (0, h), writeb = \<lambda>_ _ h. h, readw = \<lambda>_ h. (0, h), writew = \<lambda>_ _ h. h,
     readl = \<lambda>a h. (case bank_at 0x34 a of Some b \<Rightarrow> fst h b | None \<Rightarrow>
       case bank_at 0x38 a of Some b \<Rightarrow> snd h b | None \<Rightarrow> 0, h),
     writel = \<lambda>v a (i, d). (case bank_at 0x34 a of None \<Rightarrow> i | Some b \<Rightarrow> i(b := v), written_dataout v a d)\<rparr>"

definition gdemo_view :: "gdemo gpio_view" where
  "gdemo_view = \<lparr>oe = fst, dataout = snd, datain = snd\<rparr>"

lemma bank_at_apart: "bank_at 0x38 a = Some b \<Longrightarrow> bank_at 0x34 a = None"
  by (auto simp: bank_at_def gpio_bank_34xx_def upt_rec split: if_splits)

lemma gdemo_law: "gpio_law gdemo_mmio gdemo_view"
  by (auto simp: gpio_law_def gdemo_mmio_def gdemo_view_def bank_at_apart split: option.splits)

theorem omap_gpio_refines_witness:
  "gpio_law gdemo_mmio gdemo_view \<and> \<not> pin_inputs gdemo_view (omap_set_gpio_direction gdemo_mmio 126 0 (\<lambda>_. -1, \<lambda>_. 0)) 126 \<and>
   omap_get_gpio_datain gdemo_mmio 192 (\<lambda>_. -1, \<lambda>_. 0) = (- EINVAL, (\<lambda>_. -1, \<lambda>_. 0))"
  using gdemo_law omap_gpio_refines [OF gdemo_law, of 126 0 "(\<lambda>_. -1, \<lambda>_. 0)"]
    omap_gpio_refines [OF gdemo_law, of 192 0 "(\<lambda>_. -1, \<lambda>_. 0)"] by simp

end
