(* ===== verification/UbootI2c.thy ===== *)
theory UbootI2c
  imports Mmio
begin

text \<open>
  The driver of the I2C bus in the second-stage loader (\<open>src/u-boot/drivers/i2c/omap24xx_i2c.c\<close>). A loop that
  has no bound is a partial function, so a call that does not return is \<^const>\<open>None\<close>. The controller and the chips on the
  bus are described by a law; a block of registers that is written and read back is unchanged, and selecting a
  bus has no effect. Messages and delays are left out.
\<close>

section \<open>Registers and settings\<close>

text \<open>
  The driver accesses its registers through macros, which are offsets from the base of the first controller
  (\<open>I2C_DEFAULT_BASE\<close>), whatever \<open>i2c_base\<close> is set to.
\<close>

abbreviation (input) I2C_BASE1 :: u32 where "I2C_BASE1 \<equiv> 0x48070000"
abbreviation (input) I2C_BASE2 :: u32 where "I2C_BASE2 \<equiv> 0x48072000"
abbreviation (input) I2C_BASE3 :: u32 where "I2C_BASE3 \<equiv> 0x48060000"
abbreviation (input) I2C_IE :: u32 where "I2C_IE \<equiv> 0x48070004"
abbreviation (input) I2C_STAT :: u32 where "I2C_STAT \<equiv> 0x48070008"
abbreviation (input) I2C_CNT :: u32 where "I2C_CNT \<equiv> 0x48070018"
abbreviation (input) I2C_DATA :: u32 where "I2C_DATA \<equiv> 0x4807001c"
abbreviation (input) I2C_CON :: u32 where "I2C_CON \<equiv> 0x48070024"
abbreviation (input) I2C_OA :: u32 where "I2C_OA \<equiv> 0x48070028"
abbreviation (input) I2C_SA :: u32 where "I2C_SA \<equiv> 0x4807002c"
abbreviation (input) I2C_PSC :: u32 where "I2C_PSC \<equiv> 0x48070030"
abbreviation (input) I2C_SCLL :: u32 where "I2C_SCLL \<equiv> 0x48070034"
abbreviation (input) I2C_SCLH :: u32 where "I2C_SCLH \<equiv> 0x48070038"

abbreviation (input) I2C_IE_ALL :: u16 where "I2C_IE_ALL \<equiv> 0x1F"
abbreviation (input) I2C_STAT_BB :: u16 where "I2C_STAT_BB \<equiv> 0x1000"
abbreviation (input) I2C_STAT_XRDY :: u16 where "I2C_STAT_XRDY \<equiv> 0x10"
abbreviation (input) I2C_STAT_RRDY :: u16 where "I2C_STAT_RRDY \<equiv> 8"
abbreviation (input) I2C_STAT_ARDY :: u16 where "I2C_STAT_ARDY \<equiv> 4"
abbreviation (input) I2C_STAT_NACK :: u16 where "I2C_STAT_NACK \<equiv> 2"
abbreviation (input) I2C_STAT_EVENTS :: u16 where "I2C_STAT_EVENTS \<equiv> 0xC1F"
abbreviation (input) I2C_CON_EN :: u16 where "I2C_CON_EN \<equiv> 0x8000"
abbreviation (input) I2C_CON_MST :: u16 where "I2C_CON_MST \<equiv> 0x400"
abbreviation (input) I2C_CON_TRX :: u16 where "I2C_CON_TRX \<equiv> 0x200"
abbreviation (input) I2C_CON_STP :: u16 where "I2C_CON_STP \<equiv> 2"
abbreviation (input) I2C_CON_STT :: u16 where "I2C_CON_STT \<equiv> 1"

abbreviation (input) OMAP_I2C_STANDARD :: int where "OMAP_I2C_STANDARD \<equiv> 100000"
abbreviation (input) OMAP_I2C_FAST_MODE :: int where "OMAP_I2C_FAST_MODE \<equiv> 400000"
abbreviation (input) OMAP_I2C_HIGH_SPEED :: int where "OMAP_I2C_HIGH_SPEED \<equiv> 3400000"
abbreviation (input) I2C_IP_CLK :: int where "I2C_IP_CLK \<equiv> 96000000"
abbreviation (input) I2C_INTERNAL_SAMPLING_CLK :: int where "I2C_INTERNAL_SAMPLING_CLK \<equiv> 19200000"
abbreviation (input) I2C_SCL_TRIM :: int where "I2C_SCL_TRIM \<equiv> 6"
abbreviation (input) I2C_PSC_MIN :: int where "I2C_PSC_MIN \<equiv> 0"
abbreviation (input) I2C_BUS_MAX :: nat where "I2C_BUS_MAX \<equiv> 3"
abbreviation (input) CONFIG_SYS_I2C_SPEED :: int where "CONFIG_SYS_I2C_SPEED \<equiv> 100000"
abbreviation (input) CONFIG_SYS_I2C_SLAVE :: int where "CONFIG_SYS_I2C_SLAVE \<equiv> 0x10"

record i2c_drv =
  i2c_base :: u32
  bus_initialized :: "bool list"
  current_bus :: nat

definition i2c_drv_start :: i2c_drv where
  "i2c_drv_start = \<lparr>i2c_base = I2C_BASE1, bus_initialized = [False, False, False], current_bus = 0\<rparr>"

section \<open>Waiting\<close>

partial_function (option) flush_fifo :: "'h mmio \<Rightarrow> 'h \<Rightarrow> 'h option" where
  "flush_fifo mm h =
     (let (stat, h) = readw mm I2C_STAT h
      in if stat = I2C_STAT_RRDY
         then let (_, h) = readb mm I2C_DATA h
              in flush_fifo mm (writew mm I2C_STAT_RRDY I2C_STAT h)
         else Some h)"

text \<open>The loop of \<open>wait_for_bb\<close>, with the value \<open>timeout\<close> has after it.\<close>

fun wait_bb_loop :: "'h mmio \<Rightarrow> nat \<Rightarrow> 'h \<Rightarrow> int \<times> 'h" where
  "wait_bb_loop mm timeout h =
     (let (stat, h) = readw mm I2C_STAT h;
          stat = stat AND I2C_STAT_BB
      in if stat = 0 then (int timeout, h)
         else case timeout of 0 \<Rightarrow> (-1, h) | Suc t \<Rightarrow> wait_bb_loop mm t (writew mm stat I2C_STAT h))"

definition wait_for_bb :: "'h mmio \<Rightarrow> 'h \<Rightarrow> 'h" where
  "wait_for_bb mm h =
     (let h = writew mm 0xFFFF I2C_STAT h;
          (timeout, h) = wait_bb_loop mm 10 h;
          h = (if timeout \<le> 0 then snd (readw mm I2C_STAT h) else h)
      in writew mm 0xFFFF I2C_STAT h)"

fun wait_pin_loop :: "'h mmio \<Rightarrow> nat \<Rightarrow> 'h \<Rightarrow> u16 \<times> int \<times> 'h" where
  "wait_pin_loop mm timeout h =
     (let (status, h) = readw mm I2C_STAT h
      in if status AND I2C_STAT_EVENTS \<noteq> 0 then (status, int timeout, h)
         else case timeout of 0 \<Rightarrow> (status, -1, h) | Suc t \<Rightarrow> wait_pin_loop mm t h)"

definition wait_for_pin :: "'h mmio \<Rightarrow> 'h \<Rightarrow> u16 \<times> 'h" where
  "wait_for_pin mm h =
     (let (status, timeout, h) = wait_pin_loop mm 10 h
      in (status, if timeout \<le> 0 then writew mm 0xFFFF I2C_STAT (snd (readw mm I2C_STAT h)) else h))"

section \<open>Setting up\<close>

text \<open>The dividers for a speed, when it is one of the three and they fit into a byte.\<close>

definition i2c_clocks :: "int \<Rightarrow> (int \<times> int \<times> int) option" where
  "i2c_clocks speed =
     (let psc = I2C_IP_CLK div I2C_INTERNAL_SAMPLING_CLK - 1
      in if speed \<noteq> OMAP_I2C_STANDARD \<and> speed \<noteq> OMAP_I2C_FAST_MODE \<and> speed \<noteq> OMAP_I2C_HIGH_SPEED then None
         else if psc < I2C_PSC_MIN then None
         else if speed = OMAP_I2C_HIGH_SPEED
         then let fs = I2C_INTERNAL_SAMPLING_CLK div (2 * OMAP_I2C_FAST_MODE);
                  fsscll = fs - I2C_SCL_TRIM; fssclh = fs - I2C_SCL_TRIM;
                  hs = I2C_INTERNAL_SAMPLING_CLK div (2 * speed);
                  hsscll = hs - I2C_SCL_TRIM; hssclh = hs - I2C_SCL_TRIM
              in if fsscll < 0 \<or> fssclh < 0 \<or> fsscll > 255 \<or> fssclh > 255 then None
                 else Some (psc, to_u32 (push_bit 8 hsscll) OR fsscll, to_u32 (push_bit 8 hssclh) OR fssclh)
         else let fs = I2C_INTERNAL_SAMPLING_CLK div (2 * speed);
                  fsscll = fs - I2C_SCL_TRIM; fssclh = fs - I2C_SCL_TRIM
              in if fsscll < 0 \<or> fssclh < 0 \<or> fsscll > 255 \<or> fssclh > 255 then None
                 else Some (psc, fsscll, fssclh))"

definition i2c_init :: "'h mmio \<Rightarrow> int \<Rightarrow> int \<Rightarrow> i2c_drv \<Rightarrow> 'h \<Rightarrow> (i2c_drv \<times> 'h) option" where
  "i2c_init mm speed slaveadd st h =
     (case i2c_clocks speed of
        None \<Rightarrow> Some (st, h)
      | Some (psc, scll, sclh) \<Rightarrow>
          let st = st\<lparr>bus_initialized := (bus_initialized st)[current_bus st := True]\<rparr>;
              (con, h) = readw mm I2C_CON h;
              h = (if con AND I2C_CON_EN \<noteq> 0 then writew mm 0 I2C_CON h else h);
              h = writew mm (word_of_int psc) I2C_PSC h;
              h = writew mm (word_of_int scll) I2C_SCLL h;
              h = writew mm (word_of_int sclh) I2C_SCLH h;
              h = writew mm (word_of_int slaveadd) I2C_OA h;
              h = writew mm I2C_CON_EN I2C_CON h;
              h = writew mm I2C_IE_ALL I2C_IE h
          in do {
            h \<leftarrow> flush_fifo mm h;
            let h = writew mm 0xFFFF I2C_STAT h;
            Some (st, writew mm 0 I2C_CNT h) })"

definition i2c_set_bus_num :: "'h mmio \<Rightarrow> nat \<Rightarrow> i2c_drv \<Rightarrow> 'h \<Rightarrow> (int \<times> i2c_drv \<times> 'h) option" where
  "i2c_set_bus_num mm bus st h =
     (if bus \<ge> I2C_BUS_MAX then Some (-1, st, h)
      else let st = st\<lparr>i2c_base := if bus = 2 then I2C_BASE3 else if bus = 1 then I2C_BASE2 else I2C_BASE1, current_bus := bus\<rparr>
           in if \<not> bus_initialized st ! bus
              then do { (st, h) \<leftarrow> i2c_init mm CONFIG_SYS_I2C_SPEED CONFIG_SYS_I2C_SLAVE st h; Some (0, st, h) }
              else Some (0, st, h))"

definition i2c_get_bus_num :: "i2c_drv \<Rightarrow> nat" where
  "i2c_get_bus_num st = current_bus st"

section \<open>Transfers\<close>

partial_function (option) read_ardy_loop :: "'h mmio \<Rightarrow> 'h \<Rightarrow> 'h option" where
  "read_ardy_loop mm h =
     (let (stat, h) = readw mm I2C_STAT h
      in if stat AND (I2C_STAT_RRDY OR I2C_STAT_ARDY) \<noteq> 0
         then read_ardy_loop mm (writew mm 0xFFFF I2C_STAT h) else Some h)"

partial_function (option) read_stop_loop :: "'h mmio \<Rightarrow> 'h \<Rightarrow> 'h option" where
  "read_stop_loop mm h =
     (let (stat, h) = readw mm I2C_STAT h;
          (busy, h) = (if stat \<noteq> 0 then (True, h) else let (con, h) = readw mm I2C_CON h in (con AND I2C_CON_MST \<noteq> 0, h))
      in if busy then read_stop_loop mm (writew mm 0xFFFF I2C_STAT h) else Some h)"

definition i2c_read_byte :: "'h mmio \<Rightarrow> u8 \<Rightarrow> u8 \<Rightarrow> u8 \<Rightarrow> 'h \<Rightarrow> (int \<times> u8 \<times> 'h) option" where
  "i2c_read_byte mm devaddr regoffset value h =
     (let h = wait_for_bb mm h;
          h = writew mm 1 I2C_CNT h;
          h = writew mm (ucast devaddr) I2C_SA h;
          h = writew mm (I2C_CON_EN OR I2C_CON_MST OR I2C_CON_TRX OR I2C_CON_STT) I2C_CON h;
          (status, h) = wait_for_pin mm h;
          (error, h) = (if status AND I2C_STAT_XRDY \<noteq> 0
             then let h = writew mm (ucast regoffset) I2C_DATA h;
                      (stat, h) = readw mm I2C_STAT h
                  in (stat AND I2C_STAT_NACK \<noteq> 0, h)
             else (True, h))
      in do {
        (error, value, h) \<leftarrow> (if error then Some (True, value, h)
          else do {
            let h = writew mm I2C_CON_EN I2C_CON h;
            h \<leftarrow> read_ardy_loop mm h;
            let h = writew mm (ucast devaddr) I2C_SA h;
            let h = writew mm 1 I2C_CNT h;
            let h = writew mm (I2C_CON_EN OR I2C_CON_MST OR I2C_CON_STT OR I2C_CON_STP) I2C_CON h;
            let (status, h) = wait_for_pin mm h;
            if status AND I2C_STAT_RRDY \<noteq> 0
            then do {
              let (value, h) = readb mm I2C_DATA h;
              let h = writew mm I2C_CON_EN I2C_CON h;
              h \<leftarrow> read_stop_loop mm h;
              Some (False, value, h) }
            else Some (True, value, h) });
        h \<leftarrow> flush_fifo mm h;
        let h = writew mm 0xFFFF I2C_STAT h;
        let h = writew mm 0 I2C_CNT h;
        Some (of_bool error, value, h) })"

fun write_stop_loop :: "'h mmio \<Rightarrow> nat \<Rightarrow> 'h \<Rightarrow> 'h" where
  "write_stop_loop mm eout h =
     (let (stat, h) = readw mm I2C_STAT h;
          (busy, h) = (if stat \<noteq> 0 then (True, h) else let (con, h) = readw mm I2C_CON h in (con AND I2C_CON_MST \<noteq> 0, h))
      in if busy
         then let h = writew mm 0xFFFF I2C_STAT h
              in case eout of 0 \<Rightarrow> h | Suc e \<Rightarrow> if e = 0 then h else write_stop_loop mm e h
         else h)"

declare wait_bb_loop.simps [simp del] wait_pin_loop.simps [simp del] write_stop_loop.simps [simp del]

definition i2c_write_byte :: "'h mmio \<Rightarrow> u8 \<Rightarrow> u8 \<Rightarrow> u8 \<Rightarrow> 'h \<Rightarrow> (int \<times> 'h) option" where
  "i2c_write_byte mm devaddr regoffset value h =
     (let h = wait_for_bb mm h;
          h = writew mm 2 I2C_CNT h;
          h = writew mm (ucast devaddr) I2C_SA h;
          h = writew mm (I2C_CON_EN OR I2C_CON_MST OR I2C_CON_STT OR I2C_CON_TRX OR I2C_CON_STP) I2C_CON h;
          (status, h) = wait_for_pin mm h;
          (error, h) = (if status AND I2C_STAT_XRDY \<noteq> 0
             then let h = writeb mm regoffset I2C_DATA h;
                      h = writew mm I2C_STAT_XRDY I2C_STAT h;
                      (status, h) = wait_for_pin mm h;
                      (error, h) = (if status AND I2C_STAT_XRDY \<noteq> 0
                         then (False, writew mm I2C_STAT_XRDY I2C_STAT (writeb mm value I2C_DATA h))
                         else (True, h));
                      (stat, h) = readw mm I2C_STAT h
                  in (error \<or> stat AND I2C_STAT_NACK \<noteq> 0, h)
             else (True, h));
          h = (if \<not> error then write_stop_loop mm 200 (writew mm I2C_CON_EN I2C_CON h) else h)
      in do {
        h \<leftarrow> flush_fifo mm h;
        let h = writew mm 0xFFFF I2C_STAT h;
        let h = writew mm 0 I2C_CNT h;
        Some (of_bool error, h) })"

definition i2c_probe :: "'h mmio \<Rightarrow> u8 \<Rightarrow> 'h \<Rightarrow> (int \<times> 'h) option" where
  "i2c_probe mm chip h =
     (let (oa, h) = readw mm I2C_OA h
      in if ucast chip = oa then Some (1, h)
         else let h = wait_for_bb mm h;
                  h = writew mm 1 I2C_CNT h;
                  h = writew mm (ucast chip) I2C_SA h;
                  h = writew mm (I2C_CON_EN OR I2C_CON_MST OR I2C_CON_STT OR I2C_CON_STP) I2C_CON h;
                  (stat, h) = readw mm I2C_STAT h
              in do {
                (res, h) \<leftarrow> (if stat AND I2C_STAT_NACK = 0
                  then do { h \<leftarrow> flush_fifo mm h; Some (0, writew mm 0xFFFF I2C_STAT h) }
                  else let h = writew mm 0xFFFF I2C_STAT h;
                           (con, h) = readw mm I2C_CON h;
                           h = writew mm (con OR I2C_CON_STP) I2C_CON h
                       in Some (1, wait_for_bb mm h));
                h \<leftarrow> flush_fifo mm h;
                let h = writew mm 0 I2C_CNT h;
                Some (res, writew mm 0xFFFF I2C_STAT h) })"

fun i2c_read_loop :: "'h mmio \<Rightarrow> u8 \<Rightarrow> u32 \<Rightarrow> u8 list \<Rightarrow> i2c_drv \<Rightarrow> 'h \<Rightarrow> (int \<times> u8 list \<times> i2c_drv \<times> 'h) option" where
  "i2c_read_loop mm chip addr [] st h = Some (0, [], st, h)"
| "i2c_read_loop mm chip addr (b # buffer) st h = do {
     (e, b, h) \<leftarrow> i2c_read_byte mm chip (ucast addr) b h;
     if e \<noteq> 0 then do {
       (st, h) \<leftarrow> i2c_init mm CONFIG_SYS_I2C_SPEED CONFIG_SYS_I2C_SLAVE st h;
       Some (1, b # buffer, st, h) }
     else do {
       (r, buffer, st, h) \<leftarrow> i2c_read_loop mm chip (addr + 1) buffer st h;
       Some (r, b # buffer, st, h) } }"

text \<open>The buffer of \<open>i2c_read\<close> and \<open>i2c_write\<close> has \<open>len\<close> bytes.\<close>

definition i2c_read :: "'h mmio \<Rightarrow> u8 \<Rightarrow> u32 \<Rightarrow> int \<Rightarrow> u8 list \<Rightarrow> i2c_drv \<Rightarrow> 'h \<Rightarrow> (int \<times> u8 list \<times> i2c_drv \<times> 'h) option" where
  "i2c_read mm chip addr alen buffer st h =
     (if alen > 1 then Some (1, buffer, st, h)
      else if addr + of_nat (length buffer) > 256 then Some (1, buffer, st, h)
      else i2c_read_loop mm chip addr buffer st h)"

fun i2c_write_loop :: "'h mmio \<Rightarrow> u8 \<Rightarrow> u32 \<Rightarrow> u8 list \<Rightarrow> i2c_drv \<Rightarrow> 'h \<Rightarrow> (int \<times> i2c_drv \<times> 'h) option" where
  "i2c_write_loop mm chip addr [] st h = Some (0, st, h)"
| "i2c_write_loop mm chip addr (b # buffer) st h = do {
     (e, h) \<leftarrow> i2c_write_byte mm chip (ucast addr) b h;
     if e \<noteq> 0 then do {
       (st, h) \<leftarrow> i2c_init mm CONFIG_SYS_I2C_SPEED CONFIG_SYS_I2C_SLAVE st h;
       Some (1, st, h) }
     else i2c_write_loop mm chip (addr + 1) buffer st h }"

definition i2c_write :: "'h mmio \<Rightarrow> u8 \<Rightarrow> u32 \<Rightarrow> int \<Rightarrow> u8 list \<Rightarrow> i2c_drv \<Rightarrow> 'h \<Rightarrow> (int \<times> i2c_drv \<times> 'h) option" where
  "i2c_write mm chip addr alen buffer st h =
     (if alen > 1 then Some (1, st, h)
      else if addr + of_nat (length buffer) > 256 then Some (1, st, h)
      else i2c_write_loop mm chip addr buffer st h)"

section \<open>The bus number has no effect\<close>

lemma i2c_init_hw: "map_option snd (i2c_init mm sp sl st h) = map_option snd (i2c_init mm sp sl st' h)"
  by (auto simp: i2c_init_def Let_def case_prod_beta option.map_comp comp_def split: option.splits Option.bind_split)

lemma i2c_init_hw_cases:
  "(i2c_init mm sp sl st h = None \<and> i2c_init mm sp sl st' h = None) \<or>
   (\<exists>s s' h'. i2c_init mm sp sl st h = Some (s, h') \<and> i2c_init mm sp sl st' h = Some (s', h'))"
  using i2c_init_hw [of mm sp sl st h st'] by (cases "i2c_init mm sp sl st h"; cases "i2c_init mm sp sl st' h") auto

definition no_drv :: "'a \<times> 'b \<times> i2c_drv \<times> 'h \<Rightarrow> 'a \<times> 'b \<times> 'h" where
  "no_drv = (\<lambda>(r, b, st, h). (r, b, h))"

lemma i2c_read_loop_hw:
  "map_option no_drv (i2c_read_loop mm chip addr buffer st h) = map_option no_drv (i2c_read_loop mm chip addr buffer st' h)"
proof (induction buffer arbitrary: addr h)
  case (Cons b buffer)
  show ?case
  proof (cases "i2c_read_byte mm chip (ucast addr) b h")
    case (Some x)
    obtain e v h1 where x: "x = (e, v, h1)" by (cases x)
    show ?thesis
    proof (cases "e = 0")
      case True
      then show ?thesis using Some x Cons.IH [of "addr + 1" h1]
        by (cases "i2c_read_loop mm chip (addr + 1) buffer st h1"; cases "i2c_read_loop mm chip (addr + 1) buffer st' h1")
           (auto simp: no_drv_def)
    next
      case False
      then show ?thesis using Some x i2c_init_hw_cases [of mm CONFIG_SYS_I2C_SPEED CONFIG_SYS_I2C_SLAVE st h1 st']
        by (auto simp: no_drv_def)
    qed
  qed simp
qed (simp add: no_drv_def)

lemma i2c_write_loop_hw:
  "map_option (\<lambda>(r, _, h). (r, h)) (i2c_write_loop mm chip addr buffer st h) =
   map_option (\<lambda>(r, _, h). (r, h)) (i2c_write_loop mm chip addr buffer st' h)"
proof (induction buffer arbitrary: addr h)
  case (Cons b buffer)
  show ?case
  proof (cases "i2c_write_byte mm chip (ucast addr) b h")
    case (Some x)
    obtain e h1 where x: "x = (e, h1)" by (cases x)
    show ?thesis using Some x Cons.IH [of "addr + 1" h1] i2c_init_hw_cases [of mm CONFIG_SYS_I2C_SPEED CONFIG_SYS_I2C_SLAVE st h1 st']
      by (cases "e = 0") auto
  qed simp
qed simp

text \<open>
  C32: selecting a bus has no effect on where the driver transfers. For two initialised buses \<open>i2c_set_bus_num\<close> succeeds,
  leaves the hardware alone and records the bus that \<open>i2c_get_bus_num\<close> then reports; but every later \<open>i2c_read\<close> and
  \<open>i2c_write\<close> gives the same result, the same bytes and the same hardware whichever bus was selected, because the
  registers are accessed through macros fixed to the first controller.
\<close>

theorem i2c_bus_ignored:
  assumes "bus < 3" "bus' < 3" "bus_initialized st ! bus" "bus_initialized st ! bus'"
  shows "\<exists>s s'. i2c_set_bus_num mm bus st h = Some (0, s, h) \<and> i2c_set_bus_num mm bus' st h = Some (0, s', h) \<and>
    i2c_get_bus_num s = bus \<and> i2c_get_bus_num s' = bus' \<and>
    map_option (\<lambda>(r, b, _, h). (r, b, h)) (i2c_read mm chip addr alen buffer s h) =
      map_option (\<lambda>(r, b, _, h). (r, b, h)) (i2c_read mm chip addr alen buffer s' h) \<and>
    map_option (\<lambda>(r, _, h). (r, h)) (i2c_write mm chip addr alen buffer s h) =
      map_option (\<lambda>(r, _, h). (r, h)) (i2c_write mm chip addr alen buffer s' h)"
proof -
  obtain s where s: "i2c_set_bus_num mm bus st h = Some (0, s, h)" "current_bus s = bus"
    using assms by (simp add: i2c_set_bus_num_def)
  obtain s' where s': "i2c_set_bus_num mm bus' st h = Some (0, s', h)" "current_bus s' = bus'"
    using assms by (simp add: i2c_set_bus_num_def)
  show ?thesis
    using s s' i2c_read_loop_hw [of mm chip addr buffer s h s'] i2c_write_loop_hw [of mm chip addr buffer s h s']
    by (intro exI [of _ s] exI [of _ s']) (simp add: i2c_get_bus_num_def i2c_read_def i2c_write_def no_drv_def)
qed

section \<open>The controller and the chips on its bus\<close>

text \<open>
  A transfer addresses a chip; the first byte it sends sets the register pointer, a second byte is stored in
  the register, and a fetch reads the register pointed at. The controller reports with a delay of at most ten polls that
  it waits for a byte to send or has one to fetch. Every chip answers.
\<close>

datatype i2c_mode = Quiet | Pointing | Storing | Fetching

record i2c_ctl =
  c_sa :: u8
  c_cnt :: u16
  c_mode :: i2c_mode
  c_ptr :: u8
  c_regs :: "u8 \<Rightarrow> u8 \<Rightarrow> u8"

definition ctl_send :: "u8 \<Rightarrow> i2c_ctl \<Rightarrow> i2c_ctl" where
  "ctl_send x c = (case c_mode c of
     Pointing \<Rightarrow> c\<lparr>c_ptr := x, c_mode := if c_cnt c = 2 then Storing else Quiet\<rparr>
   | Storing \<Rightarrow> c\<lparr>c_regs := (c_regs c)(c_sa c := (c_regs c (c_sa c))(c_ptr c := x)), c_mode := Quiet\<rparr>
   | _ \<Rightarrow> c)"

definition ctl_writew :: "u16 \<Rightarrow> u32 \<Rightarrow> i2c_ctl \<Rightarrow> i2c_ctl" where
  "ctl_writew x a c =
     (if a = I2C_SA then c\<lparr>c_sa := ucast x\<rparr>
      else if a = I2C_CNT then c\<lparr>c_cnt := x\<rparr>
      else if a = I2C_CON
      then c\<lparr>c_mode := if x AND I2C_CON_MST = 0 \<or> x AND I2C_CON_STT = 0 then Quiet
                       else if x AND I2C_CON_TRX \<noteq> 0 then Pointing else Fetching\<rparr>
      else if a = I2C_DATA then ctl_send (ucast x) c
      else c)"

definition ctl_status :: "i2c_ctl \<Rightarrow> u16" where
  "ctl_status c = (case c_mode c of Quiet \<Rightarrow> 0 | Fetching \<Rightarrow> I2C_STAT_RRDY | _ \<Rightarrow> I2C_STAT_XRDY)"

definition ctl_law :: "'h mmio \<Rightarrow> ('h \<Rightarrow> i2c_ctl) \<Rightarrow> ('h \<Rightarrow> nat) \<Rightarrow> bool" where
  "ctl_law mm ctl late \<longleftrightarrow>
     (\<forall>x a h. ctl (writew mm x a h) = ctl_writew x a (ctl h) \<and> late (writew mm x a h) \<le> 10) \<and>
     (\<forall>x h. ctl (writeb mm x I2C_DATA h) = ctl_send x (ctl h) \<and> late (writeb mm x I2C_DATA h) \<le> 10) \<and>
     (\<forall>h. c_mode (ctl h) = Fetching \<longrightarrow>
        fst (readb mm I2C_DATA h) = c_regs (ctl h) (c_sa (ctl h)) (c_ptr (ctl h)) \<and>
        ctl (snd (readb mm I2C_DATA h)) = (ctl h)\<lparr>c_mode := Quiet\<rparr>) \<and>
     (\<forall>h. fst (readw mm I2C_STAT h) = (if late h = 0 then ctl_status (ctl h) else 0) \<and>
        ctl (snd (readw mm I2C_STAT h)) = ctl h \<and> late (snd (readw mm I2C_STAT h)) = late h - 1) \<and>
     (\<forall>h. ctl (snd (readw mm I2C_CON h)) = ctl h \<and> (c_mode (ctl h) = Quiet \<longrightarrow> fst (readw mm I2C_CON h) AND I2C_CON_MST = 0))"

lemma ctl_write: "ctl_law mm ctl late \<Longrightarrow> ctl (writew mm x a h) = ctl_writew x a (ctl h)"
  "ctl_law mm ctl late \<Longrightarrow> late (writew mm x a h) \<le> 10"
  "ctl_law mm ctl late \<Longrightarrow> ctl (writeb mm y I2C_DATA h) = ctl_send y (ctl h)"
  "ctl_law mm ctl late \<Longrightarrow> late (writeb mm y I2C_DATA h) \<le> 10"
  by (simp_all add: ctl_law_def)

lemma ctl_stat: "ctl_law mm ctl late \<Longrightarrow> fst (readw mm I2C_STAT h) = (if late h = 0 then ctl_status (ctl h) else 0)"
  "ctl_law mm ctl late \<Longrightarrow> ctl (snd (readw mm I2C_STAT h)) = ctl h"
  "ctl_law mm ctl late \<Longrightarrow> late (snd (readw mm I2C_STAT h)) = late h - 1"
  by (simp_all add: ctl_law_def)

lemma ctl_con: "ctl_law mm ctl late \<Longrightarrow> ctl (snd (readw mm I2C_CON h)) = ctl h"
  "ctl_law mm ctl late \<Longrightarrow> c_mode (ctl h) = Quiet \<Longrightarrow> fst (readw mm I2C_CON h) AND I2C_CON_MST = 0"
  by (simp_all add: ctl_law_def)

lemma ctl_fetch:
  assumes "ctl_law mm ctl late" "c_mode (ctl h) = Fetching"
  shows "fst (readb mm I2C_DATA h) = c_regs (ctl h) (c_sa (ctl h)) (c_ptr (ctl h))"
    "ctl (snd (readb mm I2C_DATA h)) = (ctl h)\<lparr>c_mode := Quiet\<rparr>"
  using assms by (simp_all add: ctl_law_def)

lemma ctl_status_values: "ctl_status c AND I2C_STAT_BB = 0" "ctl_status c AND I2C_STAT_EVENTS = ctl_status c"
  "ctl_status c AND I2C_STAT_NACK = 0" "c_mode c = Quiet \<Longrightarrow> ctl_status c = 0" "c_mode c \<noteq> Quiet \<Longrightarrow> ctl_status c \<noteq> 0"
  "c_mode c \<noteq> Fetching \<Longrightarrow> ctl_status c \<noteq> I2C_STAT_RRDY"
  by (auto simp: ctl_status_def split: i2c_mode.splits)

lemma ctl_writew_stat: "ctl_writew x I2C_STAT c = c"
  by (simp add: ctl_writew_def)

lemma wait_for_bb_ctl:
  assumes l: "ctl_law mm ctl late"
  shows "ctl (wait_for_bb mm h) = ctl h" "late (wait_for_bb mm h) \<le> 10"
  by (simp_all add: wait_for_bb_def Let_def case_prod_beta wait_bb_loop.simps [of mm 10] ctl_stat [OF l] ctl_write [OF l]
      ctl_writew_stat ctl_status_values)

lemma wait_pin_loop_ctl:
  assumes l: "ctl_law mm ctl late" and "late h \<le> t" "c_mode (ctl h) \<noteq> Quiet"
  shows "\<exists>k h'. wait_pin_loop mm t h = (ctl_status (ctl h), k, h') \<and> ctl h' = ctl h"
  using assms(2,3)
proof (induction t arbitrary: h)
  case 0
  then show ?case
    using ctl_status_values [of "ctl h"]
    by (simp add: wait_pin_loop.simps [of mm 0] case_prod_beta ctl_stat [OF l])
next
  case (Suc t)
  let ?h = "snd (readw mm I2C_STAT h)"
  show ?case
  proof (cases "late h = 0")
    case True
    then show ?thesis
      using ctl_status_values [of "ctl h"] Suc.prems
      by (simp add: wait_pin_loop.simps [of mm "Suc t"] case_prod_beta ctl_stat [OF l])
  next
    case False
    then have "wait_pin_loop mm (Suc t) h = wait_pin_loop mm t ?h"
      by (simp add: wait_pin_loop.simps [of mm "Suc t"] case_prod_beta ctl_stat [OF l])
    then show ?thesis using Suc.IH [of ?h] Suc.prems by (simp add: ctl_stat [OF l])
  qed
qed

lemma wait_for_pin_ctl:
  assumes l: "ctl_law mm ctl late" and "late h \<le> 10" "c_mode (ctl h) \<noteq> Quiet"
  obtains h' where "wait_for_pin mm h = (ctl_status (ctl h), h')" "ctl h' = ctl h"
proof -
  obtain k h1 where "wait_pin_loop mm 10 h = (ctl_status (ctl h), k, h1)" "ctl h1 = ctl h"
    using wait_pin_loop_ctl [OF assms] by blast
  then show ?thesis
    using that by (simp add: wait_for_pin_def ctl_write [OF l] ctl_stat [OF l] ctl_writew_stat)
qed

lemma flush_fifo_ctl:
  assumes l: "ctl_law mm ctl late" and "c_mode (ctl h) \<noteq> Fetching"
  obtains h' where "flush_fifo mm h = Some h'" "ctl h' = ctl h"
proof -
  have "fst (readw mm I2C_STAT h) \<noteq> I2C_STAT_RRDY" using ctl_status_values(6) [OF assms(2)] by (simp add: ctl_stat [OF l])
  then have "flush_fifo mm h = Some (snd (readw mm I2C_STAT h))" by (subst flush_fifo.simps) (simp add: case_prod_beta)
  then show ?thesis using that by (simp add: ctl_stat [OF l])
qed

lemma quiet_loops:
  assumes l: "ctl_law mm ctl late" and q: "c_mode (ctl h) = Quiet"
  shows "\<exists>h'. read_ardy_loop mm h = Some h' \<and> ctl h' = ctl h"
    "\<exists>h'. read_stop_loop mm h = Some h' \<and> ctl h' = ctl h"
    "ctl (write_stop_loop mm n h) = ctl h"
proof -
  have s: "fst (readw mm I2C_STAT h) = 0" using ctl_status_values(4) [OF q] by (simp add: ctl_stat [OF l])
  have c: "fst (readw mm I2C_CON (snd (readw mm I2C_STAT h))) AND I2C_CON_MST = 0"
    using ctl_con(2) [OF l, of "snd (readw mm I2C_STAT h)"] q by (simp add: ctl_stat [OF l])
  show "\<exists>h'. read_ardy_loop mm h = Some h' \<and> ctl h' = ctl h"
    by (subst read_ardy_loop.simps) (simp add: case_prod_beta s ctl_stat(2) [OF l])
  show "\<exists>h'. read_stop_loop mm h = Some h' \<and> ctl h' = ctl h"
    using c by (subst read_stop_loop.simps) (simp add: case_prod_beta Let_def s ctl_stat(2) [OF l] ctl_con(1) [OF l])
  show "ctl (write_stop_loop mm n h) = ctl h"
    using c by (subst write_stop_loop.simps) (simp add: case_prod_beta Let_def s ctl_stat(2) [OF l] ctl_con(1) [OF l])
qed

lemma ucast_8_16_8: "ucast (ucast (x :: u8) :: u16) = x"
  by (rule bit_word_eqI) (simp add: bit_ucast_iff)

definition ctl_stored :: "u8 \<Rightarrow> u8 \<Rightarrow> u8 \<Rightarrow> i2c_ctl \<Rightarrow> i2c_ctl" where
  "ctl_stored chip reg v c = c\<lparr>c_sa := chip, c_cnt := 0, c_mode := Quiet, c_ptr := reg,
     c_regs := (c_regs c)(chip := (c_regs c chip)(reg := v))\<rparr>"

definition ctl_fetched :: "u8 \<Rightarrow> u8 \<Rightarrow> i2c_ctl \<Rightarrow> i2c_ctl" where
  "ctl_fetched chip reg c = c\<lparr>c_sa := chip, c_cnt := 0, c_mode := Quiet, c_ptr := reg\<rparr>"

lemma i2c_write_byte_ctl:
  assumes l: "ctl_law mm ctl late"
  obtains h' where "i2c_write_byte mm chip reg v h = Some (0, h')" "ctl h' = ctl_stored chip reg v (ctl h)"
proof -
  note w = ctl_write [OF l] wait_for_bb_ctl [OF l] ctl_writew_def ucast_8_16_8
  define h1 where "h1 = writew mm 0x8603 I2C_CON (writew mm (ucast chip) I2C_SA (writew mm 2 I2C_CNT (wait_for_bb mm h)))"
  have c1: "ctl h1 = (ctl h)\<lparr>c_sa := chip, c_cnt := 2, c_mode := Pointing\<rparr>" "late h1 \<le> 10" by (simp_all add: h1_def w)
  obtain h2 where h2: "wait_for_pin mm h1 = (I2C_STAT_XRDY, h2)" "ctl h2 = ctl h1"
    using wait_for_pin_ctl [OF l c1(2)] by (auto simp: c1 ctl_status_def)
  define h3 where "h3 = writew mm I2C_STAT_XRDY I2C_STAT (writeb mm reg I2C_DATA h2)"
  have c3: "ctl h3 = (ctl h)\<lparr>c_sa := chip, c_cnt := 2, c_mode := Storing, c_ptr := reg\<rparr>" "late h3 \<le> 10"
    by (simp_all add: h3_def w h2 c1 ctl_send_def)
  obtain h4 where h4: "wait_for_pin mm h3 = (I2C_STAT_XRDY, h4)" "ctl h4 = ctl h3"
    using wait_for_pin_ctl [OF l c3(2)] by (auto simp: c3 ctl_status_def)
  define h5 where "h5 = writew mm I2C_STAT_XRDY I2C_STAT (writeb mm v I2C_DATA h4)"
  have c5: "ctl h5 = (ctl h)\<lparr>c_sa := chip, c_cnt := 2, c_mode := Quiet, c_ptr := reg,
      c_regs := (c_regs (ctl h))(chip := (c_regs (ctl h) chip)(reg := v))\<rparr>"
    by (simp add: h5_def w h4 c3 ctl_send_def)
  have n5: "fst (readw mm I2C_STAT h5) AND I2C_STAT_NACK = 0" by (simp add: ctl_stat [OF l] ctl_status_values)
  define h6 where "h6 = write_stop_loop mm 200 (writew mm I2C_CON_EN I2C_CON (snd (readw mm I2C_STAT h5)))"
  have c6: "ctl h6 = ctl h5" unfolding h6_def by (subst quiet_loops(3) [OF l]) (simp_all add: w ctl_stat [OF l] c5)
  obtain h7 where h7: "flush_fifo mm h6 = Some h7" "ctl h7 = ctl h6"
    using flush_fifo_ctl [OF l, of h6] by (auto simp: c6 c5)
  have "i2c_write_byte mm chip reg v h = Some (0, writew mm 0 I2C_CNT (writew mm 0xFFFF I2C_STAT h7))"
    using h2(1) h4(1) h7(1) n5 by (simp add: i2c_write_byte_def Let_def case_prod_beta h1_def h3_def h5_def h6_def)
  then show ?thesis by (rule that) (simp add: w h7 c6 c5 ctl_stored_def)
qed

lemma i2c_read_byte_ctl:
  assumes l: "ctl_law mm ctl late"
  obtains h' where "i2c_read_byte mm chip reg x h = Some (0, c_regs (ctl h) chip reg, h')" "ctl h' = ctl_fetched chip reg (ctl h)"
proof -
  note w = ctl_write [OF l] wait_for_bb_ctl [OF l] ctl_writew_def ucast_8_16_8
  define h1 where "h1 = writew mm 0x8601 I2C_CON (writew mm (ucast chip) I2C_SA (writew mm 1 I2C_CNT (wait_for_bb mm h)))"
  have c1: "ctl h1 = (ctl h)\<lparr>c_sa := chip, c_cnt := 1, c_mode := Pointing\<rparr>" "late h1 \<le> 10" by (simp_all add: h1_def w)
  obtain h2 where h2: "wait_for_pin mm h1 = (I2C_STAT_XRDY, h2)" "ctl h2 = ctl h1"
    using wait_for_pin_ctl [OF l c1(2)] by (auto simp: c1 ctl_status_def)
  define h3 where "h3 = writew mm (ucast reg) I2C_DATA h2"
  have c3: "ctl h3 = (ctl h)\<lparr>c_sa := chip, c_cnt := 1, c_mode := Quiet, c_ptr := reg\<rparr>"
    by (simp add: h3_def w h2 c1 ctl_send_def)
  have n3: "fst (readw mm I2C_STAT h3) AND I2C_STAT_NACK = 0" by (simp add: ctl_stat [OF l] ctl_status_values)
  have c3': "ctl (writew mm I2C_CON_EN I2C_CON (snd (readw mm I2C_STAT h3))) = ctl h3" by (simp add: w ctl_stat [OF l] c3)
  obtain h4 where h4: "read_ardy_loop mm (writew mm I2C_CON_EN I2C_CON (snd (readw mm I2C_STAT h3))) = Some h4" "ctl h4 = ctl h3"
    using quiet_loops(1) [OF l, of "writew mm I2C_CON_EN I2C_CON (snd (readw mm I2C_STAT h3))"] by (auto simp: c3 c3')
  define h5 where "h5 = writew mm 0x8403 I2C_CON (writew mm 1 I2C_CNT (writew mm (ucast chip) I2C_SA h4))"
  have c5: "ctl h5 = (ctl h)\<lparr>c_sa := chip, c_cnt := 1, c_mode := Fetching, c_ptr := reg\<rparr>" "late h5 \<le> 10"
    by (simp_all add: h5_def w h4 c3)
  obtain h6 where h6: "wait_for_pin mm h5 = (I2C_STAT_RRDY, h6)" "ctl h6 = ctl h5"
    using wait_for_pin_ctl [OF l c5(2)] by (auto simp: c5 ctl_status_def)
  have f: "c_mode (ctl h6) = Fetching" by (simp add: h6 c5)
  have v: "fst (readb mm I2C_DATA h6) = c_regs (ctl h) chip reg" by (simp add: ctl_fetch [OF l f] h6 c5)
  define h7 where "h7 = writew mm I2C_CON_EN I2C_CON (snd (readb mm I2C_DATA h6))"
  have c7: "ctl h7 = (ctl h)\<lparr>c_sa := chip, c_cnt := 1, c_mode := Quiet, c_ptr := reg\<rparr>"
    by (simp add: h7_def w ctl_fetch [OF l f] h6 c5)
  obtain h8 where h8: "read_stop_loop mm h7 = Some h8" "ctl h8 = ctl h7" using quiet_loops(2) [OF l, of h7] by (auto simp: c7)
  obtain h9 where h9: "flush_fifo mm h8 = Some h9" "ctl h9 = ctl h8" using flush_fifo_ctl [OF l, of h8] by (auto simp: h8 c7)
  have "i2c_read_byte mm chip reg x h =
      Some (0, c_regs (ctl h) chip reg, writew mm 0 I2C_CNT (writew mm 0xFFFF I2C_STAT h9))"
    using h2(1) h4(1) h6(1) h8(1) h9(1) n3 v
    by (simp add: i2c_read_byte_def Let_def case_prod_beta h1_def h3_def h5_def h7_def)
  then show ?thesis by (rule that) (simp add: w h9 h8 c7 ctl_fetched_def)
qed

section \<open>Blocks of registers\<close>

text \<open>The registers of a chip after a block of bytes was stored from register \<open>a\<close> on.\<close>

fun stored :: "u8 \<Rightarrow> u8 list \<Rightarrow> (u8 \<Rightarrow> u8) \<Rightarrow> u8 \<Rightarrow> u8" where
  "stored a [] r = r"
| "stored a (b # bs) r = stored (a + 1) bs (r(a := b))"

lemma ucast_u8_Suc: "ucast (x + 1 :: u32) = (ucast x + 1 :: u8)"
proof transfer
  fix x :: int
  have "take_bit 8 (take_bit 32 x + 1) = take_bit 8 (take_bit 8 (take_bit 32 x) + take_bit 8 1)"
    by (rule take_bit_add [symmetric])
  also have "\<dots> = take_bit 8 (take_bit 8 x + take_bit 8 1)" unfolding take_bit_take_bit by simp
  also have "\<dots> = take_bit 8 (x + 1)" by (rule take_bit_add)
  also have "\<dots> = take_bit 8 (take_bit 32 (x + 1))" unfolding take_bit_take_bit by simp
  finally show "take_bit LENGTH(8) (take_bit LENGTH(32) (x + 1)) = take_bit LENGTH(8) (take_bit LENGTH(32) x + 1)" by simp
qed

lemma i2c_write_loop_ctl:
  assumes l: "ctl_law mm ctl late"
  shows "\<exists>h'. i2c_write_loop mm chip addr bs st h = Some (0, st, h') \<and>
    c_regs (ctl h') = (c_regs (ctl h))(chip := stored (ucast addr) bs (c_regs (ctl h) chip))"
proof (induction bs arbitrary: addr h)
  case (Cons b bs)
  obtain h1 where h1: "i2c_write_byte mm chip (ucast addr) b h = Some (0, h1)" "ctl h1 = ctl_stored chip (ucast addr) b (ctl h)"
    using i2c_write_byte_ctl [OF l] .
  have r: "c_regs (ctl h1) = (c_regs (ctl h))(chip := (c_regs (ctl h) chip)(ucast addr := b))"
    by (simp add: h1 ctl_stored_def)
  obtain h' where h': "i2c_write_loop mm chip (addr + 1) bs st h1 = Some (0, st, h')"
      "c_regs (ctl h') = (c_regs (ctl h1))(chip := stored (ucast (addr + 1)) bs (c_regs (ctl h1) chip))"
    using Cons.IH by blast
  have "c_regs (ctl h') = (c_regs (ctl h))(chip := stored (ucast addr) (b # bs) (c_regs (ctl h) chip))"
    unfolding h'(2) r stored.simps ucast_u8_Suc fun_upd_same fun_upd_upd ..
  moreover have "i2c_write_loop mm chip addr (b # bs) st h = Some (0, st, h')" using h'(1) h1(1) by simp
  ultimately show ?case by (intro exI [of _ h'] conjI)
qed simp

lemma i2c_read_loop_ctl:
  assumes l: "ctl_law mm ctl late"
  shows "\<exists>h'. i2c_read_loop mm chip addr bs st h = Some (0, map (\<lambda>i. c_regs (ctl h) chip (ucast addr + of_nat i)) [0..<length bs], st, h') \<and>
    c_regs (ctl h') = c_regs (ctl h)"
proof (induction bs arbitrary: addr h)
  case (Cons b bs)
  obtain h1 where h1: "i2c_read_byte mm chip (ucast addr) b h = Some (0, c_regs (ctl h) chip (ucast addr), h1)"
      "ctl h1 = ctl_fetched chip (ucast addr) (ctl h)"
    using i2c_read_byte_ctl [OF l] .
  show ?case using Cons.IH [of "addr + 1" h1] h1
    by (auto simp: ctl_fetched_def ucast_u8_Suc add.assoc upt_conv_Cons simp flip: map_Suc_upt simp del: upt_Suc)
qed simp

lemma stored_at:
  assumes "length bs \<le> 256"
  shows "stored a bs r x = (if unat (x - a) < length bs then bs ! unat (x - a) else r x)"
  using assms
proof (induction bs arbitrary: a r)
  case (Cons b bs)
  show ?case
  proof (cases "x = a")
    case True
    have "unat (- 1 :: u8) = 255" by (simp add: unsigned_minus_1_eq_mask mask_eq_exp_minus_1)
    then have "unat (x - (a + 1)) = 255" using True by simp
    then show ?thesis using Cons True by simp
  next
    case False
    then have "x - a \<noteq> 0" by simp
    then have "unat (x - a - 1) = unat (x - a) - 1" "unat (x - a) \<noteq> 0" by (rule unat_minus_one) (use False in \<open>simp add: unat_eq_0\<close>)
    then have "unat (x - a) = Suc (unat (x - (a + 1)))" by (simp add: diff_diff_eq)
    then show ?thesis using Cons False by simp
  qed
qed simp

lemma i2c_range: "unat addr + n \<le> 256 \<Longrightarrow> \<not> (addr :: u32) + of_nat n > 256"
  by (simp add: word_less_nat_alt unat_word_ariths unat_of_nat)

text \<open>
  C22: what \<open>i2c_write\<close> stores in a block of registers of a chip, \<open>i2c_read\<close> gives back: both return 0, and no other
  register of that chip and no register of another chip changes. This holds for blocks within the 256 registers of a chip
  and a controller that reports its events with a delay of at most ten polls.
\<close>

theorem i2c_write_read_back:
  assumes l: "ctl_law mm ctl late" and "alen \<le> 1" "unat addr + length bs \<le> 256" "length buf = length bs"
  shows "\<exists>h1 h2. i2c_write mm chip addr alen bs st h = Some (0, st, h1) \<and>
    i2c_read mm chip addr alen buf st h1 = Some (0, bs, st, h2) \<and>
    (\<forall>c r. (c \<noteq> chip \<or> unat r < unat addr \<or> unat addr + length bs \<le> unat r) \<longrightarrow>
       c_regs (ctl h1) c r = c_regs (ctl h) c r \<and> c_regs (ctl h2) c r = c_regs (ctl h) c r)"
proof -
  obtain h1 where h1: "i2c_write_loop mm chip addr bs st h = Some (0, st, h1)"
      "c_regs (ctl h1) = (c_regs (ctl h))(chip := stored (ucast addr) bs (c_regs (ctl h) chip))"
    using i2c_write_loop_ctl [OF l] by blast
  obtain h2 where h2: "i2c_read_loop mm chip addr buf st h1 =
        Some (0, map (\<lambda>i. c_regs (ctl h1) chip (ucast addr + of_nat i)) [0..<length buf], st, h2)" "c_regs (ctl h2) = c_regs (ctl h1)"
    using i2c_read_loop_ctl [OF l] by blast
  have s: "stored (ucast addr) bs g x = (if unat (x - ucast addr) < length bs then bs ! unat (x - ucast addr) else g x)" for g x
    by (rule stored_at) (use assms(3) in simp)
  have "map (\<lambda>i. c_regs (ctl h1) chip (ucast addr + of_nat i)) [0..<length buf] = bs"
    using assms(3,4) by (intro nth_equalityI) (auto simp: h1(2) s unat_of_nat)
  moreover have "c_regs (ctl h1) c r = c_regs (ctl h) c r"
    if "c \<noteq> chip \<or> unat r < unat addr \<or> unat addr + length bs \<le> unat r" for c r
  proof (cases "c = chip")
    case True
    have a: "unat (ucast addr :: u8) = unat addr \<or> bs = []" using assms(3)
      by (cases bs) (auto simp: unsigned_ucast_eq take_bit_nat_eq_self)
    have "\<not> unat (r - ucast addr) < length bs"
    proof (cases "ucast addr \<le> r")
      case c: True
      then show ?thesis using a that True by (auto simp: unat_sub word_le_nat_alt)
    next
      case False
      then have "unat (r - ucast addr) = 256 + unat r - unat (ucast addr :: u8)"
        by (simp add: unat_sub_if_size word_le_nat_alt word_size)
      then show ?thesis using a assms(3) False by (auto simp: word_le_nat_alt)
    qed
    then show ?thesis using True by (simp add: h1(2) s)
  qed (simp add: h1(2))
  ultimately show ?thesis
    using h1(1) h2 i2c_range [OF assms(3)] assms(2,4) by (intro exI [of _ h1] exI [of _ h2]) (simp add: i2c_write_def i2c_read_def)
qed

text \<open>A controller that is two polls late.\<close>

definition idemo_mmio :: "(i2c_ctl \<times> nat) mmio" where
  "idemo_mmio = \<lparr>
     readb = \<lambda>a (c, n). if a = I2C_DATA \<and> c_mode c = Fetching
       then (c_regs c (c_sa c) (c_ptr c), (c\<lparr>c_mode := Quiet\<rparr>, n)) else (0, (c, n)),
     writeb = \<lambda>x a (c, n). (if a = I2C_DATA then ctl_send x c else c, 2),
     readw = \<lambda>a (c, n). if a = I2C_STAT then (if n = 0 then ctl_status c else 0, (c, n - 1)) else (0, (c, n)),
     writew = \<lambda>x a (c, n). (ctl_writew x a c, 2),
     readl = \<lambda>_ h. (0, h), writel = \<lambda>_ _ h. h\<rparr>"

definition idemo_start :: "i2c_ctl \<times> nat" where
  "idemo_start = (\<lparr>c_sa = 0, c_cnt = 0, c_mode = Quiet, c_ptr = 0, c_regs = \<lambda>_ _. 0\<rparr>, 0)"

lemma idemo_law: "ctl_law idemo_mmio fst snd"
  by (auto simp: ctl_law_def idemo_mmio_def)

theorem i2c_write_read_back_witness:
  "ctl_law idemo_mmio fst snd \<and>
   (\<exists>h1 h2. i2c_write idemo_mmio 0x41 5 1 [0x20, 0] i2c_drv_start idemo_start = Some (0, i2c_drv_start, h1) \<and>
      i2c_read idemo_mmio 0x41 5 1 [1, 1] i2c_drv_start h1 = Some (0, [0x20, 0], i2c_drv_start, h2) \<and> c_regs (fst h2) 0x40 5 = 0)"
proof -
  obtain h1 h2 where "i2c_write idemo_mmio 0x41 5 1 [0x20, 0] i2c_drv_start idemo_start = Some (0, i2c_drv_start, h1)"
      "i2c_read idemo_mmio 0x41 5 1 [1, 1] i2c_drv_start h1 = Some (0, [0x20, 0], i2c_drv_start, h2)"
      "c_regs (fst h2) 0x40 5 = 0"
    using i2c_write_read_back [OF idemo_law, of 1 5 "[0x20, 0]" "[1, 1]" "0x41" i2c_drv_start idemo_start]
    by (auto simp: idemo_start_def)
  then show ?thesis using idemo_law by blast
qed

theorem i2c_bus_ignored_witness:
  "\<exists>s s'. i2c_set_bus_num idemo_mmio 0 (i2c_drv_start\<lparr>bus_initialized := [True, True, True]\<rparr>) idemo_start = Some (0, s, idemo_start) \<and>
     i2c_set_bus_num idemo_mmio 2 (i2c_drv_start\<lparr>bus_initialized := [True, True, True]\<rparr>) idemo_start = Some (0, s', idemo_start) \<and>
     map_option (\<lambda>(r, b, _, h). (r, b, h)) (i2c_read idemo_mmio 0x5D 7 1 [0] s idemo_start) =
       map_option (\<lambda>(r, b, _, h). (r, b, h)) (i2c_read idemo_mmio 0x5D 7 1 [0] s' idemo_start)"
  using i2c_bus_ignored [of 0 2 "i2c_drv_start\<lparr>bus_initialized := [True, True, True]\<rparr>" idemo_mmio idemo_start "0x5D" 7 1 "[0]"]
  by (simp add: i2c_drv_start_def) blast

section \<open>What the driver leaves alone\<close>

text \<open>What a sequence of accesses to the bus controller leaves alone.\<close>

definition i2c_apart :: "'h mmio \<Rightarrow> ('h \<Rightarrow> 'a) \<Rightarrow> bool" where
  "i2c_apart mm f \<longleftrightarrow> (\<forall>a h. a AND NOT 0xFFF = I2C_BASE1 \<longrightarrow>
     (\<forall>v. f (writew mm v a h) = f h) \<and> (\<forall>v. f (writeb mm v a h) = f h) \<and>
     f (snd (readw mm a h)) = f h \<and> f (snd (readb mm a h)) = f h)"

text \<open>The receive buffer of the bus controller stays empty: there is no transfer.\<close>

definition i2c_no_data :: "'h mmio \<Rightarrow> bool" where
  "i2c_no_data mm \<longleftrightarrow> (\<forall>h. fst (readw mm I2C_STAT h) \<noteq> I2C_STAT_RRDY)"

lemma flush_fifo_empty: "i2c_no_data mm \<Longrightarrow> flush_fifo mm h = Some (snd (readw mm I2C_STAT h))"
  by (subst flush_fifo.simps) (simp add: i2c_no_data_def case_prod_beta)

lemma i2c_init_apart:
  assumes "i2c_no_data mm" "i2c_apart mm f"
  shows "\<exists>st' h'. i2c_init mm CONFIG_SYS_I2C_SPEED sl st h = Some (st', h') \<and> f h' = f h"
  using assms(2) by (simp add: i2c_init_def i2c_clocks_def Let_def case_prod_beta flush_fifo_empty [OF assms(1)] i2c_apart_def)

lemma i2c_set_bus_apart:
  assumes "i2c_no_data mm" "i2c_apart mm f" "i < 3"
  shows "\<exists>st' h'. i2c_set_bus_num mm i st h = Some (0, st', h') \<and> f h' = f h"
proof -
  define st0 where "st0 = st\<lparr>i2c_base := if i = 2 then I2C_BASE3 else if i = 1 then I2C_BASE2 else I2C_BASE1, current_bus := i\<rparr>"
  obtain st1 h1 where "i2c_init mm CONFIG_SYS_I2C_SPEED CONFIG_SYS_I2C_SLAVE st0 h = Some (st1, h1)" "f h1 = f h"
    using i2c_init_apart [OF assms(1,2)] by blast
  then show ?thesis using assms(3) by (simp add: i2c_set_bus_num_def Let_def flip: st0_def)
qed

section \<open>Transfers leave the rest of the hardware alone\<close>

lemma i2c_apartD:
  assumes "i2c_apart mm f"
  shows "a AND NOT 0xFFF = I2C_BASE1 \<Longrightarrow> f (writew mm v a h) = f h" "f (writeb mm x I2C_DATA h) = f h"
    "f (snd (readw mm I2C_STAT h)) = f h" "f (snd (readw mm I2C_CON h)) = f h" "f (snd (readb mm I2C_DATA h)) = f h"
  using assms by (simp_all add: i2c_apart_def)

lemma wait_bb_loop_apart: "i2c_apart mm f \<Longrightarrow> f (snd (wait_bb_loop mm t h)) = f h"
  by (induction t arbitrary: h; subst wait_bb_loop.simps) (simp_all add: Let_def case_prod_beta i2c_apartD)

lemma wait_for_bb_apart: "i2c_apart mm f \<Longrightarrow> f (wait_for_bb mm h) = f h"
  by (simp add: wait_for_bb_def Let_def case_prod_beta i2c_apartD wait_bb_loop_apart)

lemma wait_pin_loop_apart: "i2c_apart mm f \<Longrightarrow> f (snd (snd (wait_pin_loop mm t h))) = f h"
  by (induction t arbitrary: h; subst wait_pin_loop.simps) (simp_all add: Let_def case_prod_beta i2c_apartD)

lemma wait_for_pin_apart: "i2c_apart mm f \<Longrightarrow> f (snd (wait_for_pin mm h)) = f h"
  by (simp add: wait_for_pin_def Let_def case_prod_beta i2c_apartD wait_pin_loop_apart)

lemma write_stop_loop_apart: "i2c_apart mm f \<Longrightarrow> f (write_stop_loop mm n h) = f h"
  by (induction n arbitrary: h; subst write_stop_loop.simps) (simp_all add: Let_def case_prod_beta i2c_apartD)

lemma flush_fifo_apart:
  assumes "i2c_apart mm f" "flush_fifo mm h = Some h'"
  shows "f h' = f h"
proof -
  have step: "m = mm \<longrightarrow> f h' = f h"
    if "\<And>m h y. rec m h = Some y \<Longrightarrow> m = mm \<longrightarrow> f y = f h"
      and "(let (stat, h) = readw m I2C_STAT h in if stat = I2C_STAT_RRDY
        then let (_, h) = readb m I2C_DATA h in rec m (writew m I2C_STAT_RRDY I2C_STAT h) else Some h) = Some h'" for rec m h h'
    using that i2c_apartD [OF assms(1)] by (fastforce simp: case_prod_beta Let_def split: if_splits)
  have "mm = mm \<longrightarrow> f h' = f h"
    using step assms(2) by (rule flush_fifo.raw_induct [where P = "\<lambda>m h y. m = mm \<longrightarrow> f y = f h"])
  then show ?thesis by simp
qed

lemma read_ardy_loop_apart:
  assumes "i2c_apart mm f" "read_ardy_loop mm h = Some h'"
  shows "f h' = f h"
proof -
  have step: "m = mm \<longrightarrow> f h' = f h"
    if "\<And>m h y. rec m h = Some y \<Longrightarrow> m = mm \<longrightarrow> f y = f h"
      and "(let (stat, h) = readw m I2C_STAT h in if stat AND (I2C_STAT_RRDY OR I2C_STAT_ARDY) \<noteq> 0
        then rec m (writew m 0xFFFF I2C_STAT h) else Some h) = Some h'" for rec m h h'
    using that i2c_apartD [OF assms(1)] by (fastforce simp: case_prod_beta Let_def split: if_splits)
  have "mm = mm \<longrightarrow> f h' = f h"
    using step assms(2) by (rule read_ardy_loop.raw_induct [where P = "\<lambda>m h y. m = mm \<longrightarrow> f y = f h"])
  then show ?thesis by simp
qed

lemma read_stop_loop_apart:
  assumes "i2c_apart mm f" "read_stop_loop mm h = Some h'"
  shows "f h' = f h"
proof -
  have step: "m = mm \<longrightarrow> f h' = f h"
    if "\<And>m h y. rec m h = Some y \<Longrightarrow> m = mm \<longrightarrow> f y = f h"
      and "(let (stat, h) = readw m I2C_STAT h;
          (busy, h) = (if stat \<noteq> 0 then (True, h) else let (con, h) = readw m I2C_CON h in (con AND I2C_CON_MST \<noteq> 0, h))
        in if busy then rec m (writew m 0xFFFF I2C_STAT h) else Some h) = Some h'" for rec m h h'
    using that i2c_apartD [OF assms(1)] by (fastforce simp: case_prod_beta Let_def split: if_splits)
  have "mm = mm \<longrightarrow> f h' = f h"
    using step assms(2) by (rule read_stop_loop.raw_induct [where P = "\<lambda>m h y. m = mm \<longrightarrow> f y = f h"])
  then show ?thesis by simp
qed

lemmas i2c_steps_apart = i2c_apartD wait_for_bb_apart wait_for_pin_apart write_stop_loop_apart

lemma i2c_write_byte_apart:
  assumes "i2c_apart mm f" "i2c_write_byte mm chip reg v h = Some (e, h')"
  shows "f h' = f h"
  using assms(2) flush_fifo_apart [OF assms(1)]
  by (auto simp: i2c_write_byte_def Let_def case_prod_beta i2c_steps_apart [OF assms(1)] split: Option.bind_split_asm if_splits)

lemma i2c_read_byte_apart:
  assumes "i2c_apart mm f" "i2c_read_byte mm chip reg v h = Some (e, w, h')"
  shows "f h' = f h"
  using assms(2) flush_fifo_apart [OF assms(1)] read_ardy_loop_apart [OF assms(1)] read_stop_loop_apart [OF assms(1)]
  by (auto simp: i2c_read_byte_def Let_def case_prod_beta i2c_steps_apart [OF assms(1)] split: Option.bind_split_asm if_splits)

lemma i2c_init_leaves:
  assumes "i2c_apart mm f" "i2c_init mm sp sl st h = Some (st', h')"
  shows "f h' = f h"
  using assms(2) flush_fifo_apart [OF assms(1)]
  by (auto simp: i2c_init_def Let_def case_prod_beta i2c_steps_apart [OF assms(1)] i2c_apart_def [THEN iffD1, OF assms(1), rule_format]
      split: option.splits Option.bind_split_asm)

lemma i2c_read_loop_apart:
  assumes "i2c_apart mm f"
  shows "i2c_read_loop mm chip addr bs st h = Some (e, bs', st', h') \<Longrightarrow> f h' = f h"
proof (induction bs arbitrary: addr h e bs' st')
  case (Cons b bs)
  obtain e1 b1 h1 where 1: "i2c_read_byte mm chip (ucast addr) b h = Some (e1, b1, h1)" using Cons.prems by (auto split: Option.bind_split_asm)
  note h1 = i2c_read_byte_apart [OF assms 1]
  show ?case
  proof (cases "e1 = 0")
    case True
    then obtain e2 bs2 st2 where "i2c_read_loop mm chip (addr + 1) bs st h1 = Some (e2, bs2, st2, h')"
      using Cons.prems 1 by (auto split: Option.bind_split_asm)
    then show ?thesis using Cons.IH h1 by simp
  next
    case False
    then show ?thesis using Cons.prems 1 h1 i2c_init_leaves [OF assms] by (auto split: Option.bind_split_asm)
  qed
qed simp

lemma i2c_write_loop_apart:
  assumes "i2c_apart mm f"
  shows "i2c_write_loop mm chip addr bs st h = Some (e, st', h') \<Longrightarrow> f h' = f h"
proof (induction bs arbitrary: addr h e st')
  case (Cons b bs)
  obtain e1 h1 where 1: "i2c_write_byte mm chip (ucast addr) b h = Some (e1, h1)" using Cons.prems by (auto split: Option.bind_split_asm)
  note h1 = i2c_write_byte_apart [OF assms 1]
  show ?case
  proof (cases "e1 = 0")
    case True
    then show ?thesis using Cons.IH Cons.prems 1 h1 by auto
  next
    case False
    then show ?thesis using Cons.prems 1 h1 i2c_init_leaves [OF assms] by (auto split: Option.bind_split_asm)
  qed
qed simp

section \<open>Transfers on a working bus\<close>

lemma i2c_read_ok:
  assumes "ctl_law mm ctl late" "i2c_apart mm f" "unat addr + length bs \<le> 256"
  obtains h' where "i2c_read mm chip addr 1 bs st h = Some (0, map (\<lambda>i. c_regs (ctl h) chip (ucast addr + of_nat i)) [0..<length bs], st, h')"
    "c_regs (ctl h') = c_regs (ctl h)" "f h' = f h"
proof -
  obtain h' where h': "i2c_read_loop mm chip addr bs st h = Some (0, map (\<lambda>i. c_regs (ctl h) chip (ucast addr + of_nat i)) [0..<length bs], st, h')"
      "c_regs (ctl h') = c_regs (ctl h)" using i2c_read_loop_ctl [OF assms(1)] by blast
  then show ?thesis
    using that [of h'] i2c_read_loop_apart [OF assms(2) h'(1)] i2c_range [OF assms(3)] by (simp add: i2c_read_def)
qed

lemma i2c_write_ok:
  assumes "ctl_law mm ctl late" "i2c_apart mm f" "unat addr + length bs \<le> 256"
  obtains h' where "i2c_write mm chip addr 1 bs st h = Some (0, st, h')"
    "c_regs (ctl h') = (c_regs (ctl h))(chip := stored (ucast addr) bs (c_regs (ctl h) chip))" "f h' = f h"
proof -
  obtain h' where h': "i2c_write_loop mm chip addr bs st h = Some (0, st, h')"
      "c_regs (ctl h') = (c_regs (ctl h))(chip := stored (ucast addr) bs (c_regs (ctl h) chip))"
    using i2c_write_loop_ctl [OF assms(1)] by blast
  then show ?thesis
    using that [of h'] i2c_write_loop_apart [OF assms(2) h'(1)] i2c_range [OF assms(3)] by (simp add: i2c_write_def)
qed

lemma i2c_init_ok:
  assumes l: "ctl_law mm ctl late" and "i2c_apart mm f"
  obtains st' h' where "i2c_init mm CONFIG_SYS_I2C_SPEED sl st h = Some (st', h')" "c_regs (ctl h') = c_regs (ctl h)" "f h' = f h"
proof -
  let ?h1 = "\<lambda>h. writew mm I2C_IE_ALL I2C_IE (writew mm I2C_CON_EN I2C_CON (writew mm (word_of_int sl) I2C_OA
    (writew mm 90 I2C_SCLH (writew mm 90 I2C_SCLL (writew mm 4 I2C_PSC h)))))"
  have c: "ctl (?h1 h) = (ctl h)\<lparr>c_mode := Quiet\<rparr>" for h by (simp add: ctl_write [OF l] ctl_writew_def)
  define h0 where "h0 = (if fst (readw mm I2C_CON h) AND I2C_CON_EN \<noteq> 0 then writew mm 0 I2C_CON (snd (readw mm I2C_CON h))
    else snd (readw mm I2C_CON h))"
  have c0: "c_regs (ctl h0) = c_regs (ctl h)" by (simp add: h0_def ctl_write [OF l] ctl_con [OF l] ctl_writew_def)
  obtain h2 where h2: "flush_fifo mm (?h1 h0) = Some h2" "ctl h2 = ctl (?h1 h0)"
    using flush_fifo_ctl [OF l, of "?h1 h0"] by (auto simp: c)
  have "i2c_init mm CONFIG_SYS_I2C_SPEED sl st h = Some (st\<lparr>bus_initialized := (bus_initialized st)[current_bus st := True]\<rparr>,
      writew mm 0 I2C_CNT (writew mm 0xFFFF I2C_STAT h2))"
    using h2(1) by (simp add: i2c_init_def i2c_clocks_def Let_def case_prod_beta flip: h0_def)
  moreover have "c_regs (ctl (writew mm 0 I2C_CNT (writew mm 0xFFFF I2C_STAT h2))) = c_regs (ctl h)"
    by (simp add: ctl_write [OF l] ctl_writew_def h2(2) c c0 [symmetric])
  ultimately show ?thesis using that i2c_init_leaves [OF assms(2)] by blast
qed

lemma i2c_set_bus_ok:
  assumes "ctl_law mm ctl late" "i2c_apart mm f" "bus < 3"
  obtains st' h' where "i2c_set_bus_num mm bus st h = Some (0, st', h')" "c_regs (ctl h') = c_regs (ctl h)" "f h' = f h"
proof -
  define st0 where "st0 = st\<lparr>i2c_base := if bus = 2 then I2C_BASE3 else if bus = 1 then I2C_BASE2 else I2C_BASE1, current_bus := bus\<rparr>"
  obtain st1 h1 where "i2c_init mm CONFIG_SYS_I2C_SPEED CONFIG_SYS_I2C_SLAVE st0 h = Some (st1, h1)"
      "c_regs (ctl h1) = c_regs (ctl h)" "f h1 = f h"
    using i2c_init_ok [OF assms(1,2)] .
  then show ?thesis using that assms(3) by (cases "bus_initialized st0 ! bus") (simp_all add: i2c_set_bus_num_def Let_def flip: st0_def)
qed

end
