(* ===== verification/UbootGpmc.thy ===== *)
theory UbootGpmc
  imports Mmio RhinoBus
begin

text \<open>
  The memory controller in the second-stage loader: \<open>gpmc_init\<close> and \<open>enable_gpmc_cs_config\<close>
  (\<open>src/u-boot/arch/arm/cpu/arm_cortexa8/omap3/mem.c\<close>) and \<open>board_init\<close> (\<open>src/u-boot/board/rhino/rhino.c\<close>), which lays out
  the windows to the FPGA that the kernel's bus driver uses. Delays are left out.
\<close>

section \<open>The memory controller\<close>

abbreviation (input) CTRL_STATUS :: u32 where "CTRL_STATUS \<equiv> 0x480022F0"
abbreviation (input) SYSBOOT_MASK :: u32 where "SYSBOOT_MASK \<equiv> 0x3F"
abbreviation (input) GPMC_CFG_IRQENABLE :: u32 where "GPMC_CFG_IRQENABLE \<equiv> 0x6E00001C"
abbreviation (input) GPMC_CFG_TIMEOUT_CONTROL :: u32 where "GPMC_CFG_TIMEOUT_CONTROL \<equiv> 0x6E000040"
abbreviation (input) GPMC_CFG_CONFIG :: u32 where "GPMC_CFG_CONFIG \<equiv> 0x6E000050"
abbreviation (input) GPMC_SIZE_128M :: u32 where "GPMC_SIZE_128M \<equiv> 8"
abbreviation (input) PISMO1_NAND_BASE :: u32 where "PISMO1_NAND_BASE \<equiv> 0x30000000"
abbreviation (input) PISMO1_NAND_SIZE :: u32 where "PISMO1_NAND_SIZE \<equiv> GPMC_SIZE_128M"
abbreviation (input) SMNAND_ENV_OFFSET :: u32 where "SMNAND_ENV_OFFSET \<equiv> 0x260000"
abbreviation (input) OMAP34XX_SDRC_CS0 :: u32 where "OMAP34XX_SDRC_CS0 \<equiv> 0x80000000"

text \<open>The registers of chip select \<open>k\<close> start at \<open>gpmc_cs k\<close>; the seven configuration registers come first.\<close>

definition gpmc_cs :: "nat \<Rightarrow> u32" where
  "gpmc_cs k = 0x6E000060 + 0x30 * of_nat k"

definition get_boot_type :: "'h mmio \<Rightarrow> 'h \<Rightarrow> u32 \<times> 'h" where
  "get_boot_type mm h = (let (st, h) = readl mm CTRL_STATUS h in (st AND SYSBOOT_MASK, h))"

definition get_sdr_cs_offset :: "u32 \<Rightarrow> u32" where
  "get_sdr_cs_offset cs = 0"

definition mem_ok :: "'h mmio \<Rightarrow> u32 \<Rightarrow> 'h \<Rightarrow> u32 \<times> 'h" where
  "mem_ok mm cs h =
     (let pattern = 0x12345678;
          addr = OMAP34XX_SDRC_CS0 + get_sdr_cs_offset cs;
          h = writel mm 0 (addr + 0x400) h;
          h = writel mm pattern addr h;
          h = writel mm 0 (addr + 4) h;
          (val1, h) = readl mm (addr + 0x400) h;
          (val2, h) = readl mm addr h
      in (if val1 \<noteq> 0 \<or> val2 \<noteq> pattern then 0 else 1, h))"

definition gpmc_m_nand :: "u32 list" where
  "gpmc_m_nand = [0x00001800, 0x00141400, 0x00141400, 0x0F010F01, 0x010C1414, 0x1f0f0A80, 0]"

definition enable_gpmc_cs_config :: "'h mmio \<Rightarrow> u32 list \<Rightarrow> u32 \<Rightarrow> u32 \<Rightarrow> u32 \<Rightarrow> 'h \<Rightarrow> 'h" where
  "enable_gpmc_cs_config mm gpmc_config cs base sz h =
     (let h = writel mm 0 (cs + 0x18) h;
          h = writel mm (gpmc_config ! 0) cs h;
          h = writel mm (gpmc_config ! 1) (cs + 4) h;
          h = writel mm (gpmc_config ! 2) (cs + 8) h;
          h = writel mm (gpmc_config ! 3) (cs + 0xC) h;
          h = writel mm (gpmc_config ! 4) (cs + 0x10) h;
          h = writel mm (gpmc_config ! 5) (cs + 0x14) h
      in writel mm (push_bit 8 (sz AND 0xF) OR (drop_bit 24 base AND 0x3F) OR push_bit 6 1) (cs + 0x18) h)"

record boot_flash =
  boot_flash_base :: u32
  boot_flash_off :: u32
  boot_flash_sec :: u32
  boot_flash_env_addr :: u32

text \<open>
  \<open>gpmc_init\<close> as it is configured for this board: NAND commands and the environment in NAND, no OneNAND, no NOR.
  It reads the boot type three times.
\<close>

definition gpmc_init :: "'h mmio \<Rightarrow> 'h \<Rightarrow> boot_flash \<times> 'h" where
  "gpmc_init mm h =
     (let (mem_type, h) = get_boot_type mm h;
          order = mem_type AND push_bit 5 1;
          h = writel mm 0 GPMC_CFG_IRQENABLE h;
          h = writel mm 0 GPMC_CFG_TIMEOUT_CONTROL h;
          (config, h) = readl mm GPMC_CFG_CONFIG h;
          h = writel mm (config AND NOT 0xf00) GPMC_CFG_CONFIG h;
          (other, h) = (if order \<noteq> 0 then (True, h) else let (t, h) = get_boot_type mm h in (t \<noteq> 0xD, h));
          h = (if other then writel mm 0 (gpmc_cs 0 + 0x18) h else h);
          base = PISMO1_NAND_BASE;
          sz = PISMO1_NAND_SIZE;
          (other, h) = (if order \<noteq> 0 then (True, h) else let (t, h) = get_boot_type mm h in (t \<noteq> 0xD, h));
          h = enable_gpmc_cs_config mm gpmc_m_nand (gpmc_cs (if other then 0 else 2)) base sz h
      in (\<lparr>boot_flash_base = base, boot_flash_off = SMNAND_ENV_OFFSET, boot_flash_sec = push_bit 10 128,
           boot_flash_env_addr = SMNAND_ENV_OFFSET\<rparr>, h))"

section \<open>The board\<close>

abbreviation (input) FPGA_CS1_BASE :: u32 where "FPGA_CS1_BASE \<equiv> 0x08000000"
abbreviation (input) FPGA_CS2_BASE :: u32 where "FPGA_CS2_BASE \<equiv> 0x10000000"
abbreviation (input) FPGA_CS3_BASE :: u32 where "FPGA_CS3_BASE \<equiv> 0x18000000"
abbreviation (input) FPGA_CS4_BASE :: u32 where "FPGA_CS4_BASE \<equiv> 0x20000000"
abbreviation (input) FPGA_CS5_BASE :: u32 where "FPGA_CS5_BASE \<equiv> 0x28000000"
abbreviation (input) FPGA_CS6_BASE :: u32 where "FPGA_CS6_BASE \<equiv> 0x38000000"
abbreviation (input) MACH_TYPE_RHINO :: u32 where "MACH_TYPE_RHINO \<equiv> 3360"

definition gpmc_fpga_config :: "u32 list" where
  "gpmc_fpga_config = [0x2C651201, 0x00071900, 0x00030300, 0x07031903, 0x0016081A, 0x06030000, 0]"

record bd =
  bi_arch_number :: u32
  bi_boot_params :: u32

definition board_init :: "'h mmio \<Rightarrow> bd \<Rightarrow> 'h \<Rightarrow> int \<times> bd \<times> boot_flash \<times> 'h" where
  "board_init mm d h =
     (let (bf, h) = gpmc_init mm h;
          (config, h) = readl mm GPMC_CFG_CONFIG h;
          h = writel mm (config OR 0x200) GPMC_CFG_CONFIG h;
          h = enable_gpmc_cs_config mm gpmc_fpga_config (gpmc_cs 1) FPGA_CS1_BASE GPMC_SIZE_128M h;
          h = enable_gpmc_cs_config mm gpmc_fpga_config (gpmc_cs 2) FPGA_CS2_BASE GPMC_SIZE_128M h;
          h = enable_gpmc_cs_config mm gpmc_fpga_config (gpmc_cs 3) FPGA_CS3_BASE GPMC_SIZE_128M h;
          h = enable_gpmc_cs_config mm gpmc_fpga_config (gpmc_cs 4) FPGA_CS4_BASE GPMC_SIZE_128M h;
          h = enable_gpmc_cs_config mm gpmc_fpga_config (gpmc_cs 5) FPGA_CS5_BASE GPMC_SIZE_128M h;
          h = enable_gpmc_cs_config mm gpmc_fpga_config (gpmc_cs 6) FPGA_CS6_BASE GPMC_SIZE_128M h
      in (0, d\<lparr>bi_arch_number := MACH_TYPE_RHINO, bi_boot_params := OMAP34XX_SDRC_CS0 + 0x100\<rparr>, bf, h))"

section \<open>Address decoding\<close>

text \<open>
  What the controller does with an address: a chip select answers when its last configuration register has the
  valid bit, and when the address bits 29 to 24 agree with the base in the bits that are compared. The two upper
  bits are always compared, the four lower ones as the mask says. The controller decodes the first gigabyte.
\<close>

definition cs_hit :: "u32 \<Rightarrow> u32 \<Rightarrow> bool" where
  "cs_hit config7 a \<longleftrightarrow> bit config7 6 \<and> a < 0x40000000 \<and>
     (let m = 0x30 OR (drop_bit 8 config7 AND 0xF) in drop_bit 24 a AND m = config7 AND m)"

definition cs_selected :: "(u32 \<Rightarrow> u32) \<Rightarrow> u32 \<Rightarrow> nat list" where
  "cs_selected r a = filter (\<lambda>k. cs_hit (r (gpmc_cs k + 0x18)) a) [0..<8]"

definition gpmc_regs :: "u32 set" where
  "gpmc_regs = {GPMC_CFG_IRQENABLE, GPMC_CFG_TIMEOUT_CONTROL, GPMC_CFG_CONFIG} \<union>
     {gpmc_cs k + 4 * of_nat i | k i. k < 8 \<and> i < 7}"

lemma gpmc_cs_reg_nat: "gpmc_cs k + 4 * of_nat i = of_nat (0x6E000060 + 48 * k + 4 * i)"
  by (simp add: gpmc_cs_def)

lemma gpmc_cs_reg_inj:
  assumes "k < 8" "k' < 8" "i < 7" "i' < 7"
  shows "gpmc_cs k + 4 * of_nat i = gpmc_cs k' + 4 * of_nat i' \<longleftrightarrow> k = k' \<and> i = i'"
proof -
  have "gpmc_cs k + 4 * of_nat i = gpmc_cs k' + 4 * of_nat i' \<longleftrightarrow> 0x6E000060 + 48 * k + 4 * i = 0x6E000060 + 48 * k' + 4 * i'"
    unfolding gpmc_cs_reg_nat using assms by (intro of_nat_u32_eq) simp_all
  also have "\<dots> \<longleftrightarrow> 12 * k + i = 12 * k' + i'" by linarith
  also have "\<dots> \<longleftrightarrow> k = k' \<and> i = i'"
  proof
    assume e: "12 * k + i = 12 * k' + i'"
    have "(12 * k + i) div 12 = k" "(12 * k' + i') div 12 = k'" using assms by simp_all
    then show "k = k' \<and> i = i'" using e by simp
  qed simp
  finally show ?thesis .
qed

lemma gpmc_cs_reg_apart:
  assumes "k < 8" "i < 7" "c < 0x60"
  shows "gpmc_cs k + 4 * of_nat i \<noteq> of_nat (0x6E000000 + c)"
  unfolding gpmc_cs_reg_nat using assms by (subst of_nat_u32_eq) simp_all

lemma gpmc_cs_reg_in: "k < 8 \<Longrightarrow> i < 7 \<Longrightarrow> gpmc_cs k + 4 * of_nat i \<in> gpmc_regs"
  by (auto simp: gpmc_regs_def)

lemma gpmc_cs_in:
  assumes "k < 8"
  shows "gpmc_cs k \<in> gpmc_regs" "gpmc_cs k + 4 \<in> gpmc_regs" "gpmc_cs k + 8 \<in> gpmc_regs" "gpmc_cs k + 0xC \<in> gpmc_regs"
    "gpmc_cs k + 0x10 \<in> gpmc_regs" "gpmc_cs k + 0x14 \<in> gpmc_regs" "gpmc_cs k + 0x18 \<in> gpmc_regs"
  using gpmc_cs_reg_in [OF assms, of 0] gpmc_cs_reg_in [OF assms, of 1] gpmc_cs_reg_in [OF assms, of 2]
    gpmc_cs_reg_in [OF assms, of 3] gpmc_cs_reg_in [OF assms, of 4] gpmc_cs_reg_in [OF assms, of 5]
    gpmc_cs_reg_in [OF assms, of 6] by simp_all

lemma gpmc_config7_neq:
  assumes "j < 8" "k < 8"
  shows "gpmc_cs j + 0x18 \<noteq> gpmc_cs k" "gpmc_cs j + 0x18 \<noteq> gpmc_cs k + 4" "gpmc_cs j + 0x18 \<noteq> gpmc_cs k + 8"
    "gpmc_cs j + 0x18 \<noteq> gpmc_cs k + 0xC" "gpmc_cs j + 0x18 \<noteq> gpmc_cs k + 0x10" "gpmc_cs j + 0x18 \<noteq> gpmc_cs k + 0x14"
    "gpmc_cs j + 0x18 = gpmc_cs k + 0x18 \<longleftrightarrow> j = k"
  using gpmc_cs_reg_inj [OF assms, of 6 0] gpmc_cs_reg_inj [OF assms, of 6 1] gpmc_cs_reg_inj [OF assms, of 6 2]
    gpmc_cs_reg_inj [OF assms, of 6 3] gpmc_cs_reg_inj [OF assms, of 6 4] gpmc_cs_reg_inj [OF assms, of 6 5]
    gpmc_cs_reg_inj [OF assms, of 6 6] by simp_all

lemma gpmc_global_neq:
  assumes "k < 8" "c < 0x60"
  shows "of_nat (0x6E000000 + c) \<noteq> gpmc_cs k" "of_nat (0x6E000000 + c) \<noteq> gpmc_cs k + 4"
    "of_nat (0x6E000000 + c) \<noteq> gpmc_cs k + 8" "of_nat (0x6E000000 + c) \<noteq> gpmc_cs k + 0xC"
    "of_nat (0x6E000000 + c) \<noteq> gpmc_cs k + 0x10" "of_nat (0x6E000000 + c) \<noteq> gpmc_cs k + 0x14"
    "of_nat (0x6E000000 + c) \<noteq> gpmc_cs k + 0x18"
  using gpmc_cs_reg_apart [OF assms(1) _ assms(2), of 0] gpmc_cs_reg_apart [OF assms(1) _ assms(2), of 1]
    gpmc_cs_reg_apart [OF assms(1) _ assms(2), of 2] gpmc_cs_reg_apart [OF assms(1) _ assms(2), of 3]
    gpmc_cs_reg_apart [OF assms(1) _ assms(2), of 4] gpmc_cs_reg_apart [OF assms(1) _ assms(2), of 5]
    gpmc_cs_reg_apart [OF assms(1) _ assms(2), of 6] by (auto dest: sym)

lemma gpmc_globals_neq:
  assumes "k < 8"
  shows "gpmc_cs k + 0x18 \<noteq> GPMC_CFG_IRQENABLE" "gpmc_cs k + 0x18 \<noteq> GPMC_CFG_TIMEOUT_CONTROL"
    "gpmc_cs k + 0x18 \<noteq> GPMC_CFG_CONFIG"
  using gpmc_global_neq(7) [of k "0x1C"] gpmc_global_neq(7) [of k "0x40"] gpmc_global_neq(7) [of k "0x50"] assms
  by (auto dest: sym)

definition config7_of :: "u32 \<Rightarrow> u32 \<Rightarrow> u32" where
  "config7_of base sz = push_bit 8 (sz AND 0xF) OR (drop_bit 24 base AND 0x3F) OR push_bit 6 1"

lemma enable_gpmc_regs:
  assumes l: "plain_regs mm rf gpmc_regs" and k: "k < 8"
  shows "j < 8 \<Longrightarrow> rf (enable_gpmc_cs_config mm cfg (gpmc_cs k) base sz h) (gpmc_cs j + 0x18) =
      (if j = k then config7_of base sz else rf h (gpmc_cs j + 0x18))"
    "rf (enable_gpmc_cs_config mm cfg (gpmc_cs k) base sz h) GPMC_CFG_CONFIG = rf h GPMC_CFG_CONFIG"
  using gpmc_config7_neq [OF _ k, of j] gpmc_global_neq [of k "0x50"] k
  by (simp_all add: enable_gpmc_cs_config_def Let_def plain_regs_write [OF l] gpmc_cs_in [OF k] config7_of_def)

lemma gpmc_globals_in: "GPMC_CFG_IRQENABLE \<in> gpmc_regs" "GPMC_CFG_TIMEOUT_CONTROL \<in> gpmc_regs" "GPMC_CFG_CONFIG \<in> gpmc_regs"
  by (simp_all add: gpmc_regs_def)

text \<open>The boot pins do not change while the board comes up, and do not ask for a boot from NOR memory.\<close>

definition not_nor_boot :: "'h mmio \<Rightarrow> bool" where
  "not_nor_boot mm \<longleftrightarrow> (\<forall>h. fst (readl mm CTRL_STATUS h) AND SYSBOOT_MASK \<noteq> 0xD)"

lemma gpmc_init_regs:
  assumes l: "plain_regs mm rf gpmc_regs" and b: "not_nor_boot mm" and j: "j < 8"
  shows "rf (snd (gpmc_init mm h)) (gpmc_cs j + 0x18) =
      (if j = 0 then config7_of PISMO1_NAND_BASE PISMO1_NAND_SIZE else rf h (gpmc_cs j + 0x18))"
    "rf (snd (gpmc_init mm h)) GPMC_CFG_CONFIG = rf h GPMC_CFG_CONFIG AND NOT 0xf00"
proof -
  note g = gpmc_globals_neq [OF j] gpmc_config7_neq(7) [OF j, of 0] gpmc_global_neq [of 0 "0x50"]
  show "rf (snd (gpmc_init mm h)) (gpmc_cs j + 0x18) =
      (if j = 0 then config7_of PISMO1_NAND_BASE PISMO1_NAND_SIZE else rf h (gpmc_cs j + 0x18))"
    "rf (snd (gpmc_init mm h)) GPMC_CFG_CONFIG = rf h GPMC_CFG_CONFIG AND NOT 0xf00"
    using b g j by (simp_all add: gpmc_init_def Let_def case_prod_beta get_boot_type_def not_nor_boot_def
        enable_gpmc_regs [OF l] plain_regs_write [OF l] plain_regs_keep [OF l] plain_regs_read [OF l]
        gpmc_globals_in gpmc_cs_in)
qed

lemma and_38_nat: "m < 64 \<Longrightarrow> (m :: nat) AND 56 = 8 * (m div 8)"
proof -
  have "list_all (\<lambda>m. (m :: nat) AND 56 = 8 * (m div 8)) [0..<64]" by code_simp
  then show "m < 64 \<Longrightarrow> m AND 56 = 8 * (m div 8)" unfolding list_all_iff set_upt by simp
qed

lemma window_bits:
  assumes "a < 0x40000000"
  shows "unat (drop_bit 24 (a :: u32) AND 0x38) = 8 * (unat a div 0x08000000)"
proof -
  have n: "unat a < 0x40000000" using assms by (simp add: word_less_nat_alt)
  have "unat (drop_bit 24 a AND 0x38) = (unat a div 0x1000000) AND 56"
    by (simp add: unsigned_and_eq unsigned_drop_bit_eq drop_bit_eq_div take_bit_nat_eq_self unat_div)
  also have "\<dots> = 8 * (unat a div 0x1000000 div 8)" by (rule and_38_nat) (use n in simp)
  finally show ?thesis by (simp flip: div_mult2_eq)
qed

lemma cs_hit_window:
  assumes "k < 8"
  shows "cs_hit (0x840 + 8 * of_nat k) a \<longleftrightarrow> a < 0x40000000 \<and> unat a div 0x08000000 = k"
proof (cases "a < 0x40000000")
  case True
  have v: "bit (0x840 + 8 * of_nat k :: u32) 6" "0x30 OR (drop_bit 8 (0x840 + 8 * of_nat k :: u32) AND 0xF) = 0x38"
    "(0x840 + 8 * of_nat k :: u32) AND 0x38 = 8 * of_nat k" "unat (8 * of_nat k :: u32) = 8 * k"
    using assms unfolding less_8 by (elim disjE; simp)+
  then have "cs_hit (0x840 + 8 * of_nat k) a \<longleftrightarrow> drop_bit 24 a AND 0x38 = 8 * of_nat k"
    using True unfolding cs_hit_def v Let_def by simp
  also have "\<dots> \<longleftrightarrow> unat (drop_bit 24 a AND 0x38) = 8 * k" using v(4) by (metis word_unat_eq_iff)
  finally show ?thesis using True window_bits [OF True] by simp
qed (simp add: cs_hit_def)

lemma config7_windows:
  "config7_of 0x08000000 8 = 0x840 + 8 * of_nat 1" "config7_of 0x10000000 8 = 0x840 + 8 * of_nat 2"
  "config7_of 0x18000000 8 = 0x840 + 8 * of_nat 3" "config7_of 0x20000000 8 = 0x840 + 8 * of_nat 4"
  "config7_of 0x28000000 8 = 0x840 + 8 * of_nat 5" "config7_of 0x30000000 8 = 0x840 + 8 * of_nat 6"
  "config7_of 0x38000000 8 = 0x840 + 8 * of_nat 7"
  by (simp_all add: config7_of_def)

text \<open>The part of the address space that chip select \<open>k\<close> answers for, in units of 128 MB.\<close>

definition cs_window :: "nat \<Rightarrow> nat" where
  "cs_window k = [6, 1, 2, 3, 4, 5, 7] ! k"

lemma cs_window_less: "k < 7 \<Longrightarrow> cs_window k < 8"
  unfolding less_7 by (elim disjE) (simp_all add: cs_window_def)

lemma cs_window_eq: "w < 8 \<Longrightarrow> k < 7 \<Longrightarrow> w = cs_window k \<longleftrightarrow> 1 \<le> w \<and> k = [7, 1, 2, 3, 4, 5, 0, 6] ! w"
  unfolding less_7 less_8 by (elim disjE) (simp_all add: cs_window_def)

lemma board_init_regs:
  assumes l: "plain_regs mm rf gpmc_regs" and b: "not_nor_boot mm" and i: "board_init mm d h = (r, d', bf, h')"
  shows "k < 7 \<Longrightarrow> rf h' (gpmc_cs k + 0x18) = 0x840 + 8 * of_nat (cs_window k)"
    "rf h' (gpmc_cs 7 + 0x18) = rf h (gpmc_cs 7 + 0x18)"
    "rf h' GPMC_CFG_CONFIG = (rf h GPMC_CFG_CONFIG AND NOT 0xf00) OR 0x200"
proof -
  note regs = enable_gpmc_regs [OF l] gpmc_init_regs [OF l b] plain_regs_write [OF l] plain_regs_keep [OF l]
    plain_regs_read [OF l] gpmc_globals_in config7_windows gpmc_globals_neq
  have h': "h' = snd (snd (snd (board_init mm d h)))" by (simp add: i)
  show "rf h' (gpmc_cs k + 0x18) = 0x840 + 8 * of_nat (cs_window k)" if "k < 7"
    using that unfolding less_7 h' by (elim disjE) (simp_all add: board_init_def Let_def case_prod_beta regs cs_window_def)
  show "rf h' (gpmc_cs 7 + 0x18) = rf h (gpmc_cs 7 + 0x18)"
    unfolding h' by (simp add: board_init_def Let_def case_prod_beta regs)
  show "rf h' GPMC_CFG_CONFIG = (rf h GPMC_CFG_CONFIG AND NOT 0xf00) OR 0x200"
    unfolding h' by (simp add: board_init_def Let_def case_prod_beta regs gpmc_init_regs(2) [OF l b, of 0, simplified])
qed

lemma div_window: "(n :: nat) div 0x08000000 = c \<longleftrightarrow> 0x08000000 * c \<le> n \<and> n < 0x08000000 * c + 0x08000000"
  using times_div_less_eq_dividend [of "0x08000000" n] dividend_less_times_div [of "0x08000000" n]
    div_nat_eqI [of "0x08000000" c n] by auto

lemma in_window_div:
  assumes "k < 6"
  shows "in_window (FPGA_CS_BASE ! k) a \<longleftrightarrow> unat a div 0x08000000 = cs_window (Suc k)"
proof -
  have "unat (FPGA_CS_BASE ! k) = 0x08000000 * cs_window (Suc k)"
    using assms unfolding less_6 by (elim disjE) (simp_all add: FPGA_CS_BASE_def cs_window_def)
  then show ?thesis
    using in_window_nat [OF unat_in_cs_window(2) [OF assms, of 0], of a]
    by (simp add: div_window)
qed

lemma cs_of_div:
  "cs_of a = (let w = unat a div 0x08000000 in if 1 \<le> w \<and> w \<le> 5 then Some (w - 1) else if w = 7 then Some 5 else None)"
proof -
  have "in_window (FPGA_CS_BASE ! 0) a \<longleftrightarrow> unat a div 0x08000000 = 1" "in_window (FPGA_CS_BASE ! 1) a \<longleftrightarrow> unat a div 0x08000000 = 2"
    "in_window (FPGA_CS_BASE ! 2) a \<longleftrightarrow> unat a div 0x08000000 = 3" "in_window (FPGA_CS_BASE ! 3) a \<longleftrightarrow> unat a div 0x08000000 = 4"
    "in_window (FPGA_CS_BASE ! 4) a \<longleftrightarrow> unat a div 0x08000000 = 5" "in_window (FPGA_CS_BASE ! 5) a \<longleftrightarrow> unat a div 0x08000000 = 7"
    by (simp_all add: in_window_div cs_window_def)
  then show ?thesis unfolding cs_of_def Let_def by auto
qed

lemma cs_selected_windows:
  assumes "\<And>k. k < 7 \<Longrightarrow> r (gpmc_cs k + 0x18) = 0x840 + 8 * of_nat (cs_window k)" "\<not> bit (r (gpmc_cs 7 + 0x18)) 6"
  shows "cs_selected r a = (let w = unat a div 0x08000000 in if 1 \<le> w \<and> w < 8 then [[1, 2, 3, 4, 5, 0, 6] ! (w - 1)] else [])"
proof -
  have a8: "a < 0x40000000 \<longleftrightarrow> unat a div 0x08000000 < 8" by (simp add: word_less_nat_alt div_less_iff_less_mult)
  have h: "cs_hit (r (gpmc_cs k + 0x18)) a \<longleftrightarrow> unat a div 0x08000000 = cs_window k" if "k < 7" for k
    using cs_hit_window [OF cs_window_less [OF that], of a] cs_window_less [OF that] assms(1) [OF that] a8 by auto
  have "cs_selected r a = filter (\<lambda>k. k < 7 \<and> unat a div 0x08000000 = cs_window k) [0..<8]"
    unfolding cs_selected_def
  proof (rule filter_cong [OF refl])
    show "cs_hit (r (gpmc_cs k + 0x18)) a \<longleftrightarrow> k < 7 \<and> unat a div 0x08000000 = cs_window k" if "k \<in> set [0..<8]" for k
      using h [of k] assms(2) that by (cases "k = 7") (auto simp: cs_hit_def)
  qed
  then show ?thesis by (auto simp: Let_def cs_window_def upt_rec less_8)
qed

text \<open>
  C13: after \<open>board_init\<close> every address of the memory controller selects at most one chip: the windows that the
  kernel's bus driver tests in \<open>get_mapped_location\<close> select the chip select of the same number, the window between the
  fifth and the sixth selects the NAND memory on chip select 0, and the rest of the address space selects nothing.
  The second wait pin is active high. This is on a board that does not boot from NOR memory and whose chip select 7
  is disabled.
\<close>

theorem board_init_windows:
  assumes "plain_regs mm rf gpmc_regs" "not_nor_boot mm" "\<not> bit (rf h (gpmc_cs 7 + 0x18)) 6"
    and "board_init mm d h = (r, d', bf, h')"
  shows "r = 0 \<and> bit (rf h' GPMC_CFG_CONFIG) 9 \<and>
    cs_selected (rf h') a =
      (case cs_of a of
         Some k \<Rightarrow> [Suc k]
       | None \<Rightarrow> if boot_flash_base bf \<le> a \<and> a < boot_flash_base bf + SZ_128M then [0] else [])"
proof -
  note regs = board_init_regs [OF assms(1,2,4)]
  have bf: "boot_flash_base bf = 0x30000000" "r = 0"
    using assms(4) by (auto simp: board_init_def gpmc_init_def Let_def case_prod_beta)
  have n: "0x30000000 \<le> a \<and> a < 0x38000000 \<longleftrightarrow> unat a div 0x08000000 = 6"
    by (simp add: word_le_nat_alt word_less_nat_alt div_window)
  have "(if 1 \<le> w \<and> w < 8 then [[1, 2, 3, 4, 5, 0, 6] ! (w - 1)] else []) =
    (case if 1 \<le> w \<and> w \<le> 5 then Some (w - 1) else if w = 7 then Some 5 else None of
       Some k \<Rightarrow> [Suc k] | None \<Rightarrow> if w = 6 then [0] else [])" for w :: nat
    by (cases "w < 8") (auto simp: less_8)
  then have "cs_selected (rf h') a = (case cs_of a of Some k \<Rightarrow> [Suc k] | None \<Rightarrow> if unat a div 0x08000000 = 6 then [0] else [])"
    using cs_selected_windows [OF regs(1), of a] regs(2) assms(3) by (simp only: cs_of_div Let_def) simp
  moreover have "bit (rf h' GPMC_CFG_CONFIG) 9" by (simp add: regs(3) bit_or_iff)
  ultimately show ?thesis using n bf by simp
qed

text \<open>A machine whose registers are all plain, with the boot pins \<open>st\<close>.\<close>

definition mem_mmio :: "u32 \<Rightarrow> (u32 \<Rightarrow> u32) mmio" where
  "mem_mmio st = \<lparr>readb = \<lambda>a h. (ucast (h a), h), writeb = \<lambda>v a h. h(a := ucast v),
     readw = \<lambda>a h. (ucast (h a), h), writew = \<lambda>v a h. h(a := ucast v),
     readl = \<lambda>a h. (if a = CTRL_STATUS then st else h a, h), writel = \<lambda>v a h. h(a := v)\<rparr>"

definition mem_regs :: "u32 set \<Rightarrow> (u32 \<Rightarrow> u32) \<Rightarrow> u32 \<Rightarrow> u32" where
  "mem_regs S h a = (if a \<in> S then h a else 0)"

lemma mem_plain: "CTRL_STATUS \<notin> S \<Longrightarrow> plain_regs (mem_mmio st) (mem_regs S) S"
  by (auto simp: plain_regs_def mem_mmio_def mem_regs_def fun_eq_iff)

lemma ctrl_status_apart: "CTRL_STATUS \<notin> gpmc_regs"
proof -
  have "gpmc_cs k + 4 * of_nat i \<noteq> CTRL_STATUS" if "k < 8" "i < 7" for k i
  proof -
    have "gpmc_cs k + 4 * of_nat i \<noteq> of_nat 0x480022F0"
      unfolding gpmc_cs_reg_nat using that by (subst of_nat_u32_eq) simp_all
    then show ?thesis by simp
  qed
  then show ?thesis unfolding gpmc_regs_def by force
qed

theorem board_init_windows_witness:
  "cs_selected (mem_regs gpmc_regs (snd (snd (snd (board_init (mem_mmio 0xC) \<lparr>bi_arch_number = 0, bi_boot_params = 0\<rparr> (\<lambda>_. 0)))))) 0x18000004 = [3]"
proof -
  let ?b = "board_init (mem_mmio 0xC) \<lparr>bi_arch_number = 0, bi_boot_params = 0\<rparr> (\<lambda>_. 0)"
  have "?b = (fst ?b, fst (snd ?b), fst (snd (snd ?b)), snd (snd (snd ?b)))" by simp
  moreover have "not_nor_boot (mem_mmio 0xC)" by (simp add: not_nor_boot_def mem_mmio_def)
  moreover have "\<not> bit (mem_regs gpmc_regs (\<lambda>_. 0) (gpmc_cs 7 + 0x18)) 6" by (simp add: mem_regs_def)
  ultimately have "cs_selected (mem_regs gpmc_regs (snd (snd (snd ?b)))) 0x18000004 = (case cs_of 0x18000004 of
      Some k \<Rightarrow> [Suc k] | None \<Rightarrow> if boot_flash_base (fst (snd (snd ?b))) \<le> 0x18000004 \<and>
        0x18000004 < boot_flash_base (fst (snd (snd ?b))) + SZ_128M then [0] else [])"
    using board_init_windows [OF mem_plain [OF ctrl_status_apart]] by blast
  then show ?thesis by (simp add: cs_of_div)
qed

end
