(* ===== verification/UbootBoard.thy ===== *)
theory UbootBoard
  imports UbootGpio UbootI2c UbootGpmc UbootMux Ctext
begin

text \<open>
  Late initialisation of the board in the second-stage loader: \<open>misc_init_r\<close> of \<open>src/u-boot/board/rhino/rhino.c\<close>. Delays are
  left out.
\<close>

section \<open>Late initialisation\<close>

abbreviation (input) AM3517_IP_SW_RESET :: u32 where "AM3517_IP_SW_RESET \<equiv> 0x48002598"
abbreviation (input) CPGMACSS_SW_RST :: u32 where "CPGMACSS_SW_RST \<equiv> push_bit 1 1"
abbreviation (input) CONFIG_SYS_MAX_I2C_BUS :: nat where "CONFIG_SYS_MAX_I2C_BUS \<equiv> 3"

definition hex08 :: "u32 \<Rightarrow> u8 list" where
  "hex08 w = map (\<lambda>i. hex_digit (unat (drop_bit (4 * i) w) mod 16)) [7, 6, 5, 4, 3, 2, 1, 0]"

text \<open>The die identifier goes into the variable \<open>dieid#\<close> of the environment, unless it is there already.\<close>

definition dieid_num_r :: "'h mmio \<Rightarrow> u8 list option \<Rightarrow> 'h \<Rightarrow> u8 list option \<times> 'h" where
  "dieid_num_r mm uid h =
     (case uid of
        Some s \<Rightarrow> (Some s, h)
      | None \<Rightarrow>
          let (id3, h) = readl mm 0x4830A218 h;
              (id2, h) = readl mm 0x4830A21C h;
              (id1, h) = readl mm 0x4830A220 h;
              (id0, h) = readl mm 0x4830A224 h
          in (Some (hex08 id0 @ hex08 id1 @ hex08 id2 @ hex08 id3), h))"

fun init_buses :: "'h mmio \<Rightarrow> nat \<Rightarrow> i2c_drv \<Rightarrow> 'h \<Rightarrow> (i2c_drv \<times> 'h) option" where
  "init_buses mm 0 st h = Some (st, h)"
| "init_buses mm (Suc i) st h = do {
     (_, st, h) \<leftarrow> i2c_set_bus_num mm i st h;
     (st, h) \<leftarrow> i2c_init mm CONFIG_SYS_I2C_SPEED CONFIG_SYS_I2C_SLAVE st h;
     init_buses mm i st h }"

definition drive_gpio :: "'h mmio \<Rightarrow> int \<Rightarrow> int \<Rightarrow> 'h \<Rightarrow> 'h" where
  "drive_gpio mm gpio level h = omap_set_gpio_dataout mm gpio level (omap_set_gpio_direction mm gpio 0 h)"

text \<open>\<open>misc_init_r\<close> for a board of revision 1.1 with Ethernet. \<open>omap_request_gpio\<close> touches nothing and its result is ignored.\<close>

definition misc_init_r :: "'h mmio \<Rightarrow> i2c_drv \<Rightarrow> u8 list option \<Rightarrow> 'h \<Rightarrow> (int \<times> i2c_drv \<times> u8 list option \<times> 'h) option" where
  "misc_init_r mm st uid h = do {
     (st, h) \<leftarrow> init_buses mm CONFIG_SYS_MAX_I2C_BUS st h;
     let (uid, h) = dieid_num_r mm uid h;
     let h = drive_gpio mm 106 1 h;
     let h = drive_gpio mm 126 1 h;
     let h = drive_gpio mm 61 0 h;
     let h = drive_gpio mm 30 1 h;
     let h = drive_gpio mm 65 0 h;
     let h = omap_set_gpio_dataout mm 65 1 h;
     let h = drive_gpio mm 11 0 h;
     let (reset, h) = readl mm AM3517_IP_SW_RESET h;
     let h = writel mm (reset AND NOT CPGMACSS_SW_RST) AM3517_IP_SW_RESET h;
     Some (0, st, uid, h) }"

lemma init_buses_apart:
  assumes "i2c_no_data mm" "i2c_apart mm f"
  shows "n \<le> 3 \<Longrightarrow> \<exists>st' h'. init_buses mm n st h = Some (st', h') \<and> f h' = f h"
proof (induction n arbitrary: st h)
  case (Suc i)
  obtain st1 h1 where 1: "i2c_set_bus_num mm i st h = Some (0, st1, h1)" "f h1 = f h"
    using i2c_set_bus_apart [OF assms, of i st h] Suc.prems by auto
  obtain st2 h2 where 2: "i2c_init mm CONFIG_SYS_I2C_SPEED CONFIG_SYS_I2C_SLAVE st1 h1 = Some (st2, h2)" "f h2 = f h1"
    using i2c_init_apart [OF assms] by blast
  show ?case using Suc.IH [of st2 h2] Suc.prems 1 2 by simp
qed simp

lemma dieid_num_r_keeps: "(\<And>a h. f (snd (readl mm a h)) = f h) \<Longrightarrow> f (snd (dieid_num_r mm uid h)) = f h"
  by (simp add: dieid_num_r_def Let_def case_prod_beta split: option.split)

lemma drive_gpio_pins:
  assumes "gpio_law mm gv" "0 \<le> g" "g < 192"
  shows "pin_inputs gv (drive_gpio mm g d h) = (pin_inputs gv h)(nat g := False)"
    "pin_levels gv (drive_gpio mm g d h) = (pin_levels gv h)(nat g := d \<noteq> 0)"
  using gpio_pins [OF assms] by (simp_all add: drive_gpio_def)

lemma drive_gpio_keeps: "gpio_untouched mm f \<Longrightarrow> f (drive_gpio mm g d h) = f h"
  by (simp add: drive_gpio_def gpio_keeps)

lemma reset_untouched: "plain_regs mm rf {AM3517_IP_SW_RESET} \<Longrightarrow> gpio_untouched mm rf"
  unfolding gpio_untouched_def less_6 by (auto simp: gpio_bank_34xx_def plain_regs_def)

lemma gpio_law_pins_read:
  assumes "gpio_law mm gv"
  shows "pin_inputs gv (snd (readl mm a h)) = pin_inputs gv h" "pin_levels gv (snd (readl mm a h)) = pin_levels gv h"
  using assms by (simp_all add: gpio_law_def pin_inputs_def pin_levels_def fun_eq_iff)

lemma gpio_law_other:
  assumes "gpio_law mm gv" "bank_at 0x34 a = None" "bank_at 0x3c a = None" "bank_at 0x90 a = None" "bank_at 0x94 a = None"
  shows "pin_inputs gv (writel mm v a h) = pin_inputs gv h" "pin_levels gv (writel mm v a h) = pin_levels gv h"
  using assms by (simp_all add: gpio_law_def pin_inputs_def pin_levels_def written_dataout_def fun_eq_iff)

text \<open>
  C24: on a board whose bus controller is idle, \<open>misc_init_r\<close> returns, and leaves the pins in the state the board needs:
  the supply is held on, the FPGA is out of reset and not suspended, the Ethernet PHY is powered and out of reset, and the
  boot buffer is enabled. These six pins are outputs; every other pin keeps its direction and level. The Ethernet
  controller is out of reset and the other modules in its reset register are as they were.
\<close>

theorem misc_init_r_pins:
  assumes g: "gpio_law mm gv" and r: "plain_regs mm rf {AM3517_IP_SW_RESET}"
    and i: "i2c_no_data mm" "i2c_apart mm (\<lambda>h. (pin_inputs gv h, pin_levels gv h, rf h))"
  shows "\<exists>st' uid' h'. misc_init_r mm st uid h = Some (0, st', uid', h') \<and>
    pin_inputs gv h' = (pin_inputs gv h)(106 := False, 126 := False, 61 := False, 30 := False, 65 := False, 11 := False) \<and>
    pin_levels gv h' = (pin_levels gv h)(106 := True, 126 := True, 61 := False, 30 := True, 65 := True, 11 := False) \<and>
    rf h' AM3517_IP_SW_RESET = rf h AM3517_IP_SW_RESET AND NOT CPGMACSS_SW_RST"
proof -
  obtain st1 h1 where h1: "init_buses mm 3 st h = Some (st1, h1)" "pin_inputs gv h1 = pin_inputs gv h"
      "pin_levels gv h1 = pin_levels gv h" "rf h1 = rf h"
    using init_buses_apart [OF i, of 3 st h] by auto
  define h2 where "h2 = snd (dieid_num_r mm uid h1)"
  have h2: "pin_inputs gv h2 = pin_inputs gv h" "pin_levels gv h2 = pin_levels gv h" "rf h2 = rf h"
    using dieid_num_r_keeps [of "pin_inputs gv" mm uid h1] dieid_num_r_keeps [of "pin_levels gv" mm uid h1]
      dieid_num_r_keeps [of rf mm uid h1] h1 gpio_law_pins_read [OF g] plain_regs_keep [OF r] by (simp_all add: h2_def)
  have a: "bank_at 0x34 AM3517_IP_SW_RESET = None" "bank_at 0x3c AM3517_IP_SW_RESET = None"
    "bank_at 0x90 AM3517_IP_SW_RESET = None" "bank_at 0x94 AM3517_IP_SW_RESET = None"
    by (simp_all add: bank_at_def gpio_bank_34xx_def upt_rec)
  show ?thesis
    using h1(1) by (simp add: misc_init_r_def case_prod_beta drive_gpio_pins [OF g] gpio_pins [OF g] gpio_law_pins_read [OF g]
        gpio_law_other [OF g a] plain_regs_write [OF r] plain_regs_read [OF r] plain_regs_keep [OF r]
        drive_gpio_keeps [OF reset_untouched [OF r]] gpio_keeps [OF reset_untouched [OF r]] h2 flip: h2_def)
qed

text \<open>The pins of the demonstration controller, a reset register and an idle bus controller.\<close>

definition rdemo_mmio :: "(gdemo \<times> u32) mmio" where
  "rdemo_mmio = \<lparr>readb = \<lambda>_ h. (0, h), writeb = \<lambda>_ _ h. h, readw = \<lambda>_ h. (0, h), writew = \<lambda>_ _ h. h,
     readl = \<lambda>a (g, r). (if a = AM3517_IP_SW_RESET then r else fst (readl gdemo_mmio a g), (g, r)),
     writel = \<lambda>v a (g, r). (writel gdemo_mmio v a g, if a = AM3517_IP_SW_RESET then v else r)\<rparr>"

definition rdemo_view :: "(gdemo \<times> u32) gpio_view" where
  "rdemo_view = \<lparr>oe = oe gdemo_view \<circ> fst, dataout = dataout gdemo_view \<circ> fst, datain = datain gdemo_view \<circ> fst\<rparr>"

definition rdemo_regs :: "gdemo \<times> u32 \<Rightarrow> u32 \<Rightarrow> u32" where
  "rdemo_regs h a = (if a = AM3517_IP_SW_RESET then snd h else 0)"

lemma rdemo_laws: "gpio_law rdemo_mmio rdemo_view" "plain_regs rdemo_mmio rdemo_regs {AM3517_IP_SW_RESET}"
  "i2c_no_data rdemo_mmio" "i2c_apart rdemo_mmio f"
proof -
  have a: "bank_at 0x34 AM3517_IP_SW_RESET = None" "bank_at 0x38 AM3517_IP_SW_RESET = None"
    by (simp_all add: bank_at_def gpio_bank_34xx_def upt_rec)
  show "gpio_law rdemo_mmio rdemo_view"
    using gdemo_law a by (auto simp: gpio_law_def rdemo_mmio_def rdemo_view_def split: option.splits)
  show "plain_regs rdemo_mmio rdemo_regs {AM3517_IP_SW_RESET}"
    by (auto simp: plain_regs_def rdemo_mmio_def rdemo_regs_def fun_eq_iff)
  show "i2c_no_data rdemo_mmio" "i2c_apart rdemo_mmio f" by (simp_all add: i2c_no_data_def i2c_apart_def rdemo_mmio_def)
qed

theorem misc_init_r_pins_witness:
  "\<exists>st' uid' h'. misc_init_r rdemo_mmio i2c_drv_start None ((\<lambda>_. -1, \<lambda>_. 0), 0xFF) = Some (0, st', uid', h') \<and>
    \<not> pin_inputs rdemo_view h' 126 \<and> pin_levels rdemo_view h' 126 \<and> snd h' = 0xFD"
proof -
  obtain st' uid' h' where "misc_init_r rdemo_mmio i2c_drv_start None ((\<lambda>_. -1, \<lambda>_. 0), 0xFF) = Some (0, st', uid', h')"
      "\<not> pin_inputs rdemo_view h' 126" "pin_levels rdemo_view h' 126" "rdemo_regs h' AM3517_IP_SW_RESET = 0xFD"
    using misc_init_r_pins [OF rdemo_laws, of i2c_drv_start None "((\<lambda>_. -1, \<lambda>_. 0), 0xFF)"] by (auto simp: rdemo_regs_def)
  then show ?thesis by (auto simp: rdemo_regs_def)
qed

end
