(* ===== verification/UbootSpi.thy ===== *)
theory UbootSpi
  imports Mmio
begin

text \<open>
  The driver of the SPI controllers in the second-stage loader (\<open>src/u-boot/drivers/spi/omap3_spi.c\<close>), the law of a channel,
  transfers on an enabled channel, and what happens on a disabled one.
\<close>

section \<open>The driver\<close>

abbreviation (input) OMAP3_MCSPI1_BASE :: u32 where "OMAP3_MCSPI1_BASE \<equiv> 0x48098000"
abbreviation (input) OMAP3_MCSPI2_BASE :: u32 where "OMAP3_MCSPI2_BASE \<equiv> 0x4809A000"
abbreviation (input) OMAP3_MCSPI3_BASE :: u32 where "OMAP3_MCSPI3_BASE \<equiv> 0x480B8000"
abbreviation (input) OMAP3_MCSPI4_BASE :: u32 where "OMAP3_MCSPI4_BASE \<equiv> 0x480BA000"
abbreviation (input) OMAP3_MCSPI_MAX_FREQ :: nat where "OMAP3_MCSPI_MAX_FREQ \<equiv> 48000000"
abbreviation (input) SPI_MODE_3 :: u32 where "SPI_MODE_3 \<equiv> 3"
abbreviation (input) SPI_XFER_BEGIN :: u32 where "SPI_XFER_BEGIN \<equiv> 1"
abbreviation (input) SPI_XFER_END :: u32 where "SPI_XFER_END \<equiv> 2"
abbreviation (input) CHSTAT_RXS :: nat where "CHSTAT_RXS \<equiv> 0"
abbreviation (input) CHSTAT_TXS :: nat where "CHSTAT_TXS \<equiv> 1"

record omap3_spi_slave =
  ds_bus :: u32
  ds_cs :: u32
  ds_regs :: u32
  ds_freq :: u32
  ds_mode :: u32

definition spi_channel :: "omap3_spi_slave \<Rightarrow> u32" where
  "spi_channel ds = ds_regs ds + 0x2C + 0x14 * ds_cs ds"

text \<open>Polling a register until one of its bits is set.\<close>

partial_function (option) wait_bit :: "'h mmio \<Rightarrow> u32 \<Rightarrow> nat \<Rightarrow> 'h \<Rightarrow> 'h option" where
  "wait_bit mm a n h = (let (v, h) = readl mm a h in if bit v n then Some h else wait_bit mm a n h)"

definition spi_reset :: "'h mmio \<Rightarrow> omap3_spi_slave \<Rightarrow> 'h \<Rightarrow> 'h option" where
  "spi_reset mm ds h = do {
     let h = writel mm 2 (ds_regs ds + 0x10) h;
     h \<leftarrow> wait_bit mm (ds_regs ds + 0x14) 0 h;
     let h = writel mm (1 OR 4 OR 0x10) (ds_regs ds + 0x10) h;
     Some (writel mm 1 (ds_regs ds + 0x20) h) }"

text \<open>\<open>malloc_ok\<close> says whether the allocation of the descriptor succeeds.\<close>

definition spi_setup_slave :: "bool \<Rightarrow> u32 \<Rightarrow> u32 \<Rightarrow> u32 \<Rightarrow> u32 \<Rightarrow> omap3_spi_slave option" where
  "spi_setup_slave malloc_ok bus cs max_hz mode =
     (if \<not> malloc_ok then None
      else if bus > 3 then None
      else if (bus = 0 \<and> cs > 3) \<or> (bus = 1 \<and> cs > 1) \<or> (bus = 2 \<and> cs > 1) \<or> (bus = 3 \<and> cs > 0) then None
      else if unat max_hz > OMAP3_MCSPI_MAX_FREQ then None
      else if mode > SPI_MODE_3 then None
      else Some \<lparr>ds_bus = bus, ds_cs = cs,
        ds_regs = [OMAP3_MCSPI1_BASE, OMAP3_MCSPI2_BASE, OMAP3_MCSPI3_BASE, OMAP3_MCSPI4_BASE] ! unat bus,
        ds_freq = max_hz, ds_mode = mode\<rparr>)"

function spi_div :: "nat \<Rightarrow> nat \<Rightarrow> nat" where
  "spi_div freq d = (if d \<le> 0xC \<and> OMAP3_MCSPI_MAX_FREQ div 2 ^ d > freq then spi_div freq (Suc d) else d)"
  by pat_completeness auto
termination by (relation "measure (\<lambda>(_, d). 13 - d)") auto

declare spi_div.simps [simp del]

definition set_flag :: "nat \<Rightarrow> bool \<Rightarrow> u32 \<Rightarrow> u32" where
  "set_flag n b conf = (if b then conf OR push_bit n 1 else conf AND NOT (push_bit n 1))"

definition spi_claim_bus :: "'h mmio \<Rightarrow> omap3_spi_slave \<Rightarrow> 'h \<Rightarrow> (int \<times> 'h) option" where
  "spi_claim_bus mm ds h = do {
     h \<leftarrow> spi_reset mm ds h;
     let (conf, h) = readl mm (ds_regs ds + 0x28) h;
     let conf = (conf AND NOT (8 OR 4)) OR 1;
     let h = writel mm conf (ds_regs ds + 0x28) h;
     let d = (if ds_freq ds \<noteq> 0 then spi_div (unat (ds_freq ds)) 0 else 0xC);
     let (conf, h) = readl mm (spi_channel ds) h;
     let conf = conf OR push_bit 25 1 OR push_bit 27 1 OR push_bit 28 1;
     let conf = conf AND NOT (push_bit 18 1 OR push_bit 17 1);
     let conf = conf OR push_bit 16 1;
     let conf = conf AND NOT (push_bit 7 0x1f);
     let conf = conf OR push_bit 7 (8 - 1);
     let conf = set_flag 6 (\<not> bit (ds_mode ds) 2) conf;
     let conf = conf AND NOT (push_bit 2 0x0f);
     let conf = conf OR push_bit 2 (of_nat d);
     let conf = set_flag 1 (bit (ds_mode ds) 1) conf;
     let conf = set_flag 0 (bit (ds_mode ds) 0) conf;
     let conf = conf AND NOT (push_bit 12 3);
     Some (0, writel mm conf (spi_channel ds) h) }"

definition spi_release_bus :: "'h mmio \<Rightarrow> omap3_spi_slave \<Rightarrow> 'h \<Rightarrow> 'h option" where
  "spi_release_bus mm ds h = spi_reset mm ds h"

text \<open>The transfer of one byte, and of \<open>n\<close> bytes: those of \<open>txp\<close>, or zeros when there is no buffer.\<close>

definition xfer_byte :: "'h mmio \<Rightarrow> u32 \<Rightarrow> u8 \<Rightarrow> 'h \<Rightarrow> (u8 \<times> 'h) option" where
  "xfer_byte mm ch b h = do {
     h \<leftarrow> wait_bit mm (ch + 4) CHSTAT_TXS h;
     let h = writel mm (ucast b) (ch + 0xC) h;
     h \<leftarrow> wait_bit mm (ch + 4) CHSTAT_RXS h;
     let (v, h) = readl mm (ch + 0x10) h;
     Some (ucast v, h) }"

fun xfer_loop :: "'h mmio \<Rightarrow> u32 \<Rightarrow> nat \<Rightarrow> u8 list option \<Rightarrow> 'h \<Rightarrow> (u8 list \<times> 'h) option" where
  "xfer_loop mm ch 0 txp h = Some ([], h)"
| "xfer_loop mm ch (Suc n) None h = do {
     (r, h) \<leftarrow> xfer_byte mm ch 0 h;
     (rs, h) \<leftarrow> xfer_loop mm ch n None h;
     Some (r # rs, h) }"
| "xfer_loop mm ch (Suc n) (Some []) h = None"
| "xfer_loop mm ch (Suc n) (Some (b # bs)) h = do {
     (r, h) \<leftarrow> xfer_byte mm ch b h;
     (rs, h) \<leftarrow> xfer_loop mm ch n (Some bs) h;
     Some (r # rs, h) }"

text \<open>The bytes received come as a result; a caller that gives no buffer for them ignores it.\<close>

definition spi_xfer :: "'h mmio \<Rightarrow> omap3_spi_slave \<Rightarrow> nat \<Rightarrow> u8 list option \<Rightarrow> u32 \<Rightarrow> 'h \<Rightarrow> (int \<times> u8 list \<times> 'h) option" where
  "spi_xfer mm ds bitlen dout flags h = do {
     let ch = spi_channel ds;
     (rs, flags, h) \<leftarrow>
       (if bitlen = 0 then Some ([], flags, h)
        else if bitlen mod 8 \<noteq> 0 then Some ([], flags OR SPI_XFER_END, h)
        else do {
          let h = (if flags AND SPI_XFER_BEGIN \<noteq> 0
            then let h = writel mm 1 (ch + 8) h;
                     (conf, h) = readl mm ch h
                 in writel mm (conf OR 0x00100000) ch h
            else h);
          (rs, h) \<leftarrow> xfer_loop mm ch (bitlen div 8) dout h;
          Some (rs, flags, h) });
     let h = (if flags AND SPI_XFER_END \<noteq> 0
       then let (conf, h) = readl mm ch h;
                h = writel mm (conf AND NOT 0x00100000) ch h
            in writel mm 0 (ch + 8) h
       else h);
     Some (0, rs, h) }"

section \<open>The controller\<close>

text \<open>
  One channel of a controller: its configuration, whether it is enabled, the bytes it has shifted out and whether a byte
  received has not been read. A soft reset disables it. Only an enabled channel reports that its transmit register is
  empty, and only an enabled channel shifts a byte out. The \<open>n\<close>-th byte sent is answered with \<open>reply n\<close>.
\<close>

record spi_chan =
  s_conf :: u32
  s_en :: bool
  s_sent :: "u8 list"
  s_full :: bool

definition spi_write :: "omap3_spi_slave \<Rightarrow> u32 \<Rightarrow> u32 \<Rightarrow> spi_chan \<Rightarrow> spi_chan" where
  "spi_write ds v a s =
     (if a = ds_regs ds + 0x10 then if bit v 1 then s\<lparr>s_conf := 0x60000, s_en := False, s_full := False\<rparr> else s
      else if a = spi_channel ds then s\<lparr>s_conf := v\<rparr>
      else if a = spi_channel ds + 8 then s\<lparr>s_en := bit v 0\<rparr>
      else if a = spi_channel ds + 0xC \<and> s_en s then s\<lparr>s_sent := s_sent s @ [ucast v], s_full := True\<rparr>
      else s)"

definition spi_law :: "'h mmio \<Rightarrow> omap3_spi_slave \<Rightarrow> ('h \<Rightarrow> spi_chan) \<Rightarrow> (nat \<Rightarrow> u8) \<Rightarrow> ('h \<Rightarrow> nat) \<Rightarrow> bool" where
  "spi_law mm ds chan reply late \<longleftrightarrow>
     (\<forall>v a h. chan (writel mm v a h) = spi_write ds v a (chan h)) \<and>
     (\<forall>h. fst (readl mm (spi_channel ds) h) = s_conf (chan h)) \<and>
     (\<forall>a h. a \<noteq> spi_channel ds + 0x10 \<longrightarrow> chan (snd (readl mm a h)) = chan h) \<and>
     (\<forall>h. (bit (fst (readl mm (ds_regs ds + 0x14) h)) 0 \<longleftrightarrow> late h = 0) \<and> late (snd (readl mm (ds_regs ds + 0x14) h)) = late h - 1) \<and>
     (\<forall>h. (bit (fst (readl mm (spi_channel ds + 4) h)) CHSTAT_TXS \<longleftrightarrow> late h = 0 \<and> s_en (chan h)) \<and>
        (bit (fst (readl mm (spi_channel ds + 4) h)) CHSTAT_RXS \<longleftrightarrow> late h = 0 \<and> s_full (chan h)) \<and>
        late (snd (readl mm (spi_channel ds + 4) h)) = late h - 1) \<and>
     (\<forall>h. s_full (chan h) \<longrightarrow> ucast (fst (readl mm (spi_channel ds + 0x10) h)) = reply (length (s_sent (chan h)) - 1) \<and>
        chan (snd (readl mm (spi_channel ds + 0x10) h)) = (chan h)\<lparr>s_full := False\<rparr>)"

lemma spi_regs_apart:
  assumes "ds_cs ds < 4"
  shows "spi_channel ds \<noteq> ds_regs ds + 0x10" "spi_channel ds + 4 \<noteq> ds_regs ds + 0x10" "spi_channel ds + 8 \<noteq> ds_regs ds + 0x10"
    "spi_channel ds + 0xC \<noteq> ds_regs ds + 0x10" "spi_channel ds + 0x10 \<noteq> ds_regs ds + 0x10"
    "spi_channel ds + 0x10 \<noteq> ds_regs ds + 0x14" "spi_channel ds + 0x10 \<noteq> ds_regs ds + 0x28"
    "spi_channel ds \<noteq> ds_regs ds + 0x20" "spi_channel ds + 8 \<noteq> ds_regs ds + 0x20" "spi_channel ds + 0xC \<noteq> ds_regs ds + 0x20"
    "spi_channel ds \<noteq> ds_regs ds + 0x28" "spi_channel ds + 8 \<noteq> ds_regs ds + 0x28" "spi_channel ds + 0xC \<noteq> ds_regs ds + 0x28"
proof -
  have "ds_cs ds = 0 \<or> ds_cs ds = 1 \<or> ds_cs ds = 2 \<or> ds_cs ds = 3"
  proof -
    have "unat (ds_cs ds) < 4" using assms by (simp add: word_less_nat_alt)
    then have "unat (ds_cs ds) = 0 \<or> unat (ds_cs ds) = 1 \<or> unat (ds_cs ds) = 2 \<or> unat (ds_cs ds) = 3" by arith
    then show ?thesis by (simp add: word_unat_eq_iff)
  qed
  then show "spi_channel ds \<noteq> ds_regs ds + 0x10" "spi_channel ds + 4 \<noteq> ds_regs ds + 0x10" "spi_channel ds + 8 \<noteq> ds_regs ds + 0x10"
    "spi_channel ds + 0xC \<noteq> ds_regs ds + 0x10" "spi_channel ds + 0x10 \<noteq> ds_regs ds + 0x10"
    "spi_channel ds + 0x10 \<noteq> ds_regs ds + 0x14" "spi_channel ds + 0x10 \<noteq> ds_regs ds + 0x28"
    "spi_channel ds \<noteq> ds_regs ds + 0x20" "spi_channel ds + 8 \<noteq> ds_regs ds + 0x20" "spi_channel ds + 0xC \<noteq> ds_regs ds + 0x20"
    "spi_channel ds \<noteq> ds_regs ds + 0x28" "spi_channel ds + 8 \<noteq> ds_regs ds + 0x28" "spi_channel ds + 0xC \<noteq> ds_regs ds + 0x28"
    by (elim disjE; simp add: spi_channel_def)+
qed

section \<open>Waiting\<close>

lemma wait_bit_late:
  assumes "\<And>h. J (chan h) \<Longrightarrow> (bit (fst (readl mm a h)) n \<longleftrightarrow> late h = (0 :: nat)) \<and>
      late (snd (readl mm a h)) = late h - 1 \<and> chan (snd (readl mm a h)) = chan h"
    and "J (chan h)"
  shows "\<exists>h'. wait_bit mm a n h = Some h' \<and> chan h' = chan h"
  using assms(2)
proof (induction "late h" arbitrary: h)
  case 0
  then show ?case using assms(1) [of h] by (subst wait_bit.simps) (simp add: case_prod_beta)
next
  case (Suc k)
  let ?h = "snd (readl mm a h)"
  have s: "\<not> bit (fst (readl mm a h)) n" "late ?h = k" "chan ?h = chan h" using assms(1) [of h] Suc by auto
  then have "wait_bit mm a n h = wait_bit mm a n ?h" by (subst wait_bit.simps) (simp add: case_prod_beta)
  then show ?case using Suc(1) [of ?h] s Suc.prems by simp
qed

lemma wait_bit_never:
  assumes "\<And>h. J h \<Longrightarrow> \<not> bit (fst (readl mm a h)) n \<and> J (snd (readl mm a h))" and "J h"
  shows "wait_bit mm a n h = None"
proof -
  have step: "m = mm \<and> b = a \<and> k = n \<longrightarrow> \<not> J h"
    if "\<And>m b k h y. rec m b k h = Some y \<Longrightarrow> m = mm \<and> b = a \<and> k = n \<longrightarrow> \<not> J h"
      and "(let (v, h) = readl m b h in if bit v k then Some h else rec m b k h) = Some y" for rec m b k h y
    using that assms(1) [of h] by (auto simp: case_prod_beta split: if_splits)
  have "mm = mm \<and> a = a \<and> n = n \<longrightarrow> \<not> J h" if "wait_bit mm a n h = Some y" for y
    using step that by (rule wait_bit.raw_induct [where P = "\<lambda>m b k h y. m = mm \<and> b = a \<and> k = n \<longrightarrow> \<not> J h"])
  then show ?thesis using assms(2) by (cases "wait_bit mm a n h") auto
qed

section \<open>Transfers on an enabled channel\<close>

lemma spi_law_write: "spi_law mm ds chan reply late \<Longrightarrow> chan (writel mm v a h) = spi_write ds v a (chan h)"
  by (simp add: spi_law_def)

lemma spi_law_conf: "spi_law mm ds chan reply late \<Longrightarrow> fst (readl mm (spi_channel ds) h) = s_conf (chan h)"
  "spi_law mm ds chan reply late \<Longrightarrow> a \<noteq> spi_channel ds + 0x10 \<Longrightarrow> chan (snd (readl mm a h)) = chan h"
  by (simp_all add: spi_law_def)

lemma spi_wait_tx:
  assumes "spi_law mm ds chan reply late" "s_en (chan h)"
  obtains h' where "wait_bit mm (spi_channel ds + 4) CHSTAT_TXS h = Some h'" "chan h' = chan h"
  using wait_bit_late [of s_en chan mm "spi_channel ds + 4" CHSTAT_TXS late h] assms by (auto simp: spi_law_def)

lemma spi_wait_rx:
  assumes "spi_law mm ds chan reply late" "s_full (chan h)"
  obtains h' where "wait_bit mm (spi_channel ds + 4) CHSTAT_RXS h = Some h'" "chan h' = chan h"
  using wait_bit_late [of s_full chan mm "spi_channel ds + 4" CHSTAT_RXS late h] assms by (auto simp: spi_law_def)

lemma xfer_byte_sends:
  assumes l: "spi_law mm ds chan reply late" and c: "ds_cs ds < 4" and e: "s_en (chan h)"
  obtains h' where "xfer_byte mm (spi_channel ds) b h = Some (reply (length (s_sent (chan h))), h')"
    "chan h' = (chan h)\<lparr>s_sent := s_sent (chan h) @ [b], s_full := False\<rparr>"
proof -
  obtain h1 where h1: "wait_bit mm (spi_channel ds + 4) CHSTAT_TXS h = Some h1" "chan h1 = chan h" using spi_wait_tx [OF l e] .
  define h2 where "h2 = writel mm (ucast b) (spi_channel ds + 0xC) h1"
  have u: "ucast (ucast b :: u32) = b" by (rule bit_word_eqI) (simp add: bit_ucast_iff)
  have c2: "chan h2 = (chan h)\<lparr>s_sent := s_sent (chan h) @ [b], s_full := True\<rparr>"
    using e by (simp add: h2_def spi_law_write [OF l] spi_write_def spi_regs_apart [OF c] h1 u)
  obtain h3 where h3: "wait_bit mm (spi_channel ds + 4) CHSTAT_RXS h2 = Some h3" "chan h3 = chan h2"
    using spi_wait_rx [OF l, of h2] c2 by auto
  have r: "ucast (fst (readl mm (spi_channel ds + 0x10) h3)) = reply (length (s_sent (chan h)))"
    "chan (snd (readl mm (spi_channel ds + 0x10) h3)) = (chan h)\<lparr>s_sent := s_sent (chan h) @ [b], s_full := False\<rparr>"
    using l h3(2) c2 by (simp_all add: spi_law_def)
  have "xfer_byte mm (spi_channel ds) b h = Some (reply (length (s_sent (chan h))), snd (readl mm (spi_channel ds + 0x10) h3))"
    using h1(1) h3(1) r(1) by (simp add: xfer_byte_def case_prod_beta flip: h2_def)
  then show ?thesis using that r(2) by simp
qed

lemma xfer_loop_sends:
  assumes l: "spi_law mm ds chan reply late" and c: "ds_cs ds < 4" and "s_en (chan h)" "n \<le> length bs"
  shows "\<exists>h'. xfer_loop mm (spi_channel ds) n (Some bs) h = Some (map (\<lambda>i. reply (length (s_sent (chan h)) + i)) [0..<n], h') \<and>
    chan h' = (chan h)\<lparr>s_sent := s_sent (chan h) @ take n bs, s_full := if n = 0 then s_full (chan h) else False\<rparr>"
  using assms(3,4)
proof (induction n arbitrary: bs h)
  case (Suc n)
  obtain b bs' where bs: "bs = b # bs'" using Suc.prems by (cases bs) auto
  obtain h1 where h1: "xfer_byte mm (spi_channel ds) b h = Some (reply (length (s_sent (chan h))), h1)"
    "chan h1 = (chan h)\<lparr>s_sent := s_sent (chan h) @ [b], s_full := False\<rparr>" using xfer_byte_sends [OF l c Suc.prems(1)] .
  obtain h2 where h2: "xfer_loop mm (spi_channel ds) n (Some bs') h1 = Some (map (\<lambda>i. reply (length (s_sent (chan h1)) + i)) [0..<n], h2)"
    "chan h2 = (chan h1)\<lparr>s_sent := s_sent (chan h1) @ take n bs', s_full := if n = 0 then s_full (chan h1) else False\<rparr>"
    using Suc.IH [of h1 bs'] Suc.prems h1 bs by auto
  have "map (\<lambda>i. reply (length (s_sent (chan h)) + i)) [0..<Suc n] =
      reply (length (s_sent (chan h))) # map (\<lambda>i. reply (length (s_sent (chan h1)) + i)) [0..<n]"
    by (simp add: h1 upt_conv_Cons del: upt_Suc flip: map_Suc_upt)
  then show ?case using h1 h2 bs by (intro exI [of _ h2]) simp
qed simp

section \<open>Whole transfers\<close>

lemma flag_conf: "bit ((conf :: u32) OR 0x00100000) 20" "\<not> bit ((conf :: u32) AND NOT 0x00100000) 20"
proof -
  have "(0x00100000 :: u32) = push_bit 20 1" by simp
  then show "bit (conf OR 0x00100000) 20" "\<not> bit (conf AND NOT 0x00100000) 20"
    by (simp_all only: bit_or_iff bit_and_iff bit_not_iff bit_push_bit_iff) simp_all
qed

lemma spi_xfer_bytes:
  assumes l: "spi_law mm ds chan reply late" and c: "ds_cs ds < 4" and n: "0 < n" "n \<le> length bs"
    and e: "flags AND SPI_XFER_BEGIN \<noteq> 0 \<or> s_en (chan h)"
  shows "\<exists>h'. spi_xfer mm ds (8 * n) (Some bs) flags h = Some (0, map (\<lambda>i. reply (length (s_sent (chan h)) + i)) [0..<n], h') \<and>
    s_sent (chan h') = s_sent (chan h) @ take n bs \<and>
    (s_en (chan h') \<longleftrightarrow> flags AND SPI_XFER_END = 0) \<and>
    (if flags AND SPI_XFER_END \<noteq> 0 then \<not> bit (s_conf (chan h')) 20
     else if flags AND SPI_XFER_BEGIN \<noteq> 0 then bit (s_conf (chan h')) 20 else s_conf (chan h') = s_conf (chan h))"
proof -
  note w = spi_law_write [OF l] spi_write_def spi_regs_apart [OF c] spi_law_conf [OF l]
  have x: "spi_channel ds \<noteq> spi_channel ds + 0x10" "spi_channel ds + 8 \<noteq> spi_channel ds" "spi_channel ds \<noteq> spi_channel ds + 8"
    by simp_all
  define h1 where "h1 = (if flags AND SPI_XFER_BEGIN \<noteq> 0
    then let h = writel mm 1 (spi_channel ds + 8) h; (conf, h) = readl mm (spi_channel ds) h
         in writel mm (conf OR 0x00100000) (spi_channel ds) h else h)"
  have c1: "s_en (chan h1)" "s_sent (chan h1) = s_sent (chan h)"
    "s_conf (chan h1) = (if flags AND SPI_XFER_BEGIN \<noteq> 0 then s_conf (chan h) OR 0x00100000 else s_conf (chan h))"
    using e by (auto simp: h1_def Let_def case_prod_beta w x)
  obtain h2 where h2: "xfer_loop mm (spi_channel ds) n (Some bs) h1 = Some (map (\<lambda>i. reply (length (s_sent (chan h1)) + i)) [0..<n], h2)"
      "chan h2 = (chan h1)\<lparr>s_sent := s_sent (chan h1) @ take n bs, s_full := if n = 0 then s_full (chan h1) else False\<rparr>"
    using xfer_loop_sends [OF l c c1(1) n(2)] by blast
  define h3 where "h3 = (if flags AND SPI_XFER_END \<noteq> 0
    then let (conf, h) = readl mm (spi_channel ds) h2; h = writel mm (conf AND NOT 0x00100000) (spi_channel ds) h
         in writel mm 0 (spi_channel ds + 8) h else h2)"
  have "s_sent (chan h3) = s_sent (chan h) @ take n bs" "s_en (chan h3) \<longleftrightarrow> flags AND SPI_XFER_END = 0"
    "s_conf (chan h3) = (if flags AND SPI_XFER_END \<noteq> 0 then s_conf (chan h2) AND NOT 0x00100000 else s_conf (chan h2))"
    using c1 h2(2) by (auto simp: h3_def Let_def case_prod_beta w x)
  moreover have "spi_xfer mm ds (8 * n) (Some bs) flags h = Some (0, map (\<lambda>i. reply (length (s_sent (chan h)) + i)) [0..<n], h3)"
    using n(1) h2(1) c1(2) unfolding spi_xfer_def Let_def h1_def h3_def by (simp add: case_prod_beta)
  ultimately show ?thesis using c1(3) h2(2) flag_conf by (intro exI [of _ h3]) auto
qed

text \<open>
  C23: a transfer of whole bytes sends exactly the bytes of the buffer, in order, and gives the bytes the device answered.
  With \<open>SPI_XFER_BEGIN\<close> it enables the channel and asserts the chip select first; without, the channel must be enabled
  already. With \<open>SPI_XFER_END\<close> the chip select is released and the channel disabled after it.
\<close>

theorem spi_xfer_sends:
  assumes l: "spi_law mm ds chan reply late" and c: "ds_cs ds < 4" and n: "0 < n" "n \<le> length bs"
    and e: "flags AND SPI_XFER_BEGIN \<noteq> 0 \<or> s_en (chan h)"
  shows "\<exists>h'. spi_xfer mm ds (8 * n) (Some bs) flags h = Some (0, map (\<lambda>i. reply (length (s_sent (chan h)) + i)) [0..<n], h') \<and>
    s_sent (chan h') = s_sent (chan h) @ take n bs \<and>
    (s_en (chan h') \<longleftrightarrow> flags AND SPI_XFER_END = 0) \<and>
    (if flags AND SPI_XFER_END \<noteq> 0 then \<not> bit (s_conf (chan h')) 20
     else if flags AND SPI_XFER_BEGIN \<noteq> 0 then bit (s_conf (chan h')) 20 else s_conf (chan h') = s_conf (chan h))"
  using assms by (rule spi_xfer_bytes)

text \<open>A controller that is always ready, on the second bus; the device answers with the number of the byte.\<close>

definition sdemo_ds :: omap3_spi_slave where
  "sdemo_ds = \<lparr>ds_bus = 1, ds_cs = 0, ds_regs = OMAP3_MCSPI2_BASE, ds_freq = 48000000, ds_mode = 0\<rparr>"

definition sdemo_mmio :: "spi_chan mmio" where
  "sdemo_mmio = \<lparr>readb = \<lambda>_ s. (0, s), writeb = \<lambda>_ _ s. s, readw = \<lambda>_ s. (0, s), writew = \<lambda>_ _ s. s,
     readl = \<lambda>a s. if a = spi_channel sdemo_ds then (s_conf s, s)
       else if a = spi_channel sdemo_ds + 4 then (of_bool (s_full s) OR (if s_en s then 2 else 0), s)
       else if a = spi_channel sdemo_ds + 0x10 then (ucast (of_nat (length (s_sent s) - 1) :: u8), s\<lparr>s_full := False\<rparr>)
       else (1, s),
     writel = spi_write sdemo_ds\<rparr>"

lemma sdemo_law: "spi_law sdemo_mmio sdemo_ds (\<lambda>s. s) of_nat (\<lambda>_. 0)"
proof -
  have u: "ucast (ucast b :: u32) = (b :: u8)" for b by (rule bit_word_eqI) (simp add: bit_ucast_iff)
  show ?thesis by (auto simp: spi_law_def sdemo_mmio_def spi_channel_def sdemo_ds_def bit_or_iff u)
qed

definition sdemo_start :: spi_chan where
  "sdemo_start = \<lparr>s_conf = 0, s_en = False, s_sent = [], s_full = False\<rparr>"

theorem spi_xfer_sends_witness:
  "\<exists>h'. spi_xfer sdemo_mmio sdemo_ds 16 (Some [0x81, 1]) 3 sdemo_start = Some (0, [0, 1], h') \<and>
    s_sent h' = [0x81, 1] \<and> \<not> s_en h' \<and> \<not> bit (s_conf h') 20"
proof -
  have "ds_cs sdemo_ds < 4" by (simp add: sdemo_ds_def)
  from spi_xfer_sends [OF sdemo_law this, of 2 "[0x81, 1]" 3 sdemo_start]
  show ?thesis by (auto simp: sdemo_start_def upt_rec)
qed

section \<open>Transfers that never end\<close>

text \<open>Without data the flag has no effect: the channel is not enabled and the chip select not asserted.\<close>

lemma spi_begin_without_data: "spi_xfer mm ds 0 dout SPI_XFER_BEGIN h = Some (0, [], h)"
  by (simp add: spi_xfer_def)

lemma spi_wait_disabled:
  assumes "spi_law mm ds chan reply late" "\<not> s_en (chan h)"
  shows "wait_bit mm (spi_channel ds + 4) CHSTAT_TXS h = None"
  using assms by (intro wait_bit_never [where J = "\<lambda>h. \<not> s_en (chan h)"]) (auto simp: spi_law_def)

lemma spi_xfer_disabled:
  assumes "spi_law mm ds chan reply late" "\<not> s_en (chan h)" "0 < n" "dout \<noteq> Some []" "flags AND SPI_XFER_BEGIN = 0"
  shows "spi_xfer mm ds (8 * n) dout flags h = None"
proof -
  have "xfer_byte mm (spi_channel ds) b h = None" for b
    using spi_wait_disabled [OF assms(1,2)] by (simp add: xfer_byte_def)
  then have "xfer_loop mm (spi_channel ds) n dout h = None"
    using assms(3,4) by (cases "(mm, spi_channel ds, n, dout, h)" rule: xfer_loop.cases) auto
  then show ?thesis using assms(3,5) by (simp add: spi_xfer_def)
qed

lemma spi_reset_disables:
  assumes l: "spi_law mm ds chan reply late" and c: "ds_cs ds < 4" and "spi_reset mm ds h = Some h'"
  shows "\<not> s_en (chan h')"
proof -
  let ?h = "writel mm 2 (ds_regs ds + 0x10) h"
  have e: "\<not> s_en (chan ?h)" by (simp add: spi_law_write [OF l] spi_write_def)
  obtain h1 where h1: "wait_bit mm (ds_regs ds + 0x14) 0 ?h = Some h1" "chan h1 = chan ?h"
    using wait_bit_late [of "\<lambda>_. True" chan mm "ds_regs ds + 0x14" 0 late ?h] l spi_regs_apart(6) [OF c]
    by (auto simp: spi_law_def)
  then show ?thesis
    using assms(3) e spi_regs_apart [OF c, symmetric] by (auto simp: spi_reset_def spi_law_write [OF l] spi_write_def)
qed

lemma spi_claim_disabled:
  assumes l: "spi_law mm ds chan reply late" and c: "ds_cs ds < 4" and "spi_claim_bus mm ds h = Some (r, h')"
  shows "\<not> s_en (chan h')"
proof -
  obtain h1 where h1: "spi_reset mm ds h = Some h1" using assms(3) by (auto simp: spi_claim_bus_def split: Option.bind_splits)
  note spi_reset_disables [OF l c h1]
  then show ?thesis
    using assms(3) h1 spi_regs_apart [OF c] spi_regs_apart [OF c, symmetric]
    by (auto simp: spi_claim_bus_def case_prod_beta spi_law_write [OF l] spi_law_conf [OF l] spi_write_def)
qed

end
