(* ===== verification/UbootApps.thy ===== *)
theory UbootApps
  imports UbootBoard UbootSpi
begin

text \<open>
  The programs that run under the second-stage loader (\<open>src/u-boot/examples/standalone\<close>): the lights, the supplies, the FMC cards, the
  FPGA programmer, the tests of the memory windows and of the clock, and the system monitor. Messages and delays are left
  out; the numbers a program prints are part of its result.
\<close>

section \<open>Pins from arguments\<close>

text \<open>The arguments of a program are strings without the terminating NUL; \<open>arg_char\<close> is \<open>argv[i][0]\<close>.\<close>

definition arg_char :: "u8 list \<Rightarrow> u8" where
  "arg_char s = (case s of [] \<Rightarrow> 0 | c # _ \<Rightarrow> c)"

definition gpio_from_arg :: "'h mmio \<Rightarrow> int \<Rightarrow> u8 list \<Rightarrow> 'h \<Rightarrow> 'h" where
  "gpio_from_arg mm gpio s h =
     (let h = omap_set_gpio_direction mm gpio 0 h
      in if arg_char s = 49 then omap_set_gpio_dataout mm gpio 1 h
         else if arg_char s = 48 then omap_set_gpio_dataout mm gpio 0 h
         else h)"

definition rhino_leds :: "'h mmio \<Rightarrow> u8 list list \<Rightarrow> 'h \<Rightarrow> int \<times> 'h" where
  "rhino_leds mm argv h =
     (if length argv < 3 then (-1, h)
      else (0, fold (\<lambda>i. gpio_from_arg mm (130 + int i) (argv ! (i + 1))) [0..<2] h))"

definition rhino_psu_enable :: "'h mmio \<Rightarrow> u8 list list \<Rightarrow> 'h \<Rightarrow> int \<times> 'h" where
  "rhino_psu_enable mm argv h =
     (if length argv < 4 then (-1, h)
      else (0, fold (\<lambda>i. gpio_from_arg mm (99 + int i) (argv ! (i + 1))) [0..<3] h))"

section \<open>Programming the FPGA\<close>

abbreviation (input) PROG_B :: int where "PROG_B \<equiv> 126"
abbreviation (input) INIT_B :: int where "INIT_B \<equiv> 127"
abbreviation (input) INIT_B_DIR :: int where "INIT_B_DIR \<equiv> 129"
abbreviation (input) DONE_PIN :: int where "DONE_PIN \<equiv> 128"

definition dec_u32 :: "u8 list \<Rightarrow> u32" where
  "dec_u32 s = foldl (\<lambda>v c. v * 10 + (ucast c - 48)) 0 s"

fun wait_init_low :: "'h mmio \<Rightarrow> nat \<Rightarrow> 'h \<Rightarrow> 'h" where
  "wait_init_low mm 0 h = h"
| "wait_init_low mm (Suc n) h =
     (let h = omap_set_gpio_direction mm INIT_B 1 h;
          (d, h) = omap_get_gpio_datain mm INIT_B h
      in if d = 0 then h else wait_init_low mm n h)"

partial_function (option) wait_init_high :: "'h mmio \<Rightarrow> 'h \<Rightarrow> 'h option" where
  "wait_init_high mm h =
     (let (d, h) = omap_get_gpio_datain mm INIT_B h in if d = 0 then wait_init_high mm h else Some h)"

partial_function (option) send_pairs :: "'h mmio \<Rightarrow> omap3_spi_slave \<Rightarrow> u32 \<Rightarrow> u32 \<Rightarrow> u32 \<Rightarrow> 'h \<Rightarrow> 'h option" where
  "send_pairs mm ds start len i h =
     (if i < len
      then let mem = start + i;
               (c0, h) = readb mm mem h;
               (c1, h) = readb mm (mem + 1) h
           in do {
             (_, _, h) \<leftarrow> spi_xfer mm ds 16 (Some [c0, c1]) 0 h;
             send_pairs mm ds start len (i + 2) h }
      else Some h)"

datatype prog_outcome = Usage | InitLow | Complete | Failed

definition rhino_fpga_prog :: "bool \<Rightarrow> 'h mmio \<Rightarrow> u8 list list \<Rightarrow> 'h \<Rightarrow> (int \<times> prog_outcome \<times> 'h) option" where
  "rhino_fpga_prog malloc_ok mm argv h =
     (if length argv < 3 then Some (-1, Usage, h)
      else do {
        let start = dec_u32 (argv ! 1);
        let len = dec_u32 (argv ! 2);
        let h = omap_set_gpio_direction mm INIT_B_DIR 0 h;
        let h = omap_set_gpio_dataout mm INIT_B_DIR 0 h;
        let h = omap_set_gpio_direction mm PROG_B 0 h;
        let h = omap_set_gpio_dataout mm PROG_B 1 h;
        let h = omap_set_gpio_direction mm PROG_B 0 h;
        let h = omap_set_gpio_dataout mm PROG_B 0 h;
        let h = wait_init_low mm 4000000 h;
        let h = omap_set_gpio_dataout mm PROG_B 1 h;
        spi \<leftarrow> spi_setup_slave malloc_ok 1 0 48000000 0;
        (_, h) \<leftarrow> spi_claim_bus mm spi h;
        (_, _, h) \<leftarrow> spi_xfer mm spi 0 None SPI_XFER_BEGIN h;
        let h = omap_set_gpio_direction mm INIT_B 1 h;
        h \<leftarrow> wait_init_high mm h;
        h \<leftarrow> send_pairs mm spi start len 0 h;
        let (ok, h) = omap_get_gpio_datain mm INIT_B h;
        if ok = 0 then Some (0, InitLow, h)
        else do {
          let h = omap_set_gpio_direction mm DONE_PIN 1 h;
          let (finished, h) = omap_get_gpio_datain mm DONE_PIN h;
          (_, _, h) \<leftarrow> spi_xfer mm spi 0 None SPI_XFER_END h;
          h \<leftarrow> spi_release_bus mm spi h;
          Some (0, if finished \<noteq> 0 then Complete else Failed, h) } })"

section \<open>The real-time clock\<close>

text \<open>
  The test of the clock chip (its entry point is called \<open>rhino_leds\<close> in the source). The wait loop only calls
  \<open>omap_request_gpio\<close>. It gives what it prints, the second byte received.
\<close>

definition rhino_rtc_test :: "bool \<Rightarrow> 'h mmio \<Rightarrow> u8 list list \<Rightarrow> 'h \<Rightarrow> (int \<times> u8 option \<times> 'h) option" where
  "rhino_rtc_test malloc_ok mm argv h =
     (if length argv < 1 then Some (-1, None, h)
      else do {
        rtc \<leftarrow> spi_setup_slave malloc_ok 0 0 40000 1;
        (r, h) \<leftarrow> spi_claim_bus mm rtc h;
        if r \<noteq> 0 then Some (-1, None, h)
        else do {
          (_, _, h) \<leftarrow> spi_xfer mm rtc 16 (Some [0x81, 0x01]) (SPI_XFER_BEGIN OR SPI_XFER_END) h;
          (_, _, h) \<leftarrow> spi_xfer mm rtc 0 None SPI_XFER_BEGIN h;
          (_, _, h) \<leftarrow> spi_xfer mm rtc 16 (Some [0x01, 0x00]) 0 h;
          (_, din, h) \<leftarrow> spi_xfer mm rtc 16 None 0 h;
          (_, _, h) \<leftarrow> spi_xfer mm rtc 0 None SPI_XFER_END h;
          h \<leftarrow> spi_release_bus mm rtc h;
          Some (0, Some (din ! 1), h) } })"

section \<open>The memory windows\<close>

definition gpmc_bad :: "u32 \<Rightarrow> u16 \<Rightarrow> bool" where
  "gpmc_bad address data \<longleftrightarrow> data \<noteq> ucast ((address + 1) AND 0xFFFF)"

function gpmc_test1 :: "'h mmio \<Rightarrow> u32 \<Rightarrow> int \<Rightarrow> 'h \<Rightarrow> int \<times> 'h" where
  "gpmc_test1 mm address num_errors h =
     (if address < FPGA_CS6_BASE + 0x08000000
      then let address = (if address = 0x30000000 then FPGA_CS6_BASE else address);
               (data, h) = readw mm address h;
               num_errors = (if gpmc_bad address data then num_errors + 1 else num_errors)
           in gpmc_test1 mm (address + 2) num_errors h
      else (num_errors, h))"
  by pat_completeness auto
termination
proof (relation "measure (\<lambda>(_, a, _, _). 0x40000000 - unat a)")
  fix mm :: "'h mmio" and address :: u32 and n :: int and h :: 'h and a x h' n'
  assume "address < FPGA_CS6_BASE + 0x08000000" "a = (if address = 0x30000000 then FPGA_CS6_BASE else address)"
  then have "unat address < 0x40000000" "unat a \<ge> unat address" "unat a < 0x40000000"
    by (auto simp: word_less_nat_alt split: if_splits)
  then show "((mm, a + 2, n', h'), mm, address, n, h) \<in> measure (\<lambda>(_, a, _, _). 0x40000000 - unat a)"
    by (simp add: unat_word_ariths)
qed auto

declare gpmc_test1.simps [simp del]

fun gpmc_test2 :: "'h mmio \<Rightarrow> nat \<Rightarrow> u32 \<Rightarrow> int \<Rightarrow> 'h \<Rightarrow> int \<times> 'h" where
  "gpmc_test2 mm 0 address num_errors h = (num_errors, h)"
| "gpmc_test2 mm (Suc n) address num_errors h =
     (let (data, h) = readw mm address h;
          num_errors = (if gpmc_bad address data then num_errors + 1 else num_errors)
      in gpmc_test2 mm n (address XOR 0x00FFFFFE) num_errors h)"

text \<open>It returns 0 and prints the number of errors.\<close>

definition rhino_gpmc_test :: "'h mmio \<Rightarrow> 'h \<Rightarrow> int \<times> int \<times> 'h" where
  "rhino_gpmc_test mm h =
     (let (num_errors, h) = gpmc_test1 mm FPGA_CS1_BASE 0 h;
          (num_errors, h) = gpmc_test2 mm (64 * 1024 * 1024) 0x10AAAAAA num_errors h;
          h = writew mm 0x01 FPGA_CS2_BASE h;
          h = writew mm 0x02 FPGA_CS2_BASE h;
          h = writew mm 0x04 FPGA_CS2_BASE h;
          h = writew mm 0x08 FPGA_CS2_BASE h
      in (0, num_errors, h))"

section \<open>The FPGA is never programmed\<close>

lemma wait_init_low_keeps: "gpio_untouched mm f \<Longrightarrow> f (wait_init_low mm n h) = f h"
  by (induction n arbitrary: h) (simp_all add: Let_def case_prod_beta gpio_keeps)

lemma wait_init_high_keeps:
  assumes "gpio_untouched mm f" "wait_init_high mm h = Some h'"
  shows "f h' = f h"
proof -
  have step: "m = mm \<longrightarrow> f h' = f h"
    if "\<And>m h y. rec m h = Some y \<Longrightarrow> m = mm \<longrightarrow> f y = f h"
      and "(let (d, h) = omap_get_gpio_datain m INIT_B h in if d = 0 then rec m h else Some h) = Some h'" for rec m h h'
    using that gpio_keeps(3) [OF assms(1)] by (fastforce simp: case_prod_beta split: if_splits)
  have "mm = mm \<longrightarrow> f h' = f h"
    using step assms(2) by (rule wait_init_high.raw_induct [where P = "\<lambda>m h y. m = mm \<longrightarrow> f y = f h"])
  then show ?thesis by simp
qed

text \<open>
  C27: \<open>rhino_fpga_prog\<close> never returns when it is given a bitstream to send. It asks the driver to begin the transfer in a
  call without data, which the driver takes as nothing to do, so the channel that \<open>spi_claim_bus\<close> reset is still
  disabled when the first pair of bytes is to be sent, and a disabled channel never reports that it can take a byte.
\<close>

theorem rhino_fpga_prog_stuck:
  assumes l: "spi_law mm ds chan reply late" and s: "spi_setup_slave m 1 0 48000000 0 = Some ds"
    and g: "gpio_untouched mm chan" and r: "\<And>a h. chan (snd (readb mm a h)) = chan h"
    and a: "3 \<le> length argv" "dec_u32 (argv ! 2) \<noteq> 0"
  shows "rhino_fpga_prog m mm argv h = None"
proof (rule ccontr)
  assume "rhino_fpga_prog m mm argv h \<noteq> None"
  then obtain h0 h1 h2 h3 x where 1: "spi_claim_bus mm ds h0 = Some (x, h1)"
      "wait_init_high mm (omap_set_gpio_direction mm INIT_B 1 h1) = Some h2"
      "send_pairs mm ds (dec_u32 (argv ! 1)) (dec_u32 (argv ! 2)) 0 h2 = Some h3"
    using s a(1) by (auto simp: rhino_fpga_prog_def Let_def spi_begin_without_data split: Option.bind_split_asm)
  have c: "ds_cs ds < 4" using s by (auto simp: spi_setup_slave_def split: if_splits)
  have "\<not> s_en (chan h2)"
    using wait_init_high_keeps [OF g 1(2)] gpio_keeps(1) [OF g] spi_claim_disabled [OF l c 1(1)] by simp
  then have "spi_xfer mm ds (8 * 2) (Some [c0, c1]) 0 (snd (readb mm y (snd (readb mm z h2)))) = None" for c0 c1 y z
    by (intro spi_xfer_disabled [OF l]) (simp_all add: r)
  then have "send_pairs mm ds (dec_u32 (argv ! 1)) (dec_u32 (argv ! 2)) 0 h2 = None"
    using a(2) by (subst send_pairs.simps) (simp add: case_prod_beta word_neq_0_conv)
  then show False using 1(3) by simp
qed

section \<open>The clock is never read\<close>

lemma spi_claim_bus_0: "spi_claim_bus mm ds h = Some (r, h') \<Longrightarrow> r = 0"
  by (auto simp: spi_claim_bus_def case_prod_beta Let_def split: Option.bind_split_asm)

lemma rhino_rtc_test_stuck:
  assumes l: "spi_law mm ds chan reply late" and s: "spi_setup_slave m 0 0 40000 1 = Some ds" and a: "1 \<le> length argv"
  shows "rhino_rtc_test m mm argv h = None"
proof (rule ccontr)
  assume "rhino_rtc_test m mm argv h \<noteq> None"
  then obtain h1 h2 h3 x where 1: "spi_claim_bus mm ds h = Some (0, h1)"
      "spi_xfer mm ds 16 (Some [0x81, 0x01]) (SPI_XFER_BEGIN OR SPI_XFER_END) h1 = Some (x, h2)"
      "spi_xfer mm ds 16 (Some [0x01, 0x00]) 0 (snd h2) = Some h3"
    using s a spi_claim_bus_0 [of mm ds h]
    by (auto simp: rhino_rtc_test_def spi_begin_without_data split: Option.bind_split_asm if_splits)
  have c: "ds_cs ds < 4" using s by (auto simp: spi_setup_slave_def split: if_splits)
  have "\<not> s_en (chan (snd h2))"
    using spi_xfer_bytes [OF l c, of 2 "[0x81, 0x01]" "SPI_XFER_BEGIN OR SPI_XFER_END" h1] 1(2) by auto
  then have "spi_xfer mm ds (8 * 2) (Some [0x01, 0x00]) 0 (snd h2) = None"
    by (intro spi_xfer_disabled [OF l]) simp_all
  then show False using 1(3) by simp
qed

theorem rhino_fpga_prog_stuck_witness:
  "rhino_fpga_prog True sdemo_mmio [[103, 111], [50, 49, 53], [52, 50]] sdemo_start = None"
proof (rule rhino_fpga_prog_stuck [OF sdemo_law])
  show "spi_setup_slave True 1 0 48000000 0 = Some sdemo_ds" by (simp add: spi_setup_slave_def sdemo_ds_def)
  have w: "writel sdemo_mmio v a s = s \<and> snd (readl sdemo_mmio a s) = s"
    if "a \<notin> {0x4809A010, 0x4809A02C, 0x4809A034, 0x4809A038, 0x4809A03C}" for v a s
    using that by (simp add: sdemo_mmio_def spi_write_def spi_channel_def sdemo_ds_def)
  show "gpio_untouched sdemo_mmio (\<lambda>s. s)"
    unfolding gpio_untouched_def less_6 by (intro allI impI ballI, elim disjE insertE emptyE) (simp_all add: w gpio_bank_34xx_def)
qed (simp_all add: sdemo_mmio_def dec_u32_def)

section \<open>The test of the windows counts the wrong words\<close>

lemma cs_of_nat:
  "cs_of a \<noteq> None \<longleftrightarrow> (0x08000000 \<le> unat a \<and> unat a < 0x30000000) \<or> (0x38000000 \<le> unat a \<and> unat a < 0x40000000)"
proof -
  have "1 \<le> w \<and> w \<le> 5 \<longleftrightarrow> 0x08000000 \<le> n \<and> n < 0x30000000" if "w = n div 0x08000000" for n w :: nat
    using that div_window [of n w] by auto
  then show ?thesis by (auto simp: cs_of_div Let_def div_window)
qed

text \<open>The words of the windows from address \<open>a\<close> on that do not hold their own address plus one.\<close>

definition bad_words :: "(u32 \<Rightarrow> u16) \<Rightarrow> u32 \<Rightarrow> u32 set" where
  "bad_words f a = {x. a \<le> x \<and> even (unat x) \<and> cs_of x \<noteq> None \<and> gpmc_bad x (f x)}"

lemma bad_words_step:
  assumes "even (unat a)" "0x08000000 \<le> unat a" "unat a < 0x40000000" "unat a < 0x30000000 \<or> 0x38000000 \<le> unat a"
  shows "bad_words f a = (if gpmc_bad a (f a) then insert a (bad_words f (a + 2)) else bad_words f (a + 2))"
    "a \<notin> bad_words f (a + 2)"
proof -
  have n: "unat (a + 2) = unat a + 2" using assms(3) by (simp add: unat_word_ariths)
  have s: "a \<le> x \<and> even (unat x) \<longleftrightarrow> x = a \<or> (a + 2 \<le> x \<and> even (unat x))" for x
  proof -
    have "x = a \<longleftrightarrow> unat x = unat a" by (simp add: word_unat_eq_iff)
    moreover have "even (unat x) \<and> unat a \<le> unat x \<longleftrightarrow> even (unat x) \<and> (unat x = unat a \<or> unat a + 2 \<le> unat x)"
      using assms(1) by presburger
    ultimately show ?thesis using assms(1) by (auto simp: word_le_nat_alt n)
  qed
  have e: "bad_words f a = {x. (x = a \<or> (a + 2 \<le> x \<and> even (unat x))) \<and> cs_of x \<noteq> None \<and> gpmc_bad x (f x)}"
    unfolding s [symmetric] bad_words_def by (simp only: conj_assoc)
  have "cs_of a \<noteq> None" unfolding cs_of_nat using assms by simp
  then show "bad_words f a = (if gpmc_bad a (f a) then insert a (bad_words f (a + 2)) else bad_words f (a + 2))"
    unfolding e using assms(1) by (auto simp: bad_words_def)
  show "a \<notin> bad_words f (a + 2)" by (simp add: bad_words_def word_le_nat_alt n)
qed

lemma bad_words_gap: "bad_words f 0x30000000 = bad_words f 0x38000000"
  unfolding bad_words_def cs_of_nat by (auto simp: word_le_nat_alt)

lemma bad_words_end: "0x40000000 \<le> unat a \<Longrightarrow> bad_words f a = {}"
  unfolding bad_words_def cs_of_nat by (auto simp: word_le_nat_alt)

lemma gpmc_test1_counts:
  assumes f: "\<And>a h. fst (readw mm a h) = f a"
  shows "even (unat a) \<Longrightarrow> 0x08000000 \<le> unat a \<Longrightarrow> unat a \<le> 0x30000000 \<or> 0x38000000 \<le> unat a \<Longrightarrow>
    fst (gpmc_test1 mm a e h) = e + int (card (bad_words f a))"
proof (induction "0x40000000 - unat a" arbitrary: a e h rule: less_induct)
  case less
  show ?case
  proof (cases "unat a < 0x40000000")
    case True
    define b where "b = (if a = 0x30000000 then 0x38000000 else a)"
    have b: "even (unat b)" "0x08000000 \<le> unat b" "unat b < 0x40000000" "unat b < 0x30000000 \<or> 0x38000000 \<le> unat b"
      "unat a \<le> unat b"
      using less.prems True by (auto simp: b_def word_unat_eq_iff)
    have b6: "bad_words f a = bad_words f b" by (simp add: b_def bad_words_gap)
    have n: "unat (b + 2) = unat b + 2" using b(3) by (simp add: unat_word_ariths)
    have "even (unat b + 2)" using b(1) by simp
    moreover have "unat b + 2 \<le> 0x30000000 \<or> 0x38000000 \<le> unat b + 2" using b(1,4) by presburger
    ultimately have "fst (gpmc_test1 mm (b + 2) e' h') = e' + int (card (bad_words f (b + 2)))" for e' h'
      using less.hyps [of "b + 2" e' h'] True b by (simp add: n)
    moreover have "gpmc_test1 mm a e h = gpmc_test1 mm (b + 2) (if gpmc_bad b (f b) then e + 1 else e) (snd (readw mm b h))"
      using True by (subst gpmc_test1.simps) (simp add: word_less_nat_alt case_prod_beta f Let_def flip: b_def)
    ultimately show ?thesis
      using bad_words_step [OF b(1-4), of f] by (simp add: b6)
  next
    case False
    then show ?thesis by (subst gpmc_test1.simps) (simp add: word_less_nat_alt bad_words_end)
  qed
qed

lemma xor_back: "(a XOR c) XOR c = (a :: u32)"
  by (simp add: xor.assoc)

lemma gpmc_test2_counts:
  assumes f: "\<And>a h. fst (readw mm a h) = f a"
  shows "fst (gpmc_test2 mm (2 * k) a e h) =
    e + int k * (of_bool (gpmc_bad a (f a)) + of_bool (gpmc_bad (a XOR 0x00FFFFFE) (f (a XOR 0x00FFFFFE))))"
proof (induction k arbitrary: e h)
  case (Suc k)
  show ?case using Suc by (simp add: case_prod_beta f Let_def xor_back algebra_simps)
qed simp

lemma no_errors:
  fixes B :: "u32 set"
  assumes "p \<Longrightarrow> B \<noteq> {}" "q \<Longrightarrow> B \<noteq> {}"
  shows "int (card B) + 2 ^ 25 * (of_bool p + of_bool q) = 0 \<longleftrightarrow> B = {}"
proof (cases "B = {}")
  case True
  then show ?thesis using assms by auto
next
  case False
  then have "0 < card B" by (simp add: card_gt_0_iff)
  then show ?thesis using False by (cases p; cases q) simp_all
qed

text \<open>
  C26: on an FPGA design whose words do not change, \<open>rhino_gpmc_test\<close> returns 0 and reports no error exactly when every
  16-bit word of the six windows, those that the kernel's bus driver maps, holds the low half of its own address plus one.
  The number it reports is the number of wrong words of the windows, plus \<open>2 ^ 25\<close> for each of the two words it reads
  alternately if that word is wrong.
\<close>

theorem rhino_gpmc_test_counts:
  assumes f: "\<And>a h. fst (readw mm a h) = f a"
  shows "\<exists>n h'. rhino_gpmc_test mm h = (0, n, h') \<and>
    n = int (card {x. even (unat x) \<and> cs_of x \<noteq> None \<and> gpmc_bad x (f x)}) +
      2 ^ 25 * (of_bool (gpmc_bad 0x10AAAAAA (f 0x10AAAAAA)) + of_bool (gpmc_bad 0x10555554 (f 0x10555554))) \<and>
    (n = 0 \<longleftrightarrow> (\<forall>x. even (unat x) \<and> cs_of x \<noteq> None \<longrightarrow> f x = ucast ((x + 1) AND 0xFFFF)))"
proof -
  let ?B = "{x. even (unat x) \<and> cs_of x \<noteq> None \<and> gpmc_bad x (f x)}"
  have B: "bad_words f FPGA_CS1_BASE = ?B" unfolding bad_words_def cs_of_nat by (auto simp: word_le_nat_alt)
  obtain e1 h1 where 1: "gpmc_test1 mm FPGA_CS1_BASE 0 h = (e1, h1)" by (cases "gpmc_test1 mm FPGA_CS1_BASE 0 h")
  have e1: "e1 = int (card ?B)" using gpmc_test1_counts [OF f, of FPGA_CS1_BASE 0 h] 1 B by simp
  obtain e2 h2 where 2: "gpmc_test2 mm (2 * 0x2000000) 0x10AAAAAA e1 h1 = (e2, h2)" by (cases "gpmc_test2 mm (2 * 0x2000000) 0x10AAAAAA e1 h1")
  have x: "0x10AAAAAA XOR 0x00FFFFFE = (0x10555554 :: u32)" by simp
  let ?w = "of_bool (gpmc_bad 0x10AAAAAA (f 0x10AAAAAA)) + of_bool (gpmc_bad 0x10555554 (f 0x10555554)) :: int"
  have e2: "e2 = int (card ?B) + 2 ^ 25 * ?w"
    using gpmc_test2_counts [OF f, where k = "0x2000000" and a = "0x10AAAAAA" and e = e1 and h = h1, unfolded x] 2 e1 by simp
  have "cs_of 0x10AAAAAA \<noteq> None" "cs_of 0x10555554 \<noteq> None" unfolding cs_of_nat by simp_all
  then have "gpmc_bad 0x10AAAAAA (f 0x10AAAAAA) \<Longrightarrow> 0x10AAAAAA \<in> ?B" "gpmc_bad 0x10555554 (f 0x10555554) \<Longrightarrow> 0x10555554 \<in> ?B"
    by simp_all
  then have w: "gpmc_bad 0x10AAAAAA (f 0x10AAAAAA) \<Longrightarrow> ?B \<noteq> {}" "gpmc_bad 0x10555554 (f 0x10555554) \<Longrightarrow> ?B \<noteq> {}" by blast+
  have "e2 = 0 \<longleftrightarrow> ?B = {}" unfolding e2 by (rule no_errors [OF w])
  then have "e2 = 0 \<longleftrightarrow> (\<forall>x. even (unat x) \<and> cs_of x \<noteq> None \<longrightarrow> f x = ucast ((x + 1) AND 0xFFFF))"
    by (auto simp: gpmc_bad_def)
  moreover have "\<exists>h'. rhino_gpmc_test mm h = (0, e2, h')" using 1 2 by (simp add: rhino_gpmc_test_def Let_def)
  ultimately show ?thesis using e2 by blast
qed

text \<open>The design that every word of which holds its address plus one.\<close>

definition wdemo_mmio :: "u16 list mmio" where
  "wdemo_mmio = \<lparr>readb = \<lambda>_ h. (0, h), writeb = \<lambda>_ _ h. h, readw = \<lambda>a h. (ucast ((a + 1) AND 0xFFFF), h),
     writew = \<lambda>v _ h. h @ [v], readl = \<lambda>_ h. (0, h), writel = \<lambda>_ _ h. h\<rparr>"

theorem rhino_gpmc_test_counts_witness: "\<exists>h'. rhino_gpmc_test wdemo_mmio [] = (0, 0, h')"
proof -
  have "fst (readw wdemo_mmio a h) = ucast ((a + 1) AND 0xFFFF)" for a h by (simp add: wdemo_mmio_def)
  from rhino_gpmc_test_counts [OF this, of "[]"] show ?thesis by auto
qed

section \<open>Supplies and lights\<close>

definition level_from_arg :: "u8 list \<Rightarrow> bool \<Rightarrow> bool" where
  "level_from_arg s old = (if arg_char s = 49 then True else if arg_char s = 48 then False else old)"

lemma gpio_from_arg_pins:
  assumes "gpio_law mm gv" "0 \<le> g" "g < 192"
  shows "pin_inputs gv (gpio_from_arg mm g s h) = (pin_inputs gv h)(nat g := False)"
    "pin_levels gv (gpio_from_arg mm g s h) = (pin_levels gv h)(nat g := level_from_arg s (pin_levels gv h (nat g)))"
  using gpio_pins [OF assms] by (simp_all add: gpio_from_arg_def level_from_arg_def Let_def)

lemma rhino_leds_pins:
  assumes "gpio_law mm gv" "3 \<le> length argv"
  shows "\<exists>h'. rhino_leds mm argv h = (0, h') \<and> pin_inputs gv h' = (pin_inputs gv h)(130 := False, 131 := False) \<and>
    pin_levels gv h' = (pin_levels gv h)(130 := level_from_arg (argv ! 1) (pin_levels gv h 130),
      131 := level_from_arg (argv ! 2) (pin_levels gv h 131))"
  using assms(2) by (simp add: rhino_leds_def upt_rec gpio_from_arg_pins [OF assms(1)] numeral_2_eq_2)

text \<open>
  \<open>rhino_psu_enable\<close> makes the enable pins of the three supplies of the FPGA outputs and drives each of them as
  its argument says: high for an argument that starts with \<open>1\<close>, low for one that starts with \<open>0\<close>, and as it was for any
  other. No other pin changes. With fewer than three arguments it returns -1 and nothing changes.
\<close>

theorem rhino_psu_enable_pins:
  assumes "gpio_law mm gv"
  shows "if length argv < 4 then rhino_psu_enable mm argv h = (-1, h)
    else \<exists>h'. rhino_psu_enable mm argv h = (0, h') \<and>
      pin_inputs gv h' = (\<lambda>p. if p \<in> {99, 100, 101} then False else pin_inputs gv h p) \<and>
      pin_levels gv h' = (\<lambda>p. if p \<in> {99, 100, 101} then level_from_arg (argv ! (p - 98)) (pin_levels gv h p) else pin_levels gv h p)"
  by (auto simp: rhino_psu_enable_def upt_rec gpio_from_arg_pins [OF assms] fun_eq_iff numeral_2_eq_2 numeral_3_eq_3)

theorem rhino_psu_enable_pins_witness:
  "\<exists>h'. rhino_psu_enable gdemo_mmio [[103], [49], [48], [120]] (\<lambda>_. -1, \<lambda>_. 0) = (0, h') \<and>
    pin_levels gdemo_view h' 99 \<and> \<not> pin_levels gdemo_view h' 100 \<and> \<not> pin_inputs gdemo_view h' 101"
  using rhino_psu_enable_pins [OF gdemo_law, of "[[103], [49], [48], [120]]" "(\<lambda>_. -1, \<lambda>_. 0)"]
  by (auto simp: level_from_arg_def arg_char_def)

section \<open>The FMC cards\<close>

definition read_gpio :: "'h mmio \<Rightarrow> int \<Rightarrow> 'h \<Rightarrow> int \<times> 'h" where
  "read_gpio mm gpio h = omap_get_gpio_datain mm gpio (omap_set_gpio_direction mm gpio 1 h)"

abbreviation (input) SI_CLK_ADDR :: u8 where "SI_CLK_ADDR \<equiv> 0x5D"

text \<open>It prints the two presence signals and the old value of the divider; \<open>junk\<close> is what the variable for it holds at first.\<close>

definition rhino_fmc_control :: "'h mmio \<Rightarrow> u8 \<Rightarrow> i2c_drv \<Rightarrow> 'h \<Rightarrow> (int \<times> (int \<times> int \<times> u8) \<times> i2c_drv \<times> 'h) option" where
  "rhino_fmc_control mm junk st h = do {
     let h = fold (\<lambda>i. drive_gpio mm (102 + int i) 1) [0..<4] h;
     let h = drive_gpio mm 143 1 h;
     let h = drive_gpio mm 140 0 h;
     let h = drive_gpio mm 141 0 h;
     let h = drive_gpio mm 155 1 h;
     let h = drive_gpio mm 152 0 h;
     let (fmc0, h) = read_gpio mm 142 h;
     let (fmc1, h) = read_gpio mm 153 h;
     (_, st, h) \<leftarrow> i2c_set_bus_num mm 2 st h;
     (_, reg7, st, h) \<leftarrow> i2c_read mm SI_CLK_ADDR 7 1 [junk] st h;
     (_, st, h) \<leftarrow> i2c_write mm SI_CLK_ADDR 7 1 [0] st h;
     Some (0, (fmc0, fmc1, hd reg7), st, h) }"

section \<open>The system monitor\<close>

definition pwr_mon_addresses :: "u8 list" where
  "pwr_mon_addresses = [0x40, 0x41, 0x42, 0x43, 0x44, 0x45, 0x46, 0x47, 0x49]"

abbreviation (input) TEMP_MON_ADDR :: u8 where "TEMP_MON_ADDR \<equiv> 0x18"
abbreviation (input) FAN_CONTRLR_ADDR :: u8 where "FAN_CONTRLR_ADDR \<equiv> 0x1B"

definition volt_of :: "u8 list \<Rightarrow> int" where
  "volt_of rv = (push_bit 5 (uint (rv ! 0)) + drop_bit 3 (uint (rv ! 1))) * 4"

definition curr_of :: "u8 list \<Rightarrow> int" where
  "curr_of rv = sint (push_bit 8 (ucast (rv ! 0)) + ucast (rv ! 1) :: u16)"

text \<open>Reading a register of two bytes of every power monitor, with what is printed for each.\<close>

fun sm_monitors :: "'h mmio \<Rightarrow> u32 \<Rightarrow> (u8 list \<Rightarrow> int) \<Rightarrow> u8 list \<Rightarrow> u8 list \<Rightarrow> i2c_drv \<Rightarrow> 'h \<Rightarrow>
    (int list \<times> u8 list \<times> i2c_drv \<times> 'h) option" where
  "sm_monitors mm reg fmt [] rv st h = Some ([], rv, st, h)"
| "sm_monitors mm reg fmt (chip # chips) rv st h = do {
     (_, rv, st, h) \<leftarrow> i2c_read mm chip reg 1 rv st h;
     let v = fmt rv;
     (vs, rv, st, h) \<leftarrow> sm_monitors mm reg fmt chips rv st h;
     Some (v # vs, rv, st, h) }"

definition sm_byte :: "'h mmio \<Rightarrow> u8 \<Rightarrow> u32 \<Rightarrow> u8 list \<Rightarrow> i2c_drv \<Rightarrow> 'h \<Rightarrow> (u8 list \<times> i2c_drv \<times> 'h) option" where
  "sm_byte mm chip reg rv st h = do {
     (_, b, st, h) \<leftarrow> i2c_read mm chip reg 1 (take 1 rv) st h;
     Some (b @ drop 1 rv, st, h) }"

definition sm_step :: "'h mmio \<Rightarrow> nat \<Rightarrow> u8 list \<Rightarrow> i2c_drv \<Rightarrow> 'h \<Rightarrow> (int list \<times> u8 list \<times> i2c_drv \<times> 'h) option" where
  "sm_step mm seconds rv st h = do {
     (volts, rv, st, h) \<leftarrow> sm_monitors mm 2 volt_of pwr_mon_addresses rv st h;
     (currs, rv, st, h) \<leftarrow> sm_monitors mm 4 curr_of pwr_mon_addresses rv st h;
     (rv, st, h) \<leftarrow> sm_byte mm TEMP_MON_ADDR 1 rv st h;
     let t1 = uint (rv ! 0);
     (rv, st, h) \<leftarrow> sm_byte mm TEMP_MON_ADDR 2 rv st h;
     let t2 = uint (rv ! 0);
     (rv, st, h) \<leftarrow> sm_byte mm TEMP_MON_ADDR 3 rv st h;
     let t3 = uint (rv ! 0);
     (rv, st, h) \<leftarrow> sm_byte mm FAN_CONTRLR_ADDR 0 rv st h;
     let f1 = uint (rv ! 0) * 50;
     (rv, st, h) \<leftarrow> sm_byte mm FAN_CONTRLR_ADDR 0 rv st h;
     let f2 = uint (rv ! 0) * 50;
     let h = (if seconds = 30 then fold (\<lambda>i. drive_gpio mm (99 + int i) 1) [0..<3] h else h);
     let h = (if seconds = 3 * 60 then fold (\<lambda>i. drive_gpio mm (102 + int i) 1) [0..<4] h else h);
     (rv, st, h) \<leftarrow> (if seconds = 4 * 60
       then do {
         let rv = rv[0 := 0x14];
         (_, st, h) \<leftarrow> i2c_write mm FAN_CONTRLR_ADDR 4 1 (take 1 rv) st h;
         Some (rv, st, h) }
       else Some (rv, st, h));
     Some ([int seconds] @ volts @ currs @ [t1, t2, t3] @ [f1, f2], rv, st, h) }"

fun sm_loop :: "'h mmio \<Rightarrow> nat list \<Rightarrow> u8 list \<Rightarrow> i2c_drv \<Rightarrow> 'h \<Rightarrow> (int list list \<times> i2c_drv \<times> 'h) option" where
  "sm_loop mm [] rv st h = Some ([], st, h)"
| "sm_loop mm (seconds # rest) rv st h = do {
     (row, rv, st, h) \<leftarrow> sm_step mm seconds rv st h;
     (rows, st, h) \<leftarrow> sm_loop mm rest rv st h;
     Some (row # rows, st, h) }"

fun sm_calibrate :: "'h mmio \<Rightarrow> u8 list \<Rightarrow> i2c_drv \<Rightarrow> 'h \<Rightarrow> (i2c_drv \<times> 'h) option" where
  "sm_calibrate mm [] st h = Some (st, h)"
| "sm_calibrate mm (chip # chips) st h = do {
     (_, st, h) \<leftarrow> i2c_write mm chip 5 1 [0x20, 0x00] st h;
     sm_calibrate mm chips st h }"

text \<open>The rows it prints, one every two seconds for six minutes. Error messages are left out.\<close>

definition rhino_system_monitor :: "'h mmio \<Rightarrow> i2c_drv \<Rightarrow> 'h \<Rightarrow> (int \<times> int list list \<times> i2c_drv \<times> 'h) option" where
  "rhino_system_monitor mm st h = do {
     (_, st, h) \<leftarrow> i2c_set_bus_num mm 0 st h;
     (_, st, h) \<leftarrow> i2c_write mm FAN_CONTRLR_ADDR 4 1 [0x15] st h;
     (st, h) \<leftarrow> sm_calibrate mm pwr_mon_addresses st h;
     (rows, st, h) \<leftarrow> sm_loop mm (map (\<lambda>k. 2 * k) [0..<180]) [0x20, 0x00] st h;
     Some (0, rows, st, h) }"

section \<open>What the monitor prints\<close>

definition sm_row :: "(u8 \<Rightarrow> u8 \<Rightarrow> u8) \<Rightarrow> nat \<Rightarrow> int list" where
  "sm_row R seconds = [int seconds] @ map (\<lambda>c. volt_of [R c 2, R c 3]) pwr_mon_addresses @
     map (\<lambda>c. curr_of [R c 4, R c 5]) pwr_mon_addresses @
     [uint (R TEMP_MON_ADDR 1), uint (R TEMP_MON_ADDR 2), uint (R TEMP_MON_ADDR 3)] @
     [uint (R FAN_CONTRLR_ADDR 0) * 50, uint (R FAN_CONTRLR_ADDR 0) * 50]"

lemma sm_monitors_ok:
  assumes l: "ctl_law mm ctl late" and a: "i2c_apart mm f" and r: "unat reg + 2 \<le> 256"
  shows "length rv = 2 \<Longrightarrow> \<exists>rv' h'. sm_monitors mm reg fmt chips rv st h =
      Some (map (\<lambda>c. fmt [c_regs (ctl h) c (ucast reg), c_regs (ctl h) c (ucast reg + 1)]) chips, rv', st, h') \<and>
    length rv' = 2 \<and> c_regs (ctl h') = c_regs (ctl h) \<and> f h' = f h"
proof (induction chips arbitrary: rv h)
  case (Cons c chips)
  have n: "unat reg + length rv \<le> 256" using Cons.prems r by simp
  obtain h1 where h1: "i2c_read mm c reg 1 rv st h = Some (0, map (\<lambda>i. c_regs (ctl h) c (ucast reg + of_nat i)) [0..<length rv], st, h1)"
      "c_regs (ctl h1) = c_regs (ctl h)" "f h1 = f h"
    using i2c_read_ok [OF l a n] .
  let ?rv = "[c_regs (ctl h) c (ucast reg), c_regs (ctl h) c (ucast reg + 1)]"
  have "map (\<lambda>i. c_regs (ctl h) c (ucast reg + of_nat i)) [0..<length rv] = ?rv" using Cons.prems by (simp add: upt_rec numeral_2_eq_2)
  then show ?case using Cons.IH [of ?rv h1] h1 by auto
qed simp

lemma sm_byte_ok:
  assumes l: "ctl_law mm ctl late" and a: "i2c_apart mm f" and "unat reg + 1 \<le> 256" "length rv = 2"
  shows "\<exists>rv' h'. sm_byte mm chip reg rv st h = Some (rv', st, h') \<and> length rv' = 2 \<and> rv' ! 0 = c_regs (ctl h) chip (ucast reg) \<and>
    c_regs (ctl h') = c_regs (ctl h) \<and> f h' = f h"
proof -
  have n: "unat reg + length (take 1 rv) \<le> 256" using assms(3) by simp
  obtain h1 where "i2c_read mm chip reg 1 (take 1 rv) st h =
      Some (0, map (\<lambda>i. c_regs (ctl h) chip (ucast reg + of_nat i)) [0..<length (take 1 rv)], st, h1)"
      "c_regs (ctl h1) = c_regs (ctl h)" "f h1 = f h"
    using i2c_read_ok [OF l a n] .
  then show ?thesis using assms(4) by (auto simp: sm_byte_def upt_rec)
qed

section \<open>What the monitor does to the board\<close>

definition pins :: "'h gpio_view \<Rightarrow> 'h \<Rightarrow> (nat \<Rightarrow> bool) \<times> (nat \<Rightarrow> bool)" where
  "pins gv h = (pin_inputs gv h, pin_levels gv h)"

definition switch_on :: "nat set \<Rightarrow> (nat \<Rightarrow> bool) \<times> (nat \<Rightarrow> bool) \<Rightarrow> (nat \<Rightarrow> bool) \<times> (nat \<Rightarrow> bool)" where
  "switch_on A = (\<lambda>(i, l). (\<lambda>p. p \<notin> A \<and> i p, \<lambda>p. p \<in> A \<or> l p))"

lemma switch_on_un: "switch_on A (switch_on B x) = switch_on (A \<union> B) x" "switch_on {} x = x"
  by (auto simp: switch_on_def fun_eq_iff split: prod.split)

lemma drive_gpio_on:
  assumes "gpio_law mm gv" "0 \<le> g" "g < 192"
  shows "pins gv (drive_gpio mm g 1 h) = switch_on {nat g} (pins gv h)"
  by (simp add: pins_def switch_on_def drive_gpio_pins [OF assms] fun_eq_iff)

lemma drive_supplies:
  assumes g: "gpio_law mm gv" and c: "gpio_untouched mm ctl"
  shows "pins gv (fold (\<lambda>i. drive_gpio mm (99 + int i) 1) [0..<3] h) = switch_on {99, 100, 101} (pins gv h)"
    "pins gv (fold (\<lambda>i. drive_gpio mm (102 + int i) 1) [0..<4] h) = switch_on {102, 103, 104, 105} (pins gv h)"
    "ctl (fold (\<lambda>i. drive_gpio mm (99 + int i) 1) [0..<3] h) = ctl h"
    "ctl (fold (\<lambda>i. drive_gpio mm (102 + int i) 1) [0..<4] h) = ctl h"
  by (simp_all add: upt_rec drive_gpio_on [OF g] drive_gpio_keeps [OF c] switch_on_un insert_commute)

definition sm_supplies :: "nat \<Rightarrow> nat set" where
  "sm_supplies seconds = (if seconds = 30 then {99, 100, 101} else if seconds = 180 then {102, 103, 104, 105} else {})"

definition fans_on :: "(u8 \<Rightarrow> u8 \<Rightarrow> u8) \<Rightarrow> u8 \<Rightarrow> u8 \<Rightarrow> u8" where
  "fans_on R = R(FAN_CONTRLR_ADDR := (R FAN_CONTRLR_ADDR)(4 := 0x14))"

lemma sm_readings_ok:
  assumes l: "ctl_law mm ctl late" and a: "i2c_apart mm f" and rv: "length rv = 2" and R: "c_regs (ctl h) = R"
  obtains rv1 h1 rv2 h2 rv3 h3 rv4 h4 rv5 h5 rv6 h6 rv7 h7 where
    "sm_monitors mm 2 volt_of pwr_mon_addresses rv st h = Some (map (\<lambda>c. volt_of [R c 2, R c 3]) pwr_mon_addresses, rv1, st, h1)"
    "sm_monitors mm 4 curr_of pwr_mon_addresses rv1 st h1 = Some (map (\<lambda>c. curr_of [R c 4, R c 5]) pwr_mon_addresses, rv2, st, h2)"
    "sm_byte mm TEMP_MON_ADDR 1 rv2 st h2 = Some (rv3, st, h3)" "rv3 ! 0 = R TEMP_MON_ADDR 1"
    "sm_byte mm TEMP_MON_ADDR 2 rv3 st h3 = Some (rv4, st, h4)" "rv4 ! 0 = R TEMP_MON_ADDR 2"
    "sm_byte mm TEMP_MON_ADDR 3 rv4 st h4 = Some (rv5, st, h5)" "rv5 ! 0 = R TEMP_MON_ADDR 3"
    "sm_byte mm FAN_CONTRLR_ADDR 0 rv5 st h5 = Some (rv6, st, h6)" "rv6 ! 0 = R FAN_CONTRLR_ADDR 0"
    "sm_byte mm FAN_CONTRLR_ADDR 0 rv6 st h6 = Some (rv7, st, h7)" "rv7 ! 0 = R FAN_CONTRLR_ADDR 0"
    "length rv7 = 2" "c_regs (ctl h7) = R" "f h7 = f h"
proof -
  note byte = sm_byte_ok [OF l a, where st = st]
  obtain rv1 h1 where 1: "sm_monitors mm 2 volt_of pwr_mon_addresses rv st h = Some (map (\<lambda>c. volt_of [R c 2, R c 3]) pwr_mon_addresses, rv1, st, h1)"
      "length rv1 = 2" "c_regs (ctl h1) = R" "f h1 = f h"
    using sm_monitors_ok [OF l a, of 2 rv volt_of pwr_mon_addresses st h] rv R by auto
  obtain rv2 h2 where 2: "sm_monitors mm 4 curr_of pwr_mon_addresses rv1 st h1 = Some (map (\<lambda>c. curr_of [R c 4, R c 5]) pwr_mon_addresses, rv2, st, h2)"
      "length rv2 = 2" "c_regs (ctl h2) = R" "f h2 = f h"
    using sm_monitors_ok [OF l a, of 4 rv1 curr_of pwr_mon_addresses st h1] 1 by auto
  obtain rv3 h3 where 3: "sm_byte mm TEMP_MON_ADDR 1 rv2 st h2 = Some (rv3, st, h3)" "length rv3 = 2" "rv3 ! 0 = R TEMP_MON_ADDR 1"
      "c_regs (ctl h3) = R" "f h3 = f h"
    using byte [of 1 rv2 TEMP_MON_ADDR h2] 2 by auto
  obtain rv4 h4 where 4: "sm_byte mm TEMP_MON_ADDR 2 rv3 st h3 = Some (rv4, st, h4)" "length rv4 = 2" "rv4 ! 0 = R TEMP_MON_ADDR 2"
      "c_regs (ctl h4) = R" "f h4 = f h"
    using byte [of 2 rv3 TEMP_MON_ADDR h3] 3 by auto
  obtain rv5 h5 where 5: "sm_byte mm TEMP_MON_ADDR 3 rv4 st h4 = Some (rv5, st, h5)" "length rv5 = 2" "rv5 ! 0 = R TEMP_MON_ADDR 3"
      "c_regs (ctl h5) = R" "f h5 = f h"
    using byte [of 3 rv4 TEMP_MON_ADDR h4] 4 by auto
  obtain rv6 h6 where 6: "sm_byte mm FAN_CONTRLR_ADDR 0 rv5 st h5 = Some (rv6, st, h6)" "length rv6 = 2" "rv6 ! 0 = R FAN_CONTRLR_ADDR 0"
      "c_regs (ctl h6) = R" "f h6 = f h"
    using byte [of 0 rv5 FAN_CONTRLR_ADDR h5] 5 by auto
  obtain rv7 h7 where 7: "sm_byte mm FAN_CONTRLR_ADDR 0 rv6 st h6 = Some (rv7, st, h7)" "length rv7 = 2" "rv7 ! 0 = R FAN_CONTRLR_ADDR 0"
      "c_regs (ctl h7) = R" "f h7 = f h"
    using byte [of 0 rv6 FAN_CONTRLR_ADDR h6] 6 by auto
  show ?thesis by (rule that [OF 1(1) 2(1) 3(1,3) 4(1,3) 5(1,3) 6(1,3) 7(1,3,2,4,5)])
qed

lemma sm_step_ok:
  assumes l: "ctl_law mm ctl late" and a: "i2c_apart mm (pins gv)" and g: "gpio_law mm gv" and c: "gpio_untouched mm ctl"
    and rv: "length rv = 2"
  shows "\<exists>rv' h'. sm_step mm seconds rv st h = Some (sm_row (c_regs (ctl h)) seconds, rv', st, h') \<and> length rv' = 2 \<and>
    c_regs (ctl h') = (if seconds = 240 then fans_on (c_regs (ctl h)) else c_regs (ctl h)) \<and>
    pins gv h' = switch_on (sm_supplies seconds) (pins gv h)"
proof -
  define R where "R = c_regs (ctl h)"
  obtain rv1 h1 rv2 h2 rv3 h3 rv4 h4 rv5 h5 rv6 h6 rv7 h7 where r:
    "sm_monitors mm 2 volt_of pwr_mon_addresses rv st h = Some (map (\<lambda>c. volt_of [R c 2, R c 3]) pwr_mon_addresses, rv1, st, h1)"
    "sm_monitors mm 4 curr_of pwr_mon_addresses rv1 st h1 = Some (map (\<lambda>c. curr_of [R c 4, R c 5]) pwr_mon_addresses, rv2, st, h2)"
    "sm_byte mm TEMP_MON_ADDR 1 rv2 st h2 = Some (rv3, st, h3)" "rv3 ! 0 = R TEMP_MON_ADDR 1"
    "sm_byte mm TEMP_MON_ADDR 2 rv3 st h3 = Some (rv4, st, h4)" "rv4 ! 0 = R TEMP_MON_ADDR 2"
    "sm_byte mm TEMP_MON_ADDR 3 rv4 st h4 = Some (rv5, st, h5)" "rv5 ! 0 = R TEMP_MON_ADDR 3"
    "sm_byte mm FAN_CONTRLR_ADDR 0 rv5 st h5 = Some (rv6, st, h6)" "rv6 ! 0 = R FAN_CONTRLR_ADDR 0"
    "sm_byte mm FAN_CONTRLR_ADDR 0 rv6 st h6 = Some (rv7, st, h7)" "rv7 ! 0 = R FAN_CONTRLR_ADDR 0"
    "length rv7 = 2" "c_regs (ctl h7) = R" "pins gv h7 = pins gv h"
    using sm_readings_ok [OF l a rv R_def [symmetric]] .
  define h8 where "h8 = (if seconds = 30 then fold (\<lambda>i. drive_gpio mm (99 + int i) 1) [0..<3] h7 else h7)"
  define h9 where "h9 = (if seconds = 3 * 60 then fold (\<lambda>i. drive_gpio mm (102 + int i) 1) [0..<4] h8 else h8)"
  have h9: "c_regs (ctl h9) = R" "pins gv h9 = switch_on (sm_supplies seconds) (pins gv h)"
    by (simp_all add: h9_def h8_def sm_supplies_def drive_supplies [OF g c] r(14,15) switch_on_un)
  obtain h10 where h10: "i2c_write mm FAN_CONTRLR_ADDR 4 1 [0x14] st h9 = Some (0, st, h10)"
      "c_regs (ctl h10) = (c_regs (ctl h9))(FAN_CONTRLR_ADDR := stored (ucast (4 :: u32)) [0x14] (c_regs (ctl h9) FAN_CONTRLR_ADDR))"
      "pins gv h10 = pins gv h9"
    by (rule i2c_write_ok [OF l a, of 4 "[0x14]" FAN_CONTRLR_ADDR st h9]) simp_all
  have t: "take 1 (rv7[0 := 0x14]) = [0x14]" using r(13) by (cases rv7) auto
  let ?h = "if seconds = 240 then h10 else h9" and ?rv = "if seconds = 240 then rv7[0 := 0x14] else rv7"
  have "sm_step mm seconds rv st h = Some (sm_row R seconds, ?rv, st, ?h)"
  proof (cases "seconds = 240")
    case True
    then have "h9 = h7" by (simp add: h9_def h8_def)
    then show ?thesis using True h10(1) t by (simp add: sm_step_def r(1-12) sm_row_def)
  next
    case False
    then show ?thesis by (simp add: sm_step_def r(1-12) sm_row_def h9_def h8_def)
  qed
  moreover have "c_regs (ctl ?h) = (if seconds = 240 then fans_on R else R)" using h9(1) h10(2) by (simp add: fans_on_def)
  ultimately show ?thesis using h9(2) h10(3) r(13) by (auto simp: R_def)
qed

lemma sm_row_fans: "sm_row (fans_on R) = sm_row R"
  by (auto simp: sm_row_def fans_on_def pwr_mon_addresses_def fun_eq_iff)

lemma fans_on_twice: "fans_on (fans_on R) = fans_on R"
  by (simp add: fans_on_def)

lemma sm_loop_ok:
  assumes l: "ctl_law mm ctl late" "i2c_apart mm (pins gv)" "gpio_law mm gv" "gpio_untouched mm ctl"
  shows "length rv = 2 \<Longrightarrow> \<exists>h'. sm_loop mm ss rv st h = Some (map (sm_row (c_regs (ctl h))) ss, st, h') \<and>
    c_regs (ctl h') = (if 240 \<in> set ss then fans_on (c_regs (ctl h)) else c_regs (ctl h)) \<and>
    pins gv h' = switch_on (\<Union> (sm_supplies ` set ss)) (pins gv h)"
proof (induction ss arbitrary: rv h)
  case (Cons s ss)
  obtain rv1 h1 where 1: "sm_step mm s rv st h = Some (sm_row (c_regs (ctl h)) s, rv1, st, h1)" "length rv1 = 2"
      "c_regs (ctl h1) = (if s = 240 then fans_on (c_regs (ctl h)) else c_regs (ctl h))"
      "pins gv h1 = switch_on (sm_supplies s) (pins gv h)"
    using sm_step_ok [OF l Cons.prems] by blast
  obtain h2 where 2: "sm_loop mm ss rv1 st h1 = Some (map (sm_row (c_regs (ctl h1))) ss, st, h2)"
      "c_regs (ctl h2) = (if 240 \<in> set ss then fans_on (c_regs (ctl h1)) else c_regs (ctl h1))"
      "pins gv h2 = switch_on (\<Union> (sm_supplies ` set ss)) (pins gv h1)"
    using Cons.IH [OF 1(2)] by blast
  have "sm_row (c_regs (ctl h1)) = sm_row (c_regs (ctl h))" by (simp add: 1(3) sm_row_fans)
  then have "sm_loop mm (s # ss) rv st h = Some (map (sm_row (c_regs (ctl h))) (s # ss), st, h2)" using 1(1) 2(1) by simp
  moreover have "c_regs (ctl h2) = (if 240 \<in> set (s # ss) then fans_on (c_regs (ctl h)) else c_regs (ctl h))"
    by (simp add: 2(2) 1(3) fans_on_twice)
  moreover have "pins gv h2 = switch_on (\<Union> (sm_supplies ` set (s # ss))) (pins gv h)"
    by (simp add: 2(3) 1(4) switch_on_un Un_commute)
  ultimately show ?case by blast
qed (simp add: switch_on_un)

definition calibrated :: "u8 set \<Rightarrow> (u8 \<Rightarrow> u8 \<Rightarrow> u8) \<Rightarrow> u8 \<Rightarrow> u8 \<Rightarrow> u8" where
  "calibrated C R = (\<lambda>c r. if c \<in> C then if r = 5 then 0x20 else if r = 6 then 0 else R c r else R c r)"

lemma sm_calibrate_ok:
  assumes l: "ctl_law mm ctl late" "i2c_apart mm f"
  shows "\<exists>h'. sm_calibrate mm chips st h = Some (st, h') \<and> c_regs (ctl h') = calibrated (set chips) (c_regs (ctl h)) \<and> f h' = f h"
proof (induction chips arbitrary: h)
  case (Cons c chips)
  obtain h1 where 1: "i2c_write mm c 5 1 [0x20, 0x00] st h = Some (0, st, h1)"
      "c_regs (ctl h1) = (c_regs (ctl h))(c := stored (ucast (5 :: u32)) [0x20, 0x00] (c_regs (ctl h) c))" "f h1 = f h"
    by (rule i2c_write_ok [OF l, of 5 "[0x20, 0x00]" c st h]) simp_all
  obtain h2 where 2: "sm_calibrate mm chips st h1 = Some (st, h2)" "c_regs (ctl h2) = calibrated (set chips) (c_regs (ctl h1))" "f h2 = f h1"
    using Cons.IH by blast
  have "calibrated (set chips) (c_regs (ctl h1)) = calibrated (set (c # chips)) (c_regs (ctl h))"
    by (auto simp: calibrated_def 1(2) fun_eq_iff)
  then have "c_regs (ctl h2) = calibrated (set (c # chips)) (c_regs (ctl h))" by (simp only: 2(2))
  moreover have "sm_calibrate mm (c # chips) st h = Some (st, h2)" using 1(1) 2(1) by simp
  ultimately show ?case using 1(3) 2(3) by (intro exI [of _ h2]) simp
qed (simp add: calibrated_def)

lemma sm_supplies_all: "\<Union> (sm_supplies ` set (map (\<lambda>k. 2 * k) [0..<180])) = {99, 100, 101, 102, 103, 104, 105}"
proof -
  have "30 \<in> set (map (\<lambda>k. 2 * k) [0..<180])" "180 \<in> set (map (\<lambda>k. 2 * k) [0..<180])"
    by (auto intro!: image_eqI [of _ _ 15] image_eqI [of _ _ 90])
  moreover have "\<Union> (sm_supplies ` S) = (if 30 \<in> S then {99, 100, 101} else {}) \<union> (if 180 \<in> S then {102, 103, 104, 105} else {})" for S
    by (auto simp: sm_supplies_def split: if_splits)
  ultimately show ?thesis by (simp only: if_True) auto
qed


section \<open>What the FMC program does\<close>

lemma read_gpio_ok:
  assumes "gpio_law mm gv" "gpio_untouched mm ctl" "0 \<le> g" "g < 192"
  shows "pin_inputs gv (snd (read_gpio mm g h)) = (pin_inputs gv h)(nat g := True)" "pin_levels gv (snd (read_gpio mm g h)) = pin_levels gv h"
    "ctl (snd (read_gpio mm g h)) = ctl h"
  using gpio_pins [OF assms(1,3,4)] gpio_keeps [OF assms(2)] by (simp_all add: read_gpio_def)

text \<open>
  \<open>rhino_fmc_control\<close> switches on the four supplies of the FMC cards, drives their power-good signal and address pins and
  makes the two presence pins inputs; no other pin changes. It returns 0 and has set register 7 of the chip at
  address \<open>0x5D\<close> to 0, having shown the value it had. It is the chip on the first bus, although the program
  selects the third one.
\<close>

theorem rhino_fmc_control_effect:
  assumes l: "ctl_law mm ctl late" and a: "i2c_apart mm (pins gv)" and g: "gpio_law mm gv" and c: "gpio_untouched mm ctl"
  shows "\<exists>p0 p1 st' h'. rhino_fmc_control mm junk st h = Some (0, (p0, p1, c_regs (ctl h) SI_CLK_ADDR 7), st', h') \<and>
    c_regs (ctl h') = (c_regs (ctl h))(SI_CLK_ADDR := (c_regs (ctl h) SI_CLK_ADDR)(7 := 0)) \<and>
    pin_inputs gv h' = (\<lambda>p. p \<in> {142, 153} \<or> p \<notin> {102, 103, 104, 105, 143, 140, 141, 155, 152} \<and> pin_inputs gv h p) \<and>
    pin_levels gv h' = (\<lambda>p. p \<in> {102, 103, 104, 105, 143, 155} \<or> p \<notin> {140, 141, 152} \<and> pin_levels gv h p)"
proof -
  define h1 where "h1 = drive_gpio mm 152 0 (drive_gpio mm 155 1 (drive_gpio mm 141 0 (drive_gpio mm 140 0 (drive_gpio mm 143 1
    (fold (\<lambda>i. drive_gpio mm (102 + int i) 1) [0..<4] h)))))"
  define h2 where "h2 = snd (read_gpio mm 153 (snd (read_gpio mm 142 h1)))"
  have f: "pin_inputs gv (fold (\<lambda>i. drive_gpio mm (102 + int i) 1) [0..<4] h) = fst (switch_on {102, 103, 104, 105} (pins gv h))"
    "pin_levels gv (fold (\<lambda>i. drive_gpio mm (102 + int i) 1) [0..<4] h) = snd (switch_on {102, 103, 104, 105} (pins gv h))"
    using drive_supplies(2) [OF g c, of h] by (metis fst_conv snd_conv pins_def)+
  have h2: "ctl h2 = ctl h"
    "pin_inputs gv h2 = (\<lambda>p. p \<in> {142, 153} \<or> p \<notin> {102, 103, 104, 105, 143, 140, 141, 155, 152} \<and> pin_inputs gv h p)"
    "pin_levels gv h2 = (\<lambda>p. p \<in> {102, 103, 104, 105, 143, 155} \<or> p \<notin> {140, 141, 152} \<and> pin_levels gv h p)"
    by (auto simp: h2_def h1_def read_gpio_ok [OF g c] drive_gpio_pins [OF g] drive_gpio_keeps [OF c] drive_supplies [OF g c] f
        switch_on_def pins_def fun_eq_iff)
  obtain st3 h3 where 3: "i2c_set_bus_num mm 2 st h2 = Some (0, st3, h3)" "c_regs (ctl h3) = c_regs (ctl h2)" "pins gv h3 = pins gv h2"
    by (rule i2c_set_bus_ok [OF l a, of 2 st h2]) simp_all
  obtain h4 where 4: "i2c_read mm SI_CLK_ADDR 7 1 [junk] st3 h3 = Some (0, map (\<lambda>i. c_regs (ctl h3) SI_CLK_ADDR (ucast (7 :: u32) + of_nat i)) [0..<length [junk]], st3, h4)"
      "c_regs (ctl h4) = c_regs (ctl h3)" "pins gv h4 = pins gv h3"
    by (rule i2c_read_ok [OF l a, of 7 "[junk]" SI_CLK_ADDR st3 h3]) simp_all
  obtain h5 where 5: "i2c_write mm SI_CLK_ADDR 7 1 [0] st3 h4 = Some (0, st3, h5)"
      "c_regs (ctl h5) = (c_regs (ctl h4))(SI_CLK_ADDR := stored (ucast (7 :: u32)) [0] (c_regs (ctl h4) SI_CLK_ADDR))" "pins gv h5 = pins gv h4"
    by (rule i2c_write_ok [OF l a, of 7 "[0]" SI_CLK_ADDR st3 h4]) simp_all
  have e: "rhino_fmc_control mm junk st h = Some (0, (fst (read_gpio mm 142 h1), fst (read_gpio mm 153 (snd (read_gpio mm 142 h1))),
      c_regs (ctl h) SI_CLK_ADDR 7), st3, h5)"
    using 3(1) 4(1) 5(1) h2(1) 3(2) unfolding rhino_fmc_control_def h1_def [symmetric] Let_def
    by (simp add: case_prod_beta flip: h1_def h2_def)
  have p: "pin_inputs gv h5 = pin_inputs gv h2" "pin_levels gv h5 = pin_levels gv h2"
    using 3(3) 4(3) 5(3) by (simp_all add: pins_def)
  have r: "c_regs (ctl h5) = (c_regs (ctl h))(SI_CLK_ADDR := (c_regs (ctl h) SI_CLK_ADDR)(7 := 0))"
    by (simp add: 5(2) 4(2) 3(2) h2(1))
  show ?thesis
    by (intro exI conjI) (rule e, rule r, rule p(1) [unfolded h2(2)], rule p(2) [unfolded h2(3)])
qed

text \<open>The pins and the bus controller of the demonstrations, side by side.\<close>

definition mdemo_mmio :: "(gdemo \<times> i2c_ctl \<times> nat) mmio" where
  "mdemo_mmio = \<lparr>readb = \<lambda>a (g, c). (fst (readb idemo_mmio a c), (g, snd (readb idemo_mmio a c))),
     writeb = \<lambda>x a (g, c). (g, writeb idemo_mmio x a c),
     readw = \<lambda>a (g, c). (fst (readw idemo_mmio a c), (g, snd (readw idemo_mmio a c))),
     writew = \<lambda>x a (g, c). (g, writew idemo_mmio x a c),
     readl = \<lambda>a (g, c). (fst (readl gdemo_mmio a g), (snd (readl gdemo_mmio a g), c)),
     writel = \<lambda>v a (g, c). (writel gdemo_mmio v a g, c)\<rparr>"

definition mdemo_view :: "(gdemo \<times> i2c_ctl \<times> nat) gpio_view" where
  "mdemo_view = \<lparr>oe = oe gdemo_view \<circ> fst, dataout = dataout gdemo_view \<circ> fst, datain = datain gdemo_view \<circ> fst\<rparr>"

definition mdemo_start :: "gdemo \<times> i2c_ctl \<times> nat" where
  "mdemo_start = ((\<lambda>_. -1, \<lambda>_. 0), idemo_start)"

lemma mdemo_laws: "ctl_law mdemo_mmio (fst \<circ> snd) (snd \<circ> snd)" "i2c_apart mdemo_mmio (pins mdemo_view)"
  "gpio_law mdemo_mmio mdemo_view" "gpio_untouched mdemo_mmio (fst \<circ> snd)"
proof -
  show "ctl_law mdemo_mmio (fst \<circ> snd) (snd \<circ> snd)" using idemo_law by (auto simp: ctl_law_def mdemo_mmio_def)
  show "gpio_law mdemo_mmio mdemo_view" using gdemo_law by (auto simp: gpio_law_def mdemo_mmio_def mdemo_view_def split: option.splits)
  show "i2c_apart mdemo_mmio (pins mdemo_view)"
    by (auto simp: i2c_apart_def mdemo_mmio_def mdemo_view_def pins_def pin_inputs_def pin_levels_def fun_eq_iff)
  show "gpio_untouched mdemo_mmio (fst \<circ> snd)" by (auto simp: gpio_untouched_def mdemo_mmio_def)
qed

theorem rhino_fmc_control_effect_witness:
  "\<exists>p0 p1 st' h'. rhino_fmc_control mdemo_mmio 9 i2c_drv_start mdemo_start = Some (0, (p0, p1, 0), st', h') \<and> pin_levels mdemo_view h' 143"
  using rhino_fmc_control_effect [OF mdemo_laws, of 9 i2c_drv_start mdemo_start]
  by (auto simp: mdemo_start_def idemo_start_def)


end
